(* ===== verification/Prelude.thy ===== *)
theory Prelude
  imports Main "HOL-Library.Word" "HOL-Library.List_Lexorder"
begin

text \<open>
  What every component of the development shares: the result type of a computation that may
  throw, the ordered key-value store that stands for a Durable Object's storage (one sorted
  association list per key prefix), and the lemmas on lists and stores that the component
  proofs rest on. Nothing here speaks of the program.
\<close>

named_theorems store_simps \<open>reading a store after a write\<close>
named_theorems result_simps \<open>when a computation returns normally\<close>


section \<open>Computations that may throw\<close>

text \<open>\<open>Inl\<close> carries the thrown error, \<open>Inr\<close> the returned value.\<close>

definition rbind :: "'e + 'a \<Rightarrow> ('a \<Rightarrow> 'e + 'b) \<Rightarrow> 'e + 'b" where
  "rbind m f = (case m of Inl e \<Rightarrow> Inl e | Inr a \<Rightarrow> f a)"

definition guard_or :: "bool \<Rightarrow> 'e \<Rightarrow> 'e + unit" where
  "guard_or b e = (if b then Inr () else Inl e)"

lemma rbind_simps [simp]:
  "rbind (Inl e) f = Inl e"
  "rbind (Inr a) f = f a"
  by (simp_all add: rbind_def)

lemma rbind_Inr_iff [result_simps]:
  "rbind m f = Inr b \<longleftrightarrow> (\<exists>a. m = Inr a \<and> f a = Inr b)"
  by (cases m) auto

lemma rbind_Inl_iff [result_simps]:
  "rbind m f = Inl e \<longleftrightarrow> m = Inl e \<or> (\<exists>a. m = Inr a \<and> f a = Inl e)"
  by (cases m) auto

lemma guard_or_Inr_iff [result_simps]: "guard_or b e = Inr u \<longleftrightarrow> b"
  by (simp add: guard_or_def)

lemma guard_or_Inl_iff [result_simps]: "guard_or b e = Inl e' \<longleftrightarrow> \<not> b \<and> e' = e"
  by (auto simp: guard_or_def)

lemma guard_or_simps [simp]:
  "guard_or True e = Inr ()"
  "guard_or False e = Inl e"
  by (simp_all add: guard_or_def)


section \<open>Lists\<close>

definition of_option :: "'a option \<Rightarrow> 'a list" where
  "of_option x = (case x of None \<Rightarrow> [] | Some a \<Rightarrow> [a])"

lemma of_option_simps [simp]:
  "of_option None = []"
  "of_option (Some a) = [a]"
  by (simp_all add: of_option_def)

text \<open>The value of the minimum of the optional values, as the alarm code computes it.\<close>

definition opt_min :: "int option \<Rightarrow> int \<Rightarrow> int option" where
  "opt_min acc x = Some (case acc of None \<Rightarrow> x | Some y \<Rightarrow> min y x)"

lemma opt_min_le: "opt_min acc x = Some y \<Longrightarrow> y \<le> x"
  by (auto simp: opt_min_def split: option.splits)

lemma takeWhile_neq_append_Cons:
  "x \<notin> set xs \<Longrightarrow> takeWhile (\<lambda>y. y \<noteq> x) (xs @ x # ys) = xs"
  by (induction xs) auto

lemma append_sep_inj:
  assumes "x \<notin> set xs" "x \<notin> set xs'" "xs @ x # ys = xs' @ x # ys'"
  shows "xs = xs' \<and> ys = ys'"
  using assms
proof (induction xs arbitrary: xs')
  case Nil
  then show ?case by (cases xs') auto
next
  case (Cons a xs)
  then show ?case by (cases xs') auto
qed

lemma append_sep_inj_last:
  assumes "x \<notin> set ys" "x \<notin> set ys'" "xs @ x # ys = xs' @ x # ys'"
  shows "xs = xs' \<and> ys = ys'"
proof -
  have "rev ys @ x # rev xs = rev ys' @ x # rev xs'"
    using arg_cong [OF assms(3), of rev] by simp
  then show ?thesis
    using append_sep_inj [of x "rev ys" "rev ys'" "rev xs" "rev xs'"] assms(1,2) by auto
qed

lemma append_same_length_less:
  fixes p :: "'a::linorder list"
  shows "p @ xs < p @ ys \<longleftrightarrow> xs < ys"
  by (induction p) auto


section \<open>Ordered key-value stores\<close>

text \<open>
  A Durable Object's storage maps string keys to values and lists a prefix in key order.
  \<open>ordered_store\<close> states that contract; the lemmas of the locale are all that a client
  of the storage uses.
\<close>

locale ordered_store =
  fixes get :: "'s \<Rightarrow> 'k::linorder \<Rightarrow> 'v option"
    and put :: "'k \<Rightarrow> 'v \<Rightarrow> 's \<Rightarrow> 's"
    and del :: "'k \<Rightarrow> 's \<Rightarrow> 's"
    and listing :: "'s \<Rightarrow> ('k \<times> 'v) list"
    and ok :: "'s \<Rightarrow> bool"
  assumes get_put: "get (put k v s) k' = (if k' = k then Some v else get s k')"
    and get_del: "get (del k s) k' = (if k' = k then None else get s k')"
    and ok_put: "ok s \<Longrightarrow> ok (put k v s)"
    and ok_del: "ok s \<Longrightarrow> ok (del k s)"
    and listing_get: "ok s \<Longrightarrow> (k, v) \<in> set (listing s) \<longleftrightarrow> get s k = Some v"
    and listing_sorted: "ok s \<Longrightarrow> sorted_wrt (<) (map fst (listing s))"
begin

lemma get_put_same: "get (put k v s) k = Some v"
  by (simp add: get_put)

lemma get_put_other: "k' \<noteq> k \<Longrightarrow> get (put k v s) k' = get s k'"
  by (simp add: get_put)

lemma get_del_same: "get (del k s) k = None"
  by (simp add: get_del)

lemma get_del_other: "k' \<noteq> k \<Longrightarrow> get (del k s) k' = get s k'"
  by (simp add: get_del)

lemma get_fold_del: "get (fold del ks s) k = (if k \<in> set ks then None else get s k)"
  by (induction ks arbitrary: s) (auto simp: get_del)

lemma ok_fold_del: "ok s \<Longrightarrow> ok (fold del ks s)"
  by (induction ks arbitrary: s) (auto simp: ok_del)

lemma listing_distinct: "ok s \<Longrightarrow> distinct (map fst (listing s))"
  using listing_sorted strict_sorted_iff by blast

lemma listing_put_mem:
  "ok s \<Longrightarrow> (k', v') \<in> set (listing (put k v s)) \<longleftrightarrow>
     (if k' = k then v' = v else (k', v') \<in> set (listing s))"
  by (auto simp: listing_get ok_put get_put)

lemma listing_del_mem:
  "ok s \<Longrightarrow> (k', v') \<in> set (listing (del k s)) \<longleftrightarrow> k' \<noteq> k \<and> (k', v') \<in> set (listing s)"
  by (auto simp: listing_get ok_del get_del)

end

text \<open>The store of the model: an association list kept in ascending key order.\<close>

type_synonym ('k, 'v) store = "('k \<times> 'v) list"

abbreviation kv_get :: "('k, 'v) store \<Rightarrow> 'k \<Rightarrow> 'v option" where
  "kv_get \<equiv> map_of"

fun kv_put :: "'k::linorder \<Rightarrow> 'v \<Rightarrow> ('k, 'v) store \<Rightarrow> ('k, 'v) store" where
  "kv_put k v [] = [(k, v)]"
| "kv_put k v ((a, b) # s) =
     (if k < a then (k, v) # (a, b) # s
      else if k = a then (k, v) # s
      else (a, b) # kv_put k v s)"

definition kv_del :: "'k \<Rightarrow> ('k, 'v) store \<Rightarrow> ('k, 'v) store" where
  "kv_del k s = filter (\<lambda>p. fst p \<noteq> k) s"

definition kv_ok :: "('k::linorder, 'v) store \<Rightarrow> bool" where
  "kv_ok s \<longleftrightarrow> sorted_wrt (<) (map fst s)"

lemma kv_get_put [store_simps]:
  "kv_get (kv_put k v s) k' = (if k' = k then Some v else kv_get s k')"
  by (induction k v s rule: kv_put.induct) auto

lemma kv_get_del [store_simps]:
  "kv_get (kv_del k s) k' = (if k' = k then None else kv_get s k')"
  unfolding kv_del_def by (induction s) auto

lemma set_kv_put_subset: "set (kv_put k v s) \<subseteq> insert (k, v) (set s)"
  by (induction k v s rule: kv_put.induct) auto

lemma fst_set_kv_put: "fst ` set (kv_put k v s) = insert k (fst ` set s)"
  by (induction k v s rule: kv_put.induct) auto

lemma kv_ok_Nil [simp]: "kv_ok []"
  by (simp add: kv_ok_def)

lemma kv_ok_put [simp]: "kv_ok s \<Longrightarrow> kv_ok (kv_put k v s)"
  unfolding kv_ok_def
proof (induction k v s rule: kv_put.induct)
  case (2 k v a b s)
  have "x \<in> fst ` set (kv_put k v s) \<Longrightarrow> a < x" if "\<not> k < a" "k \<noteq> a" for x
    using 2 that by (auto simp: fst_set_kv_put)
  with 2 show ?case by (auto; metis less_trans)
qed simp

lemma kv_ok_del [simp]: "kv_ok s \<Longrightarrow> kv_ok (kv_del k s)"
  unfolding kv_ok_def kv_del_def
  by (induction s) (auto simp: image_iff)

lemma kv_ok_distinct: "kv_ok s \<Longrightarrow> distinct (map fst s)"
  unfolding kv_ok_def using strict_sorted_iff by blast

lemma kv_ok_mem_iff: "kv_ok s \<Longrightarrow> (k, v) \<in> set s \<longleftrightarrow> kv_get s k = Some v"
  by (simp add: kv_ok_distinct)

interpretation kv: ordered_store kv_get kv_put kv_del "\<lambda>s. s" kv_ok
proof unfold_locales
  fix s :: "('k::linorder, 'v) store" and k v
  assume "kv_ok s"
  then show "(k, v) \<in> set s \<longleftrightarrow> kv_get s k = Some v" by (rule kv_ok_mem_iff)
qed (auto simp: store_simps kv_ok_def [symmetric])

lemma length_kv_put:
  "length (kv_put k v s) = (if k \<in> fst ` set s then length s else Suc (length s))"
  if "kv_ok s"
  using that unfolding kv_ok_def
  by (induction k v s rule: kv_put.induct) force+



section \<open>Codecs\<close>

text \<open>
  What a printer and a parser promise each other. An encoding gives every valid value back; the
  parser of a codec moreover accepts the printed forms of valid values only.
\<close>

locale encoding =
  fixes valid :: "'a \<Rightarrow> bool" and enc :: "'a \<Rightarrow> 'b" and dec :: "'b \<Rightarrow> 'a option"
  assumes dec_enc: "valid a \<Longrightarrow> dec (enc a) = Some a"
begin

lemma enc_inj: "valid a \<Longrightarrow> valid a' \<Longrightarrow> enc a = enc a' \<Longrightarrow> a = a'"
  by (metis dec_enc option.inject)

text \<open>An encoding on top of this one.\<close>

lemma dec_enc_after:
  assumes "valid' b \<Longrightarrow> valid (enc' b) \<and> dec' (enc' b) = Some b" and "valid' b"
  shows "Option.bind (dec (enc (enc' b))) dec' = Some b"
  using assms dec_enc by simp

end

locale codec = encoding +
  assumes enc_dec: "dec b = Some a \<Longrightarrow> valid a \<and> enc a = b"
begin

lemma dec_iff: "dec b = Some a \<longleftrightarrow> valid a \<and> enc a = b"
  using dec_enc enc_dec by blast

lemma dec_inj: "dec b = Some a \<Longrightarrow> dec b' = Some a \<Longrightarrow> b = b'"
  by (metis enc_dec)

lemma dec_rejects: "dec b = None \<longleftrightarrow> (\<forall>a. valid a \<longrightarrow> enc a \<noteq> b)"
proof (cases "dec b")
  case None
  then show ?thesis using dec_enc by fastforce
next
  case (Some a)
  then show ?thesis using enc_dec [OF Some] by auto
qed

end

end
