(* ===== verification/Js_Text.thy ===== *)
theory Js_Text
  imports Prelude
begin

text \<open>
  JavaScript strings and the parts of the language's string library the program uses. A string
  is its sequence of UTF-16 code units (\<open>16 word\<close>): \<open>.length\<close> counts units, \<open>Array.from\<close>
  counts code points (\<open>runes\<close>), and \<open>TextEncoder\<close> counts UTF-8 bytes (\<open>utf8_length\<close>).
  String order is the order of the unit sequences. ASCII literals are written \<open>js ''...''\<close>.
\<close>

type_synonym unit16 = "16 word"
type_synonym jstr = "unit16 list"

definition js :: "string \<Rightarrow> jstr" where
  "js s = map of_char s"

lemma js_simps [simp]:
  "js [] = []"
  "js (c # cs) = of_char c # js cs"
  by (simp_all add: js_def)

text \<open>Literals are compared as HOL strings, which the simplifier decides character by character.\<close>

lemma of_char_unit16: "(of_char c :: unit16) = of_char d \<longleftrightarrow> c = d"
proof -
  have "unat (of_char x :: unit16) = of_char x" for x
    unfolding of_nat_of_char [symmetric, where 'a = unit16] unsigned_of_nat
    by (simp add: take_bit_nat_eq_self_iff less_trans [OF nat_of_char_less_256])
  then show ?thesis by (metis of_char_eq_iff)
qed

lemma js_inj: "js s = js t \<longleftrightarrow> s = t"
proof (induction s arbitrary: t)
  case Nil
  then show ?case by (cases t) simp_all
next
  case (Cons c s)
  then show ?case by (cases t) (simp_all add: of_char_unit16)
qed

lemma js_append: "js (s @ t) = js s @ js t"
  by (simp add: js_def)

abbreviation COLON :: unit16 where "COLON \<equiv> 58"
abbreviation SLASH :: unit16 where "SLASH \<equiv> 47"
abbreviation HASH :: unit16 where "HASH \<equiv> 35"
abbreviation AT :: unit16 where "AT \<equiv> 64"
abbreviation DASH :: unit16 where "DASH \<equiv> 45"
abbreviation DOT :: unit16 where "DOT \<equiv> 46"
abbreviation SPACE :: unit16 where "SPACE \<equiv> 32"
abbreviation NEWLINE :: unit16 where "NEWLINE \<equiv> 10"
abbreviation LESS :: unit16 where "LESS \<equiv> 60"
abbreviation GREATER :: unit16 where "GREATER \<equiv> 62"
abbreviation QUOTE :: unit16 where "QUOTE \<equiv> 34"
abbreviation AMP :: unit16 where "AMP \<equiv> 38"

definition is_lower :: "unit16 \<Rightarrow> bool" where "is_lower c \<longleftrightarrow> 97 \<le> c \<and> c \<le> 122"
definition is_upper :: "unit16 \<Rightarrow> bool" where "is_upper c \<longleftrightarrow> 65 \<le> c \<and> c \<le> 90"
definition is_digit :: "unit16 \<Rightarrow> bool" where "is_digit c \<longleftrightarrow> 48 \<le> c \<and> c \<le> 57"


section \<open>Searching, splitting, joining\<close>

definition starts_with :: "jstr \<Rightarrow> jstr \<Rightarrow> bool" where
  "starts_with s p \<longleftrightarrow> take (length p) s = p"

definition ends_with :: "jstr \<Rightarrow> jstr \<Rightarrow> bool" where
  "ends_with s p \<longleftrightarrow> starts_with (rev s) (rev p)"

fun index_of :: "unit16 \<Rightarrow> jstr \<Rightarrow> nat option" where
  "index_of c [] = None"
| "index_of c (x # xs) = (if x = c then Some 0 else map_option Suc (index_of c xs))"

definition last_index_of :: "unit16 \<Rightarrow> jstr \<Rightarrow> nat option" where
  "last_index_of c s = map_option (\<lambda>i. length s - Suc i) (index_of c (rev s))"

fun split_on :: "unit16 \<Rightarrow> jstr \<Rightarrow> jstr list" where
  "split_on c [] = [[]]"
| "split_on c (x # xs) =
     (if x = c then [] # split_on c xs
      else (case split_on c xs of [] \<Rightarrow> [[x]] | y # ys \<Rightarrow> (x # y) # ys))"

fun join_with :: "jstr \<Rightarrow> jstr list \<Rightarrow> jstr" where
  "join_with sep [] = []"
| "join_with sep [s] = s"
| "join_with sep (s # t # ts) = s @ sep @ join_with sep (t # ts)"

lemma starts_with_append [simp]: "starts_with (p @ s) p"
  by (simp add: starts_with_def)

lemma starts_with_iff: "starts_with s p \<longleftrightarrow> (\<exists>t. s = p @ t)"
  unfolding starts_with_def by (metis append_eq_conv_conj append_take_drop_id)

lemma index_of_None_iff: "index_of c s = None \<longleftrightarrow> c \<notin> set s"
  by (induction s) auto

lemma index_of_append_sep: "c \<notin> set p \<Longrightarrow> index_of c (p @ c # s) = Some (length p)"
  by (induction p) auto

lemma index_of_SomeD:
  "index_of c s = Some i \<Longrightarrow> i < length s \<and> s = take i s @ c # drop (Suc i) s \<and> c \<notin> set (take i s)"
proof (induction s arbitrary: i)
  case (Cons x s)
  then show ?case by (cases i) (auto split: if_splits)
qed simp

lemma last_index_of_append_sep:
  "c \<notin> set s \<Longrightarrow> last_index_of c (p @ c # s) = Some (length p)"
  using index_of_append_sep [of c "rev s" "rev p"] by (simp add: last_index_of_def)

lemma last_index_of_SomeD:
  "last_index_of c s = Some i \<Longrightarrow> i < length s \<and> s = take i s @ c # drop (Suc i) s \<and> c \<notin> set (drop (Suc i) s)"
proof -
  assume "last_index_of c s = Some i"
  then obtain j where j: "index_of c (rev s) = Some j" and i: "i = length s - Suc j"
    by (auto simp: last_index_of_def)
  from index_of_SomeD [OF j] have
    len: "j < length s" and eq: "rev s = take j (rev s) @ c # drop (Suc j) (rev s)" and
    nin: "c \<notin> set (take j (rev s))" by auto
  have t: "rev (take j (rev s)) = drop (Suc i) s" and d: "rev (drop (Suc j) (rev s)) = take i s"
    using len i by (simp_all add: rev_take rev_drop Suc_diff_Suc)
  have "s = rev (rev s)" by simp
  also have "\<dots> = take i s @ c # drop (Suc i) s"
    by (subst eq) (simp add: t d)
  finally show ?thesis using nin t len i by (metis Suc_pred diff_less length_greater_0_conv
      list.size(3) not_less_zero set_rev zero_less_Suc)
qed

lemma split_on_nonempty [simp]: "split_on c s \<noteq> []"
  by (induction s) (auto split: list.splits)

lemma split_on_no_sep: "c \<notin> set s \<Longrightarrow> split_on c s = [s]"
  by (induction s) auto

lemma split_on_append_sep: "c \<notin> set p \<Longrightarrow> split_on c (p @ c # s) = p # split_on c s"
  by (induction p) auto

lemma split_on_pieces: "p \<in> set (split_on c s) \<Longrightarrow> c \<notin> set p"
  by (induction s arbitrary: p) (fastforce split: list.splits if_splits)+

lemma join_split: "join_with [c] (split_on c s) = s"
proof (induction s)
  case (Cons x s)
  then show ?case
    by (cases "split_on c s"; cases "tl (split_on c s)") auto
qed simp


section \<open>White space\<close>

text \<open>The units that \<open>trim\<close> removes and that \<open>\s\<close> matches.\<close>

definition is_ws :: "unit16 \<Rightarrow> bool" where
  "is_ws c \<longleftrightarrow> (9 \<le> c \<and> c \<le> 13) \<or> c = 32 \<or> c = 0xA0 \<or> c = 0x1680 \<or>
     (0x2000 \<le> c \<and> c \<le> 0x200A) \<or> c = 0x2028 \<or> c = 0x2029 \<or> c = 0x202F \<or> c = 0x205F \<or>
     c = 0x3000 \<or> c = 0xFEFF"

definition trim :: "jstr \<Rightarrow> jstr" where
  "trim s = rev (dropWhile is_ws (rev (dropWhile is_ws s)))"

lemma set_trim: "set (trim s) \<subseteq> set s"
  unfolding trim_def by (auto dest!: set_dropWhileD)


section \<open>Code points and UTF-8\<close>

definition is_high_surrogate :: "unit16 \<Rightarrow> bool" where
  "is_high_surrogate c \<longleftrightarrow> 0xD800 \<le> c \<and> c \<le> 0xDBFF"

definition is_low_surrogate :: "unit16 \<Rightarrow> bool" where
  "is_low_surrogate c \<longleftrightarrow> 0xDC00 \<le> c \<and> c \<le> 0xDFFF"

text \<open>\<open>Array.from\<close>: a surrogate pair is one element, any other unit is one element.\<close>

fun runes :: "jstr \<Rightarrow> jstr list" where
  "runes [] = []"
| "runes [a] = [[a]]"
| "runes (a # b # s) =
     (if is_high_surrogate a \<and> is_low_surrogate b then [a, b] # runes s
      else [a] # runes (b # s))"

text \<open>The length of \<open>new TextEncoder().encode(s)\<close>; a lone surrogate becomes U+FFFD, three bytes.\<close>

fun utf8_length :: "jstr \<Rightarrow> nat" where
  "utf8_length [] = 0"
| "utf8_length [a] = (if a < 0x80 then 1 else if a < 0x800 then 2 else 3)"
| "utf8_length (a # b # s) =
     (if is_high_surrogate a \<and> is_low_surrogate b then 4 + utf8_length s
      else (if a < 0x80 then 1 else if a < 0x800 then 2 else 3) + utf8_length (b # s))"

lemma concat_runes [simp]: "concat (runes s) = s"
  by (induction s rule: runes.induct) auto

lemma length_runes_le: "length (runes s) \<le> length s"
  by (induction s rule: runes.induct) auto

lemma runes_nonempty_elem: "r \<in> set (runes s) \<Longrightarrow> r \<noteq> []"
  by (induction s rule: runes.induct) (auto split: if_splits)

lemma runes_eq_Nil_iff [simp]: "runes s = [] \<longleftrightarrow> s = []"
  by (cases s rule: runes.cases) auto

lemma length_le_utf8: "length s \<le> utf8_length s"
  by (induction s rule: utf8_length.induct) auto

lemma utf8_length_le: "utf8_length s \<le> 3 * length s"
  by (induction s rule: utf8_length.induct) auto

lemma concat_take_prefix: "\<exists>t. concat xs = concat (take n xs) @ t"
  by (metis append_take_drop_id concat_append)

lemma runes_Cons_plain: "\<not> is_high_surrogate a \<Longrightarrow> runes (a # s) = [a] # runes s"
  by (cases s) auto

lemma runes_plain: "list_all (\<lambda>c. \<not> is_high_surrogate c) s \<Longrightarrow> runes s = map (\<lambda>c. [c]) s"
  by (induction s) (auto simp: runes_Cons_plain)

text \<open>Taking code points of a prefix: the first \<open>n\<close> runes do not depend on what follows them.\<close>

lemma runes_append_plain: "\<not> is_high_surrogate (last p) \<Longrightarrow> p \<noteq> [] \<Longrightarrow> runes (p @ s) = runes p @ runes s"
proof (induction p rule: runes.induct)
  case (2 a)
  then show ?case by (simp add: runes_Cons_plain)
next
  case (3 a b p)
  then show ?case
  proof (cases "is_high_surrogate a \<and> is_low_surrogate b")
    case True
    have "\<not> is_high_surrogate b" using True order.trans [of 56320 b 56319]
      by (auto simp: is_high_surrogate_def is_low_surrogate_def)
    with 3 True show ?thesis by (cases p) auto
  qed (use 3 in auto)
qed simp


section \<open>Decimal numbers and fixed-width keys\<close>

fun show_nat :: "nat \<Rightarrow> jstr" where
  "show_nat n = (if n < 10 then [48 + of_nat n] else show_nat (n div 10) @ [48 + of_nat (n mod 10)])"

declare show_nat.simps [simp del]

definition pad_start :: "nat \<Rightarrow> unit16 \<Rightarrow> jstr \<Rightarrow> jstr" where
  "pad_start w c s = replicate (w - length s) c @ s"

text \<open>\<open>String(n).padStart(16, "0")\<close>\<close>

definition pad16 :: "nat \<Rightarrow> jstr" where
  "pad16 n = pad_start 16 48 (show_nat n)"

definition digit_val :: "unit16 \<Rightarrow> nat" where
  "digit_val c = unat (c - 48)"

definition num_val :: "jstr \<Rightarrow> nat" where
  "num_val s = foldl (\<lambda>a c. a * 10 + digit_val c) 0 s"

lemma digit_val_of_nat: "d < 10 \<Longrightarrow> digit_val (48 + of_nat d) = d"
  by (simp add: digit_val_def unat_of_nat)

lemma is_digit_of_nat: "d < 10 \<Longrightarrow> is_digit (48 + of_nat d)"
proof -
  assume "d < 10"
  then have "d \<in> {0, 1, 2, 3, 4, 5, 6, 7, 8, 9}" by auto
  then show ?thesis by (auto simp: is_digit_def)
qed

lemma num_val_snoc: "num_val (s @ [c]) = num_val s * 10 + digit_val c"
  by (simp add: num_val_def)

lemma num_val_show: "num_val (show_nat n) = n"
proof (induction n rule: show_nat.induct)
  case (1 n)
  show ?case
  proof (cases "n < 10")
    case True
    then show ?thesis
      by (subst show_nat.simps) (simp add: num_val_def digit_val_of_nat)
  next
    case False
    with 1 show ?thesis
      by (subst show_nat.simps) (simp add: num_val_snoc digit_val_of_nat)
  qed
qed

lemma show_nat_digits: "c \<in> set (show_nat n) \<Longrightarrow> is_digit c"
proof (induction n rule: show_nat.induct)
  case (1 n)
  then show ?case
    by (subst (asm) (2) show_nat.simps) (auto simp: is_digit_of_nat split: if_splits)
qed

lemma show_nat_inj: "show_nat m = show_nat n \<Longrightarrow> m = n"
  by (metis num_val_show)

lemma show_nat_nonempty [simp]: "show_nat n \<noteq> []"
  by (subst show_nat.simps) simp

lemma num_val_replicate_zero: "num_val (replicate k 48 @ s) = num_val s"
  unfolding num_val_def by (induction k) (auto simp: digit_val_def)

lemma num_val_pad16: "num_val (pad16 n) = n"
  by (simp add: pad16_def pad_start_def num_val_replicate_zero num_val_show)

lemma pad16_inj: "pad16 m = pad16 n \<Longrightarrow> m = n"
  by (metis num_val_pad16)

lemma pad16_digits: "c \<in> set (pad16 n) \<Longrightarrow> is_digit c"
  by (auto simp: pad16_def pad_start_def is_digit_def dest: show_nat_digits split: if_splits)

lemma pad16_no_colon: "COLON \<notin> set (pad16 n)"
  using pad16_digits by (fastforce simp: is_digit_def)

lemma length_show_nat_le: "n < 10 ^ k \<Longrightarrow> 0 < k \<Longrightarrow> length (show_nat n) \<le> k"
proof (induction n arbitrary: k rule: show_nat.induct)
  case (1 n)
  show ?case
  proof (cases "n < 10")
    case True
    then show ?thesis using 1 by (subst show_nat.simps) simp
  next
    case False
    with 1(2) obtain k' where k: "k = Suc k'" "0 < k'"
      using "1.prems"(2) by (cases k; cases "k - 1") auto
    have "n div 10 < 10 ^ k'" using 1(2) k by (simp add: less_mult_imp_div_less mult.commute)
    with 1(1) False k have "length (show_nat (n div 10)) \<le> k'" by simp
    then show ?thesis using False k by (subst show_nat.simps) simp
  qed
qed

lemma length_pad16: "n < 10 ^ 16 \<Longrightarrow> length (pad16 n) = 16"
  using length_show_nat_le [of n 16] by (simp add: pad16_def pad_start_def)


text \<open>Digit strings of one width are ordered as the numbers they write.\<close>

lemma num_val_Cons: "num_val (c # s) = digit_val c * 10 ^ length s + num_val s"
proof (induction s rule: rev_induct)
  case Nil
  then show ?case by (simp add: num_val_def)
next
  case (snoc x xs)
  have "num_val (c # xs @ [x]) = num_val (c # xs) * 10 + digit_val x"
    using num_val_snoc [of "c # xs" x] by simp
  with snoc show ?case by (simp add: num_val_snoc algebra_simps)
qed

lemma is_digit_unat: "is_digit c \<Longrightarrow> digit_val c = unat c - 48 \<and> 48 \<le> unat c \<and> unat c \<le> 57"
  unfolding is_digit_def digit_val_def by (simp add: unat_sub word_le_nat_alt)

lemma digit_val_less_10: "is_digit c \<Longrightarrow> digit_val c < 10"
  by (drule is_digit_unat) arith

lemma digit_less_iff: "is_digit a \<Longrightarrow> is_digit b \<Longrightarrow> a < b \<longleftrightarrow> digit_val a < digit_val b"
  by (drule is_digit_unat, drule is_digit_unat) (auto simp: word_less_nat_alt)

lemma num_val_bound: "list_all is_digit s \<Longrightarrow> num_val s < 10 ^ length s"
proof (induction s)
  case Nil
  then show ?case by (simp add: num_val_def)
next
  case (Cons c s)
  then have "digit_val c \<le> 9" and IH: "num_val s < 10 ^ length s"
    using digit_val_less_10 [of c] by simp_all
  then have "digit_val c * 10 ^ length s \<le> 9 * 10 ^ length s"
    by (intro mult_right_mono) simp_all
  then have "digit_val c * 10 ^ length s + num_val s < 10 * 10 ^ length s"
    using IH by linarith
  then show ?case by (simp add: num_val_Cons)
qed

lemma fixed_width_less:
  "length xs = length ys \<Longrightarrow> list_all is_digit xs \<Longrightarrow> list_all is_digit ys \<Longrightarrow>
   xs < ys \<longleftrightarrow> num_val xs < num_val ys"
proof (induction xs ys rule: list_induct2)
  case (Cons x xs y ys)
  note bound = num_val_bound [of xs] num_val_bound [of ys]
  show ?case
  proof (cases "x = y")
    case True
    with Cons show ?thesis by (simp add: num_val_Cons)
  next
    case False
    have "a * b + c < a' * b + c'" if "a < a'" "c < b" for a b c a' c' :: nat
    proof -
      have "Suc a * b \<le> a' * b" using that(1) by (intro mult_right_mono) simp_all
      then show ?thesis using that(2) by simp
    qed
    from this [of "digit_val x" "digit_val y" "num_val xs" "10 ^ length xs" "num_val ys"]
      this [of "digit_val y" "digit_val x" "num_val ys" "10 ^ length xs" "num_val xs"]
    have "num_val (x # xs) < num_val (y # ys) \<longleftrightarrow> digit_val x < digit_val y"
      using Cons bound False digit_less_iff [of x y] digit_less_iff [of y x]
      by (auto simp: num_val_Cons)
    with False Cons show ?thesis by (simp add: digit_less_iff)
  qed
qed simp

lemma pad16_less_iff: "m < 10 ^ 16 \<Longrightarrow> n < 10 ^ 16 \<Longrightarrow> pad16 m < pad16 n \<longleftrightarrow> m < n"
  by (subst fixed_width_less) (auto simp: length_pad16 list_all_iff pad16_digits num_val_pad16)

end
