(* ===== verification/Addr.thy ===== *)
theory Addr
  imports Js_Text
begin

text \<open>
  \<^verbatim>\<open>src/lib/transit/addr.ts\<close>: the address grammar (\<open>name@host\<close>, \<open>org/name@host\<close>,
  \<open>#room\<close>, \<open>org/#room\<close>), its validators, its formatters and its two parsers. Every
  \<open>throw new AddressError(...)\<close> is an \<open>Inl\<close>. The lemmas show that parsing and formatting
  are inverse and that an accepted address is its own canonical form.
\<close>

datatype addr_code = Invalid_name | Invalid_address | Reserved_name

datatype address_error = AddressError (err_message: jstr) (err_code: addr_code)

datatype transit_address =
  AgentAddress (addr_name: jstr) (addr_host: jstr) (addr_organization: "jstr option") (addr_text: jstr)
| RoomAddress (addr_room: jstr) (addr_organization: "jstr option") (addr_text: jstr)

text \<open>The three patterns, anchored at both ends as the regular expressions are.\<close>

definition name_char :: "unit16 \<Rightarrow> bool" where
  "name_char c \<longleftrightarrow> is_lower c \<or> is_digit c \<or> c = DASH"

definition TRANSIT_NAME_PATTERN :: "jstr \<Rightarrow> bool" where
  "TRANSIT_NAME_PATTERN s =
     (case s of [] \<Rightarrow> False | c # cs \<Rightarrow> is_lower c \<and> length cs \<le> 31 \<and> list_all name_char cs)"

definition TRANSIT_HOST_PATTERN :: "jstr \<Rightarrow> bool" where
  "TRANSIT_HOST_PATTERN s =
     (case s of [] \<Rightarrow> False
      | c # cs \<Rightarrow> (is_lower c \<or> is_digit c) \<and> length cs \<le> 31 \<and> list_all name_char cs)"

definition TRANSIT_ORGANIZATION_PATTERN :: "jstr \<Rightarrow> bool" where
  "TRANSIT_ORGANIZATION_PATTERN s =
     list_all (\<lambda>p. p \<noteq> [] \<and> list_all (\<lambda>c. is_lower c \<or> is_digit c) p) (split_on DASH s)"

text \<open>
  \<open>RESERVED_NAMES[value]\<close> reads a property of an object literal, so the properties the
  literal inherits from \<open>Object.prototype\<close> (all truthy) answer too.
\<close>

definition object_prototype_keys :: "jstr list" where
  "object_prototype_keys =
     [js ''constructor'', js ''hasOwnProperty'', js ''isPrototypeOf'', js ''propertyIsEnumerable'',
      js ''toLocaleString'', js ''toString'', js ''valueOf'', js ''__proto__'',
      js ''__defineGetter__'', js ''__defineSetter__'', js ''__lookupGetter__'',
      js ''__lookupSetter__'']"

definition RESERVED_NAMES :: "jstr \<Rightarrow> bool" where
  "RESERVED_NAMES v \<longleftrightarrow>
     v = js ''transit'' \<or> v = js ''operator'' \<or> List.member object_prototype_keys v"

lemma RESERVED_NAMES_code [code]:
  "RESERVED_NAMES v =
     (if length v < 7 then False
      else v = js ''transit'' \<or> v = js ''operator'' \<or> List.member object_prototype_keys v)"
  by (auto simp: RESERVED_NAMES_def object_prototype_keys_def)

definition OPERATOR_ADDRESS :: jstr where
  "OPERATOR_ADDRESS = js ''operator@transit''"

definition ADDRESS_GRAMMAR :: jstr where
  "ADDRESS_GRAMMAR =
     js ''address must be name@host, organization/name@host, #room, or organization/#room''"

definition validateName :: "jstr \<Rightarrow> address_error + unit" where
  "validateName v =
     (if \<not> TRANSIT_NAME_PATTERN v
      then Inl (AddressError (js ''name must match ^[a-z][a-z0-9-]{0,31}$'') Invalid_name)
      else if RESERVED_NAMES v then Inl (AddressError (v @ js '' is reserved'') Reserved_name)
      else Inr ())"

definition validateHost :: "jstr \<Rightarrow> address_error + unit" where
  "validateHost v =
     (if \<not> TRANSIT_HOST_PATTERN v
      then Inl (AddressError (js ''host must match ^[a-z0-9][a-z0-9-]{0,31}$'') Invalid_name)
      else if RESERVED_NAMES v then Inl (AddressError (v @ js '' is reserved'') Reserved_name)
      else Inr ())"

definition validateOrganizationSlug :: "jstr \<Rightarrow> address_error + unit" where
  "validateOrganizationSlug v =
     (if length v < 2 \<or> 128 < length v \<or> \<not> TRANSIT_ORGANIZATION_PATTERN v
      then Inl (AddressError
             (js ''organization slug must match ^[a-z0-9]+(?:-[a-z0-9]+)*$'') Invalid_address)
      else Inr ())"

text \<open>JavaScript truthiness of an optional string: absent and empty are both false.\<close>

definition truthy :: "jstr option \<Rightarrow> jstr option" where
  "truthy x = (case x of None \<Rightarrow> None | Some s \<Rightarrow> if s = [] then None else Some s)"

definition validateOptionalOrganization :: "jstr option \<Rightarrow> address_error + unit" where
  "validateOptionalOrganization organization =
     (case truthy organization of None \<Rightarrow> Inr () | Some s \<Rightarrow> validateOrganizationSlug s)"

definition formatAgentAddress :: "jstr \<Rightarrow> jstr \<Rightarrow> jstr option \<Rightarrow> address_error + jstr" where
  "formatAgentAddress name host organization =
     rbind (validateName name) (\<lambda>_.
     rbind (validateHost host) (\<lambda>_.
     rbind (validateOptionalOrganization organization) (\<lambda>_.
       let loc = name @ [AT] @ host
       in Inr (case truthy organization of None \<Rightarrow> loc | Some s \<Rightarrow> s @ [SLASH] @ loc))))"

definition formatRoomAddress :: "jstr \<Rightarrow> jstr option \<Rightarrow> address_error + jstr" where
  "formatRoomAddress room organization =
     rbind (validateName room) (\<lambda>_.
     rbind (validateOptionalOrganization organization) (\<lambda>_.
       Inr (case truthy organization of
              None \<Rightarrow> [HASH] @ room | Some s \<Rightarrow> s @ [SLASH, HASH] @ room)))"

text \<open>The organization part of \<open>parseAddress\<close>: the qualifying slug, if any, and the rest.\<close>

definition splitOrganization :: "jstr \<Rightarrow> address_error + (jstr option \<times> jstr)" where
  "splitOrganization v =
     (case index_of SLASH v of
        None \<Rightarrow> Inr (None, v)
      | Some slash \<Rightarrow>
          if slash = 0 \<or> Some slash \<noteq> last_index_of SLASH v \<or> slash = length v - 1
          then Inl (AddressError ADDRESS_GRAMMAR Invalid_address)
          else rbind (validateOrganizationSlug (take slash v)) (\<lambda>_.
                 Inr (Some (take slash v), drop (Suc slash) v)))"

definition parseAddress :: "jstr \<Rightarrow> address_error + transit_address" where
  "parseAddress v =
     rbind (splitOrganization v) (\<lambda>(organization, loc).
       if starts_with loc [HASH] then
         (let room = drop 1 loc in
          rbind (validateName room) (\<lambda>_.
          rbind (formatRoomAddress room organization) (\<lambda>address.
            Inr (RoomAddress room organization address))))
       else
         (case index_of AT loc of
            None \<Rightarrow> Inl (AddressError ADDRESS_GRAMMAR Invalid_address)
          | Some at \<Rightarrow>
              if at = 0 \<or> Some at \<noteq> last_index_of AT loc \<or> at = length loc - 1
              then Inl (AddressError ADDRESS_GRAMMAR Invalid_address)
              else
                (let name = take at loc; host = drop (Suc at) loc in
                 rbind (validateName name) (\<lambda>_.
                 rbind (validateHost host) (\<lambda>_.
                 rbind (formatAgentAddress name host organization) (\<lambda>address.
                   Inr (AgentAddress name host organization address)))))))"

definition with_hash :: "jstr \<Rightarrow> jstr" where
  "with_hash s = (if starts_with s [HASH] then s else [HASH] @ s)"

text \<open>The lenient parser for room-valued tool parameters.\<close>

definition parseRoomTarget :: "jstr \<Rightarrow> address_error + transit_address" where
  "parseRoomTarget v =
     (case index_of SLASH v of
        None \<Rightarrow> parseAddress (with_hash v)
      | Some slash \<Rightarrow>
          rbind (parseAddress (take slash v @ [SLASH] @ with_hash (drop (Suc slash) v))) (\<lambda>parsed.
            case parsed of
              RoomAddress _ _ _ \<Rightarrow> Inr parsed
            | AgentAddress _ _ _ _ \<Rightarrow> Inl (AddressError ADDRESS_GRAMMAR Invalid_address)))"



section \<open>Characters of the parts\<close>

lemma truthy_simps [simp]:
  "truthy None = None"
  "truthy (Some []) = None"
  "truthy (Some (c # s)) = Some (c # s)"
  by (simp_all add: truthy_def)

lemma truthy_Some: "s \<noteq> [] \<Longrightarrow> truthy (Some s) = Some s"
  by (simp add: truthy_def)

lemma name_char_not_sep: "name_char c \<Longrightarrow> c \<noteq> SLASH \<and> c \<noteq> AT \<and> c \<noteq> HASH \<and> c \<noteq> COLON"
  by (auto simp: name_char_def is_lower_def is_digit_def)

lemma name_pattern_chars: "TRANSIT_NAME_PATTERN s \<Longrightarrow> s \<noteq> [] \<and> list_all name_char s"
  by (auto simp: TRANSIT_NAME_PATTERN_def name_char_def split: list.splits)

lemma host_pattern_chars: "TRANSIT_HOST_PATTERN s \<Longrightarrow> s \<noteq> [] \<and> list_all name_char s"
  by (auto simp: TRANSIT_HOST_PATTERN_def name_char_def split: list.splits)

lemma validateName_Inr: "validateName s = Inr u \<longleftrightarrow> TRANSIT_NAME_PATTERN s \<and> \<not> RESERVED_NAMES s"
  by (auto simp: validateName_def)

lemma validateHost_Inr: "validateHost s = Inr u \<longleftrightarrow> TRANSIT_HOST_PATTERN s \<and> \<not> RESERVED_NAMES s"
  by (auto simp: validateHost_def)

lemma validateOrganizationSlug_Inr:
  "validateOrganizationSlug s = Inr u \<longleftrightarrow>
     2 \<le> length s \<and> length s \<le> 128 \<and> TRANSIT_ORGANIZATION_PATTERN s"
  by (auto simp: validateOrganizationSlug_def)

lemma list_all_not_mem: "list_all P xs \<Longrightarrow> \<not> P x \<Longrightarrow> x \<notin> set xs"
  by (auto simp: list_all_iff)

lemma valid_name_seps:
  assumes "validateName s = Inr u"
  shows "s \<noteq> []" "SLASH \<notin> set s" "AT \<notin> set s" "HASH \<notin> set s" "COLON \<notin> set s"
  using assms name_pattern_chars [of s] name_char_not_sep
  by (auto simp: validateName_Inr list_all_iff)

lemma valid_host_seps:
  assumes "validateHost s = Inr u"
  shows "s \<noteq> []" "SLASH \<notin> set s" "AT \<notin> set s" "HASH \<notin> set s" "COLON \<notin> set s"
  using assms host_pattern_chars [of s] name_char_not_sep
  by (auto simp: validateHost_Inr list_all_iff)

lemma split_pieces_cover: "x \<in> set s \<Longrightarrow> x \<noteq> c \<Longrightarrow> \<exists>p \<in> set (split_on c s). x \<in> set p"
  by (induction s) (auto split: list.splits)

lemma valid_org_chars:
  assumes "validateOrganizationSlug s = Inr u" and "c \<in> set s"
  shows "name_char c"
  using assms split_pieces_cover [of c s DASH]
  by (cases "c = DASH")
    (fastforce simp: validateOrganizationSlug_Inr TRANSIT_ORGANIZATION_PATTERN_def
      list_all_iff name_char_def)+

lemma valid_org_seps:
  assumes "validateOrganizationSlug s = Inr u"
  shows "s \<noteq> []" "SLASH \<notin> set s"
proof -
  from assms show "s \<noteq> []" by (auto simp: validateOrganizationSlug_Inr)
  show "SLASH \<notin> set s"
  proof
    assume "SLASH \<in> set s"
    from valid_org_chars [OF assms this] name_char_not_sep [of SLASH] show False by simp
  qed
qed

lemmas valid_seps = valid_name_seps valid_host_seps valid_org_seps


section \<open>Formatting\<close>

text \<open>What an accepted organization argument is, for both formatters and the parser.\<close>

definition org_ok :: "jstr option \<Rightarrow> bool" where
  "org_ok organization = (case organization of None \<Rightarrow> True | Some s \<Rightarrow> validateOrganizationSlug s = Inr ())"

definition qualify :: "jstr option \<Rightarrow> jstr \<Rightarrow> jstr" where
  "qualify organization loc = (case organization of None \<Rightarrow> loc | Some s \<Rightarrow> s @ SLASH # loc)"

lemma org_ok_validate: "org_ok organization \<Longrightarrow> validateOptionalOrganization organization = Inr ()"
  by (auto simp: org_ok_def validateOptionalOrganization_def truthy_def split: option.splits)

lemma org_ok_truthy: "org_ok organization \<Longrightarrow> truthy organization = organization"
  by (auto simp: org_ok_def truthy_def valid_org_seps split: option.splits)

lemma formatAgentAddress_ok:
  assumes "validateName name = Inr ()" "validateHost host = Inr ()" "org_ok organization"
  shows "formatAgentAddress name host organization = Inr (qualify organization (name @ AT # host))"
  using assms by (cases organization)
    (simp_all add: formatAgentAddress_def org_ok_validate org_ok_truthy qualify_def Let_def)

lemma formatRoomAddress_ok:
  assumes "validateName room = Inr ()" "org_ok organization"
  shows "formatRoomAddress room organization = Inr (qualify organization (HASH # room))"
  using assms by (cases organization)
    (simp_all add: formatRoomAddress_def org_ok_validate org_ok_truthy qualify_def)

lemma formatAgentAddress_Inr:
  "formatAgentAddress name host organization = Inr s \<Longrightarrow>
     validateName name = Inr () \<and> validateHost host = Inr () \<and> org_ok (truthy organization) \<and>
     s = qualify (truthy organization) (name @ AT # host)"
  by (cases "truthy organization")
    (auto simp: formatAgentAddress_def validateOptionalOrganization_def org_ok_def qualify_def
      Let_def result_simps split: option.splits)

lemma formatRoomAddress_Inr:
  "formatRoomAddress room organization = Inr s \<Longrightarrow>
     validateName room = Inr () \<and> org_ok (truthy organization) \<and>
     s = qualify (truthy organization) (HASH # room)"
  by (cases "truthy organization")
    (auto simp: formatRoomAddress_def validateOptionalOrganization_def org_ok_def qualify_def
      result_simps split: option.splits)


section \<open>Parsing inverts formatting\<close>

lemma splitOrganization_qualify:
  assumes "org_ok organization" "SLASH \<notin> set loc" "loc \<noteq> []"
  shows "splitOrganization (qualify organization loc) = Inr (organization, loc)"
proof (cases organization)
  case None
  then show ?thesis using assms by (simp add: splitOrganization_def qualify_def index_of_None_iff [THEN iffD2])
next
  case (Some slug)
  then have v: "validateOrganizationSlug slug = Inr ()" using assms by (simp add: org_ok_def)
  show ?thesis
    using Some assms v valid_org_seps [OF v]
    by (simp add: splitOrganization_def qualify_def index_of_append_sep last_index_of_append_sep)
qed

lemma parse_agent:
  assumes "validateName name = Inr ()" "validateHost host = Inr ()" "org_ok organization"
  shows "parseAddress (qualify organization (name @ AT # host)) =
    Inr (AgentAddress name host organization (qualify organization (name @ AT # host)))"
proof -
  note seps = valid_name_seps [OF assms(1)] valid_host_seps [OF assms(2)]
  have split: "splitOrganization (qualify organization (name @ AT # host)) =
      Inr (organization, name @ AT # host)"
    using assms seps by (intro splitOrganization_qualify) auto
  have hash: "\<not> starts_with (name @ AT # host) [HASH]"
    using seps by (cases name) (auto simp: starts_with_def)
  show ?thesis
    using assms seps hash
    by (simp add: parseAddress_def split index_of_append_sep last_index_of_append_sep
        formatAgentAddress_ok Let_def)
qed

lemma parse_room:
  assumes "validateName room = Inr ()" "org_ok organization"
  shows "parseAddress (qualify organization (HASH # room)) =
    Inr (RoomAddress room organization (qualify organization (HASH # room)))"
proof -
  note seps = valid_name_seps [OF assms(1)]
  have split: "splitOrganization (qualify organization (HASH # room)) =
      Inr (organization, HASH # room)"
    using assms seps by (intro splitOrganization_qualify) auto
  show ?thesis
    using assms
    by (simp add: parseAddress_def split starts_with_def formatRoomAddress_ok Let_def)
qed

lemma splitOrganization_Inr:
  assumes "splitOrganization v = Inr (organization, loc)"
  shows "org_ok organization \<and> v = qualify organization loc \<and> SLASH \<notin> set loc"
proof (cases "index_of SLASH v")
  case None
  then show ?thesis using assms index_of_None_iff [of SLASH v]
    by (auto simp: splitOrganization_def org_ok_def qualify_def)
next
  case (Some slash)
  note i = index_of_SomeD [OF Some]
  from assms Some have last: "last_index_of SLASH v = Some slash"
    and v: "validateOrganizationSlug (take slash v) = Inr ()"
    and eq: "organization = Some (take slash v)" "loc = drop (Suc slash) v"
    by (auto simp: splitOrganization_def result_simps split: if_splits)
  show ?thesis
    using i last_index_of_SomeD [OF last] v eq by (auto simp: org_ok_def qualify_def)
qed

lemma starts_with_hash: "starts_with loc [HASH] \<Longrightarrow> loc = HASH # drop 1 loc"
  by (cases loc) (auto simp: starts_with_def)

text \<open>Every accepted string is one of the two forms, and the stored address is the string itself.\<close>

lemma parseAddress_Inr_cases:
  assumes "parseAddress v = Inr a"
  obtains (agent) name host organization where
      "a = AgentAddress name host organization v" "v = qualify organization (name @ AT # host)"
      "validateName name = Inr ()" "validateHost host = Inr ()" "org_ok organization"
    | (room) room organization where
      "a = RoomAddress room organization v" "v = qualify organization (HASH # room)"
      "validateName room = Inr ()" "org_ok organization"
proof -
  obtain organization loc where sp: "splitOrganization v = Inr (organization, loc)"
    using assms by (auto simp: parseAddress_def result_simps)
  note org = splitOrganization_Inr [OF sp]
  show thesis
  proof (cases "starts_with loc [HASH]")
    case True
    with assms sp have v: "validateName (drop 1 loc) = Inr ()"
      by (auto simp: parseAddress_def result_simps Let_def)
    with assms sp True org have "a = RoomAddress (drop 1 loc) organization v"
      using starts_with_hash [OF True]
      by (auto simp: parseAddress_def result_simps Let_def formatRoomAddress_ok)
    with room v org starts_with_hash [OF True] show thesis by metis
  next
    case False
    with assms sp obtain at where at: "index_of AT loc = Some at"
      by (auto simp: parseAddress_def result_simps split: option.splits)
    note i = index_of_SomeD [OF at]
    from assms sp False at have v: "validateName (take at loc) = Inr ()"
      "validateHost (drop (Suc at) loc) = Inr ()"
      by (auto simp: parseAddress_def result_simps Let_def split: if_splits)
    have fmt: "formatAgentAddress (take at loc) (drop (Suc at) loc) organization = Inr v"
      using formatAgentAddress_ok [OF v] i org by auto
    with assms sp False at have "a = AgentAddress (take at loc) (drop (Suc at) loc) organization v"
      by (auto simp: parseAddress_def result_simps Let_def split: if_splits)
    with agent v org i show thesis by metis
  qed
qed



section \<open>The address codec\<close>

definition valid_address :: "transit_address \<Rightarrow> bool" where
  "valid_address a =
     (case a of
        AgentAddress name host organization address \<Rightarrow>
          truthy organization = organization \<and> formatAgentAddress name host organization = Inr address
      | RoomAddress room organization address \<Rightarrow>
          truthy organization = organization \<and> formatRoomAddress room organization = Inr address)"

definition parse_option :: "jstr \<Rightarrow> transit_address option" where
  "parse_option v = (case parseAddress v of Inl _ \<Rightarrow> None | Inr a \<Rightarrow> Some a)"

lemma valid_address_parses: "valid_address a \<Longrightarrow> parseAddress (addr_text a) = Inr a"
proof (cases a)
  case (AgentAddress name host organization address)
  assume "valid_address a"
  with AgentAddress have t: "truthy organization = organization"
    and f: "formatAgentAddress name host organization = Inr address"
    by (simp_all add: valid_address_def)
  from formatAgentAddress_Inr [OF f] t show ?thesis
    using parse_agent [of name host organization] AgentAddress by simp
next
  case (RoomAddress room organization address)
  assume "valid_address a"
  with RoomAddress have t: "truthy organization = organization"
    and f: "formatRoomAddress room organization = Inr address"
    by (simp_all add: valid_address_def)
  from formatRoomAddress_Inr [OF f] t show ?thesis
    using parse_room [of room organization] RoomAddress by simp
qed

lemma parseAddress_valid:
  assumes "parseAddress v = Inr a"
  shows "valid_address a \<and> addr_text a = v"
  using assms
  by (cases rule: parseAddress_Inr_cases)
    (simp_all add: valid_address_def org_ok_truthy formatAgentAddress_ok formatRoomAddress_ok)

interpretation address: codec valid_address addr_text parse_option
proof unfold_locales
  show "parse_option (addr_text a) = Some a" if "valid_address a" for a
    using valid_address_parses [OF that] by (simp add: parse_option_def)
  show "valid_address a \<and> addr_text a = b" if "parse_option b = Some a" for a b
    using that by (intro parseAddress_valid) (auto simp: parse_option_def split: sum.splits)
qed

lemma parseAddress_iff: "parseAddress v = Inr a \<longleftrightarrow> valid_address a \<and> addr_text a = v"
  using address.dec_iff [of v a] by (auto simp: parse_option_def split: sum.splits)

lemma parseAddress_agent_valid:
  "parseAddress v = Inr (AgentAddress name host organization address) \<Longrightarrow>
     validateName name = Inr () \<and> validateHost host = Inr () \<and> address = v"
  by (erule parseAddress_Inr_cases) auto

lemma parse_local_agent:
  "validateName name = Inr () \<Longrightarrow> validateHost host = Inr () \<Longrightarrow>
     parseAddress (name @ AT # host) = Inr (AgentAddress name host None (name @ AT # host))"
  using parse_agent [of name host None] by (simp add: qualify_def org_ok_def)

text \<open>
  C38: An address is accepted exactly when it is what the formatter prints for its parts: the two
  parsers' results and the two formatters are mutually inverse, organization-qualified or not.
\<close>

theorem parse_iff_format:
  "(parseAddress v = Inr (AgentAddress name host organization address) \<longleftrightarrow>
      address = v \<and> truthy organization = organization \<and>
      formatAgentAddress name host organization = Inr v) \<and>
   (parseAddress v = Inr (RoomAddress room organization address) \<longleftrightarrow>
      address = v \<and> truthy organization = organization \<and>
      formatRoomAddress room organization = Inr v)"
proof
  show "parseAddress v = Inr (AgentAddress name host organization address) \<longleftrightarrow>
      address = v \<and> truthy organization = organization \<and>
      formatAgentAddress name host organization = Inr v"
    unfolding parseAddress_iff valid_address_def by (cases "address = v") simp_all
  show "parseAddress v = Inr (RoomAddress room organization address) \<longleftrightarrow>
      address = v \<and> truthy organization = organization \<and>
      formatRoomAddress room organization = Inr v"
    unfolding parseAddress_iff valid_address_def by (cases "address = v") simp_all
qed

text \<open>
  The names that the pattern admits and the reserved-name lookup refuses are \<open>transit\<close>,
  \<open>operator\<close> and, through the object literal's prototype, \<open>constructor\<close>.
\<close>

theorem reserved_names_exactly:
  "TRANSIT_NAME_PATTERN v \<and> RESERVED_NAMES v \<longleftrightarrow>
     v = js ''transit'' \<or> v = js ''operator'' \<or> v = js ''constructor''"
proof -
  have keys: "filter TRANSIT_NAME_PATTERN object_prototype_keys = [js ''constructor'']"
    by code_simp
  have own: "TRANSIT_NAME_PATTERN (js ''transit'')" "TRANSIT_NAME_PATTERN (js ''operator'')"
    by code_simp+
  have "TRANSIT_NAME_PATTERN v \<and> v \<in> set object_prototype_keys \<longleftrightarrow>
      v \<in> set (filter TRANSIT_NAME_PATTERN object_prototype_keys)"
    by auto
  then show ?thesis
    unfolding RESERVED_NAMES_def keys List.member_iff using own by (auto simp del: js_simps)
qed

lemma starts_with_with_hash: "starts_with (with_hash s) [HASH]"
  by (simp add: with_hash_def starts_with_def)

lemma unqualified_hash_is_room:
  assumes "SLASH \<notin> set v" and "starts_with v [HASH]" and "parseAddress v = Inr a"
  shows "\<exists>room address. a = RoomAddress room None address"
  using assms(3)
proof (cases rule: parseAddress_Inr_cases)
  case (agent name host organization)
  with assms(1) have "organization = None" by (cases organization) (auto simp: qualify_def)
  with agent assms(2) valid_name_seps [OF agent(3)] show ?thesis
    by (cases name) (auto simp: qualify_def starts_with_def)
next
  case (room room organization)
  with assms(1) have "organization = None" by (cases organization) (auto simp: qualify_def)
  with room show ?thesis by simp
qed

text \<open>
  The lenient parser of tool arguments yields rooms only, and the room it yields is one that
  the strict parser yields for its canonical address.
\<close>

theorem parseRoomTarget_sound:
  assumes "parseRoomTarget v = Inr a"
  shows "\<exists>room organization. a = RoomAddress room organization (addr_text a) \<and>
           parseAddress (addr_text a) = Inr a"
proof (cases "index_of SLASH v")
  case None
  then have nin: "SLASH \<notin> set v" by (simp add: index_of_None_iff)
  from None assms have p: "parseAddress (with_hash v) = Inr a" by (simp add: parseRoomTarget_def)
  have "SLASH \<notin> set (with_hash v)" using nin by (simp add: with_hash_def)
  from unqualified_hash_is_room [OF this starts_with_with_hash p] parseAddress_valid [OF p]
  show ?thesis using valid_address_parses by fastforce
next
  case (Some slash)
  let ?w = "take slash v @ [SLASH] @ with_hash (drop (Suc slash) v)"
  from assms Some obtain parsed where p: "parseAddress ?w = Inr parsed"
    and c: "(case parsed of
              RoomAddress _ _ _ \<Rightarrow> Inr parsed
            | AgentAddress _ _ _ _ \<Rightarrow> Inl (AddressError ADDRESS_GRAMMAR Invalid_address)) = Inr a"
    unfolding parseRoomTarget_def by (simp add: rbind_Inr_iff) blast
  obtain room organization address where r: "a = RoomAddress room organization address" "parsed = a"
    using c by (cases parsed) auto
  with p parseAddress_valid [OF p] valid_address_parses [of a] show ?thesis by auto
qed

theorem parseRoomTarget_sound_witness:
  "\<exists>room organization.
     RoomAddress (js ''ops'') (Some (js ''acme'')) (js ''acme/#ops'') =
       RoomAddress room organization (addr_text (RoomAddress (js ''ops'') (Some (js ''acme'')) (js ''acme/#ops''))) \<and>
     parseAddress (addr_text (RoomAddress (js ''ops'') (Some (js ''acme'')) (js ''acme/#ops''))) =
       Inr (RoomAddress (js ''ops'') (Some (js ''acme'')) (js ''acme/#ops''))"
proof -
  have "parseRoomTarget (js ''acme/ops'') =
      Inr (RoomAddress (js ''ops'') (Some (js ''acme'')) (js ''acme/#ops''))"
    by code_simp
  then show ?thesis by (rule parseRoomTarget_sound)
qed

end
