(* ===== verification/Envelope.thy ===== *)
theory Envelope
  imports Js_Text
begin

text \<open>
  \<^verbatim>\<open>src/lib/transit/envelope.ts\<close>: the text an agent is handed. Attribute escaping, the
  disarming of Transit's own tags inside a body, the one-line preview of a channel event, and
  the two renderers. The regular expressions are written as scanners over code units; case
  folding and \<open>\b\<close> follow the flags \<open>iu\<close>, which also fold U+017F and U+212A.
\<close>

definition MAX_BODY_RUNES :: nat where "MAX_BODY_RUNES = 4000"
definition MAX_PREVIEW_RUNES :: nat where "MAX_PREVIEW_RUNES = 100"
definition MAX_USER_RUNES :: nat where "MAX_USER_RUNES = 64"

definition EMPTY_PREVIEW :: jstr where
  "EMPTY_PREVIEW = js ''(no text '' @ [0x2014] @ js '' attachments or an empty body)''"

definition CHANNEL_HINT :: jstr where
  "CHANNEL_HINT = js ''<reply read=\"read_message\" settle=\"chat_reply|mark_handled\"/>''"

definition FULL_SETTLE_HINT :: jstr where
  "FULL_SETTLE_HINT = js ''<settle tool=\"chat_reply|mark_handled\"/>''"

definition FULL_SETTLED_HINT :: jstr where
  "FULL_SETTLED_HINT = js ''<settle state=\"done\"/>''"

definition REDELIVERY_READ :: jstr where
  "REDELIVERY_READ = js ''do not reply twice; chat_reply or mark_handled''"

definition REDELIVERY_UNREAD :: jstr where
  "REDELIVERY_UNREAD = js ''already replied? mark_handled; otherwise read_message''"

record direct_envelope =
  de_from :: jstr
  de_id :: jstr
  de_ts :: jstr
  de_body :: jstr
  de_replyTo :: "jstr option"
  de_replyTarget :: "jstr option"

record room_envelope =
  re_from :: jstr
  re_id :: jstr
  re_ts :: jstr
  re_room :: jstr
  re_seq :: nat
  re_body :: jstr
  re_replyTo :: "jstr option"
  re_replyTarget :: "jstr option"

record channel_envelope =
  ce_from :: jstr
  ce_id :: jstr
  ce_ts :: jstr
  ce_body :: jstr
  ce_conversationId :: jstr
  ce_connector :: jstr
  ce_user :: "jstr option"
  ce_trigger :: "jstr option"
  ce_redelivery :: "int option"
  ce_read :: bool

datatype envelope_message =
  DirectEnvelope direct_envelope
| RoomEnvelope room_envelope
| ChannelEnvelope channel_envelope

record full_envelope =
  fe_id :: jstr
  fe_conversationId :: jstr
  fe_user :: "jstr option"
  fe_connector :: jstr
  fe_status :: jstr
  fe_firstRead :: bool
  fe_settled :: bool
  fe_body :: jstr
  fe_instructions :: "jstr option"


section \<open>The text functions\<close>

definition replace_all :: "unit16 \<Rightarrow> jstr \<Rightarrow> jstr \<Rightarrow> jstr" where
  "replace_all c r s = concat (map (\<lambda>x. if x = c then r else [x]) s)"

definition escapeAttribute :: "jstr \<Rightarrow> jstr" where
  "escapeAttribute v =
     replace_all QUOTE (js ''&quot;'')
       (replace_all GREATER (js ''&gt;'')
         (replace_all LESS (js ''&lt;'')
           (replace_all AMP (js ''&amp;'') v)))"

definition clipRunes :: "jstr \<Rightarrow> nat \<Rightarrow> jstr \<times> bool" where
  "clipRunes v limit =
     (if length (runes v) \<le> limit then (v, False) else (concat (take limit (runes v)), True))"

text \<open>Simple case folding of one unit, and the word characters of \<open>\b\<close>, under the flags \<open>iu\<close>.\<close>

definition fold_case :: "unit16 \<Rightarrow> unit16" where
  "fold_case c =
     (if is_upper c then c + 32 else if c = 0x17F then 115 else if c = 0x212A then 107 else c)"

definition word_char :: "unit16 \<Rightarrow> bool" where
  "word_char c \<longleftrightarrow> is_lower (fold_case c) \<or> is_digit c \<or> c = 95"

fun vocabulary_word :: "jstr \<Rightarrow> jstr \<Rightarrow> bool" where
  "vocabulary_word [] [] = True"
| "vocabulary_word [] (c # s) = (\<not> word_char c)"
| "vocabulary_word (x # w) [] = False"
| "vocabulary_word (x # w) (c # s) = (fold_case c = x \<and> vocabulary_word w s)"

definition ENVELOPE_VOCABULARY :: "jstr list" where
  "ENVELOPE_VOCABULARY =
     [js ''transit_full'', js ''transit'', js ''reply'', js ''redelivery'', js ''settle'']"

text \<open>Whether the text after a \<open><\<close> makes it the opening of one of Transit's own tags.\<close>

definition vocabulary_follows :: "jstr \<Rightarrow> bool" where
  "vocabulary_follows s =
     (let s' = (case s of [] \<Rightarrow> [] | c # t \<Rightarrow> if c = SLASH then t else s)
      in list_ex (\<lambda>w. vocabulary_word w s') ENVELOPE_VOCABULARY)"

fun neutralizeBody :: "jstr \<Rightarrow> jstr" where
  "neutralizeBody [] = []"
| "neutralizeBody (c # s) =
     (if c = LESS \<and> vocabulary_follows s then js ''&lt;'' @ neutralizeBody s
      else c # neutralizeBody s)"

text \<open>\<open>/<[^>]*>/gu\<close> replaced by a space.\<close>

function strip_tags :: "jstr \<Rightarrow> jstr" where
  "strip_tags [] = []"
| "strip_tags (c # s) =
     (if c = LESS \<and> GREATER \<in> set s
      then SPACE # strip_tags (drop 1 (dropWhile (\<lambda>x. x \<noteq> GREATER) s))
      else c # strip_tags s)"
  by pat_completeness auto
termination
proof (relation "measure length")
  fix c :: unit16 and s :: jstr
  have "length (dropWhile (\<lambda>x. x \<noteq> GREATER) s) \<le> length s" by (rule length_dropWhile_le)
  then show "(drop 1 (dropWhile (\<lambda>x. x \<noteq> GREATER) s), c # s) \<in> measure length"
    by simp
qed auto

text \<open>\<open>/\s+/gu\<close> replaced by a space.\<close>

function collapse_ws :: "jstr \<Rightarrow> jstr" where
  "collapse_ws [] = []"
| "collapse_ws (c # s) =
     (if is_ws c then SPACE # collapse_ws (dropWhile is_ws s) else c # collapse_ws s)"
  by pat_completeness auto
termination
  by (relation "measure length") (auto simp: le_imp_less_Suc length_dropWhile_le)

definition channelPreview :: "jstr \<Rightarrow> jstr" where
  "channelPreview v =
     (let flattened = collapse_ws (trim (strip_tags v))
      in if flattened = [] then EMPTY_PREVIEW else fst (clipRunes flattened MAX_PREVIEW_RUNES))"

type_synonym attributes = "(jstr \<times> jstr) list"

definition renderAttributes :: "attributes \<Rightarrow> jstr" where
  "renderAttributes attrs =
     join_with [SPACE] (map (\<lambda>(name, v). name @ js ''=\"'' @ escapeAttribute v @ [QUOTE]) attrs)"

definition openingTag :: "attributes \<Rightarrow> jstr" where
  "openingTag attrs = js ''<transit '' @ renderAttributes attrs @ [GREATER]"

definition selfClosing :: "jstr \<Rightarrow> attributes \<Rightarrow> jstr" where
  "selfClosing name attrs = [LESS] @ name @ [SPACE] @ renderAttributes attrs @ js ''/>''"


section \<open>The renderers\<close>

definition base_attributes :: "jstr \<Rightarrow> jstr \<Rightarrow> jstr \<Rightarrow> jstr \<Rightarrow> attributes" where
  "base_attributes from' ident ts kind =
     [(js ''from'', from'), (js ''id'', ident), (js ''ts'', ts), (js ''kind'', kind)]"

definition reply_to_attribute :: "jstr option \<Rightarrow> attributes" where
  "reply_to_attribute replyTo =
     (case replyTo of None \<Rightarrow> [] | Some r \<Rightarrow> if r = [] then [] else [(js ''reply_to'', r)])"

definition schema_attribute :: attributes where
  "schema_attribute = [(js ''schema'', js ''transit/1'')]"

definition or_unknown :: "jstr option \<Rightarrow> jstr" where
  "or_unknown user = (case user of None \<Rightarrow> js ''unknown'' | Some u \<Rightarrow> if u = [] then js ''unknown'' else u)"

text \<open>The part of \<open>renderEnvelope\<close> that a direct message and a room message share.\<close>

definition renderPeer ::
  "attributes \<Rightarrow> jstr \<Rightarrow> jstr \<Rightarrow> jstr \<Rightarrow> jstr option \<Rightarrow> jstr" where
  "renderPeer attrs from' ident body replyTarget =
     (let (clipped, was_clipped) = clipRunes (neutralizeBody body) MAX_BODY_RUNES;
          hint = selfClosing (js ''reply'')
            [(js ''tool'', js ''send_message''),
             (js ''to'', case replyTarget of None \<Rightarrow> from' | Some t \<Rightarrow> t),
             (js ''reply_to'', ident)];
          truncated = (if was_clipped then [(js ''truncated'', js ''1'')] else [])
      in join_with [NEWLINE]
           [openingTag (attrs @ truncated @ schema_attribute), clipped, hint, js ''</transit>''])"

definition renderChannel :: "channel_envelope \<Rightarrow> jstr" where
  "renderChannel m =
     (let redelivery = max 0 (case ce_redelivery m of None \<Rightarrow> 0 | Some r \<Rightarrow> r);
          attrs = base_attributes (ce_from m) (ce_id m) (ce_ts m) (js ''channel'') @
            [(js ''conversation_id'', ce_conversationId m),
             (js ''connector'', ce_connector m),
             (js ''user'', fst (clipRunes (or_unknown (ce_user m)) MAX_USER_RUNES)),
             (js ''redelivery'', show_nat (nat redelivery))] @
            (case ce_trigger m of None \<Rightarrow> [] | Some t \<Rightarrow> if t = [] then [] else [(js ''trigger'', t)]);
          statusNote =
            (if 0 < redelivery then
               [if ce_read m
                then js ''<redelivery state=\"read\">'' @ REDELIVERY_READ @ js ''</redelivery>''
                else js ''<redelivery state=\"unread\">'' @ REDELIVERY_UNREAD @ js ''</redelivery>'']
             else [])
      in join_with [NEWLINE]
           ([openingTag (attrs @ schema_attribute), channelPreview (ce_body m), CHANNEL_HINT] @
            statusNote @ [js ''</transit>'']))"

definition renderEnvelope :: "envelope_message \<Rightarrow> jstr" where
  "renderEnvelope message =
     (case message of
        DirectEnvelope m \<Rightarrow>
          renderPeer (base_attributes (de_from m) (de_id m) (de_ts m) (js ''dm'') @
                      reply_to_attribute (de_replyTo m))
            (de_from m) (de_id m) (de_body m) (de_replyTarget m)
      | RoomEnvelope m \<Rightarrow>
          renderPeer (base_attributes (re_from m) (re_id m) (re_ts m) (js ''room'') @
                      [(js ''room'', re_room m), (js ''seq'', show_nat (re_seq m))] @
                      reply_to_attribute (re_replyTo m))
            (re_from m) (re_id m) (re_body m) (re_replyTarget m)
      | ChannelEnvelope m \<Rightarrow> renderChannel m)"

definition renderFull :: "full_envelope \<Rightarrow> jstr" where
  "renderFull m =
     (let attrs =
            [(js ''id'', fe_id m), (js ''conversation_id'', fe_conversationId m),
             (js ''user'', or_unknown (fe_user m)), (js ''connector'', fe_connector m),
             (js ''status'', fe_status m),
             (js ''read'', if fe_firstRead m then js ''first'' else js ''again'')] @ schema_attribute;
          footer = (if fe_settled m then FULL_SETTLED_HINT else FULL_SETTLE_HINT);
          instructions = (case fe_instructions m of None \<Rightarrow> [] | Some i \<Rightarrow> if i = [] then [] else [i])
      in join_with [NEWLINE]
           ([js ''<transit_full '' @ renderAttributes attrs @ [GREATER], neutralizeBody (fe_body m), footer] @
            instructions @ [js ''</transit_full>'']))"


section \<open>Attribute values\<close>

text \<open>What a reader of an attribute value does: it undoes the four entities and accepts nothing else.\<close>

fun unescape :: "jstr \<Rightarrow> jstr option" where
  "unescape [] = Some []"
| "unescape (c # s) =
     (if c = LESS \<or> c = GREATER \<or> c = QUOTE then None
      else if c \<noteq> AMP then map_option ((#) c) (unescape s)
      else if starts_with s (js ''amp;'') then map_option ((#) AMP) (unescape (drop 4 s))
      else if starts_with s (js ''lt;'') then map_option ((#) LESS) (unescape (drop 3 s))
      else if starts_with s (js ''gt;'') then map_option ((#) GREATER) (unescape (drop 3 s))
      else if starts_with s (js ''quot;'') then map_option ((#) QUOTE) (unescape (drop 5 s))
      else None)"

definition escape_unit :: "unit16 \<Rightarrow> jstr" where
  "escape_unit c =
     (if c = AMP then js ''&amp;'' else if c = LESS then js ''&lt;''
      else if c = GREATER then js ''&gt;'' else if c = QUOTE then js ''&quot;'' else [c])"

lemma replace_all_simps [simp]:
  "replace_all c r [] = []"
  "replace_all c r (x # s) = (if x = c then r else [x]) @ replace_all c r s"
  "replace_all c r (s @ t) = replace_all c r s @ replace_all c r t"
  by (simp_all add: replace_all_def)

text \<open>The four passes in the code's order act on each code unit on its own.\<close>

lemma escapeAttribute_units: "escapeAttribute v = concat (map escape_unit v)"
proof (induction v)
  case (Cons c v)
  have "escapeAttribute (c # v) = escapeAttribute [c] @ escapeAttribute v"
    by (simp add: escapeAttribute_def)
  moreover have "escapeAttribute [c] = escape_unit c"
    by (simp add: escapeAttribute_def escape_unit_def)
  ultimately show ?case using Cons by simp
qed (simp add: escapeAttribute_def)

lemma escapeAttribute_simps [simp]:
  "escapeAttribute [] = []"
  "escapeAttribute (c # v) = escape_unit c @ escapeAttribute v"
  by (simp_all add: escapeAttribute_units)

lemma escape_unit_safe: "x \<in> set (escape_unit c) \<Longrightarrow> x \<noteq> LESS \<and> x \<noteq> GREATER \<and> x \<noteq> QUOTE"
  by (auto simp: escape_unit_def split: if_splits)

lemma escapeAttribute_safe:
  "LESS \<notin> set (escapeAttribute v)"
  "GREATER \<notin> set (escapeAttribute v)"
  "QUOTE \<notin> set (escapeAttribute v)"
  using escape_unit_safe by (fastforce simp: escapeAttribute_units)+

lemma unescape_escape_unit: "unescape (escape_unit c @ s) = map_option ((#) c) (unescape s)"
  by (auto simp: escape_unit_def starts_with_def)

lemma unescape_escape: "unescape (escapeAttribute v) = Some v"
  by (induction v) (simp_all add: unescape_escape_unit)

lemma escape_unescape: "unescape s = Some v \<Longrightarrow> escapeAttribute v = s"
proof (induction s arbitrary: v rule: unescape.induct)
  case (2 c s)
  then show ?case
    by (auto simp: starts_with_iff escape_unit_def split: if_splits)
qed simp

interpretation attribute: codec "\<lambda>_. True" escapeAttribute unescape
  by unfold_locales (auto simp: unescape_escape escape_unescape)



text \<open>The names the renderers use are plain words; a rendered list can be read in one way only.\<close>

definition plain_name :: "jstr \<Rightarrow> bool" where
  "plain_name n \<longleftrightarrow> n \<noteq> [] \<and> 61 \<notin> set n \<and> SPACE \<notin> set n \<and> QUOTE \<notin> set n \<and> GREATER \<notin> set n"

lemma renderAttributes_Cons:
  "renderAttributes ((n, v) # as) =
     n @ 61 # QUOTE # escapeAttribute v @ QUOTE # (if as = [] then [] else SPACE # renderAttributes as)"
  by (cases as) (simp_all add: renderAttributes_def)

lemma renderAttributes_Nil [simp]: "renderAttributes [] = []"
  by (simp add: renderAttributes_def)

lemma renderAttributes_inj_aux:
  assumes "list_all (plain_name \<circ> fst) as" "list_all (plain_name \<circ> fst) bs"
    and "renderAttributes as = renderAttributes bs"
  shows "as = bs"
  using assms
proof (induction as arbitrary: bs)
  case Nil
  then show ?case by (cases bs) (auto simp: plain_name_def renderAttributes_Cons)
next
  case (Cons a as)
  obtain n v where a: "a = (n, v)" by (cases a)
  from Cons.prems obtain m w bs' where b: "bs = (m, w) # bs'"
    by (cases bs) (auto simp: a renderAttributes_Cons plain_name_def)
  let ?rest = "\<lambda>l. if l = [] then [] else SPACE # renderAttributes l"
  have eq: "n @ 61 # QUOTE # escapeAttribute v @ QUOTE # ?rest as =
            m @ 61 # QUOTE # escapeAttribute w @ QUOTE # ?rest bs'"
    using Cons.prems(3) by (simp only: a b renderAttributes_Cons)
  have nm: "n = m" and "QUOTE # escapeAttribute v @ QUOTE # ?rest as =
                        QUOTE # escapeAttribute w @ QUOTE # ?rest bs'"
    using append_sep_inj [OF _ _ eq] Cons.prems(1,2) by (auto simp: a b plain_name_def)
  then have eq': "escapeAttribute v @ QUOTE # ?rest as = escapeAttribute w @ QUOTE # ?rest bs'"
    by simp
  have "escapeAttribute v = escapeAttribute w" and rest: "?rest as = ?rest bs'"
    using append_sep_inj [OF escapeAttribute_safe(3) escapeAttribute_safe(3) eq'] by blast+
  then have vw: "v = w" using attribute.enc_inj by blast
  have "renderAttributes as = renderAttributes bs'"
    using rest by (auto split: if_splits)
  moreover have "list_all (plain_name \<circ> fst) as" "list_all (plain_name \<circ> fst) bs'"
    using Cons.prems(1,2) by (simp_all add: a b comp_def)
  ultimately have "as = bs'" using Cons.IH by blast
  then show ?case by (simp add: a b nm vw)
qed

lemma renderAttributes_no_GREATER:
  "list_all (plain_name \<circ> fst) as \<Longrightarrow> GREATER \<notin> set (renderAttributes as)"
  by (induction as)
    (auto simp: renderAttributes_Cons plain_name_def escapeAttribute_safe split: if_splits)


section \<open>Disarmed bodies\<close>

text \<open>Whether a text holds the opening of one of Transit's own tags anywhere.\<close>

fun has_vocabulary :: "jstr \<Rightarrow> bool" where
  "has_vocabulary [] = False"
| "has_vocabulary (c # s) = ((c = LESS \<and> vocabulary_follows s) \<or> has_vocabulary s)"

lemma vocabulary_word_neutral:
  "vocabulary_word w (neutralizeBody s) = vocabulary_word w s" if "LESS \<notin> set w" "AMP \<notin> set w"
  using that
proof (induction w s rule: vocabulary_word.induct)
  case (2 c s)
  then show ?case by (auto simp: word_char_def fold_case_def is_lower_def is_upper_def is_digit_def)
next
  case (4 x w c s)
  then show ?case by (auto simp: fold_case_def is_upper_def)
qed auto

lemma vocabulary_seps: "w \<in> set ENVELOPE_VOCABULARY \<Longrightarrow> LESS \<notin> set w \<and> AMP \<notin> set w"
  by (auto simp: ENVELOPE_VOCABULARY_def)

lemma vocabulary_follows_neutral: "vocabulary_follows (neutralizeBody s) = vocabulary_follows s"
proof -
  have strip: "(case neutralizeBody s of [] \<Rightarrow> [] | c # t \<Rightarrow> if c = SLASH then t else neutralizeBody s) =
        neutralizeBody (case s of [] \<Rightarrow> [] | c # t \<Rightarrow> if c = SLASH then t else s)"
    by (cases s) auto
  show ?thesis
    unfolding vocabulary_follows_def Let_def list_ex_iff strip
    by (metis vocabulary_seps vocabulary_word_neutral)
qed

lemma neutralize_no_vocabulary: "\<not> has_vocabulary (neutralizeBody s)"
  by (induction s) (auto simp: vocabulary_follows_neutral)

lemma neutralize_id: "\<not> has_vocabulary s \<Longrightarrow> neutralizeBody s = s"
  by (induction s) auto


section \<open>The channel preview\<close>

lemma in_strip_tags: "x \<in> set (strip_tags s) \<Longrightarrow> x \<noteq> SPACE \<Longrightarrow> x \<in> set s"
proof (induction s rule: strip_tags.induct)
  case (2 c s)
  then show ?case
    by (auto split: if_splits dest!: in_set_dropD set_dropWhileD)
qed simp

text \<open>Once the tags are gone, no \<open><\<close> is followed by a \<open>>\<close>.\<close>

fun tag_free :: "jstr \<Rightarrow> bool" where
  "tag_free [] = True"
| "tag_free (c # s) = ((c = LESS \<longrightarrow> GREATER \<notin> set s) \<and> tag_free s)"

lemma strip_tags_tag_free: "tag_free (strip_tags s)"
proof (induction s rule: strip_tags.induct)
  case (2 c s)
  then show ?case by (auto dest: in_strip_tags)
qed simp

lemma tag_free_append: "tag_free (s @ t) \<longleftrightarrow> tag_free s \<and> tag_free t \<and> (LESS \<in> set s \<longrightarrow> GREATER \<notin> set t)"
  by (induction s) auto

lemma tag_free_dropWhile: "tag_free s \<Longrightarrow> tag_free (dropWhile P s)"
  using tag_free_append [of "takeWhile P s" "dropWhile P s"] by simp

lemma tag_free_trim: "tag_free s \<Longrightarrow> tag_free (trim s)"
proof -
  assume "tag_free s"
  then have t: "tag_free (dropWhile is_ws s)" by (rule tag_free_dropWhile)
  have "\<exists>u. dropWhile is_ws s = rev (dropWhile is_ws (rev (dropWhile is_ws s))) @ u"
    using takeWhile_dropWhile_id [of is_ws "rev (dropWhile is_ws s)"]
    by (metis rev_append rev_rev_ident)
  then show ?thesis
    using t tag_free_append unfolding trim_def by metis
qed

lemma collapse_ws_set: "x \<in> set (collapse_ws s) \<Longrightarrow> x = SPACE \<or> x \<in> set s \<and> \<not> is_ws x"
proof (induction s rule: collapse_ws.induct)
  case (2 c s)
  then show ?case by (auto split: if_splits dest: set_dropWhileD)
qed simp

lemma tag_free_collapse: "tag_free s \<Longrightarrow> tag_free (collapse_ws s)"
proof (induction s rule: collapse_ws.induct)
  case (2 c s)
  then show ?case by (auto dest: collapse_ws_set simp: tag_free_dropWhile)
qed simp

lemma clipRunes_prefix: "\<exists>t. v = fst (clipRunes v n) @ t"
  using concat_take_prefix [of "runes v" n] by (auto simp: clipRunes_def)


lemma runes_Cons_next:
  "t = [] \<or> (\<exists>t'. t = b # t') \<Longrightarrow> \<not> (is_high_surrogate a \<and> is_low_surrogate b) \<Longrightarrow>
   runes (a # t) = [a] # runes t"
  by auto

lemma runes_take: "runes (concat (take n (runes s))) = take n (runes s)"
proof (induction s arbitrary: n rule: runes.induct)
  case (2 a)
  then show ?case by (cases n) auto
next
  case (3 a b s)
  show ?case
  proof (cases n)
    case (Suc m)
    show ?thesis
    proof (cases "is_high_surrogate a \<and> is_low_surrogate b")
      case True
      with 3(1) Suc show ?thesis by simp
    next
      case False
      with 3(2) [of m] have IH: "runes (concat (take m (runes (b # s)))) = take m (runes (b # s))" .
      have hd: "concat (take m (runes (b # s))) = [] \<or> (\<exists>t. concat (take m (runes (b # s))) = b # t)"
        using concat_take_prefix [of "runes (b # s)" m] by (cases "concat (take m (runes (b # s)))") auto
      then have "runes (a # concat (take m (runes (b # s)))) = [a] # runes (concat (take m (runes (b # s))))"
        using False by (rule runes_Cons_next)
      moreover have "runes (a # b # s) = [a] # runes (b # s)" using False by auto
      ultimately show ?thesis using IH Suc by simp
    qed
  qed simp
qed simp

lemma clipRunes_bound: "length (runes (fst (clipRunes v n))) \<le> n"
  by (simp add: clipRunes_def runes_take)

lemma channelPreview_cases:
  "channelPreview v = EMPTY_PREVIEW \<or>
   (\<exists>t. collapse_ws (trim (strip_tags v)) = channelPreview v @ t \<and> length (runes (channelPreview v)) \<le> 100)"
  unfolding channelPreview_def Let_def
  using clipRunes_prefix [of "collapse_ws (trim (strip_tags v))" 100]
    clipRunes_bound [of "collapse_ws (trim (strip_tags v))" 100]
  by (auto simp: MAX_PREVIEW_RUNES_def)

section \<open>Properties\<close>

text \<open>
  C39: attribute injection is impossible. Whatever the values of two attribute lists with plain
  names are, equal rendered text means equal lists; the text of an opening tag holds no \<open>>\<close>
  before the one that closes it, and a rendered value gives the value back.
\<close>
theorem attributes_unambiguous:
  "(list_all (plain_name \<circ> fst) as \<and> list_all (plain_name \<circ> fst) bs \<longrightarrow>
      (renderAttributes as = renderAttributes bs \<longleftrightarrow> as = bs) \<and>
      GREATER \<notin> set (renderAttributes as)) \<and>
   unescape (escapeAttribute v) = Some v"
  using renderAttributes_inj_aux renderAttributes_no_GREATER unescape_escape by auto

text \<open>The attributes of a direct message satisfy the condition on the names.\<close>

lemma attributes_unambiguous_witness:
  "renderAttributes (base_attributes (js ''bob\" kind=\"room'') (js ''m1'') (js ''t'') (js ''dm''))
     \<noteq> renderAttributes (base_attributes (js ''bob'') (js ''m1'') (js ''t'') (js ''room''))"
proof -
  let ?a = "base_attributes (js ''bob\" kind=\"room'') (js ''m1'') (js ''t'') (js ''dm'')"
  let ?b = "base_attributes (js ''bob'') (js ''m1'') (js ''t'') (js ''room'')"
  have "list_all (plain_name \<circ> fst) ?a \<and> list_all (plain_name \<circ> fst) ?b \<and> ?a \<noteq> ?b"
    by code_simp
  then show ?thesis using attributes_unambiguous [of ?a ?b "[]"] by metis
qed


text \<open>
  the preview of a channel event is one line of at most a hundred code points, is never
  empty, and holds no complete \<open><...>\<close> tag, so the one-line envelope carries no markup from outside.
\<close>
theorem channelPreview_one_line:
  "length (runes (channelPreview v)) \<le> 100 \<and> channelPreview v \<noteq> [] \<and>
   filter (\<lambda>c. is_ws c \<and> c \<noteq> SPACE) (channelPreview v) = [] \<and> tag_free (channelPreview v)"
proof -
  have empty: "length (runes EMPTY_PREVIEW) \<le> 100 \<and> EMPTY_PREVIEW \<noteq> [] \<and>
      list_all (\<lambda>c. is_ws c \<longrightarrow> c = SPACE) EMPTY_PREVIEW \<and> tag_free EMPTY_PREVIEW"
    by code_simp
  let ?f = "collapse_ws (trim (strip_tags v))"
  have free: "tag_free ?f"
    by (intro tag_free_collapse tag_free_trim strip_tags_tag_free)
  have ne: "channelPreview v \<noteq> []"
  proof (cases "?f = []")
    case False
    then have "runes ?f \<noteq> []" by simp
    then obtain r rs where "runes ?f = r # rs" "r \<noteq> []"
      by (metis neq_Nil_conv list.set_intros(1) runes_nonempty_elem)
    then show ?thesis
      using False by (simp add: channelPreview_def clipRunes_def MAX_PREVIEW_RUNES_def Let_def)
  qed (use empty in \<open>simp add: channelPreview_def\<close>)
  show ?thesis
  proof (cases "channelPreview v = EMPTY_PREVIEW")
    case True
    then show ?thesis using empty by (auto simp: list_all_iff filter_empty_conv)
  next
    case False
    with channelPreview_cases obtain t where
      t: "?f = channelPreview v @ t" "length (runes (channelPreview v)) \<le> 100" by blast
    have "c = SPACE" if "c \<in> set (channelPreview v)" "is_ws c" for c
      using that t(1) collapse_ws_set [of c "trim (strip_tags v)"] by auto
    with t free ne show ?thesis
      using tag_free_append [of "channelPreview v" t] by (auto simp: filter_empty_conv)
  qed
qed

text \<open>
  clipping comes after disarming, and the cut can fall inside a word that was harmless
  because it was longer: a body without any Transit tag is rendered with the bare opening
  \<open><reply\<close> as the end of its line.
\<close>
theorem clipping_can_rearm:
  "\<exists>body. \<not> has_vocabulary body \<and> neutralizeBody body = body \<and>
     snd (clipRunes (neutralizeBody body) MAX_BODY_RUNES) \<and>
     has_vocabulary (fst (clipRunes (neutralizeBody body) MAX_BODY_RUNES))"
proof -
  let ?pad = "replicate 3994 (97 :: unit16)"
  let ?body = "?pad @ js ''<replyx''"
  have skip: "has_vocabulary (replicate n 97 @ s) = has_vocabulary s" for n s
    by (induction n) auto
  have hv: "\<not> has_vocabulary ?body" unfolding skip by code_simp
  have r: "runes ?body = map (\<lambda>c. [c]) ?body"
    by (intro runes_plain) (auto simp: list_all_iff is_high_surrogate_def)
  have clip: "clipRunes ?body 4000 = (?pad @ js ''<reply'', True)"
    unfolding clipRunes_def r by (simp add: take_map concat_map_singleton)
  have "has_vocabulary (?pad @ js ''<reply'')" unfolding skip by code_simp
  with hv clip show ?thesis
    by (intro exI [of _ ?body]) (simp add: neutralize_id MAX_BODY_RUNES_def del: js_simps)
qed

end
