(* ===== verification/Wire.thy ===== *)
theory Wire
  imports Js_Text Complex_Main
begin

text \<open>
  \<^verbatim>\<open>src/lib/transit/wire.ts\<close>: the frames a daemon and the Worker exchange and the two decoders.
  \<open>JSON.parse\<close> is the argument \<open>parse\<close> of the decoders (\<open>None\<close> when it throws); what it returns is a
  value of \<open>json\<close>, whose objects list their own properties once each. A decoder throws a
  \<open>wire_error\<close>, returns \<open>None\<close> for a frame type it does not know, or the frame.
\<close>

datatype json =
  JNull
| JBool bool
| JNum rat
| JInfinite bool
| JStr jstr
| JArr "json list"
| JObj "(jstr \<times> json) list"

type_synonym json_object = "(jstr \<times> json) list"

definition MAX_WIRE_FRAME_BYTES :: nat where "MAX_WIRE_FRAME_BYTES = 1024 * 1024"
definition TRANSIT_WIRE_PROTO :: rat where "TRANSIT_WIRE_PROTO = 1"

datatype named_by = NamedByUser | NamedByAuto

record roster_agent =
  ra_name :: jstr
  ra_kind :: jstr
  ra_pane_id :: jstr
  ra_status :: jstr
  ra_cwd :: jstr
  ra_title :: jstr
  ra_named_by :: named_by

datatype send_nak_code = NoRoute | NotMember | BodyTooLarge | ReservedName | RateLimited | PlanLimit

record send_frame =
  sf_id :: jstr
  sf_from :: jstr
  sf_to :: jstr
  sf_body :: jstr
  sf_reply_to :: "jstr option"
  sf_ts :: jstr

datatype daemon_frame =
  Hello jstr jstr                             \<comment> \<open>\<open>daemon_ver\<close>, \<open>host\<close>\<close>
| Roster "roster_agent list" "nat option"     \<comment> \<open>\<open>agents\<close>, \<open>dead\<close>\<close>
| Send send_frame
| DeliverAck jstr "jstr option" "jstr option" \<comment> \<open>\<open>id\<close>, \<open>agent\<close>, \<open>via\<close>\<close>
| DeliverNak jstr jstr bool "jstr option"     \<comment> \<open>\<open>id\<close>, \<open>code\<close>, \<open>retryable\<close>, \<open>agent\<close>\<close>
| Rpc jstr jstr json_object                   \<comment> \<open>\<open>rid\<close>, \<open>method\<close>, \<open>params\<close>\<close>
| Pong

datatype worker_frame =
  HelloOk jstr jstr                           \<comment> \<open>\<open>host_id\<close>, \<open>org\<close>\<close>
| HelloErr jstr
| Deliver jstr jstr jstr                      \<comment> \<open>\<open>id\<close>, \<open>agent\<close>, \<open>envelope\<close>\<close>
| SendAck jstr
| SendNak jstr send_nak_code
| RpcResult jstr "json option" "json option"  \<comment> \<open>\<open>rid\<close>, \<open>result\<close>, \<open>error\<close>\<close>
| Ping

datatype wire_code = FrameTooLarge | InvalidJson | InvalidFrame

record wire_error =
  we_message :: jstr
  we_code :: wire_code

type_synonym 'a decoded = "wire_error + 'a"

definition invalid_frame :: "jstr \<Rightarrow> wire_error" where
  "invalid_frame m = \<lparr>we_message = m, we_code = InvalidFrame\<rparr>"


section \<open>Fields\<close>

definition isObject :: "json \<Rightarrow> json_object option" where
  "isObject v = (case v of JObj kvs \<Rightarrow> Some kvs | _ \<Rightarrow> None)"

definition stringField :: "json_object \<Rightarrow> jstr \<Rightarrow> jstr decoded" where
  "stringField frame key =
     (case map_of frame key of
        Some (JStr s) \<Rightarrow> Inr s
      | _ \<Rightarrow> Inl (invalid_frame (key @ js '' must be a string'')))"

definition booleanField :: "json_object \<Rightarrow> jstr \<Rightarrow> bool decoded" where
  "booleanField frame key =
     (case map_of frame key of
        Some (JBool b) \<Rightarrow> Inr b
      | _ \<Rightarrow> Inl (invalid_frame (key @ js '' must be a boolean'')))"

definition optionalStringField :: "json_object \<Rightarrow> jstr \<Rightarrow> jstr option decoded" where
  "optionalStringField frame key =
     (case map_of frame key of
        None \<Rightarrow> Inr None
      | Some (JStr s) \<Rightarrow> Inr (Some s)
      | Some _ \<Rightarrow> Inl (invalid_frame (key @ js '' must be a string'')))"

definition parseJsonFrame :: "(jstr \<Rightarrow> json option) \<Rightarrow> jstr \<Rightarrow> (json_object \<times> jstr) decoded" where
  "parseJsonFrame parse raw =
     (if utf8_length raw > MAX_WIRE_FRAME_BYTES
      then Inl \<lparr>we_message = js ''wire frame exceeds 1 MiB'', we_code = FrameTooLarge\<rparr>
      else case parse raw of
        None \<Rightarrow> Inl \<lparr>we_message = js ''wire frame is not valid JSON'', we_code = InvalidJson\<rparr>
      | Some v \<Rightarrow>
          (case isObject v of
             None \<Rightarrow> Inl (invalid_frame (js ''wire frame must be an object with string t''))
           | Some frame \<Rightarrow>
               (case map_of frame (js ''t'') of
                  Some (JStr t) \<Rightarrow> Inr (frame, t)
                | _ \<Rightarrow> Inl (invalid_frame (js ''wire frame must be an object with string t'')))))"

definition rosterAgent :: "json \<Rightarrow> roster_agent decoded" where
  "rosterAgent v =
     (case isObject v of
        None \<Rightarrow> Inl (invalid_frame (js ''roster agent must be an object''))
      | Some a \<Rightarrow>
          rbind (stringField a (js ''named_by'')) (\<lambda>named.
          rbind (stringField a (js ''name'')) (\<lambda>name.
          rbind (stringField a (js ''kind'')) (\<lambda>kind.
          rbind (stringField a (js ''pane_id'')) (\<lambda>pane.
          rbind (stringField a (js ''status'')) (\<lambda>status.
          rbind (stringField a (js ''cwd'')) (\<lambda>cwd.
          rbind (stringField a (js ''title'')) (\<lambda>title.
            Inr \<lparr>ra_name = name, ra_kind = kind, ra_pane_id = pane, ra_status = status,
                 ra_cwd = cwd, ra_title = title,
                 ra_named_by = (if named = js ''auto'' then NamedByAuto else NamedByUser)\<rparr>))))))))"

fun map_decode :: "('a \<Rightarrow> 'b decoded) \<Rightarrow> 'a list \<Rightarrow> 'b list decoded" where
  "map_decode f [] = Inr []"
| "map_decode f (x # xs) = rbind (f x) (\<lambda>y. rbind (map_decode f xs) (\<lambda>ys. Inr (y # ys)))"

definition nak_code_text :: "send_nak_code \<Rightarrow> jstr" where
  "nak_code_text c =
     (case c of NoRoute \<Rightarrow> js ''no_route'' | NotMember \<Rightarrow> js ''not_member''
      | BodyTooLarge \<Rightarrow> js ''body_too_large'' | ReservedName \<Rightarrow> js ''reserved_name''
      | RateLimited \<Rightarrow> js ''rate_limited'' | PlanLimit \<Rightarrow> js ''plan_limit'')"

definition sendNakCode :: "jstr \<Rightarrow> send_nak_code decoded" where
  "sendNakCode v =
     (case filter (\<lambda>c. nak_code_text c = v)
             [NoRoute, NotMember, BodyTooLarge, ReservedName, RateLimited, PlanLimit] of
        c # _ \<Rightarrow> Inr c
      | [] \<Rightarrow> Inl (invalid_frame (js ''unknown send_nak code'')))"

text \<open>\<open>dead\<close> when it is a non-negative integer, and not reported otherwise.\<close>

definition reported_dead :: "json_object \<Rightarrow> nat option" where
  "reported_dead frame =
     (case map_of frame (js ''dead'') of
        Some (JNum q) \<Rightarrow> if snd (quotient_of q) = 1 \<and> 0 \<le> q then Some (nat (fst (quotient_of q))) else None
      | _ \<Rightarrow> None)"


section \<open>The decoders\<close>

definition decode_hello :: "json_object \<Rightarrow> daemon_frame decoded" where
  "decode_hello frame =
     (if map_of frame (js ''proto'') \<noteq> Some (JNum TRANSIT_WIRE_PROTO)
      then Inl (invalid_frame (js ''unsupported wire protocol''))
      else rbind (stringField frame (js ''daemon_ver'')) (\<lambda>ver.
           rbind (stringField frame (js ''host'')) (\<lambda>host. Inr (Hello ver host))))"

definition decode_roster :: "json_object \<Rightarrow> daemon_frame decoded" where
  "decode_roster frame =
     (let dead = reported_dead frame in
      case map_of frame (js ''agents'') of
        None \<Rightarrow> Inr (Roster [] dead)
      | Some JNull \<Rightarrow> Inr (Roster [] dead)
      | Some (JArr vs) \<Rightarrow> rbind (map_decode rosterAgent vs) (\<lambda>agents. Inr (Roster agents dead))
      | Some _ \<Rightarrow> Inl (invalid_frame (js ''agents must be an array'')))"

definition decode_send :: "json_object \<Rightarrow> daemon_frame decoded" where
  "decode_send frame =
     rbind (optionalStringField frame (js ''reply_to'')) (\<lambda>reply_to.
     rbind (stringField frame (js ''id'')) (\<lambda>ident.
     rbind (stringField frame (js ''from'')) (\<lambda>from'.
     rbind (stringField frame (js ''to'')) (\<lambda>to'.
     rbind (stringField frame (js ''body'')) (\<lambda>body.
     rbind (stringField frame (js ''ts'')) (\<lambda>ts.
       Inr (Send \<lparr>sf_id = ident, sf_from = from', sf_to = to', sf_body = body,
                  sf_reply_to = reply_to, sf_ts = ts\<rparr>)))))))"

definition decode_deliver_ack :: "json_object \<Rightarrow> daemon_frame decoded" where
  "decode_deliver_ack frame =
     rbind (optionalStringField frame (js ''agent'')) (\<lambda>agent.
     rbind (optionalStringField frame (js ''via'')) (\<lambda>via.
     rbind (stringField frame (js ''id'')) (\<lambda>ident. Inr (DeliverAck ident agent via))))"

definition decode_deliver_nak :: "json_object \<Rightarrow> daemon_frame decoded" where
  "decode_deliver_nak frame =
     rbind (optionalStringField frame (js ''agent'')) (\<lambda>agent.
     rbind (stringField frame (js ''id'')) (\<lambda>ident.
     rbind (stringField frame (js ''code'')) (\<lambda>code.
     rbind (booleanField frame (js ''retryable'')) (\<lambda>retryable.
       Inr (DeliverNak ident code retryable agent)))))"

definition decode_rpc :: "json_object \<Rightarrow> daemon_frame decoded" where
  "decode_rpc frame =
     (case map_of frame (js ''params'') of
        Some (JObj params) \<Rightarrow>
          rbind (stringField frame (js ''rid'')) (\<lambda>rid.
          rbind (stringField frame (js ''method'')) (\<lambda>method. Inr (Rpc rid method params)))
      | _ \<Rightarrow> Inl (invalid_frame (js ''rpc params must be an object'')))"

definition decodeDaemonFrame :: "(jstr \<Rightarrow> json option) \<Rightarrow> jstr \<Rightarrow> daemon_frame option decoded" where
  "decodeDaemonFrame parse raw =
     rbind (parseJsonFrame parse raw) (\<lambda>(frame, t).
       if t = js ''hello'' then rbind (decode_hello frame) (\<lambda>f. Inr (Some f))
       else if t = js ''roster'' then rbind (decode_roster frame) (\<lambda>f. Inr (Some f))
       else if t = js ''send'' then rbind (decode_send frame) (\<lambda>f. Inr (Some f))
       else if t = js ''deliver_ack'' then rbind (decode_deliver_ack frame) (\<lambda>f. Inr (Some f))
       else if t = js ''deliver_nak'' then rbind (decode_deliver_nak frame) (\<lambda>f. Inr (Some f))
       else if t = js ''rpc'' then rbind (decode_rpc frame) (\<lambda>f. Inr (Some f))
       else if t = js ''pong'' then Inr (Some Pong)
       else Inr None)"

definition worker_fields :: "json_object \<Rightarrow> jstr \<Rightarrow> worker_frame option decoded" where
  "worker_fields frame t =
     (if t = js ''hello_ok'' then
        rbind (stringField frame (js ''host_id'')) (\<lambda>h.
        rbind (stringField frame (js ''org'')) (\<lambda>org. Inr (Some (HelloOk h org))))
      else if t = js ''hello_err'' then
        rbind (stringField frame (js ''code'')) (\<lambda>c. Inr (Some (HelloErr c)))
      else if t = js ''deliver'' then
        rbind (stringField frame (js ''id'')) (\<lambda>ident.
        rbind (stringField frame (js ''agent'')) (\<lambda>agent.
        rbind (stringField frame (js ''envelope'')) (\<lambda>e. Inr (Some (Deliver ident agent e)))))
      else if t = js ''send_ack'' then
        rbind (stringField frame (js ''id'')) (\<lambda>ident. Inr (Some (SendAck ident)))
      else if t = js ''send_nak'' then
        rbind (stringField frame (js ''id'')) (\<lambda>ident.
        rbind (stringField frame (js ''code'')) (\<lambda>c.
        rbind (sendNakCode c) (\<lambda>code. Inr (Some (SendNak ident code)))))
      else if t = js ''rpc_result'' then
        rbind (stringField frame (js ''rid'')) (\<lambda>rid.
          Inr (Some (RpcResult rid (map_of frame (js ''result'')) (map_of frame (js ''error'')))))
      else if t = js ''ping'' then Inr (Some Ping)
      else Inr None)"

definition decodeWorkerFrame :: "(jstr \<Rightarrow> json option) \<Rightarrow> jstr \<Rightarrow> worker_frame option decoded" where
  "decodeWorkerFrame parse raw =
     rbind (parseJsonFrame parse raw) (\<lambda>(frame, t). worker_fields frame t)"

text \<open>The objects the hub gives to \<open>JSON.stringify\<close>; an absent field is \<open>undefined\<close> there.\<close>

definition frame_object :: "worker_frame \<Rightarrow> json_object" where
  "frame_object f =
     (case f of
        HelloOk h org \<Rightarrow> [(js ''t'', JStr (js ''hello_ok'')), (js ''host_id'', JStr h), (js ''org'', JStr org)]
      | HelloErr c \<Rightarrow> [(js ''t'', JStr (js ''hello_err'')), (js ''code'', JStr c)]
      | Deliver ident agent e \<Rightarrow>
          [(js ''t'', JStr (js ''deliver'')), (js ''id'', JStr ident), (js ''agent'', JStr agent),
           (js ''envelope'', JStr e)]
      | SendAck ident \<Rightarrow> [(js ''t'', JStr (js ''send_ack'')), (js ''id'', JStr ident)]
      | SendNak ident c \<Rightarrow>
          [(js ''t'', JStr (js ''send_nak'')), (js ''id'', JStr ident), (js ''code'', JStr (nak_code_text c))]
      | RpcResult rid r e \<Rightarrow>
          [(js ''t'', JStr (js ''rpc_result'')), (js ''rid'', JStr rid)] @
          (case r of None \<Rightarrow> [] | Some v \<Rightarrow> [(js ''result'', v)]) @
          (case e of None \<Rightarrow> [] | Some v \<Rightarrow> [(js ''error'', v)])
      | Ping \<Rightarrow> [(js ''t'', JStr (js ''ping''))])"


section \<open>Lemmas\<close>

lemma stringField_Inr [result_simps]:
  "stringField frame key = Inr s \<longleftrightarrow> map_of frame key = Some (JStr s)"
  by (auto simp: stringField_def split: option.splits json.splits)

lemma optionalStringField_Inr [result_simps]:
  "optionalStringField frame key = Inr v \<longleftrightarrow>
     map_of frame key = map_option JStr v"
  by (cases v) (auto simp: optionalStringField_def split: option.splits json.splits)

lemma booleanField_Inr [result_simps]:
  "booleanField frame key = Inr b \<longleftrightarrow> map_of frame key = Some (JBool b)"
  by (auto simp: booleanField_def split: option.splits json.splits)

lemma nak_code_text_inj: "nak_code_text c = nak_code_text d \<Longrightarrow> c = d"
  by (cases c; cases d; simp add: nak_code_text_def)

lemma sendNakCode_text: "sendNakCode (nak_code_text c) = Inr c"
  by (cases c) (simp_all add: sendNakCode_def nak_code_text_def)

lemma map_decode_Inr [result_simps]:
  "map_decode f xs = Inr ys \<longleftrightarrow> list_all2 (\<lambda>x y. f x = Inr y) xs ys"
  by (induction xs arbitrary: ys) (auto simp: result_simps list_all2_Cons1)

lemma map_decode_Inr_ex: "(\<forall>x \<in> set xs. \<exists>y. f x = Inr y) \<Longrightarrow> \<exists>ys. map_decode f xs = Inr ys"
  by (induction xs) fastforce+

lemma worker_fields_frame_object:
  "map_of (frame_object f) (js ''t'') = Some (JStr t) \<Longrightarrow> worker_fields (frame_object f) t = Inr (Some f)"
  by (cases f)
    (auto simp: frame_object_def worker_fields_def stringField_def sendNakCode_text js_inj
      simp del: js_simps split: option.splits)

lemma frame_object_t: "\<exists>t. map_of (frame_object f) (js ''t'') = Some (JStr t)"
  by (cases f) (auto simp: frame_object_def)


lemma invalid_frame_code [simp]: "we_code (invalid_frame m) = InvalidFrame"
  by (simp add: invalid_frame_def)

lemma fieldError [dest]:
  "stringField frame key = Inl e \<Longrightarrow> we_code e = InvalidFrame"
  "optionalStringField frame key = Inl e \<Longrightarrow> we_code e = InvalidFrame"
  "booleanField frame key = Inl e \<Longrightarrow> we_code e = InvalidFrame"
  by (auto simp: stringField_def optionalStringField_def booleanField_def
      split: option.splits json.splits)

lemma map_decode_error:
  "map_decode f xs = Inl e \<Longrightarrow> \<exists>x \<in> set xs. f x = Inl e"
  by (induction xs) (auto simp: result_simps)

lemma rosterAgent_error [dest]: "rosterAgent v = Inl e \<Longrightarrow> we_code e = InvalidFrame"
  by (auto simp: rosterAgent_def result_simps split: option.splits)

lemma decode_error [dest]:
  "decode_hello frame = Inl e \<Longrightarrow> we_code e = InvalidFrame"
  "decode_send frame = Inl e \<Longrightarrow> we_code e = InvalidFrame"
  "decode_deliver_ack frame = Inl e \<Longrightarrow> we_code e = InvalidFrame"
  "decode_deliver_nak frame = Inl e \<Longrightarrow> we_code e = InvalidFrame"
  "decode_rpc frame = Inl e \<Longrightarrow> we_code e = InvalidFrame"
  by (auto simp: decode_hello_def decode_send_def decode_deliver_ack_def decode_deliver_nak_def
      decode_rpc_def result_simps split: if_splits option.splits json.splits)

lemma decode_roster_error [dest]: "decode_roster frame = Inl e \<Longrightarrow> we_code e = InvalidFrame"
  by (auto simp: decode_roster_def Let_def result_simps split: option.splits json.splits
      dest: map_decode_error)

lemma decodeDaemonFrame_error:
  assumes "decodeDaemonFrame parse raw = Inl e" "parseJsonFrame parse raw = Inr (frame, t)"
  shows "we_code e = InvalidFrame"
  using assms by (auto simp: decodeDaemonFrame_def result_simps split: if_splits)

lemma parseJsonFrame_Inr:
  "parseJsonFrame parse raw = Inr (frame, t) \<longleftrightarrow>
     utf8_length raw \<le> MAX_WIRE_FRAME_BYTES \<and> parse raw = Some (JObj frame) \<and>
     map_of frame (js ''t'') = Some (JStr t)"
  by (auto simp: parseJsonFrame_def isObject_def split: option.splits json.splits)

lemma rosterAgent_Inr:
  "rosterAgent v = Inr a \<longleftrightarrow>
     (\<exists>o' label. v = JObj o' \<and> map_of o' (js ''named_by'') = Some (JStr label) \<and>
        ra_named_by a = (if label = js ''auto'' then NamedByAuto else NamedByUser) \<and>
        map_of o' (js ''name'') = Some (JStr (ra_name a)) \<and>
        map_of o' (js ''kind'') = Some (JStr (ra_kind a)) \<and>
        map_of o' (js ''pane_id'') = Some (JStr (ra_pane_id a)) \<and>
        map_of o' (js ''status'') = Some (JStr (ra_status a)) \<and>
        map_of o' (js ''cwd'') = Some (JStr (ra_cwd a)) \<and>
        map_of o' (js ''title'') = Some (JStr (ra_title a)))"
proof (cases v)
  case (JObj o')
  then show ?thesis
    unfolding rosterAgent_def isObject_def
    by (cases a) (auto simp: result_simps simp del: js_simps)
qed (simp_all add: rosterAgent_def isObject_def)

lemma decode_other_kinds:
  "decode_hello frame \<noteq> Inr (Roster as d)"
  "decode_send frame \<noteq> Inr (Roster as d)"
  "decode_deliver_ack frame \<noteq> Inr (Roster as d)"
  "decode_deliver_nak frame \<noteq> Inr (Roster as d)"
  "decode_rpc frame \<noteq> Inr (Roster as d)"
  by (auto simp: result_simps decode_hello_def decode_send_def decode_deliver_ack_def
      decode_deliver_nak_def decode_rpc_def split: option.splits json.splits)

lemma decodeDaemonFrame_Roster:
  "decodeDaemonFrame parse raw = Inr (Some (Roster as d)) \<longleftrightarrow>
     (\<exists>frame. parseJsonFrame parse raw = Inr (frame, js ''roster'') \<and>
        decode_roster frame = Inr (Roster as d))"
proof (intro iffI; (elim exE conjE)?)
  assume l: "decodeDaemonFrame parse raw = Inr (Some (Roster as d))"
  then obtain frame t where p: "parseJsonFrame parse raw = Inr (frame, t)"
    by (auto simp: decodeDaemonFrame_def rbind_Inr_iff)
  have "t = js ''roster'' \<and> decode_roster frame = Inr (Roster as d)"
    using l unfolding decodeDaemonFrame_def p rbind_simps prod.case
    by (simp add: result_simps decode_other_kinds split: if_splits del: js_simps)
  with p show "\<exists>frame. parseJsonFrame parse raw = Inr (frame, js ''roster'') \<and>
      decode_roster frame = Inr (Roster as d)" by blast
next
  fix frame
  assume "parseJsonFrame parse raw = Inr (frame, js ''roster'')"
    and "decode_roster frame = Inr (Roster as d)"
  moreover have "js ''roster'' \<noteq> js ''hello''" by simp
  ultimately show "decodeDaemonFrame parse raw = Inr (Some (Roster as d))"
    unfolding decodeDaemonFrame_def by (simp del: js_simps)
qed

lemma decode_roster_Inr:
  "decode_roster frame = Inr (Roster as d) \<longleftrightarrow>
     d = reported_dead frame \<and>
     (as = [] \<and> map_of frame (js ''agents'') \<in> {None, Some JNull} \<or>
      (\<exists>vs. map_of frame (js ''agents'') = Some (JArr vs) \<and>
            list_all2 (\<lambda>v a. rosterAgent v = Inr a) vs as))"
proof (cases "map_of frame (js ''agents'')")
  case (Some v)
  then show ?thesis
    by (cases v) (auto simp: decode_roster_def Let_def result_simps simp del: js_simps)
qed (auto simp: decode_roster_def Let_def)

section \<open>Properties\<close>

text \<open>
  C37: what the Worker writes, a peer reads back: if \<open>JSON.parse\<close> undoes \<open>JSON.stringify\<close> on the
  text of a Worker frame of at most 1 MiB, the decoder returns exactly that frame, whichever of
  the seven kinds it is.
\<close>
theorem worker_frame_roundtrip:
  assumes "parse raw = Some (JObj (frame_object f))" and "utf8_length raw \<le> MAX_WIRE_FRAME_BYTES"
  shows "decodeWorkerFrame parse raw = Inr (Some f)"
proof -
  obtain t where t: "map_of (frame_object f) (js ''t'') = Some (JStr t)"
    using frame_object_t by blast
  then have "parseJsonFrame parse raw = Inr (frame_object f, t)"
    using assms by (simp add: parseJsonFrame_Inr)
  with worker_fields_frame_object [OF t] show ?thesis
    by (simp add: decodeWorkerFrame_def)
qed

lemma worker_frame_roundtrip_witness:
  "decodeWorkerFrame (\<lambda>s. if s = js ''x'' then Some (JObj (frame_object (SendNak (js ''m'') RateLimited))) else None)
     (js ''x'') = Inr (Some (SendNak (js ''m'') RateLimited))"
  by (rule worker_frame_roundtrip) (simp_all add: MAX_WIRE_FRAME_BYTES_def)

text \<open>
  exactly which texts are a roster. The frame must fit in 1 MiB, be an object of type
  \<open>roster\<close>, and every listed agent must have its structural fields; an absent or null list is the
  empty roster, an unknown \<open>named_by\<close> reads as \<open>user\<close>, and no value of \<open>dead\<close> is a reason to refuse.
\<close>
theorem roster_accepted_iff:
  "decodeDaemonFrame parse raw = Inr (Some (Roster as d)) \<longleftrightarrow>
     utf8_length raw \<le> MAX_WIRE_FRAME_BYTES \<and>
     (\<exists>frame. parse raw = Some (JObj frame) \<and> map_of frame (js ''t'') = Some (JStr (js ''roster'')) \<and>
        d = reported_dead frame \<and>
        (as = [] \<and> map_of frame (js ''agents'') \<in> {None, Some JNull} \<or>
         (\<exists>vs. map_of frame (js ''agents'') = Some (JArr vs) \<and>
               list_all2 (\<lambda>v a. rosterAgent v = Inr a) vs as)))"
  unfolding decodeDaemonFrame_Roster parseJsonFrame_Inr decode_roster_Inr by blast

text \<open>
  the three error codes are exact: \<open>frame_too_large\<close> if and only if the text is over 1 MiB,
  whatever it holds; \<open>invalid_json\<close> if and only if it is not and \<open>JSON.parse\<close> throws; every other
  refusal is \<open>invalid_frame\<close>, and a frame type this side does not know is never an error.
\<close>
theorem decode_error_codes:
  "((\<exists>e. decodeDaemonFrame parse raw = Inl e \<and> we_code e = FrameTooLarge) \<longleftrightarrow>
      1048576 < utf8_length raw) \<and>
   ((\<exists>e. decodeDaemonFrame parse raw = Inl e \<and> we_code e = InvalidJson) \<longleftrightarrow>
      utf8_length raw \<le> 1048576 \<and> parse raw = None)"
proof (cases "parseJsonFrame parse raw")
  case (Inl e)
  then have "decodeDaemonFrame parse raw = Inl e"
    by (simp add: decodeDaemonFrame_def)
  with Inl show ?thesis
    by (auto simp: parseJsonFrame_def MAX_WIRE_FRAME_BYTES_def split: if_splits option.splits json.splits)
next
  case (Inr ft)
  obtain frame t where ft: "ft = (frame, t)" by (cases ft)
  have "we_code e = InvalidFrame" if "decodeDaemonFrame parse raw = Inl e" for e
    using decodeDaemonFrame_error [OF that] Inr ft by blast
  with Inr show ?thesis
    unfolding ft parseJsonFrame_Inr by (auto simp: MAX_WIRE_FRAME_BYTES_def)
qed

end
