(* ===== verification/Rate_Limits.thy ===== *)
theory Rate_Limits
  imports Prelude Complex_Main
begin

text \<open>
  \<^verbatim>\<open>src/lib/transit/token-bucket.ts\<close> and \<^verbatim>\<open>src/lib/transit/alarm-budget.ts\<close>. Times are integers in
  milliseconds, token counts exact rationals (the code's are doubles). Each operation takes the
  clock's value as an argument. The contract the two limiters share, that what they admit over
  any stretch of time is bounded, is the locale \<open>limiter\<close>.
\<close>

section \<open>The token bucket\<close>

record token_bucket_state =
  tokens :: rat
  updatedAt :: int

definition consumeToken ::
  "token_bucket_state \<Rightarrow> rat \<Rightarrow> rat \<Rightarrow> int \<Rightarrow> token_bucket_state \<times> bool" where
  "consumeToken state refillPerSecond capacity now =
     (let elapsedSeconds = of_int (max 0 (now - updatedAt state)) / 1000;
          level = min capacity (tokens state + elapsedSeconds * refillPerSecond)
      in if level < 1 then (\<lparr>tokens = level, updatedAt = now\<rparr>, False)
         else (\<lparr>tokens = level - 1, updatedAt = now\<rparr>, True))"

definition consumeStoredToken ::
  "('k::linorder, token_bucket_state) store \<Rightarrow> 'k \<Rightarrow> rat \<Rightarrow> rat \<Rightarrow> int \<Rightarrow>
     ('k, token_bucket_state) store \<times> bool" where
  "consumeStoredToken storage key refillPerSecond capacity now =
     (let state = (case kv_get storage key of
                     None \<Rightarrow> \<lparr>tokens = capacity, updatedAt = now\<rparr> | Some s \<Rightarrow> s);
          (state', allowed) = consumeToken state refillPerSecond capacity now
      in (kv_put key state' storage, allowed))"

record token_bucket =
  tb_refillPerSecond :: rat
  tb_capacity :: rat
  tb_state :: token_bucket_state

datatype bucket_error = RatesMustBePositive

definition new_TokenBucket :: "rat \<Rightarrow> rat \<Rightarrow> int \<Rightarrow> bucket_error + token_bucket" where
  "new_TokenBucket refillPerSecond capacity now =
     (if refillPerSecond \<le> 0 \<or> capacity \<le> 0 then Inl RatesMustBePositive
      else Inr \<lparr>tb_refillPerSecond = refillPerSecond, tb_capacity = capacity,
                tb_state = \<lparr>tokens = capacity, updatedAt = now\<rparr>\<rparr>)"

definition take_token :: "token_bucket \<Rightarrow> int \<Rightarrow> token_bucket \<times> bool" where
  "take_token b now =
     (let (s, allowed) = consumeToken (tb_state b) (tb_refillPerSecond b) (tb_capacity b) now
      in (b\<lparr>tb_state := s\<rparr>, allowed))"


section \<open>The alarm budget\<close>

definition ALARM_BUDGET_PER_HOUR :: nat where "ALARM_BUDGET_PER_HOUR = 120"
definition POLL_ALARM_BUDGET_PER_HOUR :: nat where "POLL_ALARM_BUDGET_PER_HOUR = 900"
definition HOUR_MS :: int where "HOUR_MS = 60 * 60 * 1000"

record alarm_budget_status =
  hourStart :: int
  resumeAt :: int

text \<open>
  The keys the budget owns in a Durable Object's storage, and its alarm. The count and resume
  keys carry the hour in their name, here as the key of the store.
\<close>

record alarm_state =
  ab_current_hour :: "int option"
  ab_count :: "(int, nat) store"
  ab_resume :: "(int, bool) store"
  ab_exhausted :: "alarm_budget_status option"
  ab_alarm :: "int option"

definition new_alarm_state :: alarm_state where
  "new_alarm_state = \<lparr>ab_current_hour = None, ab_count = [], ab_resume = [], ab_exhausted = None,
     ab_alarm = None\<rparr>"

definition hour_start :: "int \<Rightarrow> int" where
  "hour_start now = (now div HOUR_MS) * HOUR_MS"

definition open_hour :: "int \<Rightarrow> alarm_state \<Rightarrow> alarm_state" where
  "open_hour h st =
     (if ab_current_hour st = Some h then st
      else (case ab_current_hour st of
              None \<Rightarrow> st
            | Some p \<Rightarrow> st\<lparr>ab_count := kv_del p (ab_count st), ab_resume := kv_del p (ab_resume st)\<rparr>)
           \<lparr>ab_current_hour := Some h, ab_exhausted := None\<rparr>)"

definition budgetedAlarm :: "int \<Rightarrow> int \<Rightarrow> nat \<Rightarrow> alarm_state \<Rightarrow> alarm_state \<times> bool" where
  "budgetedAlarm now atMs limit st =
     (let h = hour_start now;
          resume = h + HOUR_MS;
          st1 = open_hour h st;
          count = (case kv_get (ab_count st1) h of None \<Rightarrow> 0 | Some n \<Rightarrow> n)
      in if limit \<le> count then
           let st2 = st1\<lparr>ab_exhausted := Some \<lparr>hourStart = h, resumeAt = resume\<rparr>\<rparr>
           in (if kv_get (ab_resume st2) h = Some True then st2
               else st2\<lparr>ab_alarm := Some resume, ab_resume := kv_put h True (ab_resume st2)\<rparr>, False)
         else (st1\<lparr>ab_count := kv_put h (count + 1) (ab_count st1), ab_alarm := Some atMs\<rparr>, True))"

definition alarmBudgetStatus :: "alarm_state \<Rightarrow> alarm_budget_status option" where
  "alarmBudgetStatus st = ab_exhausted st"


section \<open>The contract of a limiter\<close>

text \<open>
  A limiter has a credit that a request spends and time restores. \<open>admitted\<close> counts the requests
  it lets through at the given times; \<open>tick\<close> is the unit in which time restores credit.
\<close>

fun after_requests :: "(int \<Rightarrow> 's \<Rightarrow> 's \<times> bool) \<Rightarrow> int list \<Rightarrow> 's \<Rightarrow> 's" where
  "after_requests request [] s = s"
| "after_requests request (t # ts) s = after_requests request ts (fst (request t s))"

fun admitted :: "(int \<Rightarrow> 's \<Rightarrow> 's \<times> bool) \<Rightarrow> int list \<Rightarrow> 's \<Rightarrow> nat" where
  "admitted request [] s = 0"
| "admitted request (t # ts) s =
     (if snd (request t s) then 1 else 0) + admitted request ts (fst (request t s))"

locale limiter =
  fixes request :: "int \<Rightarrow> 's \<Rightarrow> 's \<times> bool"
    and credit :: "'s \<Rightarrow> rat"
    and clock :: "'s \<Rightarrow> int"
    and ok :: "'s \<Rightarrow> bool"
    and tick :: "int \<Rightarrow> int"
    and rate :: rat
  assumes ok_request: "ok s \<Longrightarrow> clock s \<le> tick now \<Longrightarrow> ok (fst (request now s))"
    and credit_nonneg: "ok s \<Longrightarrow> 0 \<le> credit s"
    and clock_request: "ok s \<Longrightarrow> clock s \<le> tick now \<Longrightarrow> clock (fst (request now s)) = tick now"
    and spends: "ok s \<Longrightarrow> clock s \<le> tick now \<Longrightarrow>
      credit (fst (request now s)) + (if snd (request now s) then 1 else 0) \<le>
        credit s + rate * of_int (tick now - clock s)"
    and tick_mono: "t \<le> t' \<Longrightarrow> tick t \<le> tick t'"
begin

lemma admitted_bound:
  assumes "ok s" "sorted (t0 # ts)" "clock s = tick t0"
  shows "of_nat (admitted request ts s) \<le> credit s + rate * of_int (tick (last (t0 # ts)) - tick t0)"
  using assms
proof (induction ts arbitrary: s t0)
  case Nil
  then show ?case using credit_nonneg by simp
next
  case (Cons t ts)
  let ?s = "fst (request t s)"
  have le: "clock s \<le> tick t" using Cons.prems tick_mono by simp
  have ok': "ok ?s" and ck: "clock ?s = tick t"
    using ok_request [OF Cons.prems(1) le] clock_request [OF Cons.prems(1) le] by auto
  have "of_nat (admitted request ts ?s) \<le> credit ?s + rate * of_int (tick (last (t # ts)) - tick t)"
    using Cons.IH [OF ok' _ ck] Cons.prems(2) by simp
  moreover have "credit ?s + (if snd (request t s) then 1 else 0) \<le>
      credit s + rate * of_int (tick t - tick t0)"
    using spends [OF Cons.prems(1) le] Cons.prems(3) by simp
  moreover have "rate * of_int (tick (last (t # ts)) - tick t) + rate * of_int (tick t - tick t0) =
      rate * of_int (tick (last (t0 # t # ts)) - tick t0)"
    by (simp add: algebra_simps)
  ultimately show ?case by (simp split: if_splits)
qed

lemma ok_after:
  assumes "ok s" "sorted (t0 # ts)" "clock s = tick t0"
  shows "ok (after_requests request ts s)"
  using assms
proof (induction ts arbitrary: s t0)
  case (Cons t ts)
  have le: "clock s \<le> tick t" using Cons.prems tick_mono by simp
  then show ?case
    using Cons.IH [of "fst (request t s)" t] ok_request [OF Cons.prems(1) le]
      clock_request [OF Cons.prems(1) le] Cons.prems(2) by simp
qed simp

end


section \<open>The token bucket is a limiter\<close>

definition bucket_ok :: "token_bucket \<Rightarrow> bool" where
  "bucket_ok b \<longleftrightarrow> 0 < tb_refillPerSecond b \<and> 0 < tb_capacity b \<and>
     0 \<le> tokens (tb_state b) \<and> tokens (tb_state b) \<le> tb_capacity b"

definition state_ok :: "rat \<Rightarrow> token_bucket_state \<Rightarrow> bool" where
  "state_ok capacity s \<longleftrightarrow> 0 \<le> tokens s \<and> tokens s \<le> capacity"

lemma consumeToken_ok:
  assumes "0 \<le> r" "0 \<le> c" "state_ok c s"
  shows "state_ok c (fst (consumeToken s r c now))"
  using assms by (auto simp: consumeToken_def state_ok_def Let_def min_def)

lemma consumeToken_clock: "updatedAt (fst (consumeToken s r c now)) = now"
  by (simp add: consumeToken_def Let_def)

lemma consumeToken_spends:
  assumes "0 \<le> r" "updatedAt s \<le> now"
  shows "tokens (fst (consumeToken s r c now)) + (if snd (consumeToken s r c now) then 1 else 0) \<le>
    tokens s + r / 1000 * of_int (now - updatedAt s)"
  using assms by (auto simp: consumeToken_def Let_def min_def field_simps)

lemma consumeToken_allows:
  "snd (consumeToken s r c now) \<longleftrightarrow>
     1 \<le> c \<and> 1 \<le> tokens s + of_int (max 0 (now - updatedAt s)) / 1000 * r"
  by (auto simp: consumeToken_def Let_def min_def)

interpretation bucket: limiter
  "\<lambda>now s. consumeToken s r c now" tokens updatedAt "\<lambda>s. 0 \<le> r \<and> 0 \<le> c \<and> state_ok c s" "\<lambda>t. t"
  "r / 1000" for r c
proof unfold_locales
  fix s :: token_bucket_state and now :: int
  assume "0 \<le> r \<and> 0 \<le> c \<and> state_ok c s" "updatedAt s \<le> now"
  then show "tokens (fst (consumeToken s r c now)) + (if snd (consumeToken s r c now) then 1 else 0) \<le>
      tokens s + r / 1000 * of_int (now - updatedAt s)"
    by (intro consumeToken_spends) auto
qed (auto simp: consumeToken_clock consumeToken_ok, auto simp: state_ok_def)

lemma consumeStoredToken_eq:
  "consumeStoredToken st k r c now =
     (let s = (case kv_get st k of None \<Rightarrow> \<lparr>tokens = c, updatedAt = now\<rparr> | Some s \<Rightarrow> s)
      in (kv_put k (fst (consumeToken s r c now)) st, snd (consumeToken s r c now)))"
  by (simp add: consumeStoredToken_def Let_def split_def)


section \<open>The alarm budget is a limiter\<close>

definition spent :: "alarm_state \<Rightarrow> nat" where
  "spent st = (case ab_current_hour st of None \<Rightarrow> 0
     | Some h \<Rightarrow> (case kv_get (ab_count st) h of None \<Rightarrow> 0 | Some n \<Rightarrow> n))"

definition hour_index :: "alarm_state \<Rightarrow> int" where
  "hour_index st = (case ab_current_hour st of None \<Rightarrow> 0 | Some h \<Rightarrow> h div HOUR_MS)"

definition alarm_ok :: "nat \<Rightarrow> alarm_state \<Rightarrow> bool" where
  "alarm_ok limit st \<longleftrightarrow>
     (\<exists>i. ab_current_hour st = Some (i * HOUR_MS)) \<and> spent st \<le> limit \<and>
     (\<forall>h. kv_get (ab_count st) h \<noteq> None \<longrightarrow> Some h = ab_current_hour st) \<and>
     (\<forall>h. kv_get (ab_resume st) h \<noteq> None \<longrightarrow> Some h = ab_current_hour st)"

lemma HOUR_pos [simp]: "0 < HOUR_MS" "HOUR_MS \<noteq> 0"
  by (simp_all add: HOUR_MS_def)

lemma hour_start_div [simp]: "hour_start now div HOUR_MS = now div HOUR_MS"
  by (simp add: hour_start_def)

lemma alarm_simps [simp]:
  "ab_current_hour (open_hour h st) = Some h"
  "ab_alarm (open_hour h st) = ab_alarm st"
  "ab_current_hour (fst (budgetedAlarm now wake limit st)) = Some (hour_start now)"
  by (auto simp: open_hour_def budgetedAlarm_def Let_def split: option.splits)

lemma open_hour_idem: "open_hour h (open_hour h st) = open_hour h st"
  by (simp add: open_hour_def [of h "open_hour h st"])

lemma open_hour_counts:
  assumes "\<forall>h. kv_get (ab_count st) h \<noteq> None \<longrightarrow> Some h = ab_current_hour st"
  shows "kv_get (ab_count (open_hour h st)) h' =
    (if ab_current_hour st = Some h then kv_get (ab_count st) h' else None)"
  using assms by (auto simp: open_hour_def store_simps split: option.splits; metis option.exhaust)

lemma open_hour_resumes:
  assumes "\<forall>h. kv_get (ab_resume st) h \<noteq> None \<longrightarrow> Some h = ab_current_hour st"
  shows "kv_get (ab_resume (open_hour h st)) h' =
    (if ab_current_hour st = Some h then kv_get (ab_resume st) h' else None)"
  using assms by (auto simp: open_hour_def store_simps split: option.splits; metis option.exhaust)

text \<open>What one request does to the count of its hour.\<close>

lemma budgetedAlarm_allows:
  "snd (budgetedAlarm now wake limit st) \<longleftrightarrow> spent (open_hour (hour_start now) st) < limit"
  by (auto simp: budgetedAlarm_def Let_def spent_def split: option.splits)

lemma budgetedAlarm_spent:
  "spent (fst (budgetedAlarm now wake limit st)) =
     spent (open_hour (hour_start now) st) + (if snd (budgetedAlarm now wake limit st) then 1 else 0)"
  by (auto simp: budgetedAlarm_def Let_def spent_def store_simps split: option.splits)

lemma spent_open_hour:
  "alarm_ok limit st \<Longrightarrow>
   spent (open_hour h st) = (if ab_current_hour st = Some h then spent st else 0)"
  by (auto simp: spent_def alarm_ok_def open_hour_counts)

lemma budgetedAlarm_ok:
  assumes "alarm_ok limit st"
  shows "alarm_ok limit (fst (budgetedAlarm now wake limit st))"
proof -
  let ?h = "hour_start now" and ?st' = "fst (budgetedAlarm now wake limit st)"
  have c: "\<forall>h. kv_get (ab_count (open_hour ?h st)) h \<noteq> None \<longrightarrow> h = ?h"
    and r: "\<forall>h. kv_get (ab_resume (open_hour ?h st)) h \<noteq> None \<longrightarrow> h = ?h"
    using assms by (auto simp: alarm_ok_def open_hour_counts open_hour_resumes)
  have "spent ?st' \<le> limit"
    using assms budgetedAlarm_allows [of now wake limit st]
    by (auto simp: budgetedAlarm_spent spent_open_hour alarm_ok_def split: if_splits)
  moreover have "\<forall>h. kv_get (ab_count ?st') h \<noteq> None \<longrightarrow> h = ?h"
    using c by (auto simp: budgetedAlarm_def Let_def store_simps)
  moreover have "\<forall>h. kv_get (ab_resume ?st') h \<noteq> None \<longrightarrow> h = ?h"
    using r by (auto simp: budgetedAlarm_def Let_def store_simps)
  ultimately show ?thesis
    unfolding alarm_ok_def alarm_simps by (auto simp: hour_start_def)
qed

interpretation alarms: limiter
  "\<lambda>now st. budgetedAlarm now (wake now) limit st" "\<lambda>st. of_nat limit - of_nat (spent st)" hour_index
  "alarm_ok limit" "\<lambda>t. t div HOUR_MS" "of_nat limit" for wake limit
proof unfold_locales
  fix st :: alarm_state and now :: int
  assume ok: "alarm_ok limit st" and le: "hour_index st \<le> now div HOUR_MS"
  let ?r = "budgetedAlarm now (wake now) limit st"
  show "alarm_ok limit (fst ?r)" using ok by (rule budgetedAlarm_ok)
  show "hour_index (fst ?r) = now div HOUR_MS" by (simp add: hour_index_def)
  obtain i where i: "ab_current_hour st = Some (i * HOUR_MS)" "hour_index st = i"
    using ok by (auto simp: alarm_ok_def hour_index_def)
  show "of_nat limit - of_nat (spent (fst ?r)) + (if snd ?r then 1 else 0) \<le>
      of_nat limit - of_nat (spent st) + (of_nat limit :: rat) * of_int (now div HOUR_MS - hour_index st)"
  proof (cases "now div HOUR_MS = i")
    case True
    then show ?thesis
      using i by (simp add: budgetedAlarm_spent spent_open_hour [OF ok] hour_start_def)
  next
    case False
    then have step: "1 \<le> now div HOUR_MS - hour_index st" using le i by simp
    have "(of_nat limit :: rat) * 1 \<le> of_nat limit * of_int (now div HOUR_MS - hour_index st)"
      using step by (intro mult_left_mono) (auto simp flip: of_int_diff)
    moreover have "(of_nat (spent st) :: rat) \<le> of_nat limit"
      using ok by (simp add: alarm_ok_def)
    moreover have "spent (open_hour (hour_start now) st) = 0"
      using False i by (auto simp: spent_open_hour [OF ok] hour_start_def)
    ultimately show ?thesis by (simp add: budgetedAlarm_spent)
  qed
qed (auto simp: alarm_ok_def zdiv_mono1)

section \<open>Properties\<close>

text \<open>
  C35: a token bucket bounds what it admits. Started full, a bucket of positive capacity and rate
  admits at most its capacity plus what the elapsed time refills, whatever the times of the
  requests; the hub's frame limiter is such a bucket with 50 per second and bursts of 100.
\<close>
theorem token_bucket_bound:
  assumes "new_TokenBucket r c t0 = Inr b" and "sorted (t0 # ts)"
  shows "of_nat (admitted (\<lambda>now s. consumeToken s r c now) ts (tb_state b)) \<le>
    c + r / 1000 * of_int (last (t0 # ts) - t0)"
proof -
  have "0 \<le> r \<and> 0 \<le> c \<and> state_ok c (tb_state b)" and t: "tokens (tb_state b) = c" "updatedAt (tb_state b) = t0"
    using assms(1) by (auto simp: new_TokenBucket_def state_ok_def split: if_splits)
  then show ?thesis using bucket.admitted_bound [of r c "tb_state b" t0 ts] assms(2) t by simp
qed

lemma token_bucket_bound_witness:
  "of_nat (admitted (\<lambda>now s. consumeToken s 50 100 now) [0, 10, 1000] \<lparr>tokens = 100, updatedAt = 0\<rparr>) \<le>
     (100 :: rat) + 50 / 1000 * of_int (1000 - 0)"
  using token_bucket_bound [of 50 100 0 "\<lparr>tb_refillPerSecond = 50, tb_capacity = 100,
      tb_state = \<lparr>tokens = 100, updatedAt = 0\<rparr>\<rparr>" "[0, 10, 1000]"]
  by (simp add: new_TokenBucket_def)

text \<open>
  the alarm budget holds. In a new object, requests at any non-decreasing times for any alarm
  times arm at most \<open>limit\<close> alarms for each hour they touch.
\<close>
theorem alarm_budget_bound:
  assumes "sorted (t0 # ts)"
  shows "admitted (\<lambda>now st. budgetedAlarm now (wake now) limit st) (t0 # ts) new_alarm_state \<le>
    limit * nat (last (t0 # ts) div HOUR_MS - t0 div HOUR_MS + 1)"
proof -
  let ?s = "open_hour (hour_start t0) new_alarm_state"
  let ?req = "\<lambda>now st. budgetedAlarm now (wake now) limit st"
  let ?n = "last (t0 # ts) div HOUR_MS - t0 div HOUR_MS"
  have first: "?req t0 new_alarm_state = ?req t0 ?s"
    by (simp add: budgetedAlarm_def open_hour_idem)
  have sp: "spent ?s = 0" and ck: "hour_index ?s = t0 div HOUR_MS" and ok: "alarm_ok limit ?s"
    by (auto simp: spent_def hour_index_def alarm_ok_def open_hour_def new_alarm_state_def hour_start_def)
  have "sorted (t0 # t0 # ts)" using assms by simp
  from alarms.admitted_bound [OF ok this ck, where wake = wake] sp
  have b: "of_nat (admitted ?req (t0 # ts) ?s) \<le> (of_nat limit :: rat) + of_nat limit * of_int ?n"
    by simp
  have "t0 \<le> last (t0 # ts)" using assms by (cases ts rule: rev_cases) auto
  then have n: "0 \<le> ?n" by (simp add: zdiv_mono1)
  then have "(of_nat limit :: rat) + of_nat limit * of_int ?n = of_nat (limit * nat (?n + 1))"
    by (simp add: nat_add_distrib algebra_simps)
  with b have "admitted ?req (t0 # ts) ?s \<le> limit * nat (?n + 1)" by (simp only: of_nat_le_iff)
  then show ?thesis by (simp add: first)
qed

lemma alarm_budget_bound_witness:
  "admitted (\<lambda>now st. budgetedAlarm now (now + 5) 1 st) [0, 10, 20] new_alarm_state \<le>
     1 * nat (20 div HOUR_MS - 0 div HOUR_MS + 1)"
  using alarm_budget_bound [of 0 "[10, 20]" "\<lambda>now. now + 5" 1] by simp

text \<open>
  an exhausted hour wakes once, at its end. A refused request in a well-formed state leaves the
  exhausted status recorded, and every later request of the same hour is refused and leaves the
  whole state, the alarm included, as it was.
\<close>
theorem exhausted_hour_is_quiet:
  assumes "\<not> snd (budgetedAlarm now wake limit st)" and "hour_start now' = hour_start now"
  defines "st1 \<equiv> fst (budgetedAlarm now wake limit st)"
  shows "alarmBudgetStatus st1 = Some \<lparr>hourStart = hour_start now, resumeAt = hour_start now + HOUR_MS\<rparr> \<and>
    budgetedAlarm now' wake' limit st1 = (st1, False)"
proof -
  let ?h = "hour_start now" and ?o = "open_hour (hour_start now) st"
  let ?x = "?o\<lparr>ab_exhausted := Some \<lparr>hourStart = ?h, resumeAt = ?h + HOUR_MS\<rparr>\<rparr>"
  have lim: "limit \<le> (case kv_get (ab_count ?o) ?h of None \<Rightarrow> 0 | Some n \<Rightarrow> n)"
    using assms(1) by (auto simp: budgetedAlarm_def Let_def split: if_splits)
  then have st1: "st1 = (if kv_get (ab_resume ?x) ?h = Some True then ?x
      else ?x\<lparr>ab_alarm := Some (?h + HOUR_MS), ab_resume := kv_put ?h True (ab_resume ?x)\<rparr>)"
    by (simp add: st1_def budgetedAlarm_def Let_def)
  have hour: "ab_current_hour ?o = Some ?h" by (simp add: open_hour_def split: option.splits)
  have "open_hour ?h st1 = st1" and "ab_count st1 = ab_count ?o" and res: "kv_get (ab_resume st1) ?h = Some True"
     and ex: "st1\<lparr>ab_exhausted := Some \<lparr>hourStart = ?h, resumeAt = ?h + HOUR_MS\<rparr>\<rparr> = st1"
    using hour by (simp_all add: st1 open_hour_def store_simps)
  then show ?thesis
    using lim assms(2) by (simp add: budgetedAlarm_def Let_def alarmBudgetStatus_def st1)
qed

lemma exhausted_hour_is_quiet_witness:
  "budgetedAlarm 20 7 1 (fst (budgetedAlarm 10 6 1 (fst (budgetedAlarm 0 5 1 new_alarm_state)))) =
     (fst (budgetedAlarm 10 6 1 (fst (budgetedAlarm 0 5 1 new_alarm_state))), False)"
proof -
  have "\<not> snd (budgetedAlarm 10 6 1 (fst (budgetedAlarm 0 5 1 new_alarm_state)))" "hour_start 20 = hour_start 10"
    by code_simp+
  then show ?thesis using exhausted_hour_is_quiet [of 10 6 1 _ 20 7] by blast
qed

end
