(* ===== verification/Database.thy ===== *)
theory Database
  imports Js_Text
begin

text \<open>
  The D1 tables of \<^verbatim>\<open>src/db/app-schema.ts\<close> (and the two organization tables of
  \<^verbatim>\<open>src/db/schema.ts\<close> that the Transit code reads): one record per table, a database as one
  list of rows per table in insertion order, the unique indices and checks as a predicate, and
  the three ways the code writes a row (\<open>INSERT OR IGNORE\<close>, \<open>ON CONFLICT DO UPDATE\<close>,
  \<open>UPDATE ... WHERE\<close>). \<open>Stored booleans\<close> and enumerations are datatypes; JSON columns are
  the values they hold. Times are integers in milliseconds.
\<close>

record organization_row =
  org_id :: jstr
  org_name :: jstr
  org_slug :: jstr

record member_row =
  mem_organizationId :: jstr
  mem_userId :: jstr
  mem_role :: jstr
  mem_createdAt :: int

record host_row =
  h_id :: jstr
  h_orgId :: jstr
  h_slug :: jstr
  h_tokenHash :: jstr
  h_tokenIssuedAt :: int
  h_daemonVer :: jstr
  h_lastSeenAt :: "int option"
  h_revokedAt :: "int option"

record agent_client_row =
  ac_clientId :: jstr
  ac_orgId :: jstr
  ac_host :: jstr
  ac_name :: jstr
  ac_secretHash :: jstr
  ac_createdAt :: int
  ac_lastUsedAt :: "int option"
  ac_revokedAt :: "int option"

record person_address_row =
  pa_orgId :: jstr
  pa_userId :: jstr
  pa_host :: jstr
  pa_name :: jstr
  pa_createdAt :: int

record enroll_code_row =
  ec_codeHash :: jstr
  ec_orgId :: jstr
  ec_slug :: jstr
  ec_expiresAt :: int
  ec_usedAt :: "int option"

record device_authorization_row =
  dv_deviceCodeHash :: jstr
  dv_userCode :: jstr
  dv_orgId :: "jstr option"
  dv_slug :: "jstr option"
  dv_hostname :: jstr
  dv_daemonVer :: jstr
  dv_expiresAt :: int
  dv_approvedAt :: "int option"
  dv_claimedAt :: "int option"
  dv_polledAt :: "int option"

record agent_snapshot_row =
  as_hostId :: jstr
  as_name :: jstr
  as_kind :: jstr
  as_paneId :: jstr
  as_status :: jstr
  as_namedByAuto :: bool
  as_title :: jstr
  as_cwd :: jstr
  as_updatedAt :: int

datatype room_policy = Open | Invite

record room_row =
  rm_orgId :: jstr
  rm_name :: jstr
  rm_policy :: room_policy
  rm_createdAt :: int

record room_member_row =
  mb_orgId :: jstr
  mb_memberOrgId :: jstr
  mb_room :: jstr
  mb_address :: jstr
  mb_joinedAt :: int

datatype message_kind = KindDm | KindRoom

record message_row =
  ms_id :: jstr
  ms_orgId :: jstr
  ms_recipientOrgId :: "jstr option"
  ms_kind :: message_kind
  ms_fromAddr :: jstr
  ms_toAddr :: jstr
  ms_roomSeq :: "nat option"
  ms_body :: jstr
  ms_replyTo :: "jstr option"
  ms_createdAt :: int

datatype ledger_status = LedgerQueued | LedgerInjected | LedgerDead

record message_delivery_row =
  md_messageId :: jstr
  md_targetAddr :: jstr
  md_status :: ledger_status
  md_attempts :: nat
  md_lastError :: "jstr option"
  md_via :: "jstr option"
  md_updatedAt :: int

record integration_row =
  in_id :: jstr
  in_orgId :: jstr
  in_connector :: jstr
  in_name :: jstr
  in_configEnc :: jstr
  in_targetAddr :: jstr
  in_active :: bool
  in_createdAt :: int

record integration_event_row =
  iv_id :: jstr
  iv_integrationId :: jstr
  iv_eventKey :: jstr
  iv_conversationId :: jstr
  iv_user :: "jstr option"
  iv_trigger :: "jstr option"
  iv_content :: jstr
  iv_metaJson :: "(jstr \<times> jstr) list"
  iv_receivedAt :: int

datatype delivery_status = Pending | Dispatched | Read | Replied | Handled | Dead

record integration_delivery_row =
  id_id :: jstr
  id_eventId :: jstr
  id_targetAddr :: jstr
  id_status :: delivery_status
  id_attempts :: nat
  id_injections :: nat
  id_wireSends :: nat
  id_readAt :: "int option"
  id_settledAt :: "int option"
  id_via :: "jstr option"
  id_createdAt :: int

record integration_reply_row =
  ir_deliveryId :: jstr
  ir_message :: jstr
  ir_replyMode :: "jstr option"
  ir_postedAt :: "int option"
  ir_postError :: "jstr option"
  ir_createdAt :: int

record ingest_source_row =
  src_orgId :: jstr
  src_source :: jstr
  src_secretEnc :: jstr
  src_replyUrl :: "jstr option"
  src_replyUrlPrefixes :: "jstr list"
  src_instructions :: "jstr option"
  src_createdAt :: int

datatype connection_status = ConnPending | ConnActive

record organization_connection_row =
  oc_id :: jstr
  oc_orgAId :: jstr
  oc_orgBId :: jstr
  oc_requestedByOrgId :: jstr
  oc_status :: connection_status
  oc_createdAt :: int
  oc_acceptedAt :: "int option"

record d1 =
  organizations :: "organization_row list"
  members :: "member_row list"
  hosts :: "host_row list"
  agent_clients :: "agent_client_row list"
  person_addresses :: "person_address_row list"
  enroll_codes :: "enroll_code_row list"
  device_authorizations :: "device_authorization_row list"
  agent_snapshots :: "agent_snapshot_row list"
  rooms :: "room_row list"
  room_members :: "room_member_row list"
  messages :: "message_row list"
  message_deliveries :: "message_delivery_row list"
  integrations :: "integration_row list"
  integration_events :: "integration_event_row list"
  integration_deliveries :: "integration_delivery_row list"
  integration_replies :: "integration_reply_row list"
  ingest_sources :: "ingest_source_row list"
  organization_connections :: "organization_connection_row list"

definition empty_d1 :: d1 where
  "empty_d1 = \<lparr>organizations = [], members = [], hosts = [], agent_clients = [], person_addresses = [],
     enroll_codes = [], device_authorizations = [], agent_snapshots = [], rooms = [], room_members = [],
     messages = [], message_deliveries = [], integrations = [], integration_events = [],
     integration_deliveries = [], integration_replies = [], ingest_sources = [], organization_connections = []\<rparr>"


section \<open>Writing rows\<close>

definition insert_or_ignore :: "('r \<Rightarrow> 'k) \<Rightarrow> 'r \<Rightarrow> 'r list \<Rightarrow> 'r list" where
  "insert_or_ignore key row rows =
     (if list_ex (\<lambda>r. key r = key row) rows then rows else rows @ [row])"

definition upsert :: "('r \<Rightarrow> 'k) \<Rightarrow> ('r \<Rightarrow> 'r) \<Rightarrow> 'r \<Rightarrow> 'r list \<Rightarrow> 'r list" where
  "upsert key on_conflict row rows =
     (if list_ex (\<lambda>r. key r = key row) rows
      then map (\<lambda>r. if key r = key row then on_conflict r else r) rows
      else rows @ [row])"

definition update_where :: "('r \<Rightarrow> bool) \<Rightarrow> ('r \<Rightarrow> 'r) \<Rightarrow> 'r list \<Rightarrow> 'r list" where
  "update_where P f rows = map (\<lambda>r. if P r then f r else r) rows"

definition delete_where :: "('r \<Rightarrow> bool) \<Rightarrow> 'r list \<Rightarrow> 'r list" where
  "delete_where P rows = filter (\<lambda>r. \<not> P r) rows"

definition is_null :: "'a option \<Rightarrow> bool" where
  "is_null v = (case v of None \<Rightarrow> True | Some _ \<Rightarrow> False)"

lemma is_null_iff [simp]: "is_null v \<longleftrightarrow> v = None"
  by (cases v) (auto simp: is_null_def)

section \<open>The indices and checks\<close>

definition organization_ok :: "organization_row list \<Rightarrow> bool" where
  "organization_ok rows \<longleftrightarrow> distinct (map org_id rows) \<and> distinct (map org_slug rows)"

definition host_ok :: "host_row list \<Rightarrow> bool" where
  "host_ok rows \<longleftrightarrow> distinct (map h_id rows) \<and> distinct (map (\<lambda>h. (h_orgId h, h_slug h)) rows) \<and>
     distinct (map h_tokenHash rows)"

definition person_address_ok :: "person_address_row list \<Rightarrow> bool" where
  "person_address_ok rows \<longleftrightarrow> distinct (map (\<lambda>p. (pa_orgId p, pa_userId p)) rows) \<and>
     distinct (map (\<lambda>p. (pa_orgId p, pa_host p, pa_name p)) rows)"

definition connection_ok :: "organization_connection_row list \<Rightarrow> bool" where
  "connection_ok rows \<longleftrightarrow> distinct (map oc_id rows) \<and>
     distinct (map (\<lambda>c. (oc_orgAId c, oc_orgBId c)) rows) \<and>
     list_all (\<lambda>c. oc_orgAId c < oc_orgBId c \<and>
       (oc_requestedByOrgId c = oc_orgAId c \<or> oc_requestedByOrgId c = oc_orgBId c)) rows"

definition message_ok :: "message_row list \<Rightarrow> bool" where
  "message_ok rows \<longleftrightarrow> distinct (map ms_id rows) \<and>
     list_all (\<lambda>m. (ms_kind m = KindDm) = (ms_roomSeq m = None)) rows"

definition message_delivery_ok :: "message_delivery_row list \<Rightarrow> bool" where
  "message_delivery_ok rows \<longleftrightarrow> distinct (map (\<lambda>d. (md_messageId d, md_targetAddr d)) rows)"


section \<open>Lemmas\<close>

lemma distinct_insert_or_ignore [simp]:
  "distinct (map key rows) \<Longrightarrow> distinct (map key (insert_or_ignore key row rows))"
  by (auto simp: insert_or_ignore_def list_ex_iff)

lemma map_conflict_key:
  "(\<And>r. key (f r) = key r) \<Longrightarrow> map key (map (\<lambda>r. if P r then f r else r) rows) = map key rows"
  by auto

lemma distinct_upsert [simp]:
  assumes "\<And>r. key (f r) = key r" "distinct (map key rows)"
  shows "distinct (map key (upsert key f row rows))"
  using assms by (auto simp: upsert_def list_ex_iff map_conflict_key simp del: map_map)

lemma set_upsert:
  assumes "\<And>r. key (f r) = key r" "distinct (map key rows)"
  shows "r \<in> set (upsert key f row rows) \<longleftrightarrow>
    (if key r = key row
     then (\<exists>r0 \<in> set rows. key r0 = key row \<and> r = f r0) \<or> ((\<forall>r0 \<in> set rows. key r0 \<noteq> key row) \<and> r = row)
     else r \<in> set rows)"
  using assms(1) by (auto simp: upsert_def list_ex_iff image_iff; metis)

lemma key_unique: "distinct (map key rows) \<Longrightarrow> r \<in> set rows \<Longrightarrow> r' \<in> set rows \<Longrightarrow>
   key r = key r' \<longleftrightarrow> r = r'"
  unfolding distinct_map by (blast dest: inj_onD)

lemma find_in_set: "find P xs = Some x \<Longrightarrow> x \<in> set xs \<and> P x"
  by (auto simp: find_Some_iff)

lemma find_None_ex: "find P xs \<noteq> None \<longleftrightarrow> (\<exists>x \<in> set xs. P x)"
  by (auto simp: find_None_iff)

end
