(* ===== verification/Tenancy.thy ===== *)
theory Tenancy
  imports Addr Database
begin

text \<open>
  Organizations and the connections between them: \<^verbatim>\<open>src/lib/transit/organizations.ts\<close> and the
  \<open>/api/organization-connections\<close> routes of \<^verbatim>\<open>src/index.ts\<close>. A route takes the caller's membership
  (what \<open>sessionOrganization\<close> found) and returns an HTTP error (status and code) or its answer.
  The life of a connection is the step relation \<open>conn_step\<close>.
\<close>

type_synonym http_error = "nat \<times> jstr"

record membership =
  mp_id :: jstr
  mp_userId :: jstr
  mp_role :: jstr

definition sessionOrganization :: "d1 \<Rightarrow> (jstr \<times> jstr option) option \<Rightarrow> membership option" where
  "sessionOrganization db session =
     (case session of
        Some (user, Some org) \<Rightarrow>
          if org = [] then None
          else (case find (\<lambda>m. mem_userId m = user \<and> mem_organizationId m = org) (members db) of
                  None \<Rightarrow> None
                | Some m \<Rightarrow> Some \<lparr>mp_id = org, mp_userId = user, mp_role = mem_role m\<rparr>)
      | _ \<Rightarrow> None)"

definition canAdministerOrganization :: "jstr \<Rightarrow> bool" where
  "canAdministerOrganization role =
     list_ex (\<lambda>c. c = js ''owner'' \<or> c = js ''admin'') (split_on 44 role)"


section \<open>organizations.ts\<close>

record connected_organization =
  co_connectionId :: jstr
  co_sourceSlug :: jstr
  co_targetOrgId :: jstr
  co_targetSlug :: jstr

definition organizationPair :: "jstr \<Rightarrow> jstr \<Rightarrow> jstr \<times> jstr" where
  "organizationPair left right = (if left < right then (left, right) else (right, left))"

definition conn_active :: "organization_connection_row \<Rightarrow> bool" where
  "conn_active c \<longleftrightarrow> oc_status c = ConnActive"

definition conn_joins :: "jstr \<Rightarrow> jstr \<Rightarrow> organization_connection_row \<Rightarrow> bool" where
  "conn_joins a b c \<longleftrightarrow> (oc_orgAId c = a \<and> oc_orgBId c = b) \<or> (oc_orgBId c = a \<and> oc_orgAId c = b)"

text \<open>The rows of the join, in the order of the tables it names.\<close>

definition resolveConnectedOrganization :: "d1 \<Rightarrow> jstr \<Rightarrow> jstr \<Rightarrow> connected_organization option" where
  "resolveConnectedOrganization db sourceOrgId targetSlug =
     (case [ \<lparr>co_connectionId = oc_id c, co_sourceSlug = org_slug source,
              co_targetOrgId = org_id target, co_targetSlug = org_slug target\<rparr>.
              target \<leftarrow> organizations db, org_slug target = targetSlug \<and> org_id target \<noteq> sourceOrgId,
              source \<leftarrow> organizations db, org_id source = sourceOrgId,
              c \<leftarrow> organization_connections db,
              conn_active c \<and> conn_joins (org_id source) (org_id target) c ] of
        [] \<Rightarrow> None | r # _ \<Rightarrow> Some r)"

definition organizationBySlug :: "d1 \<Rightarrow> jstr \<Rightarrow> organization_row option" where
  "organizationBySlug db slug = find (\<lambda>r. org_slug r = slug) (organizations db)"

definition organizationIdBySlug :: "d1 \<Rightarrow> jstr \<Rightarrow> jstr option" where
  "organizationIdBySlug db slug = map_option org_id (organizationBySlug db slug)"

definition connectedOrganizationById :: "d1 \<Rightarrow> jstr \<Rightarrow> jstr \<Rightarrow> (jstr \<times> jstr) option" where
  "connectedOrganizationById db orgId peerOrgId =
     (if orgId = peerOrgId then None
      else let (left, right) = organizationPair orgId peerOrgId in
        (case [ (oc_id c, org_slug peer).
                c \<leftarrow> organization_connections db,
                oc_orgAId c = left \<and> oc_orgBId c = right \<and> conn_active c,
                peer \<leftarrow> organizations db, org_id peer = peerOrgId ] of
           [] \<Rightarrow> None | r # _ \<Rightarrow> Some r))"

definition organizationSlugById :: "d1 \<Rightarrow> jstr \<Rightarrow> jstr option" where
  "organizationSlugById db orgId =
     map_option org_slug (find (\<lambda>r. org_id r = orgId) (organizations db))"

definition organizationConnectionIsActive :: "d1 \<Rightarrow> jstr \<Rightarrow> bool" where
  "organizationConnectionIsActive db connectionId =
     list_ex (\<lambda>c. oc_id c = connectionId \<and> conn_active c) (organization_connections db)"


section \<open>The routes\<close>

record connection_view =
  cv_id :: jstr
  cv_status :: connection_status
  cv_requested_by_me :: bool
  cv_can_accept :: bool
  cv_can_manage :: bool
  cv_peer :: organization_row

definition connection_view_of :: "membership \<Rightarrow> organization_connection_row \<Rightarrow> organization_row \<Rightarrow> connection_view" where
  "connection_view_of m c peer =
     \<lparr>cv_id = oc_id c, cv_status = oc_status c,
      cv_requested_by_me = (oc_requestedByOrgId c = mp_id m),
      cv_can_accept = (oc_status c = ConnPending \<and> oc_requestedByOrgId c \<noteq> mp_id m \<and>
                       canAdministerOrganization (mp_role m)),
      cv_can_manage = canAdministerOrganization (mp_role m), cv_peer = peer\<rparr>"

definition list_connections :: "d1 \<Rightarrow> membership option \<Rightarrow> http_error + connection_view list" where
  "list_connections db session =
     (case session of
        None \<Rightarrow> Inl (401, js ''Unauthorized'')
      | Some m \<Rightarrow>
          Inr (sort_key (\<lambda>v. if cv_status v = ConnActive then 0 else (1 :: nat))
               (sort_key (org_name \<circ> cv_peer) (sort_key (org_slug \<circ> cv_peer)
                 [ connection_view_of m c peer.
                   c \<leftarrow> organization_connections db, oc_orgAId c = mp_id m \<or> oc_orgBId c = mp_id m,
                   peer \<leftarrow> organizations db,
                   org_id peer = (if oc_orgAId c = mp_id m then oc_orgBId c else oc_orgAId c) ]))))"

definition request_connection ::
  "d1 \<Rightarrow> membership option \<Rightarrow> jstr option \<Rightarrow> jstr \<Rightarrow> int \<Rightarrow> d1 \<times> (http_error + connection_view)" where
  "request_connection db session organization_slug ident now =
     (case session of
        None \<Rightarrow> (db, Inl (401, js ''Unauthorized''))
      | Some m \<Rightarrow>
          if \<not> canAdministerOrganization (mp_role m) then (db, Inl (403, js ''organization_admin_required''))
          else (case organization_slug of
            None \<Rightarrow> (db, Inl (400, js ''organization_slug is required''))
          | Some slug \<Rightarrow>
              (case validateOrganizationSlug slug of
                 Inl _ \<Rightarrow> (db, Inl (400, js ''invalid_organization_slug''))
               | Inr _ \<Rightarrow>
                   (case organizationBySlug db slug of
                      None \<Rightarrow> (db, Inl (404, js ''organization_not_found''))
                    | Some peer \<Rightarrow>
                        if org_id peer = mp_id m then (db, Inl (400, js ''cannot_connect_same_organization''))
                        else
                          let (orgA, orgB) = organizationPair (mp_id m) (org_id peer);
                              row = \<lparr>oc_id = ident, oc_orgAId = orgA, oc_orgBId = orgB,
                                     oc_requestedByOrgId = mp_id m, oc_status = ConnPending,
                                     oc_createdAt = now, oc_acceptedAt = None\<rparr>
                          in if list_ex (\<lambda>c. oc_orgAId c = orgA \<and> oc_orgBId c = orgB) (organization_connections db)
                             then (db, Inl (409, js ''organization_connection_exists''))
                             else (db\<lparr>organization_connections := organization_connections db @ [row]\<rparr>,
                                   Inr \<lparr>cv_id = ident, cv_status = ConnPending, cv_requested_by_me = True,
                                        cv_can_accept = False, cv_can_manage = True, cv_peer = peer\<rparr>)))))"

definition accept_connection ::
  "d1 \<Rightarrow> membership option \<Rightarrow> jstr \<Rightarrow> int \<Rightarrow> d1 \<times> (http_error + int option)" where
  "accept_connection db session ident now =
     (case session of
        None \<Rightarrow> (db, Inl (401, js ''Unauthorized''))
      | Some m \<Rightarrow>
          if \<not> canAdministerOrganization (mp_role m) then (db, Inl (403, js ''organization_admin_required''))
          else (case find (\<lambda>c. oc_id c = ident) (organization_connections db) of
            None \<Rightarrow> (db, Inl (404, js ''organization_connection_not_found''))
          | Some c \<Rightarrow>
              if oc_orgAId c \<noteq> mp_id m \<and> oc_orgBId c \<noteq> mp_id m
              then (db, Inl (404, js ''organization_connection_not_found''))
              else if oc_requestedByOrgId c = mp_id m
              then (db, Inl (403, js ''requesting_organization_cannot_accept''))
              else if oc_status c = ConnActive then (db, Inr None)
              else (db\<lparr>organization_connections :=
                       update_where (\<lambda>c. oc_id c = ident \<and> oc_status c = ConnPending)
                         (\<lambda>c. c\<lparr>oc_status := ConnActive, oc_acceptedAt := Some now\<rparr>)
                         (organization_connections db)\<rparr>, Inr (Some now))))"

definition delete_connection :: "d1 \<Rightarrow> membership option \<Rightarrow> jstr \<Rightarrow> d1 \<times> (http_error + unit)" where
  "delete_connection db session ident =
     (case session of
        None \<Rightarrow> (db, Inl (401, js ''Unauthorized''))
      | Some m \<Rightarrow>
          if \<not> canAdministerOrganization (mp_role m) then (db, Inl (403, js ''organization_admin_required''))
          else
            let mine = (\<lambda>c. oc_id c = ident \<and> (oc_orgAId c = mp_id m \<or> oc_orgBId c = mp_id m))
            in if list_ex mine (organization_connections db)
               then (db\<lparr>organization_connections := delete_where mine (organization_connections db)\<rparr>, Inr ())
               else (db, Inl (404, js ''organization_connection_not_found'')))"


section \<open>Lemmas\<close>

lemma organizationPair_comm: "organizationPair a b = organizationPair b a"
  by (auto simp: organizationPair_def)

lemma organizationPair_less: "a \<noteq> b \<Longrightarrow> fst (organizationPair a b) < snd (organizationPair a b)"
  by (auto simp: organizationPair_def)

lemma organizationPair_joins:
  "oc_orgAId c < oc_orgBId c \<Longrightarrow>
   conn_joins a b c \<longleftrightarrow> (oc_orgAId c, oc_orgBId c) = organizationPair a b"
  by (auto simp: conn_joins_def organizationPair_def)

lemma connection_ok_unique:
  assumes "connection_ok cs" "c \<in> set cs" "c' \<in> set cs" "conn_joins a b c" "conn_joins a b c'"
  shows "c = c'"
proof -
  have "oc_orgAId c < oc_orgBId c" "oc_orgAId c' < oc_orgBId c'"
    using assms by (auto simp: connection_ok_def list_all_iff)
  then have eq: "(oc_orgAId c, oc_orgBId c) = (oc_orgAId c', oc_orgBId c')"
    using assms(4,5) organizationPair_joins by metis
  have "distinct (map (\<lambda>c. (oc_orgAId c, oc_orgBId c)) cs)"
    using assms(1) by (simp add: connection_ok_def)
  from key_unique [OF this assms(2,3)] eq show ?thesis by simp
qed

lemma organization_ok_unique:
  assumes "organization_ok os" "r \<in> set os" "r' \<in> set os"
  shows "org_id r = org_id r' \<longleftrightarrow> r = r'" "org_slug r = org_slug r' \<longleftrightarrow> r = r'"
  using assms(1) key_unique [OF _ assms(2,3)] unfolding organization_ok_def by metis+

lemma first_row: "(case xs of [] \<Rightarrow> None | r # _ \<Rightarrow> Some r) = Some r \<Longrightarrow> r \<in> set xs"
  by (auto split: list.splits)

lemma no_row: "(case xs of [] \<Rightarrow> None | r # _ \<Rightarrow> Some r) = None \<longleftrightarrow> xs = []"
  by (auto split: list.splits)

lemma only_row: "r \<in> set xs \<Longrightarrow> (\<And>r'. r' \<in> set xs \<Longrightarrow> r' = r) \<Longrightarrow>
  (case xs of [] \<Rightarrow> None | r # _ \<Rightarrow> Some r) = Some r"
proof (cases xs)
  case (Cons a as)
  assume "\<And>r'. r' \<in> set xs \<Longrightarrow> r' = r"
  from this [of a] Cons show ?thesis by simp
qed simp

text \<open>What the join finds, as a statement on rows.\<close>

definition connects :: "d1 \<Rightarrow> organization_row \<Rightarrow> organization_row \<Rightarrow> organization_connection_row \<Rightarrow> bool" where
  "connects db a b c \<longleftrightarrow> a \<in> set (organizations db) \<and> b \<in> set (organizations db) \<and>
     org_id a \<noteq> org_id b \<and> c \<in> set (organization_connections db) \<and> conn_active c \<and>
     conn_joins (org_id a) (org_id b) c"

lemma connects_sym: "connects db a b c \<longleftrightarrow> connects db b a c"
  by (auto simp: connects_def conn_joins_def)

lemma resolve_iff:
  assumes "organization_ok (organizations db)" "connection_ok (organization_connections db)"
  shows "resolveConnectedOrganization db source slug = Some r \<longleftrightarrow>
    (\<exists>a b c. connects db a b c \<and> org_id a = source \<and> org_slug b = slug \<and>
       r = \<lparr>co_connectionId = oc_id c, co_sourceSlug = org_slug a, co_targetOrgId = org_id b,
            co_targetSlug = slug\<rparr>)" (is "?l \<longleftrightarrow> ?r")
proof
  assume ?l
  then obtain b a c where "r = \<lparr>co_connectionId = oc_id c, co_sourceSlug = org_slug a,
        co_targetOrgId = org_id b, co_targetSlug = org_slug b\<rparr>"
      "connects db a b c" "org_id a = source" "org_slug b = slug"
    unfolding resolveConnectedOrganization_def connects_def
    by (auto dest!: first_row)
  then show ?r by blast
next
  assume ?r
  then obtain a b c where abc: "connects db a b c" "org_id a = source" "org_slug b = slug"
    and r: "r = \<lparr>co_connectionId = oc_id c, co_sourceSlug = org_slug a, co_targetOrgId = org_id b,
            co_targetSlug = slug\<rparr>" by blast
  show ?l
    unfolding resolveConnectedOrganization_def
  proof (rule only_row, goal_cases)
    case 1
    then show ?case using abc r by (force simp: connects_def)
  next
    case (2 r')
    then obtain b' a' c' where r'': "r' = \<lparr>co_connectionId = oc_id c', co_sourceSlug = org_slug a',
            co_targetOrgId = org_id b', co_targetSlug = org_slug b'\<rparr>"
      and abc': "connects db a' b' c'" "org_id a' = source" "org_slug b' = slug"
      by (auto simp: connects_def)
    then have r': "r' = \<lparr>co_connectionId = oc_id c', co_sourceSlug = org_slug a', co_targetOrgId = org_id b',
            co_targetSlug = slug\<rparr>" by simp
    have "a' = a" "b' = b"
      using abc abc' organization_ok_unique [OF assms(1)] by (auto simp: connects_def)
    with abc abc' have "c' = c"
      using connection_ok_unique [OF assms(2)] by (auto simp: connects_def)
    with r r' \<open>a' = a\<close> \<open>b' = b\<close> show ?case by simp
  qed
qed

lemma byId_iff:
  assumes "organization_ok (organizations db)" "connection_ok (organization_connections db)"
    and "a \<in> set (organizations db)"
  shows "connectedOrganizationById db (org_id a) peer = Some (k, s) \<longleftrightarrow>
    (\<exists>b c. connects db a b c \<and> org_id b = peer \<and> org_slug b = s \<and> oc_id c = k)" (is "?l \<longleftrightarrow> ?r")
proof
  assume ?l
  then have "org_id a \<noteq> peer" by (auto simp: connectedOrganizationById_def)
  with \<open>?l\<close> have "(k, s) \<in> set [ (oc_id c, org_slug p).
      c \<leftarrow> organization_connections db,
      oc_orgAId c = fst (organizationPair (org_id a) peer) \<and>
      oc_orgBId c = snd (organizationPair (org_id a) peer) \<and> conn_active c,
      p \<leftarrow> organizations db, org_id p = peer ]"
    unfolding connectedOrganizationById_def Let_def split_def by (auto dest!: first_row)
  then show ?r
    using assms(3) \<open>org_id a \<noteq> peer\<close>
    by (auto simp: connects_def conn_joins_def organizationPair_def split: if_splits)
next
  assume ?r
  then obtain b c where bc: "connects db a b c" "org_id b = peer" "org_slug b = s" "oc_id c = k" by blast
  then have ne: "org_id a \<noteq> peer" by (auto simp: connects_def)
  have lt: "oc_orgAId c' < oc_orgBId c'" if "c' \<in> set (organization_connections db)" for c'
    using assms(2) that by (auto simp: connection_ok_def list_all_iff)
  show ?l
    unfolding connectedOrganizationById_def Let_def split_def if_not_P [OF ne]
  proof (rule only_row, goal_cases)
    case 1
    then show ?case
      using bc lt [of c] organizationPair_joins [of c "org_id a" peer]
      by (force simp: connects_def prod_eq_iff)
  next
    case (2 r')
    then obtain c' b' where r': "r' = (oc_id c', org_slug b')" "c' \<in> set (organization_connections db)"
        "b' \<in> set (organizations db)" "org_id b' = peer"
        "(oc_orgAId c', oc_orgBId c') = organizationPair (org_id a) peer"
      by (auto simp: prod_eq_iff)
    then have "conn_joins (org_id a) peer c'" using organizationPair_joins lt by metis
    then have "c' = c"
      using bc r' connection_ok_unique [OF assms(2), of c' c "org_id a" peer] by (auto simp: connects_def)
    moreover have "b' = b"
      using bc r' organization_ok_unique(1) [OF assms(1)] by (auto simp: connects_def)
    ultimately show ?case using r' bc by simp
  qed
qed


section \<open>The life of a connection\<close>

text \<open>
  The databases the three routes reach from one without connections, with the log of who requested and
  who accepted which connection: the membership of the session whose request was answered with success.
  A connection id is a fresh UUID.
\<close>

datatype consent = Requested | Accepted

type_synonym consent_log = "(jstr \<times> consent \<times> membership) list"

definition log_consent :: "jstr \<Rightarrow> consent \<Rightarrow> membership option \<Rightarrow> 'e + 'a \<Rightarrow> consent_log \<Rightarrow> consent_log" where
  "log_consent ident what session answer log =
     (case (session, answer) of (Some m, Inr _) \<Rightarrow> (ident, what, m) # log | _ \<Rightarrow> log)"

inductive conn_reachable :: "d1 \<Rightarrow> consent_log \<Rightarrow> bool" where
  start: "organization_connections db = [] \<Longrightarrow> conn_reachable db []"
| request: "conn_reachable db log \<Longrightarrow> ident \<notin> oc_id ` set (organization_connections db) \<Longrightarrow>
    ident \<notin> fst ` set log \<Longrightarrow> request_connection db session slug ident now = (db', answer) \<Longrightarrow>
    conn_reachable db' (log_consent ident Requested session answer log)"
| accept: "conn_reachable db log \<Longrightarrow> accept_connection db session ident now = (db', answer) \<Longrightarrow>
    conn_reachable db' (log_consent ident Accepted session answer log)"
| delete: "conn_reachable db log \<Longrightarrow> delete_connection db session ident = (db', answer) \<Longrightarrow>
    conn_reachable db' log"

inductive_cases conn_reachableE: "conn_reachable db log"

definition accepted_by_peer :: "consent_log \<Rightarrow> organization_connection_row \<Rightarrow> bool" where
  "accepted_by_peer log c \<longleftrightarrow> (\<exists>m. (oc_id c, Accepted, m) \<in> set log \<and> canAdministerOrganization (mp_role m) \<and>
     (mp_id m = oc_orgAId c \<or> mp_id m = oc_orgBId c) \<and> mp_id m \<noteq> oc_requestedByOrgId c)"

definition requested_by_admin :: "consent_log \<Rightarrow> organization_connection_row \<Rightarrow> bool" where
  "requested_by_admin log c \<longleftrightarrow> (\<exists>m. (oc_id c, Requested, m) \<in> set log \<and> canAdministerOrganization (mp_role m) \<and>
     mp_id m = oc_requestedByOrgId c)"

definition conn_inv :: "d1 \<Rightarrow> consent_log \<Rightarrow> bool" where
  "conn_inv db log \<longleftrightarrow> connection_ok (organization_connections db) \<and>
     (\<forall>c \<in> set (organization_connections db). requested_by_admin log c \<and> (conn_active c \<longrightarrow> accepted_by_peer log c))"

lemma log_consent_keeps: "set log \<subseteq> set (log_consent ident what session answer log)"
  by (auto simp: log_consent_def split: option.splits sum.splits)

lemma consent_keeps:
  "set log \<subseteq> set log' \<Longrightarrow> accepted_by_peer log c \<Longrightarrow> accepted_by_peer log' c"
  "set log \<subseteq> set log' \<Longrightarrow> requested_by_admin log c \<Longrightarrow> requested_by_admin log' c"
  by (auto simp: accepted_by_peer_def requested_by_admin_def)

lemma consent_status [simp]:
  "accepted_by_peer log (c\<lparr>oc_status := x, oc_acceptedAt := y\<rparr>) = accepted_by_peer log c"
  "requested_by_admin log (c\<lparr>oc_status := x, oc_acceptedAt := y\<rparr>) = requested_by_admin log c"
  by (simp_all add: accepted_by_peer_def requested_by_admin_def)

lemma request_connection_cases:
  assumes "request_connection db session slug ident now = (db', answer)"
  obtains (refused) e where "db' = db" "answer = Inl e"
  | (requested) m v and peer :: organization_row where "session = Some m" "answer = Inr v" "canAdministerOrganization (mp_role m)" "org_id peer \<noteq> mp_id m"
      "\<forall>c \<in> set (organization_connections db).
         (oc_orgAId c, oc_orgBId c) \<noteq> organizationPair (mp_id m) (org_id peer)"
      "db' = db\<lparr>organization_connections := organization_connections db @
         [\<lparr>oc_id = ident, oc_orgAId = fst (organizationPair (mp_id m) (org_id peer)),
           oc_orgBId = snd (organizationPair (mp_id m) (org_id peer)), oc_requestedByOrgId = mp_id m,
           oc_status = ConnPending, oc_createdAt = now, oc_acceptedAt = None\<rparr>]\<rparr>"
proof (cases answer)
  case (Inl e)
  with assms refused show thesis
    by (auto simp: request_connection_def Let_def split_def simp del: js_simps
        split: option.splits sum.splits if_splits)
next
  case (Inr v)
  with assms obtain m and peer :: organization_row where "session = Some m" "canAdministerOrganization (mp_role m)"
      "org_id peer \<noteq> mp_id m"
      "\<forall>c \<in> set (organization_connections db).
         (oc_orgAId c, oc_orgBId c) \<noteq> organizationPair (mp_id m) (org_id peer)"
      "db' = db\<lparr>organization_connections := organization_connections db @
         [\<lparr>oc_id = ident, oc_orgAId = fst (organizationPair (mp_id m) (org_id peer)),
           oc_orgBId = snd (organizationPair (mp_id m) (org_id peer)), oc_requestedByOrgId = mp_id m,
           oc_status = ConnPending, oc_createdAt = now, oc_acceptedAt = None\<rparr>]\<rparr>"
    by (auto simp: request_connection_def Let_def split_def list_ex_iff prod_eq_iff
        simp del: js_simps split: option.splits sum.splits if_splits)
  with Inr show thesis using requested by blast
qed

lemma accept_connection_cases:
  assumes "accept_connection db session ident now = (db', answer)"
  obtains (refused) e where "db' = db" "answer = Inl e"
  | (accepted) m c a where "session = Some m" "canAdministerOrganization (mp_role m)"
      "c \<in> set (organization_connections db)" "oc_id c = ident"
      "mp_id m = oc_orgAId c \<or> mp_id m = oc_orgBId c" "mp_id m \<noteq> oc_requestedByOrgId c" "answer = Inr a"
      "organization_connections db' =
         update_where (\<lambda>c. oc_id c = ident \<and> oc_status c = ConnPending)
           (\<lambda>c. c\<lparr>oc_status := ConnActive, oc_acceptedAt := Some now\<rparr>) (organization_connections db)
       \<or> organization_connections db' = organization_connections db"
proof (cases "session = None \<or> find (\<lambda>c. oc_id c = ident) (organization_connections db) = None")
  case True
  with assms refused show thesis
    by (auto simp: accept_connection_def simp del: js_simps split: if_splits option.splits)
next
  case False
  then obtain m c where m: "session = Some m" and Some: "find (\<lambda>c. oc_id c = ident) (organization_connections db) = Some c"
    by auto
  from find_in_set [OF Some] have c: "c \<in> set (organization_connections db)" "oc_id c = ident" by simp_all
  show thesis
  proof (cases answer)
    case (Inl e)
    with assms m Some refused show thesis
      by (auto simp: accept_connection_def simp del: js_simps split: if_splits)
  next
    case (Inr a)
    have "canAdministerOrganization (mp_role m) \<and> (mp_id m = oc_orgAId c \<or> mp_id m = oc_orgBId c) \<and>
        mp_id m \<noteq> oc_requestedByOrgId c \<and>
        (organization_connections db' =
           update_where (\<lambda>c. oc_id c = ident \<and> oc_status c = ConnPending)
             (\<lambda>c. c\<lparr>oc_status := ConnActive, oc_acceptedAt := Some now\<rparr>) (organization_connections db)
         \<or> organization_connections db' = organization_connections db)"
      using assms Some Inr unfolding accept_connection_def m option.case
      by (simp del: js_simps split: if_split_asm) auto
    then show thesis using accepted [OF m _ c _ _ Inr] by blast
  qed
qed

lemma delete_connection_subset:
  "delete_connection db session ident = (db', answer) \<Longrightarrow>
   (\<exists>P. organization_connections db' = filter P (organization_connections db)) \<or> db' = db"
  by (auto simp: delete_connection_def delete_where_def Let_def split: option.splits if_splits)

lemma connection_ok_filter: "connection_ok cs \<Longrightarrow> connection_ok (filter P cs)"
  by (auto simp: connection_ok_def list_all_iff distinct_map_filter)

lemma connection_ok_update:
  assumes "\<And>c. oc_id (f c) = oc_id c \<and> oc_orgAId (f c) = oc_orgAId c \<and> oc_orgBId (f c) = oc_orgBId c \<and>
    oc_requestedByOrgId (f c) = oc_requestedByOrgId c"
  shows "connection_ok (update_where P f cs) = connection_ok cs"
proof -
  have "map oc_id (update_where P f cs) = map oc_id cs"
       "map (\<lambda>c. (oc_orgAId c, oc_orgBId c)) (update_where P f cs) = map (\<lambda>c. (oc_orgAId c, oc_orgBId c)) cs"
    unfolding update_where_def by (induction cs) (auto simp: assms)
  moreover have "list_all Q (update_where P f cs) = list_all Q cs"
    if "\<And>c. Q (f c) = Q c" for Q
    unfolding update_where_def by (induction cs) (auto simp: that)
  ultimately show ?thesis unfolding connection_ok_def by (simp add: assms)
qed

lemma conn_reachable_inv: "conn_reachable db log \<Longrightarrow> conn_inv db log"
proof (induction rule: conn_reachable.induct)
  case (start db)
  then show ?case by (simp add: conn_inv_def connection_ok_def)
next
  case (request db log ident session slug now db' answer)
  from request(4) show ?case
  proof (cases rule: request_connection_cases)
    case (requested m v peer)
    let ?log = "log_consent ident Requested session answer log"
    have ok: "connection_ok (organization_connections db')"
      using request(2,5) requested organizationPair_less [of "mp_id m" "org_id peer"]
      by (auto simp: connection_ok_def conn_inv_def list_all_iff image_iff organizationPair_def)
    have old: "requested_by_admin ?log c \<and> (conn_active c \<longrightarrow> accepted_by_peer ?log c)"
      if "c \<in> set (organization_connections db)" for c
      using that request(5) consent_keeps [OF log_consent_keeps [of log ident Requested session answer], of c]
      by (simp add: conn_inv_def)
    have "requested_by_admin ?log \<lparr>oc_id = ident, oc_orgAId = x, oc_orgBId = y, oc_requestedByOrgId = mp_id m,
        oc_status = ConnPending, oc_createdAt = now, oc_acceptedAt = None\<rparr>" for x y
      using requested(1,2,3) by (auto simp: requested_by_admin_def log_consent_def)
    with ok old requested(6) show ?thesis by (auto simp: conn_inv_def conn_active_def)
  qed (use request in \<open>simp add: log_consent_def split: option.splits\<close>)
next
  case (accept db log session ident now db' answer)
  from accept(2) show ?case
  proof (cases rule: accept_connection_cases)
    case (accepted m c a)
    let ?log = "log_consent ident Accepted session answer log"
    have log: "?log = (ident, Accepted, m) # log" using accepted by (simp add: log_consent_def)
    have new: "accepted_by_peer ?log d" if "d \<in> set (organization_connections db)" "oc_id d = ident" for d
    proof -
      have "d = c"
        using accept.IH accepted(3,4) that key_unique [of oc_id "organization_connections db" d c]
        by (auto simp: conn_inv_def connection_ok_def)
      with accepted show ?thesis unfolding accepted_by_peer_def log by auto
    qed
    note old = consent_keeps [OF log_consent_keeps [of log ident Accepted session answer]]
    have "connection_ok (organization_connections db')"
      using accept.IH accepted(8) by (auto simp: conn_inv_def connection_ok_update)
    moreover have "\<forall>d \<in> set (organization_connections db'). requested_by_admin ?log d \<and> (conn_active d \<longrightarrow> accepted_by_peer ?log d)"
      using accept.IH accepted(8) new old by (auto simp: conn_inv_def update_where_def)
    ultimately show ?thesis by (simp add: conn_inv_def)
  qed (use accept in \<open>simp add: log_consent_def split: option.splits\<close>)
next
  case (delete db log session ident db' answer)
  then show ?case
    using delete_connection_subset [OF delete(2)] by (auto simp: conn_inv_def connection_ok_filter)
qed

section \<open>Properties\<close>

text \<open>
  C27: no organization is connected against its will. In every database the routes can reach, an
  active connection between two organizations was requested by an owner or admin of one of them and
  accepted by an owner or admin of the other, and there is at most one connection per pair.
\<close>
theorem active_connection_is_mutual:
  assumes "conn_reachable db log" and "c \<in> set (organization_connections db)" and "conn_active c"
  shows "(\<exists>asker accepter. (oc_id c, Requested, asker) \<in> set log \<and> (oc_id c, Accepted, accepter) \<in> set log \<and>
       set (split_on 44 (mp_role asker)) \<inter> {js ''owner'', js ''admin''} \<noteq> {} \<and>
       set (split_on 44 (mp_role accepter)) \<inter> {js ''owner'', js ''admin''} \<noteq> {} \<and>
       mp_id asker \<noteq> mp_id accepter \<and> {mp_id asker, mp_id accepter} = {oc_orgAId c, oc_orgBId c}) \<and>
    (\<forall>c' \<in> set (organization_connections db). conn_joins (oc_orgAId c) (oc_orgBId c) c' \<longrightarrow> c' = c)"
proof -
  have inv: "conn_inv db log" using assms(1) by (rule conn_reachable_inv)
  then have ok: "connection_ok (organization_connections db)" by (simp add: conn_inv_def)
  have "conn_joins (oc_orgAId c) (oc_orgBId c) c" by (simp add: conn_joins_def)
  then have "\<forall>c' \<in> set (organization_connections db). conn_joins (oc_orgAId c) (oc_orgBId c) c' \<longrightarrow> c' = c"
    using connection_ok_unique [OF ok] assms(2) by blast
  moreover have "oc_requestedByOrgId c \<in> {oc_orgAId c, oc_orgBId c}" "oc_orgAId c \<noteq> oc_orgBId c"
    using ok assms(2) by (auto simp: connection_ok_def list_all_iff)
  moreover have "requested_by_admin log c" "accepted_by_peer log c"
    using inv assms(2,3) by (simp_all add: conn_inv_def)
  then obtain asker accepter where who: "(oc_id c, Requested, asker) \<in> set log" "(oc_id c, Accepted, accepter) \<in> set log"
      "canAdministerOrganization (mp_role asker)" "canAdministerOrganization (mp_role accepter)"
      "mp_id asker = oc_requestedByOrgId c" "mp_id accepter = oc_orgAId c \<or> mp_id accepter = oc_orgBId c"
      "mp_id accepter \<noteq> oc_requestedByOrgId c"
    unfolding requested_by_admin_def accepted_by_peer_def by blast
  moreover have "set (split_on 44 (mp_role p)) \<inter> {js ''owner'', js ''admin''} \<noteq> {}"
    if "canAdministerOrganization (mp_role p)" for p
    using that unfolding canAdministerOrganization_def list_ex_iff by blast
  ultimately have "mp_id asker \<noteq> mp_id accepter" "{mp_id asker, mp_id accepter} = {oc_orgAId c, oc_orgBId c}"
      "set (split_on 44 (mp_role asker)) \<inter> {js ''owner'', js ''admin''} \<noteq> {}"
      "set (split_on 44 (mp_role accepter)) \<inter> {js ''owner'', js ''admin''} \<noteq> {}"
      "\<forall>c' \<in> set (organization_connections db). conn_joins (oc_orgAId c) (oc_orgBId c) c' \<longrightarrow> c' = c"
    by auto
  with who(1,2) show ?thesis by blast
qed

definition two_orgs :: d1 where
  "two_orgs = empty_d1\<lparr>organizations :=
     [\<lparr>org_id = js ''a'', org_name = js ''A'', org_slug = js ''acme''\<rparr>,
      \<lparr>org_id = js ''b'', org_name = js ''B'', org_slug = js ''beta''\<rparr>]\<rparr>"

definition connected_db :: d1 where
  "connected_db =
     (let admin = (\<lambda>org. \<lparr>mp_id = js org, mp_userId = js ''u'', mp_role = js ''admin''\<rparr>)
      in fst (accept_connection
           (fst (request_connection two_orgs (Some (admin ''a'')) (Some (js ''beta'')) (js ''k'') 1))
           (Some (admin ''b'')) (js ''k'') 2))"

lemma connected_db_connections:
  "organization_connections connected_db =
     [\<lparr>oc_id = js ''k'', oc_orgAId = js ''a'', oc_orgBId = js ''b'', oc_requestedByOrgId = js ''a'',
       oc_status = ConnActive, oc_createdAt = 1, oc_acceptedAt = Some 2\<rparr>]"
  by code_simp

lemma connected_db_reachable:
  "conn_reachable connected_db
     [(js ''k'', Accepted, \<lparr>mp_id = js ''b'', mp_userId = js ''u'', mp_role = js ''admin''\<rparr>),
      (js ''k'', Requested, \<lparr>mp_id = js ''a'', mp_userId = js ''u'', mp_role = js ''admin''\<rparr>)]"
proof -
  let ?a = "\<lparr>mp_id = js ''a'', mp_userId = js ''u'', mp_role = js ''admin''\<rparr>"
  let ?b = "\<lparr>mp_id = js ''b'', mp_userId = js ''u'', mp_role = js ''admin''\<rparr>"
  let ?r = "request_connection two_orgs (Some ?a) (Some (js ''beta'')) (js ''k'') 1"
  let ?acc = "accept_connection (fst ?r) (Some ?b) (js ''k'') 2"
  have "conn_reachable two_orgs []"
    by (rule conn_reachable.start) (simp add: two_orgs_def empty_d1_def)
  then have "conn_reachable (fst ?r) (log_consent (js ''k'') Requested (Some ?a) (snd ?r) [])"
    by (rule conn_reachable.request) (simp_all add: two_orgs_def empty_d1_def)
  then have "conn_reachable (fst ?acc) (log_consent (js ''k'') Accepted (Some ?b) (snd ?acc)
      (log_consent (js ''k'') Requested (Some ?a) (snd ?r) []))"
    by (rule conn_reachable.accept) (rule prod.collapse [symmetric])
  moreover have "snd ?acc = Inr (Some 2)" by code_simp
  moreover have "case snd ?r of Inr _ \<Rightarrow> True | Inl _ \<Rightarrow> False" by code_simp
  then obtain v where "snd ?r = Inr v" by (auto split: sum.splits)
  ultimately have "conn_reachable (fst ?acc) [(js ''k'', Accepted, ?b), (js ''k'', Requested, ?a)]"
    by (simp only: log_consent_def option.case sum.case prod.case)
  moreover have "fst ?acc = connected_db" by (simp only: connected_db_def Let_def)
  ultimately show ?thesis by metis
qed

lemma pair_sides: "(\<exists>a b. P a b \<and> Q a b \<and> R a b \<and> S a b \<and> T a b \<and> U a b) \<and> X \<Longrightarrow> \<exists>a b. T a b \<and> U a b"
  by blast

lemma active_connection_is_mutual_witness:
  "\<exists>c (asker :: membership) (accepter :: membership). c \<in> set (organization_connections connected_db) \<and>
     {mp_id asker, mp_id accepter} = {oc_orgAId c, oc_orgBId c} \<and> mp_id asker \<noteq> mp_id accepter"
proof -
  let ?c = "\<lparr>oc_id = js ''k'', oc_orgAId = js ''a'', oc_orgBId = js ''b'', oc_requestedByOrgId = js ''a'',
       oc_status = ConnActive, oc_createdAt = 1, oc_acceptedAt = Some (2 :: int)\<rparr>"
  have "?c \<in> set (organization_connections connected_db)" "conn_active ?c"
    by (simp_all add: connected_db_connections conn_active_def)
  note mutual = active_connection_is_mutual [OF connected_db_reachable this]
  have "\<exists>(asker :: membership) (accepter :: membership). mp_id asker \<noteq> mp_id accepter \<and> {mp_id asker, mp_id accepter} = {oc_orgAId ?c, oc_orgBId ?c}"
    by (rule pair_sides [OF mutual])
  with \<open>?c \<in> set (organization_connections connected_db)\<close> show ?thesis by metis
qed

text \<open>
  the three lookups agree. In a database that meets its unique indices, the organization \<open>a\<close>
  resolves the slug of \<open>b\<close> exactly when \<open>b\<close> resolves the slug of \<open>a\<close>, over the same connection, and exactly
  when the lookup by the two ids finds that connection, with the peer's slug.
\<close>
theorem connection_lookups_agree:
  assumes "organization_ok (organizations db)" and "connection_ok (organization_connections db)"
    and "a \<in> set (organizations db)" and "b \<in> set (organizations db)"
  shows "((\<exists>r. resolveConnectedOrganization db (org_id a) (org_slug b) = Some r \<and> co_connectionId r = k) \<longleftrightarrow>
      (\<exists>r. resolveConnectedOrganization db (org_id b) (org_slug a) = Some r \<and> co_connectionId r = k)) \<and>
    ((\<exists>r. resolveConnectedOrganization db (org_id a) (org_slug b) = Some r \<and> co_connectionId r = k) \<longleftrightarrow>
      connectedOrganizationById db (org_id a) (org_id b) = Some (k, org_slug b))"
    (is "(?ab \<longleftrightarrow> ?ba) \<and> (_ \<longleftrightarrow> ?byid)")
proof -
  have link: "(\<exists>r. resolveConnectedOrganization db (org_id x) (org_slug y) = Some r \<and> co_connectionId r = k) \<longleftrightarrow>
      (\<exists>c. connects db x y c \<and> oc_id c = k)" if "x \<in> set (organizations db)" "y \<in> set (organizations db)" for x y
    unfolding resolve_iff [OF assms(1,2)]
  proof (safe, goal_cases)
    case (1 r a' b' c)
    then have "a' = x" "b' = y"
      using organization_ok_unique [OF assms(1)] that by (auto simp: connects_def)
    with 1 show ?case by auto
  next
    case (2 c)
    then show ?case by force
  qed
  have "?ab \<longleftrightarrow> ?ba"
    unfolding link [OF assms(3,4)] link [OF assms(4,3)] using connects_sym by metis
  moreover have "?ab \<longleftrightarrow> ?byid"
    unfolding link [OF assms(3,4)] byId_iff [OF assms(1,2,3)]
    using organization_ok_unique [OF assms(1)] assms(4) by (auto simp: connects_def)
  ultimately show ?thesis by blast
qed

lemma connection_lookups_agree_witness:
  "connectedOrganizationById connected_db (js ''a'') (js ''b'') = Some (js ''k'', js ''beta'')"
proof -
  let ?a = "\<lparr>org_id = js ''a'', org_name = js ''A'', org_slug = js ''acme''\<rparr>"
  let ?b = "\<lparr>org_id = js ''b'', org_name = js ''B'', org_slug = js ''beta''\<rparr>"
  have "organization_ok (organizations connected_db)" "connection_ok (organization_connections connected_db)"
    by code_simp+
  moreover have "?a \<in> set (organizations connected_db)" "?b \<in> set (organizations connected_db)"
    by code_simp+
  moreover have "\<exists>r. resolveConnectedOrganization connected_db (js ''a'') (js ''beta'') = Some r \<and>
      co_connectionId r = js ''k''"
    by (intro exI [of _ "\<lparr>co_connectionId = js ''k'', co_sourceSlug = js ''acme'',
       co_targetOrgId = js ''b'', co_targetSlug = js ''beta''\<rparr>"]) code_simp
  ultimately show ?thesis using connection_lookups_agree [of connected_db ?a ?b "js ''k''"] by simp
qed

end
