(* ===== verification/Host_Queue.thy ===== *)
theory Host_Queue
  imports Envelope Wire Rate_Limits Tenancy
begin

text \<open>
  \<^verbatim>\<open>src/do/host-hub.ts\<close>, the delivery queue of one host: the state of the Durable Object, what an
  operation does to the world outside (\<open>hub_effect\<close>), admission, queueing, dispatch, settlement
  and requeue. Storage keys are kept as the code spells them (\<open>q:<agent>:<sequence>\<close>,
  \<open>d:<message>:<agent>\<close>); a prefix of the storage is one store. One operation runs to its end on
  one reading of the clock; what interleaves at its awaits is in \<open>Hub_Interleaving\<close>.
\<close>

definition MAX_MESSAGE_BYTES :: nat where "MAX_MESSAGE_BYTES = 64 * 1024"
definition MAX_DELIVERY_ATTEMPTS :: nat where "MAX_DELIVERY_ATTEMPTS = 40"
definition DELIVERY_TTL_MS :: int where "DELIVERY_TTL_MS = 24 * 60 * 60 * 1000"
definition MAX_RETRY_MS :: int where "MAX_RETRY_MS = 5 * 60 * 1000"
definition DRAFT_HOLD_BACKSTOP_MS :: int where "DRAFT_HOLD_BACKSTOP_MS = 5 * 60 * 1000"
definition QUEUE_BATCH_SIZE :: nat where "QUEUE_BATCH_SIZE = 128"

record host_identity =
  hi_hostId :: jstr
  hi_org :: jstr
  hi_slug :: jstr

record daemon_attachment =
  da_identity :: host_identity
  da_ready :: bool
  da_frameRate :: token_bucket_state

record queue_delivery_input =
  qi_messageId :: jstr
  qi_org :: jstr
  qi_targetOrg :: jstr
  qi_targetHost :: jstr
  qi_agent :: jstr
  qi_targetAddr :: jstr
  qi_envelope :: jstr
  qi_render :: "channel_envelope option"
  qi_enqueuedAt :: "int option"
  qi_roomName :: "jstr option"
  qi_roomSeq :: "nat option"
  qi_redelivery :: bool
  qi_connectionId :: "jstr option"

record queued_delivery =
  qd_messageId :: jstr
  qd_org :: jstr
  qd_agent :: jstr
  qd_targetAddr :: jstr
  qd_envelope :: jstr
  qd_render :: "channel_envelope option"
  qd_attempts :: nat
  qd_enqueuedAt :: int
  qd_roomName :: "jstr option"
  qd_roomSeq :: "nat option"
  qd_lastAttemptAt :: "int option"
  qd_lastError :: "jstr option"
  qd_connectionId :: "jstr option"

datatype marker_status = MarkQueued | MarkInjected | MarkDead

record delivery_marker =
  dm_status :: marker_status
  dm_updatedAt :: int
  dm_queueKey :: "jstr option"
  dm_item :: "queued_delivery option"

datatype send_state = SendProcessing | SendAcked | SendNakked send_nak_code

record host_hub =
  hub_socket :: "daemon_attachment option"
  hub_roster :: "(jstr, roster_agent) store"
  hub_gone :: "(jstr, int) store"
  hub_queue :: "(jstr, queued_delivery) store"
  hub_markers :: "(jstr, delivery_marker) store"
  hub_seq :: nat
  hub_sends :: "(jstr, send_state) store"
  hub_rates :: "(jstr, token_bucket_state) store"
  hub_spooledDead :: "nat option"
  hub_alarm :: alarm_state

definition new_hub :: host_hub where
  "new_hub = \<lparr>hub_socket = None, hub_roster = [], hub_gone = [], hub_queue = [], hub_markers = [],
     hub_seq = 0, hub_sends = [], hub_rates = [], hub_spooledDead = None, hub_alarm = new_alarm_state\<rparr>"

datatype activity =
  HostConnected jstr
| HostDisconnected jstr
| HostRevoked
| RosterChanged jstr "roster_agent list"
| DeliveryQueued jstr jstr
| DeliveryInjected jstr
| DeliveryDead jstr jstr jstr
| MessageCommitted jstr jstr jstr

datatype hub_effect =
  Frame worker_frame
| CloseSocket nat jstr
| Broadcast activity int "jstr option"
| LedgerAttempt jstr jstr nat "jstr option" int
| LedgerHold jstr jstr nat "jstr option" int
| LedgerInjectedBy jstr jstr nat "jstr option" int
| LedgerDeadBy jstr jstr nat jstr int
| LedgerRename jstr int jstr jstr
| ChannelWireSends nat jstr
| ChannelVia jstr jstr
| ReportInjection jstr jstr jstr jstr
| RoomAcknowledge jstr jstr jstr nat
| HostSeen int jstr jstr
| HostHello jstr int jstr jstr
| SnapshotAgents jstr "roster_agent list" int
| ArchiveDm jstr jstr "jstr option" jstr jstr jstr "jstr option" int int

text \<open>
  What an operation reads outside its own storage: the database, the clock, whether writing a
  frame to the socket throws, and the order of \<open>localeCompare\<close>.
\<close>

record hub_env =
  he_db :: d1
  he_now :: int
  he_send_error :: "queued_delivery \<Rightarrow> jstr option"
  he_before :: "jstr \<Rightarrow> jstr \<Rightarrow> bool"

definition queue_key :: "jstr \<Rightarrow> nat \<Rightarrow> jstr" where
  "queue_key agent sequence = js ''q:'' @ agent @ COLON # pad16 sequence"

definition marker_key :: "jstr \<Rightarrow> jstr \<Rightarrow> jstr" where
  "marker_key messageId agent = js ''d:'' @ messageId @ COLON # agent"

text \<open>The markers a listing by message id keeps.\<close>

definition marker_of_message :: "jstr \<Rightarrow> jstr \<Rightarrow> bool" where
  "marker_of_message messageId key \<longleftrightarrow>
     key = js ''d:'' @ messageId \<or> starts_with key (js ''d:'' @ messageId @ [COLON])"

definition is_tx :: "jstr \<Rightarrow> bool" where "is_tx ident = starts_with ident (js ''tx_'')"
definition is_dlv :: "jstr \<Rightarrow> bool" where "is_dlv ident = starts_with ident (js ''dlv_'')"


section \<open>Admission\<close>

definition hasAgent :: "host_hub \<Rightarrow> jstr \<Rightarrow> bool" where
  "hasAgent st name \<longleftrightarrow> kv_get (hub_roster st) name \<noteq> None"

definition departedAt :: "host_hub \<Rightarrow> jstr \<Rightarrow> int option" where
  "departedAt st name = kv_get (hub_gone st) name"

definition host_live :: "d1 \<Rightarrow> jstr \<Rightarrow> jstr \<Rightarrow> bool" where
  "host_live db org slug \<longleftrightarrow>
     list_ex (\<lambda>h. h_orgId h = org \<and> h_slug h = slug \<and> is_null (h_revokedAt h)) (hosts db)"

definition declared_address :: "d1 \<Rightarrow> jstr \<Rightarrow> jstr \<Rightarrow> jstr \<Rightarrow> bool" where
  "declared_address db org host name \<longleftrightarrow>
     list_ex (\<lambda>c. ac_orgId c = org \<and> ac_host c = host \<and> ac_name c = name \<and>
        is_null (ac_revokedAt c) \<and> host_live db (ac_orgId c) (ac_host c)) (agent_clients db) \<or>
     list_ex (\<lambda>p. pa_orgId p = org \<and> pa_host p = host \<and> pa_name p = name \<and>
        host_live db (pa_orgId p) (pa_host p)) (person_addresses db)"

definition canReceive :: "hub_env \<Rightarrow> host_hub \<Rightarrow> jstr \<Rightarrow> jstr \<Rightarrow> jstr \<Rightarrow> bool" where
  "canReceive env st name org host =
     (if hasAgent st name then True
      else (case departedAt st name of
              Some departed \<Rightarrow>
                if he_now env - departed < DELIVERY_TTL_MS then True
                else declared_address (he_db env) org host name
            | None \<Rightarrow> declared_address (he_db env) org host name))"


section \<open>Dispatch\<close>

definition retry_delay :: "nat \<Rightarrow> int" where
  "retry_delay attempts = min (5000 * 2 ^ (attempts - 1)) MAX_RETRY_MS"

definition render_for_send :: "queued_delivery \<Rightarrow> jstr" where
  "render_for_send item =
     (case qd_render item of
        Some r \<Rightarrow> renderEnvelope (ChannelEnvelope (r\<lparr>ce_redelivery :=
          Some ((case ce_redelivery r of None \<Rightarrow> 0 | Some n \<Rightarrow> n) + int (qd_attempts item))\<rparr>))
      | None \<Rightarrow> qd_envelope item)"

definition markDead :: "hub_env \<Rightarrow> jstr \<Rightarrow> queued_delivery \<Rightarrow> jstr \<Rightarrow> host_hub \<Rightarrow> host_hub \<times> hub_effect list" where
  "markDead env key item err st =
     (st\<lparr>hub_queue := kv_del key (hub_queue st),
         hub_markers := kv_put (marker_key (qd_messageId item) (qd_agent item))
           \<lparr>dm_status = MarkDead, dm_updatedAt = he_now env, dm_queueKey = Some key,
            dm_item = Some (item\<lparr>qd_lastError := Some err\<rparr>)\<rparr> (hub_markers st)\<rparr>,
      (if is_tx (qd_messageId item)
       then [LedgerDeadBy (qd_messageId item) (qd_targetAddr item) (qd_attempts item) err (he_now env)]
       else []) @
      [Broadcast (DeliveryDead (qd_messageId item) (qd_targetAddr item) err) (he_now env) (Some (qd_org item))])"

text \<open>What one entry of the batch meets in the loop of \<open>dispatchQueued\<close>.\<close>

datatype verdict = Expired jstr | Undeliverable int | NotDue int | Due

definition dispatch_verdict :: "hub_env \<Rightarrow> host_hub \<Rightarrow> queued_delivery \<Rightarrow> verdict" where
  "dispatch_verdict env st item =
     (let now = he_now env;
          dueAt = (case qd_lastAttemptAt item of None \<Rightarrow> now
                   | Some t \<Rightarrow> t + retry_delay (qd_attempts item))
      in if MAX_DELIVERY_ATTEMPTS \<le> qd_attempts item \<or> DELIVERY_TTL_MS \<le> now - qd_enqueuedAt item
         then Expired (case qd_lastError item of None \<Rightarrow> js ''delivery limit exceeded'' | Some e \<Rightarrow> e)
         else if (case qd_connectionId item of None \<Rightarrow> False
                  | Some c \<Rightarrow> c \<noteq> [] \<and> \<not> organizationConnectionIsActive (he_db env) c)
         then Expired (js ''organization_connection_revoked'')
         else if hub_socket st = None \<or> \<not> hasAgent st (qd_agent item)
         then Undeliverable (qd_enqueuedAt item + DELIVERY_TTL_MS)
         else if now < dueAt then NotDue dueAt
         else Due)"

definition claim :: "hub_env \<Rightarrow> jstr \<Rightarrow> queued_delivery \<Rightarrow> host_hub \<Rightarrow> host_hub option" where
  "claim env key item st =
     (case kv_get (hub_queue st) key of
        None \<Rightarrow> None
      | Some current \<Rightarrow>
          if qd_attempts current \<noteq> qd_attempts item then None
          else Some (st\<lparr>hub_queue := kv_put key
                 (item\<lparr>qd_attempts := qd_attempts item + 1, qd_lastAttemptAt := Some (he_now env),
                       qd_lastError := None\<rparr>) (hub_queue st)\<rparr>))"

definition send_effects :: "hub_env \<Rightarrow> queued_delivery \<Rightarrow> hub_effect list" where
  "send_effects env item =
     (let attempts = qd_attempts item + 1; err = he_send_error env item in
      (if err = None then [Frame (Deliver (qd_messageId item) (qd_agent item) (render_for_send item))] else []) @
      (if is_tx (qd_messageId item)
       then [LedgerAttempt (qd_messageId item) (qd_targetAddr item) attempts err (he_now env)] else []) @
      (if is_dlv (qd_messageId item) then [ChannelWireSends attempts (qd_messageId item)] else []))"

type_synonym dispatch_state = "host_hub \<times> hub_effect list \<times> int option"

definition dispatch_entry :: "hub_env \<Rightarrow> jstr \<times> queued_delivery \<Rightarrow> dispatch_state \<Rightarrow> dispatch_state" where
  "dispatch_entry env entry ds =
     (let (key, item) = entry; (st, effs, nextAlarm) = ds in
      case dispatch_verdict env st item of
        Expired err \<Rightarrow> (let (st', e) = markDead env key item err st in (st', effs @ e, nextAlarm))
      | Undeliverable at' \<Rightarrow> (st, effs, opt_min nextAlarm at')
      | NotDue at' \<Rightarrow> (st, effs, opt_min nextAlarm at')
      | Due \<Rightarrow>
          (case claim env key item st of
             None \<Rightarrow> (st, effs, nextAlarm)
           | Some st1 \<Rightarrow>
               let attempted = item\<lparr>qd_attempts := qd_attempts item + 1,
                       qd_lastAttemptAt := Some (he_now env), qd_lastError := he_send_error env item\<rparr>;
                   st2 = (if he_send_error env item = None then st1
                          else st1\<lparr>hub_queue := kv_put key attempted (hub_queue st1)\<rparr>)
               in (st2, effs @ send_effects env item,
                   opt_min nextAlarm (he_now env + retry_delay (qd_attempts item + 1)))))"

definition set_alarm :: "hub_env \<Rightarrow> int \<Rightarrow> host_hub \<Rightarrow> host_hub" where
  "set_alarm env at' st =
     st\<lparr>hub_alarm := fst (budgetedAlarm (he_now env) at' ALARM_BUDGET_PER_HOUR (hub_alarm st))\<rparr>"

definition dispatchQueued :: "hub_env \<Rightarrow> host_hub \<Rightarrow> host_hub \<times> hub_effect list" where
  "dispatchQueued env st =
     (let batch = take QUEUE_BATCH_SIZE (hub_queue st) in
      if batch = [] then (st, [])
      else
        let (st', effs, nextAlarm) = fold (dispatch_entry env) batch (st, [], None);
            wake = (if length batch = QUEUE_BATCH_SIZE then Some (he_now env) else nextAlarm)
        in (case wake of None \<Rightarrow> st' | Some w \<Rightarrow> set_alarm env w st', effs))"


section \<open>Queueing\<close>

datatype queue_status = Queued | Duplicate | NoRouteTo

definition enqueue :: "hub_env \<Rightarrow> queue_delivery_input \<Rightarrow> host_hub \<Rightarrow> host_hub \<times> queue_status" where
  "enqueue env inp st =
     (let mkey = marker_key (qi_messageId inp) (qi_agent inp) in
      if (case kv_get (hub_markers st) mkey of None \<Rightarrow> False
          | Some mk \<Rightarrow> \<not> qi_redelivery inp \<or> dm_status mk = MarkQueued)
      then (st, Duplicate)
      else
        let sequence = hub_seq st + 1;
            key = queue_key (qi_agent inp) sequence;
            item = \<lparr>qd_messageId = qi_messageId inp, qd_org = qi_org inp, qd_agent = qi_agent inp,
              qd_targetAddr = qi_targetAddr inp, qd_envelope = qi_envelope inp, qd_render = qi_render inp,
              qd_attempts = 0,
              qd_enqueuedAt = (case qi_enqueuedAt inp of None \<Rightarrow> he_now env | Some t \<Rightarrow> t),
              qd_roomName = (case qi_roomName inp of Some (c # r) \<Rightarrow> Some (c # r) | _ \<Rightarrow> None),
              qd_roomSeq = qi_roomSeq inp, qd_lastAttemptAt = None, qd_lastError = None,
              qd_connectionId = (case qi_connectionId inp of Some (c # r) \<Rightarrow> Some (c # r) | _ \<Rightarrow> None)\<rparr>
        in (st\<lparr>hub_seq := sequence, hub_queue := kv_put key item (hub_queue st),
               hub_markers := kv_put mkey \<lparr>dm_status = MarkQueued, dm_updatedAt = he_now env,
                 dm_queueKey = Some key, dm_item = None\<rparr> (hub_markers st)\<rparr>, Queued))"

definition queueDelivery ::
  "hub_env \<Rightarrow> queue_delivery_input \<Rightarrow> host_hub \<Rightarrow> host_hub \<times> hub_effect list \<times> queue_status" where
  "queueDelivery env inp st =
     (if \<not> canReceive env st (qi_agent inp) (qi_targetOrg inp) (qi_targetHost inp) then (st, [], NoRouteTo)
      else
        let (st1, status) = enqueue env inp st in
        if status = Queued then
          let (st2, effs) = dispatchQueued env st1
          in (st2, Broadcast (DeliveryQueued (qi_messageId inp) (qi_targetAddr inp)) (he_now env)
                     (Some (qi_org inp)) # effs, Queued)
        else (st1, [], status))"


section \<open>Settlement\<close>

text \<open>The first of the queued markers in the order of their queue keys.\<close>

definition first_queued :: "(jstr \<Rightarrow> jstr \<Rightarrow> bool) \<Rightarrow> (jstr \<times> delivery_marker) list \<Rightarrow> (jstr \<times> delivery_marker) option" where
  "first_queued before ms =
     fold (\<lambda>m best. case best of None \<Rightarrow> Some m
        | Some b \<Rightarrow> if before (the (dm_queueKey (snd m))) (the (dm_queueKey (snd b))) then Some m else Some b) ms None"

definition queued_marker :: "delivery_marker \<Rightarrow> bool" where
  "queued_marker mk \<longleftrightarrow> dm_status mk = MarkQueued \<and> dm_queueKey mk \<noteq> None \<and> dm_queueKey mk \<noteq> Some []"

definition resolveQueuedMarker ::
  "hub_env \<Rightarrow> jstr \<Rightarrow> jstr option \<Rightarrow> host_hub \<Rightarrow> (jstr \<times> delivery_marker) option" where
  "resolveQueuedMarker env messageId agent st =
     (let direct = (case agent of None \<Rightarrow> None | Some [] \<Rightarrow> None
          | Some a \<Rightarrow> (case kv_get (hub_markers st) (marker_key messageId a) of
               Some mk \<Rightarrow> if queued_marker mk then Some (marker_key messageId a, mk) else None
             | None \<Rightarrow> None))
      in case direct of Some r \<Rightarrow> Some r
         | None \<Rightarrow> first_queued (he_before env)
             (filter (\<lambda>(key, mk). marker_of_message messageId key \<and> queued_marker mk) (hub_markers st)))"

definition handleDeliveryAck ::
  "hub_env \<Rightarrow> jstr \<Rightarrow> jstr option \<Rightarrow> jstr option \<Rightarrow> host_hub \<Rightarrow> host_hub \<times> hub_effect list" where
  "handleDeliveryAck env messageId agent via st =
     (case resolveQueuedMarker env messageId agent st of
        None \<Rightarrow> (st, [])
      | Some (mkey, mk) \<Rightarrow>
          (case kv_get (hub_queue st) (the (dm_queueKey mk)) of
             None \<Rightarrow> (st, [])
           | Some item \<Rightarrow>
               (st\<lparr>hub_queue := kv_del (the (dm_queueKey mk)) (hub_queue st),
                   hub_markers := kv_put mkey \<lparr>dm_status = MarkInjected, dm_updatedAt = he_now env,
                     dm_queueKey = None, dm_item = None\<rparr> (hub_markers st)\<rparr>,
                (if is_tx messageId
                 then [LedgerInjectedBy messageId (qd_targetAddr item) (qd_attempts item) via (he_now env)]
                 else []) @
                (case via of
                   Some (v # vs) \<Rightarrow>
                     if is_dlv messageId
                     then [ChannelVia (v # vs) messageId,
                           ReportInjection (qd_org item) messageId (qd_targetAddr item) (v # vs)]
                     else []
                 | _ \<Rightarrow> []) @
                (case (qd_roomName item, qd_roomSeq item) of
                   (Some (r # rs), Some n) \<Rightarrow> [RoomAcknowledge (qd_org item) (r # rs) (qd_targetAddr item) n]
                 | _ \<Rightarrow> []) @
                [Broadcast (DeliveryInjected messageId) (he_now env) (Some (qd_org item))])))"

definition handleDeliveryNak ::
  "hub_env \<Rightarrow> jstr \<Rightarrow> jstr \<Rightarrow> bool \<Rightarrow> jstr option \<Rightarrow> host_hub \<Rightarrow> host_hub \<times> hub_effect list" where
  "handleDeliveryNak env messageId code retryable agent st =
     (case resolveQueuedMarker env messageId agent st of
        None \<Rightarrow> (st, [])
      | Some (mkey, mk) \<Rightarrow>
          let key = the (dm_queueKey mk) in
          (case kv_get (hub_queue st) key of
             None \<Rightarrow> (st, [])
           | Some item \<Rightarrow>
               if \<not> retryable then markDead env key item code st
               else if code = js ''draft_busy'' then
                 let held = item\<lparr>qd_attempts := qd_attempts item - 1, qd_lastError := Some code\<rparr>
                 in (set_alarm env (he_now env + DRAFT_HOLD_BACKSTOP_MS)
                       (st\<lparr>hub_queue := kv_put key held (hub_queue st)\<rparr>),
                     if is_tx messageId
                     then [LedgerHold messageId (qd_targetAddr item) (qd_attempts held) (Some code) (he_now env)]
                     else [])
               else
                 (set_alarm env (he_now env + retry_delay (qd_attempts item))
                    (st\<lparr>hub_queue := kv_put key (item\<lparr>qd_lastError := Some code\<rparr>) (hub_queue st)\<rparr>), [])))"

text \<open>One marker of \<open>cancelDelivery\<close>, and the loop over the listing taken at its start.\<close>

definition cancel_marker :: "hub_env \<Rightarrow> jstr \<times> delivery_marker \<Rightarrow> host_hub \<Rightarrow> host_hub" where
  "cancel_marker env entry st =
     (let (mkey, mk) = entry in
      st\<lparr>hub_queue := (case dm_queueKey mk of None \<Rightarrow> hub_queue st
           | Some k \<Rightarrow> if k = [] then hub_queue st else kv_del k (hub_queue st)),
         hub_markers := kv_put mkey \<lparr>dm_status = MarkInjected, dm_updatedAt = he_now env,
           dm_queueKey = None, dm_item = None\<rparr> (hub_markers st)\<rparr>)"

definition cancelDelivery :: "hub_env \<Rightarrow> jstr \<Rightarrow> host_hub \<Rightarrow> host_hub \<times> nat" where
  "cancelDelivery env messageId st =
     (let cancelled = filter (\<lambda>(key, mk). marker_of_message messageId key \<and> dm_status mk = MarkQueued)
            (hub_markers st)
      in (fold (cancel_marker env) cancelled st, length cancelled))"

definition findDeadMarker :: "jstr \<Rightarrow> host_hub \<Rightarrow> (jstr \<times> delivery_marker) option" where
  "findDeadMarker messageId st =
     find (\<lambda>(key, mk). marker_of_message messageId key \<and> dm_status mk = MarkDead) (hub_markers st)"

definition requeue :: "hub_env \<Rightarrow> jstr \<Rightarrow> host_hub \<Rightarrow> host_hub \<times> hub_effect list \<times> bool" where
  "requeue env messageId st =
     (case findDeadMarker messageId st of
        Some (mkey, mk) \<Rightarrow>
          (case (dm_item mk, dm_queueKey mk) of
             (Some item, Some (c # cs)) \<Rightarrow>
               let fresh = item\<lparr>qd_attempts := 0, qd_enqueuedAt := he_now env, qd_lastAttemptAt := None,
                       qd_lastError := None\<rparr>;
                   st1 = st\<lparr>hub_queue := kv_put (c # cs) fresh (hub_queue st),
                            hub_markers := kv_put mkey \<lparr>dm_status = MarkQueued, dm_updatedAt = he_now env,
                              dm_queueKey = Some (c # cs), dm_item = None\<rparr> (hub_markers st)\<rparr>;
                   (st2, effs) = dispatchQueued env st1
               in (st2, effs, True)
           | _ \<Rightarrow> (st, [], False))
      | None \<Rightarrow> (st, [], False))"


section \<open>The inbox and the status\<close>

record inbox_entry =
  ib_id :: jstr
  ib_envelope :: jstr
  ib_enqueuedAt :: int

definition readInbox :: "jstr \<Rightarrow> host_hub \<Rightarrow> inbox_entry list" where
  "readInbox agent st =
     map (\<lambda>(key, item). \<lparr>ib_id = qd_messageId item, ib_envelope = render_for_send item,
            ib_enqueuedAt = qd_enqueuedAt item\<rparr>)
       (filter (\<lambda>(key, item). starts_with key (js ''q:'' @ agent @ [COLON])) (hub_queue st))"

definition settleInbox :: "hub_env \<Rightarrow> jstr \<Rightarrow> jstr \<Rightarrow> host_hub \<Rightarrow> host_hub \<times> hub_effect list \<times> bool" where
  "settleInbox env agent messageId st =
     (case kv_get (hub_markers st) (marker_key messageId agent) of
        Some mk \<Rightarrow>
          if dm_status mk = MarkQueued then
            let (st', effs) = handleDeliveryAck env messageId (Some agent) (Some (js ''mcp'')) st
            in (st', effs, True)
          else (st, [], False)
      | None \<Rightarrow> (st, [], False))"

record hub_status =
  hs_connected :: bool
  hs_agents :: "roster_agent list"
  hs_queueDepth :: nat
  hs_budgetExhausted :: "alarm_budget_status option"
  hs_spooledDead :: "nat option"

definition status :: "host_hub \<Rightarrow> hub_status" where
  "status st = \<lparr>hs_connected = (hub_socket st \<noteq> None), hs_agents = map snd (hub_roster st),
     hs_queueDepth = length (hub_queue st), hs_budgetExhausted = alarmBudgetStatus (hub_alarm st),
     hs_spooledDead = hub_spooledDead st\<rparr>"

definition revoke :: "hub_env \<Rightarrow> jstr option \<Rightarrow> host_hub \<Rightarrow> host_hub \<times> hub_effect list" where
  "revoke env org st =
     (st\<lparr>hub_socket := None\<rparr>,
      (if hub_socket st = None then [] else [CloseSocket 4001 (js ''host revoked'')]) @
      [Broadcast HostRevoked (he_now env) org])"

end
