(* ===== verification/Hub_Invariant.thy ===== *)
theory Hub_Invariant
  imports Host_Queue
begin

text \<open>
  The invariant of a hub's queue and what every operation of \<open>Host_Queue\<close> keeps of it: a queued
  entry and its marker point at each other, a dead marker carries what is needed to queue it
  again, and no entry is ever attempted more often than \<open>MAX_DELIVERY_ATTEMPTS\<close>.
\<close>

section \<open>Keys\<close>

lemma queue_key_inj: "queue_key a m = queue_key b n \<Longrightarrow> a = b \<and> m = n"
  unfolding queue_key_def
  using append_sep_inj_last [OF pad16_no_colon pad16_no_colon, of "js ''q:'' @ a" m "js ''q:'' @ b" n]
  by (auto dest: pad16_inj)

lemma queue_key_nonempty [simp]: "queue_key a n \<noteq> []"
  by (simp add: queue_key_def)

lemma marker_key_inj:
  "COLON \<notin> set a \<Longrightarrow> COLON \<notin> set b \<Longrightarrow> marker_key m a = marker_key n b \<Longrightarrow> m = n \<and> a = b"
  unfolding marker_key_def
  using append_sep_inj_last [of COLON a b "js ''d:'' @ m" "js ''d:'' @ n"] by auto

lemma marker_key_matches [simp]: "marker_of_message messageId (marker_key messageId agent)"
  by (auto simp: marker_of_message_def marker_key_def starts_with_iff)

section \<open>The invariant\<close>

definition entry_ok :: "(jstr, delivery_marker) store \<Rightarrow> nat \<Rightarrow> jstr \<Rightarrow> queued_delivery \<Rightarrow> bool" where
  "entry_ok m s key item \<longleftrightarrow>
     (\<exists>n \<le> s. key = queue_key (qd_agent item) n) \<and> qd_attempts item \<le> MAX_DELIVERY_ATTEMPTS \<and>
     (\<exists>mk. kv_get m (marker_key (qd_messageId item) (qd_agent item)) = Some mk \<and>
        dm_status mk = MarkQueued \<and> dm_queueKey mk = Some key)"

definition queued_ok :: "(jstr, queued_delivery) store \<Rightarrow> jstr \<Rightarrow> delivery_marker \<Rightarrow> bool" where
  "queued_ok q mkey mk \<longleftrightarrow> (\<exists>key item. dm_queueKey mk = Some key \<and> kv_get q key = Some item \<and>
     mkey = marker_key (qd_messageId item) (qd_agent item))"

definition dead_ok :: "(jstr, queued_delivery) store \<Rightarrow> nat \<Rightarrow> jstr \<Rightarrow> delivery_marker \<Rightarrow> bool" where
  "dead_ok q s mkey mk \<longleftrightarrow> (\<exists>key item. dm_queueKey mk = Some key \<and> dm_item mk = Some item \<and>
     kv_get q key = None \<and> mkey = marker_key (qd_messageId item) (qd_agent item) \<and>
     (\<exists>n \<le> s. key = queue_key (qd_agent item) n))"

definition queue_inv ::
  "(jstr, queued_delivery) store \<Rightarrow> (jstr, delivery_marker) store \<Rightarrow> nat \<Rightarrow> bool" where
  "queue_inv q m s \<longleftrightarrow> kv_ok q \<and> kv_ok m \<and>
     (\<forall>key item. kv_get q key = Some item \<longrightarrow> entry_ok m s key item) \<and>
     (\<forall>mkey mk. kv_get m mkey = Some mk \<longrightarrow> dm_status mk = MarkQueued \<longrightarrow> queued_ok q mkey mk) \<and>
     (\<forall>mkey mk. kv_get m mkey = Some mk \<longrightarrow> dm_status mk = MarkDead \<longrightarrow> dead_ok q s mkey mk) \<and>
     (\<forall>mkey mkey' mk mk'. kv_get m mkey = Some mk \<longrightarrow> kv_get m mkey' = Some mk' \<longrightarrow>
        dm_status mk = MarkDead \<longrightarrow> dm_status mk' = MarkDead \<longrightarrow>
        dm_queueKey mk = dm_queueKey mk' \<longrightarrow> mkey = mkey')"

definition hub_inv :: "host_hub \<Rightarrow> bool" where
  "hub_inv st \<longleftrightarrow> queue_inv (hub_queue st) (hub_markers st) (hub_seq st)"

named_theorems inv_parts \<open>the parts of the queue invariant\<close>

lemma queue_inv_parts [inv_parts]:
  assumes "queue_inv q m s"
  shows "kv_ok q" "kv_ok m"
    "kv_get q key = Some item \<Longrightarrow> entry_ok m s key item"
    "kv_get m mkey = Some mk \<Longrightarrow> dm_status mk = MarkQueued \<Longrightarrow> queued_ok q mkey mk"
    "kv_get m mkey = Some mk \<Longrightarrow> dm_status mk = MarkDead \<Longrightarrow> dead_ok q s mkey mk"
    "kv_get m mkey = Some mk \<Longrightarrow> kv_get m mkey' = Some mk' \<Longrightarrow> dm_status mk = MarkDead \<Longrightarrow>
     dm_status mk' = MarkDead \<Longrightarrow> dm_queueKey mk = dm_queueKey mk' \<Longrightarrow> mkey = mkey'"
  using assms unfolding queue_inv_def by auto

lemma queue_invI:
  assumes "kv_ok q" "kv_ok m"
    "\<And>key item. kv_get q key = Some item \<Longrightarrow> entry_ok m s key item"
    "\<And>mkey mk. kv_get m mkey = Some mk \<Longrightarrow> dm_status mk = MarkQueued \<Longrightarrow> queued_ok q mkey mk"
    "\<And>mkey mk. kv_get m mkey = Some mk \<Longrightarrow> dm_status mk = MarkDead \<Longrightarrow> dead_ok q s mkey mk"
    "\<And>mkey mkey' mk mk'. kv_get m mkey = Some mk \<Longrightarrow> kv_get m mkey' = Some mk' \<Longrightarrow>
       dm_status mk = MarkDead \<Longrightarrow> dm_status mk' = MarkDead \<Longrightarrow>
       dm_queueKey mk = dm_queueKey mk' \<Longrightarrow> mkey = mkey'"
  shows "queue_inv q m s"
  using assms unfolding queue_inv_def by blast

text \<open>Two entries of a well-formed queue never share a marker.\<close>

lemma entry_by_marker:
  assumes "queue_inv q m s" "kv_get q key = Some item" "kv_get q key' = Some item'"
    and "marker_key (qd_messageId item) (qd_agent item) = marker_key (qd_messageId item') (qd_agent item')"
  shows "key = key'"
  using queue_inv_parts(3) [OF assms(1,2)] queue_inv_parts(3) [OF assms(1,3)] assms(4)
  by (auto simp: entry_ok_def)

lemma queued_ok_del:
  assumes "queued_ok q mkey mk" "kv_get q key = Some item"
    and "mkey \<noteq> marker_key (qd_messageId item) (qd_agent item)"
  shows "queued_ok (kv_del key q) mkey mk"
proof -
  obtain k i where ki: "dm_queueKey mk = Some k" "kv_get q k = Some i"
      "mkey = marker_key (qd_messageId i) (qd_agent i)"
    using assms(1) by (auto simp: queued_ok_def)
  then have "k \<noteq> key" using assms(2,3) by auto
  with ki show ?thesis by (simp add: queued_ok_def store_simps)
qed

lemma queued_ok_put_new:
  assumes "queued_ok q mkey mk" "kv_get q key = None"
  shows "queued_ok (kv_put key item q) mkey mk"
proof -
  obtain k i where ki: "dm_queueKey mk = Some k" "kv_get q k = Some i"
      "mkey = marker_key (qd_messageId i) (qd_agent i)"
    using assms(1) by (auto simp: queued_ok_def)
  then have "k \<noteq> key" using assms(2) by auto
  with ki show ?thesis by (simp add: queued_ok_def store_simps)
qed

lemma queued_ok_put_same:
  assumes "queued_ok q mkey mk" "kv_get q key = Some item"
    and "qd_messageId item' = qd_messageId item" "qd_agent item' = qd_agent item"
  shows "queued_ok (kv_put key item' q) mkey mk"
proof -
  obtain k i where ki: "dm_queueKey mk = Some k" "kv_get q k = Some i"
      "mkey = marker_key (qd_messageId i) (qd_agent i)"
    using assms(1) by (auto simp: queued_ok_def)
  show ?thesis
    using ki assms by (cases "k = key") (simp_all add: queued_ok_def store_simps)
qed

lemma dead_ok_put:
  assumes "dead_ok q s mkey mk" "dm_queueKey mk \<noteq> Some key" "s \<le> s'"
  shows "dead_ok (kv_put key item q) s' mkey mk"
proof -
  obtain k i n where "dm_queueKey mk = Some k" "dm_item mk = Some i" "kv_get q k = None"
      "mkey = marker_key (qd_messageId i) (qd_agent i)" "n \<le> s" "k = queue_key (qd_agent i) n"
    using assms(1) by (auto simp: dead_ok_def)
  then show ?thesis
    using assms(2,3) unfolding dead_ok_def
    by (intro exI [of _ k] exI [of _ i]) (auto simp: store_simps intro!: exI [of _ n])
qed

lemma dead_ok_del: "dead_ok q s mkey mk \<Longrightarrow> dead_ok (kv_del key q) s mkey mk"
  by (force simp: store_simps dead_ok_def)

lemma entry_ok_put_marker:
  assumes "entry_ok m s key item" "marker_key (qd_messageId item) (qd_agent item) \<noteq> mkey" "s \<le> s'"
  shows "entry_ok (kv_put mkey mk m) s' key item"
proof -
  obtain n where "n \<le> s'" "key = queue_key (qd_agent item) n"
    using assms(1,3) order_trans unfolding entry_ok_def by blast
  then show ?thesis
    using assms(1,2) by (auto simp: entry_ok_def store_simps)
qed

lemma kv_get_putE:
  assumes "kv_get (kv_put k v s) k' = Some v'"
  obtains "k' = k" "v' = v" | "k' \<noteq> k" "kv_get s k' = Some v'"
  using assms by (auto simp: store_simps split: if_splits)

lemma kv_get_delE:
  assumes "kv_get (kv_del k s) k' = Some v'"
  obtains "k' \<noteq> k" "kv_get s k' = Some v'"
  using assms by (auto simp: store_simps split: if_splits)

section \<open>The five ways the queue changes\<close>

lemma inv_put_entry:
  assumes inv: "queue_inv q m s" and old: "kv_get q key = Some item"
    and same: "qd_messageId item' = qd_messageId item" "qd_agent item' = qd_agent item"
    and att: "qd_attempts item' \<le> MAX_DELIVERY_ATTEMPTS"
  shows "queue_inv (kv_put key item' q) m s"
proof (rule queue_invI)
  show "entry_ok m s k i" if "kv_get (kv_put key item' q) k = Some i" for k i
    using that queue_inv_parts(3) [OF inv old] queue_inv_parts(3) [OF inv, of k i] same att
    by (auto simp: store_simps entry_ok_def split: if_splits)
  show "queued_ok (kv_put key item' q) mk' mk" if "kv_get m mk' = Some mk" "dm_status mk = MarkQueued" for mk' mk
    using queued_ok_put_same [OF queue_inv_parts(4) [OF inv that] old same] .
  show "dead_ok (kv_put key item' q) s mk' mk" if "kv_get m mk' = Some mk" "dm_status mk = MarkDead" for mk' mk
    using queue_inv_parts(5) [OF inv that] old by (intro dead_ok_put) (auto simp: dead_ok_def)
qed (use queue_inv_parts [OF inv] in auto)

lemma inv_settle:
  assumes inv: "queue_inv q m s" and old: "kv_get q key = Some item"
    and mkey: "mkey = marker_key (qd_messageId item) (qd_agent item)"
    and inj: "dm_status mk' = MarkInjected"
  shows "queue_inv (kv_del key q) (kv_put mkey mk' m) s"
proof (rule queue_invI)
  show "entry_ok (kv_put mkey mk' m) s k i" if "kv_get (kv_del key q) k = Some i" for k i
    using that
  proof (cases rule: kv_get_delE)
    case 1
    then have "marker_key (qd_messageId i) (qd_agent i) \<noteq> mkey"
      using entry_by_marker [OF inv old] mkey by metis
    then show ?thesis
      using entry_ok_put_marker [OF queue_inv_parts(3) [OF inv 1(2)]] by blast
  qed
  show "queued_ok (kv_del key q) a b" if "kv_get (kv_put mkey mk' m) a = Some b" "dm_status b = MarkQueued" for a b
    using that queued_ok_del [OF queue_inv_parts(4) [OF inv, of a b] old] inj mkey
    by (auto simp: store_simps split: if_splits)
  show "dead_ok (kv_del key q) s a b" if "kv_get (kv_put mkey mk' m) a = Some b" "dm_status b = MarkDead" for a b
    using that dead_ok_del [OF queue_inv_parts(5) [OF inv, of a b]] inj by (auto elim: kv_get_putE)
  show "a = a'" if "kv_get (kv_put mkey mk' m) a = Some b" "kv_get (kv_put mkey mk' m) a' = Some b'"
      "dm_status b = MarkDead" "dm_status b' = MarkDead" "dm_queueKey b = dm_queueKey b'" for a a' b b'
    using that queue_inv_parts(6) [OF inv, of a b a' b'] inj
    by (auto simp: store_simps split: if_splits)
qed (use queue_inv_parts [OF inv] in auto)

lemma inv_markDead:
  assumes inv: "queue_inv q m s" and old: "kv_get q key = Some item"
    and same: "qd_messageId item' = qd_messageId item" "qd_agent item' = qd_agent item"
    and mkey: "mkey = marker_key (qd_messageId item) (qd_agent item)"
    and dead: "dm_status mk' = MarkDead" "dm_queueKey mk' = Some key" "dm_item mk' = Some item'"
  shows "queue_inv (kv_del key q) (kv_put mkey mk' m) s"
proof (rule queue_invI)
  have own: "entry_ok m s key item" by (rule queue_inv_parts(3) [OF inv old])
  show "entry_ok (kv_put mkey mk' m) s k i" if "kv_get (kv_del key q) k = Some i" for k i
    using that
  proof (cases rule: kv_get_delE)
    case 1
    then have "marker_key (qd_messageId i) (qd_agent i) \<noteq> mkey"
      using entry_by_marker [OF inv old] mkey by metis
    then show ?thesis
      using entry_ok_put_marker [OF queue_inv_parts(3) [OF inv 1(2)]] by blast
  qed
  show "queued_ok (kv_del key q) a b" if "kv_get (kv_put mkey mk' m) a = Some b" "dm_status b = MarkQueued" for a b
    using that queued_ok_del [OF queue_inv_parts(4) [OF inv, of a b] old] dead mkey
    by (auto simp: store_simps split: if_splits)
  show "dead_ok (kv_del key q) s a b" if "kv_get (kv_put mkey mk' m) a = Some b" "dm_status b = MarkDead" for a b
  proof (cases "a = mkey")
    case True
    then show ?thesis
      using that dead same mkey own by (auto simp: store_simps dead_ok_def entry_ok_def)
  next
    case False
    then show ?thesis
      using that dead_ok_del [OF queue_inv_parts(5) [OF inv, of a b]] by (simp add: store_simps)
  qed
  have other: "dm_queueKey b \<noteq> Some key" if "kv_get m a = Some b" "dm_status b = MarkDead" for a b
    using queue_inv_parts(5) [OF inv that] old by (auto simp: dead_ok_def)
  show "a = a'" if "kv_get (kv_put mkey mk' m) a = Some b" "kv_get (kv_put mkey mk' m) a' = Some b'"
      "dm_status b = MarkDead" "dm_status b' = MarkDead" "dm_queueKey b = dm_queueKey b'" for a a' b b'
    using that queue_inv_parts(6) [OF inv, of a b a' b'] other dead
    by (auto simp: store_simps split: if_splits)
qed (use queue_inv_parts [OF inv] in auto)

lemma inv_enqueue:
  assumes inv: "queue_inv q m s" and fresh: "key = queue_key (qd_agent item) (Suc s)"
    and mkey: "mkey = marker_key (qd_messageId item) (qd_agent item)"
    and free: "\<And>mk. kv_get m mkey = Some mk \<Longrightarrow> dm_status mk \<noteq> MarkQueued"
    and att: "qd_attempts item \<le> MAX_DELIVERY_ATTEMPTS"
    and mk': "dm_status mk' = MarkQueued" "dm_queueKey mk' = Some key"
  shows "queue_inv (kv_put key item q) (kv_put mkey mk' m) (Suc s)"
proof (rule queue_invI)
  have new: "key \<noteq> queue_key a n" if "n \<le> s" for a n
    using that fresh queue_key_inj by fastforce
  have notold: "kv_get q key = None"
    using queue_inv_parts(3) [OF inv, of key] new by (cases "kv_get q key") (auto simp: entry_ok_def)
  show "entry_ok (kv_put mkey mk' m) (Suc s) k i" if k: "kv_get (kv_put key item q) k = Some i" for k i
  proof (cases "k = key")
    case True
    then show ?thesis using k fresh mkey att mk' by (auto simp: store_simps entry_ok_def)
  next
    case False
    then have e: "entry_ok m s k i" using k queue_inv_parts(3) [OF inv] by (simp add: store_simps)
    then have "marker_key (qd_messageId i) (qd_agent i) \<noteq> mkey" using free by (auto simp: entry_ok_def)
    with e show ?thesis by (intro entry_ok_put_marker) auto
  qed
  show "queued_ok (kv_put key item q) a b" if ab: "kv_get (kv_put mkey mk' m) a = Some b" "dm_status b = MarkQueued" for a b
  proof (cases "a = mkey")
    case True
    then show ?thesis using ab mk' mkey by (auto simp: store_simps queued_ok_def)
  next
    case False
    then show ?thesis
      using ab queued_ok_put_new [OF queue_inv_parts(4) [OF inv, of a b] notold] by (simp add: store_simps)
  qed
  show "dead_ok (kv_put key item q) (Suc s) a b" if "kv_get (kv_put mkey mk' m) a = Some b" "dm_status b = MarkDead" for a b
    using that(1)
  proof (cases rule: kv_get_putE)
    case 2
    have d: "dead_ok q s a b" by (rule queue_inv_parts(5) [OF inv 2(2) that(2)])
    then have "dm_queueKey b \<noteq> Some key" using new by (auto simp: dead_ok_def)
    with d show ?thesis by (intro dead_ok_put) auto
  qed (use that mk' in simp)
  show "a = a'" if "kv_get (kv_put mkey mk' m) a = Some b" "kv_get (kv_put mkey mk' m) a' = Some b'"
      "dm_status b = MarkDead" "dm_status b' = MarkDead" "dm_queueKey b = dm_queueKey b'" for a a' b b'
    using that queue_inv_parts(6) [OF inv, of a b a' b'] mk'
    by (auto simp: store_simps split: if_splits)
qed (use queue_inv_parts [OF inv] in auto)

lemma inv_requeue:
  assumes inv: "queue_inv q m s" and old: "kv_get m mkey = Some mk" "dm_status mk = MarkDead"
    and key: "dm_queueKey mk = Some key" and it: "dm_item mk = Some item"
    and same: "qd_messageId item' = qd_messageId item" "qd_agent item' = qd_agent item"
    and att: "qd_attempts item' \<le> MAX_DELIVERY_ATTEMPTS"
    and mk': "dm_status mk' = MarkQueued" "dm_queueKey mk' = Some key"
  shows "queue_inv (kv_put key item' q) (kv_put mkey mk' m) s"
proof (rule queue_invI)
  have d: "kv_get q key = None" "mkey = marker_key (qd_messageId item) (qd_agent item)"
      "\<exists>n \<le> s. key = queue_key (qd_agent item) n"
    using queue_inv_parts(5) [OF inv old] key it by (auto simp: dead_ok_def)
  show "entry_ok (kv_put mkey mk' m) s k i" if k: "kv_get (kv_put key item' q) k = Some i" for k i
  proof (cases "k = key")
    case True
    then show ?thesis using k d same att mk' by (auto simp: store_simps entry_ok_def)
  next
    case False
    then have e: "entry_ok m s k i" using k queue_inv_parts(3) [OF inv] by (simp add: store_simps)
    then have "marker_key (qd_messageId i) (qd_agent i) \<noteq> mkey" using old by (auto simp: entry_ok_def)
    with e show ?thesis by (intro entry_ok_put_marker) auto
  qed
  show "queued_ok (kv_put key item' q) a b" if ab: "kv_get (kv_put mkey mk' m) a = Some b" "dm_status b = MarkQueued" for a b
  proof (cases "a = mkey")
    case True
    then show ?thesis using ab mk' d same by (auto simp: store_simps queued_ok_def)
  next
    case False
    then show ?thesis
      using ab queued_ok_put_new [OF queue_inv_parts(4) [OF inv, of a b] d(1)] by (simp add: store_simps)
  qed
  show "dead_ok (kv_put key item' q) s a b" if ab: "kv_get (kv_put mkey mk' m) a = Some b" "dm_status b = MarkDead" for a b
  proof -
    have a: "a \<noteq> mkey" "kv_get m a = Some b" using ab mk' by (auto simp: store_simps split: if_splits)
    then have "dm_queueKey b \<noteq> Some key" using queue_inv_parts(6) [OF inv a(2) old(1) ab(2) old(2)] key by auto
    with queue_inv_parts(5) [OF inv a(2) ab(2)] show ?thesis by (intro dead_ok_put) auto
  qed
  show "a = a'" if "kv_get (kv_put mkey mk' m) a = Some b" "kv_get (kv_put mkey mk' m) a' = Some b'"
      "dm_status b = MarkDead" "dm_status b' = MarkDead" "dm_queueKey b = dm_queueKey b'" for a a' b b'
    using that queue_inv_parts(6) [OF inv, of a b a' b'] mk'
    by (auto simp: store_simps split: if_splits)
qed (use queue_inv_parts [OF inv] in auto)


section \<open>Dispatch keeps it\<close>

lemma markDead_inv:
  assumes "hub_inv st" "kv_get (hub_queue st) key = Some item"
  shows "hub_inv (fst (markDead env key item err st))"
  using assms unfolding hub_inv_def
  by (auto simp: markDead_def intro!: inv_markDead [where item' = "item\<lparr>qd_lastError := Some err\<rparr>"])

lemma markDead_frame [simp]:
  "hub_queue (fst (markDead env key item err st)) = kv_del key (hub_queue st)"
  "hub_seq (fst (markDead env key item err st)) = hub_seq st"
  "hub_roster (fst (markDead env key item err st)) = hub_roster st"
  "hub_gone (fst (markDead env key item err st)) = hub_gone st"
  "hub_socket (fst (markDead env key item err st)) = hub_socket st"
  "hub_alarm (fst (markDead env key item err st)) = hub_alarm st"
  "hub_sends (fst (markDead env key item err st)) = hub_sends st"
  "hub_rates (fst (markDead env key item err st)) = hub_rates st"
  by (simp_all add: markDead_def)

lemma claim_SomeD:
  assumes "claim env key item st = Some st'"
  shows "\<exists>current. kv_get (hub_queue st) key = Some current \<and> qd_attempts current = qd_attempts item \<and>
    st' = st\<lparr>hub_queue := kv_put key (item\<lparr>qd_attempts := qd_attempts item + 1,
            qd_lastAttemptAt := Some (he_now env), qd_lastError := None\<rparr>) (hub_queue st)\<rparr>"
  using assms by (auto simp: claim_def split: option.splits if_splits)

lemma due_attempts: "dispatch_verdict env st item = Due \<Longrightarrow> qd_attempts item < MAX_DELIVERY_ATTEMPTS"
  by (auto simp: dispatch_verdict_def Let_def split: if_splits)

text \<open>The state after one entry, by the verdict on it.\<close>

lemma dispatch_entry_cases:
  obtains (expired) err where "dispatch_verdict env st item = Expired err"
      "fst (dispatch_entry env (key, item) (st, effs, w)) = fst (markDead env key item err st)"
  | (kept) "fst (dispatch_entry env (key, item) (st, effs, w)) = st"
      "fst (snd (dispatch_entry env (key, item) (st, effs, w))) = effs"
  | (sent) current item' where "dispatch_verdict env st item = Due"
      "kv_get (hub_queue st) key = Some current" "qd_attempts current = qd_attempts item"
      "fst (dispatch_entry env (key, item) (st, effs, w)) = st\<lparr>hub_queue := kv_put key item' (hub_queue st)\<rparr>"
      "item' = item\<lparr>qd_attempts := qd_attempts item + 1, qd_lastAttemptAt := Some (he_now env),
                   qd_lastError := he_send_error env item\<rparr>"
      "fst (snd (dispatch_entry env (key, item) (st, effs, w))) = effs @ send_effects env item"
proof (cases "dispatch_verdict env st item")
  case (Expired err)
  then show thesis using expired by (auto simp: dispatch_entry_def split_def Let_def)
next
  case Due
  show thesis
  proof (cases "claim env key item st")
    case None
    with Due show thesis using kept by (simp add: dispatch_entry_def)
  next
    case (Some st1)
    obtain current where cur: "kv_get (hub_queue st) key = Some current" "qd_attempts current = qd_attempts item"
      and st1: "st1 = st\<lparr>hub_queue := kv_put key (item\<lparr>qd_attempts := qd_attempts item + 1,
            qd_lastAttemptAt := Some (he_now env), qd_lastError := None\<rparr>) (hub_queue st)\<rparr>"
      using claim_SomeD [OF Some] by blast
    have twice: "kv_put k a (kv_put k b s) = kv_put k a s" for k :: jstr and a b :: queued_delivery and s
      by (induction k b s rule: kv_put.induct) auto
    show thesis
    proof (rule sent [OF Due cur _ refl])
      show "fst (dispatch_entry env (key, item) (st, effs, w)) = st\<lparr>hub_queue := kv_put key
          (item\<lparr>qd_attempts := qd_attempts item + 1, qd_lastAttemptAt := Some (he_now env),
                qd_lastError := he_send_error env item\<rparr>) (hub_queue st)\<rparr>"
        using Due Some by (simp add: dispatch_entry_def st1 twice Let_def)
      show "fst (snd (dispatch_entry env (key, item) (st, effs, w))) = effs @ send_effects env item"
        using Due Some by (simp add: dispatch_entry_def Let_def)
    qed
  qed
qed (use kept in \<open>auto simp: dispatch_entry_def\<close>)

lemma dispatch_entry_inv:
  assumes "hub_inv st" "kv_get (hub_queue st) key = Some item"
  shows "hub_inv (fst (dispatch_entry env (key, item) (st, effs, w)))"
proof (cases rule: dispatch_entry_cases [of env st item key effs w])
  case (expired err)
  then show ?thesis using markDead_inv [OF assms] by simp
next
  case (sent current item')
  then show ?thesis
    using assms due_attempts [OF sent(1)] unfolding hub_inv_def
    by (auto intro!: inv_put_entry)
qed (use assms in simp)

lemma dispatch_entry_frame:
  "k \<noteq> key \<Longrightarrow> kv_get (hub_queue (fst (dispatch_entry env (key, item) (st, effs, w)))) k = kv_get (hub_queue st) k"
  "hub_seq (fst (dispatch_entry env (key, item) (st, effs, w))) = hub_seq st"
  "hub_roster (fst (dispatch_entry env (key, item) (st, effs, w))) = hub_roster st"
  "hub_gone (fst (dispatch_entry env (key, item) (st, effs, w))) = hub_gone st"
  "hub_socket (fst (dispatch_entry env (key, item) (st, effs, w))) = hub_socket st"
  "hub_sends (fst (dispatch_entry env (key, item) (st, effs, w))) = hub_sends st"
  by (cases rule: dispatch_entry_cases [of env st item key effs w]; simp add: store_simps)+

lemma dispatch_fold_inv:
  assumes "hub_inv st" "distinct (map fst batch)" "\<forall>(k, i) \<in> set batch. kv_get (hub_queue st) k = Some i"
  shows "hub_inv (fst (fold (dispatch_entry env) batch (st, effs, w)))"
  using assms
proof (induction batch arbitrary: st effs w)
  case (Cons e batch)
  obtain key item where e: "e = (key, item)" by (cases e)
  obtain st' effs' w' where r: "dispatch_entry env (key, item) (st, effs, w) = (st', effs', w')"
    by (metis prod_cases3)
  have "hub_inv st'"
    using dispatch_entry_inv [of st key item env effs w] Cons.prems r e by simp
  moreover have "\<forall>(k, i) \<in> set batch. kv_get (hub_queue st') k = Some i"
  proof safe
    fix k i
    assume ki: "(k, i) \<in> set batch"
    then have "k \<noteq> key" using Cons.prems(2) e by (auto simp: image_iff)
    then have "kv_get (hub_queue st') k = kv_get (hub_queue st) k"
      using dispatch_entry_frame(1) [of k key env item st effs w] r by simp
    then show "kv_get (hub_queue st') k = Some i" using Cons.prems(3) ki by auto
  qed
  ultimately show ?case using Cons.IH Cons.prems(2) r e by simp
qed simp

lemma batch_entries:
  assumes "hub_inv st"
  shows "distinct (map fst (take n (hub_queue st)))"
    "\<forall>(k, i) \<in> set (take n (hub_queue st)). kv_get (hub_queue st) k = Some i"
proof -
  have ok: "kv_ok (hub_queue st)" using assms queue_inv_parts(1) unfolding hub_inv_def by blast
  then show "distinct (map fst (take n (hub_queue st)))"
    by (simp add: take_map [symmetric] kv_ok_distinct)
  show "\<forall>(k, i) \<in> set (take n (hub_queue st)). kv_get (hub_queue st) k = Some i"
    using ok kv_ok_mem_iff by (fastforce dest: in_set_takeD)
qed

lemma hub_inv_alarm [simp]:
  "hub_inv (set_alarm env t st) = hub_inv st"
  "hub_queue (set_alarm env t st) = hub_queue st"
  "hub_markers (set_alarm env t st) = hub_markers st"
  "hub_seq (set_alarm env t st) = hub_seq st"
  "hub_roster (set_alarm env t st) = hub_roster st"
  "hub_socket (set_alarm env t st) = hub_socket st"
  by (simp_all add: set_alarm_def hub_inv_def)

lemma dispatchQueued_state:
  "\<exists>w. fst (dispatchQueued env st) =
     (case w of None \<Rightarrow> fst (fold (dispatch_entry env) (take QUEUE_BATCH_SIZE (hub_queue st)) (st, [], None))
      | Some t \<Rightarrow> set_alarm env t
          (fst (fold (dispatch_entry env) (take QUEUE_BATCH_SIZE (hub_queue st)) (st, [], None))))"
  unfolding dispatchQueued_def Let_def split_def
  by (cases "take QUEUE_BATCH_SIZE (hub_queue st) = []")
    (auto intro: exI [of _ None] exI [of _ "Some (he_now env)"])

lemma dispatchQueued_inv:
  assumes "hub_inv st"
  shows "hub_inv (fst (dispatchQueued env st))"
proof -
  have "hub_inv (fst (fold (dispatch_entry env) (take QUEUE_BATCH_SIZE (hub_queue st)) (st, [], None)))"
    using batch_entries [OF assms] assms by (intro dispatch_fold_inv)
  then show ?thesis
    using dispatchQueued_state [of env st] by (auto split: option.splits)
qed


section \<open>Queueing and settlement keep it\<close>

lemma enqueue_inv: "hub_inv st \<Longrightarrow> hub_inv (fst (enqueue env inp st))"
  unfolding hub_inv_def enqueue_def Let_def
  by (auto split: if_splits option.splits intro!: inv_enqueue)

lemma queueDelivery_inv: "hub_inv st \<Longrightarrow> hub_inv (fst (queueDelivery env inp st))"
  using enqueue_inv [of st env inp] dispatchQueued_inv
  by (auto simp: queueDelivery_def Let_def split_def)

lemma first_queued_mem: "first_queued before ms = Some m \<Longrightarrow> m \<in> set ms"
proof -
  have "fold (\<lambda>m best. case best of None \<Rightarrow> Some m
        | Some b \<Rightarrow> if before (the (dm_queueKey (snd m))) (the (dm_queueKey (snd b))) then Some m else Some b) ms b0
      = Some m \<Longrightarrow> m \<in> set ms \<or> b0 = Some m" for b0
    by (induction ms arbitrary: b0) (auto split: option.splits if_splits)
  then show "first_queued before ms = Some m \<Longrightarrow> m \<in> set ms" by (auto simp: first_queued_def)
qed

lemma first_queued_None: "first_queued before ms = None \<longleftrightarrow> ms = []"
proof (cases ms)
  case (Cons m ms')
  have "fold (\<lambda>m best. case best of None \<Rightarrow> Some m
        | Some b \<Rightarrow> if before (the (dm_queueKey (snd m))) (the (dm_queueKey (snd b))) then Some m else Some b) ms' (Some b)
      \<noteq> None" for b
    by (induction ms' arbitrary: b) auto
  from this [of m] Cons show ?thesis by (simp add: first_queued_def)
qed (simp add: first_queued_def)

lemma resolve_sound:
  assumes "hub_inv st" "resolveQueuedMarker env messageId agent st = Some (mkey, mk)"
  shows "kv_get (hub_markers st) mkey = Some mk \<and> queued_marker mk \<and> marker_of_message messageId mkey"
proof -
  have ok: "kv_ok (hub_markers st)" using assms(1) queue_inv_parts(2) unfolding hub_inv_def by blast
  consider a where "agent = Some a" "mkey = marker_key messageId a"
      "kv_get (hub_markers st) mkey = Some mk" "queued_marker mk"
    | "first_queued (he_before env)
         (filter (\<lambda>(key, mk). marker_of_message messageId key \<and> queued_marker mk) (hub_markers st)) = Some (mkey, mk)"
    using assms(2)
    by (auto simp: resolveQueuedMarker_def Let_def split: option.splits list.splits if_splits)
  then show ?thesis
  proof cases
    case 2
    from first_queued_mem [OF this] show ?thesis using kv_ok_mem_iff [OF ok] by auto
  qed auto
qed

text \<open>What a resolved marker stands for.\<close>

lemma resolve_entry:
  assumes "hub_inv st" "resolveQueuedMarker env messageId agent st = Some (mkey, mk)"
  obtains key item where "dm_queueKey mk = Some key" "kv_get (hub_queue st) key = Some item"
    "mkey = marker_key (qd_messageId item) (qd_agent item)"
  using resolve_sound [OF assms] queue_inv_parts(4) [of "hub_queue st" "hub_markers st" "hub_seq st" mkey mk] assms(1)
  by (auto simp: hub_inv_def queued_marker_def queued_ok_def)

lemma handleDeliveryAck_inv:
  assumes "hub_inv st"
  shows "hub_inv (fst (handleDeliveryAck env messageId agent via st))"
proof (cases "resolveQueuedMarker env messageId agent st")
  case (Some r)
  obtain mkey mk where r: "r = (mkey, mk)" by (cases r)
  obtain key item where k: "dm_queueKey mk = Some key" "kv_get (hub_queue st) key = Some item"
      "mkey = marker_key (qd_messageId item) (qd_agent item)"
    using resolve_entry [OF assms] Some r by metis
  then show ?thesis
    using Some r assms unfolding hub_inv_def
    by (auto simp: handleDeliveryAck_def intro!: inv_settle)
qed (simp add: handleDeliveryAck_def assms)

lemma handleDeliveryNak_inv:
  assumes "hub_inv st"
  shows "hub_inv (fst (handleDeliveryNak env messageId code retryable agent st))"
proof (cases "resolveQueuedMarker env messageId agent st")
  case (Some r)
  obtain mkey mk where r: "r = (mkey, mk)" by (cases r)
  obtain key item where k: "dm_queueKey mk = Some key" "kv_get (hub_queue st) key = Some item"
    using resolve_entry [OF assms] Some r by metis
  have att: "qd_attempts item \<le> MAX_DELIVERY_ATTEMPTS"
    using queue_inv_parts(3) [OF assms [unfolded hub_inv_def] k(2)] by (simp add: entry_ok_def)
  have put: "hub_inv (st\<lparr>hub_queue := kv_put key i (hub_queue st)\<rparr>)"
    if "qd_messageId i = qd_messageId item" "qd_agent i = qd_agent item" "qd_attempts i \<le> MAX_DELIVERY_ATTEMPTS" for i
    using inv_put_entry [OF assms [unfolded hub_inv_def] k(2) that] by (simp add: hub_inv_def)
  show ?thesis
    using Some r k markDead_inv [OF assms k(2)] put att
    by (simp add: handleDeliveryNak_def Let_def)
qed (simp add: handleDeliveryNak_def assms)

lemma cancel_marker_inv:
  assumes "hub_inv st" "kv_get (hub_markers st) mkey = Some mk" "dm_status mk = MarkQueued"
  shows "hub_inv (cancel_marker env (mkey, mk) st)"
proof -
  obtain key item where k: "dm_queueKey mk = Some key" "kv_get (hub_queue st) key = Some item"
      "mkey = marker_key (qd_messageId item) (qd_agent item)"
    using queue_inv_parts(4) [OF assms(1) [unfolded hub_inv_def] assms(2,3)] by (auto simp: queued_ok_def)
  moreover have "key \<noteq> []"
    using queue_inv_parts(3) [OF assms(1) [unfolded hub_inv_def] k(2)] by (auto simp: entry_ok_def)
  ultimately show ?thesis
    using assms(1) unfolding hub_inv_def by (auto simp: cancel_marker_def intro!: inv_settle)
qed

lemma cancel_marker_frame:
  "kv_get (hub_markers (cancel_marker env (mkey, mk) st)) k =
     (if k = mkey then Some \<lparr>dm_status = MarkInjected, dm_updatedAt = he_now env, dm_queueKey = None, dm_item = None\<rparr>
      else kv_get (hub_markers st) k)"
  by (simp add: cancel_marker_def store_simps)

lemma cancel_fold_inv:
  assumes "hub_inv st" "distinct (map fst ms)"
    "\<forall>(k, mk) \<in> set ms. kv_get (hub_markers st) k = Some mk \<and> dm_status mk = MarkQueued"
  shows "hub_inv (fold (cancel_marker env) ms st)"
  using assms
proof (induction ms arbitrary: st)
  case (Cons e ms)
  obtain mkey mk where e: "e = (mkey, mk)" by (cases e)
  have "hub_inv (cancel_marker env (mkey, mk) st)" using Cons.prems e by (auto intro: cancel_marker_inv)
  moreover have "\<forall>(k, mk') \<in> set ms. kv_get (hub_markers (cancel_marker env (mkey, mk) st)) k = Some mk' \<and>
      dm_status mk' = MarkQueued"
    using Cons.prems(2,3) e by (force simp: cancel_marker_frame)
  ultimately show ?case using Cons.IH Cons.prems(2) e by simp
qed simp

lemma cancelled_markers:
  assumes "hub_inv st"
  shows "distinct (map fst (filter P (hub_markers st)))"
    "(k, mk) \<in> set (filter P (hub_markers st)) \<longleftrightarrow> kv_get (hub_markers st) k = Some mk \<and> P (k, mk)"
proof -
  have ok: "kv_ok (hub_markers st)" using assms queue_inv_parts(2) unfolding hub_inv_def by blast
  then show "distinct (map fst (filter P (hub_markers st)))"
    by (simp add: kv_ok_distinct distinct_map_filter)
  show "(k, mk) \<in> set (filter P (hub_markers st)) \<longleftrightarrow> kv_get (hub_markers st) k = Some mk \<and> P (k, mk)"
    using kv_ok_mem_iff [OF ok] by auto
qed

lemma cancelDelivery_inv:
  assumes "hub_inv st"
  shows "hub_inv (fst (cancelDelivery env messageId st))"
  unfolding cancelDelivery_def Let_def fst_conv
  using cancelled_markers [OF assms] by (intro cancel_fold_inv assms) auto

lemma requeue_inv:
  assumes "hub_inv st"
  shows "hub_inv (fst (requeue env messageId st))"
proof (cases "findDeadMarker messageId st")
  case (Some r)
  obtain mkey mk where r: "r = (mkey, mk)" by (cases r)
  have "(mkey, mk) \<in> set (hub_markers st)" "dm_status mk = MarkDead"
    using find_in_set [OF Some [unfolded findDeadMarker_def]] r by auto
  moreover have "kv_ok (hub_markers st)" using assms queue_inv_parts(2) unfolding hub_inv_def by blast
  ultimately have get: "kv_get (hub_markers st) mkey = Some mk" "dm_status mk = MarkDead"
    by (simp_all add: kv_ok_mem_iff)
  obtain key item where k: "dm_queueKey mk = Some key" "dm_item mk = Some item"
    using queue_inv_parts(5) [OF assms [unfolded hub_inv_def] get] by (auto simp: dead_ok_def)
  show ?thesis
  proof (cases key)
    case Nil
    then show ?thesis using Some r k assms by (simp add: requeue_def)
  next
    case (Cons c cs)
    let ?fresh = "item\<lparr>qd_attempts := 0, qd_enqueuedAt := he_now env, qd_lastAttemptAt := None, qd_lastError := None\<rparr>"
    let ?st1 = "st\<lparr>hub_queue := kv_put (c # cs) ?fresh (hub_queue st),
        hub_markers := kv_put mkey \<lparr>dm_status = MarkQueued, dm_updatedAt = he_now env,
          dm_queueKey = Some (c # cs), dm_item = None\<rparr> (hub_markers st)\<rparr>"
    have "hub_inv ?st1"
      using inv_requeue [OF assms [unfolded hub_inv_def] get k, of ?fresh] Cons
      unfolding hub_inv_def by simp
    from dispatchQueued_inv [OF this] show ?thesis
      using Some r k Cons by (simp add: requeue_def Let_def split_def)
  qed
qed (simp add: requeue_def assms)

lemma settleInbox_inv: "hub_inv st \<Longrightarrow> hub_inv (fst (settleInbox env agent messageId st))"
  using handleDeliveryAck_inv [of st env messageId "Some agent" "Some (js ''mcp'')"]
  by (simp add: settleInbox_def split_def Let_def del: js_simps split: option.splits)

lemma new_hub_inv: "hub_inv new_hub"
  by (simp add: hub_inv_def new_hub_def queue_inv_def)

end
