(* ===== verification/Host_Roster.thy ===== *)
theory Host_Roster
  imports Hub_Invariant
begin

text \<open>
  \<^verbatim>\<open>src/do/host-hub.ts\<close>, the daemon's side: the connection, \<open>hello\<close>, and \<open>applyRoster\<close>, which replaces
  the roster, keeps the address of an agent that left for the queue's own lifetime, moves the
  queue of a renamed agent, and dispatches.
\<close>

section \<open>The connection\<close>

definition acceptDaemon :: "hub_env \<Rightarrow> host_identity \<Rightarrow> bool \<Rightarrow> host_hub \<Rightarrow> host_hub \<times> hub_effect list \<times> nat" where
  "acceptDaemon env identity upgrade st =
     (if \<not> upgrade then (st, [], 426)
      else if hi_org identity = [] \<or> hi_hostId identity = [] \<or> hi_slug identity = [] then (st, [], 400)
      else (st\<lparr>hub_socket := Some \<lparr>da_identity = identity, da_ready = False,
                 da_frameRate = \<lparr>tokens = 100, updatedAt = he_now env\<rparr>\<rparr>\<rparr>,
            (if hub_socket st = None then []
             else [CloseSocket 4000 (js ''replaced by a new daemon connection'')]) @
            [Broadcast (HostConnected (hi_slug identity)) (he_now env) (Some (hi_org identity))],
            101))"

definition webSocketClose :: "hub_env \<Rightarrow> host_hub \<Rightarrow> host_hub \<times> hub_effect list" where
  "webSocketClose env st =
     (case hub_socket st of
        None \<Rightarrow> (st, [])
      | Some a \<Rightarrow> (st\<lparr>hub_socket := None\<rparr>,
          [Broadcast (HostDisconnected (hi_slug (da_identity a))) (he_now env) (Some (hi_org (da_identity a)))]))"

definition handleHello ::
  "hub_env \<Rightarrow> daemon_attachment \<Rightarrow> jstr \<Rightarrow> jstr \<Rightarrow> host_hub \<Rightarrow> host_hub \<times> hub_effect list" where
  "handleHello env a daemon_ver host st =
     (if host \<noteq> hi_slug (da_identity a)
      then (st\<lparr>hub_socket := None\<rparr>,
            [Frame (HelloErr (js ''host_mismatch'')), CloseSocket 4003 (js ''host mismatch'')])
      else
        let st1 = st\<lparr>hub_socket := Some (a\<lparr>da_ready := True\<rparr>)\<rparr>;
            (st2, effs) = dispatchQueued env st1
        in (st2, [Frame (HelloOk (hi_hostId (da_identity a)) (hi_org (da_identity a))),
                  HostHello daemon_ver (he_now env) (hi_hostId (da_identity a)) (hi_org (da_identity a))] @ effs))"


section \<open>The roster\<close>

text \<open>\<open>String.replace\<close> with a string pattern: the first occurrence.\<close>

fun replace_first :: "jstr \<Rightarrow> jstr \<Rightarrow> jstr \<Rightarrow> jstr" where
  "replace_first pat rep [] = (if pat = [] then rep else [])"
| "replace_first pat rep (c # s) =
     (if starts_with (c # s) pat then rep @ drop (length pat) (c # s)
      else c # replace_first pat rep s)"

text \<open>The agent now in a pane: the last one the publish lists for it.\<close>

definition current_by_pane :: "roster_agent list \<Rightarrow> jstr \<Rightarrow> roster_agent option" where
  "current_by_pane agents pane = map_of (rev (map (\<lambda>a. (ra_pane_id a, a)) agents)) pane"

definition rename_of :: "roster_agent list \<Rightarrow> roster_agent \<Rightarrow> jstr option" where
  "rename_of agents old =
     (case current_by_pane agents (ra_pane_id old) of
        None \<Rightarrow> None
      | Some current \<Rightarrow> if ra_name current \<noteq> ra_name old then Some (ra_name current) else None)"

text \<open>One entry of the old roster in the loop of \<open>applyRoster\<close>; a rename of an earlier entry counts too.\<close>

definition depart_entry ::
  "int \<Rightarrow> roster_agent list \<Rightarrow> jstr \<times> roster_agent \<Rightarrow> (jstr \<times> jstr) list \<times> (jstr, int) store \<times> nat \<Rightarrow>
     (jstr \<times> jstr) list \<times> (jstr, int) store \<times> nat" where
  "depart_entry now agents entry acc =
     (let (key, old) = entry; (renames, gone, departures) = acc;
          renames' = (case rename_of agents old of None \<Rightarrow> renames | Some new \<Rightarrow> (ra_name old, new) # renames)
      in if ra_name old \<notin> ra_name ` set agents \<and> map_of renames' (ra_name old) = None
         then (renames', kv_put (ra_name old) now gone, departures + 1)
         else (renames', gone, departures))"

definition next_roster :: "roster_agent list \<Rightarrow> (jstr, roster_agent) store" where
  "next_roster agents = fold (\<lambda>a s. kv_put (ra_name a) a s) agents []"

definition prune_graves :: "int \<Rightarrow> (jstr, int) store \<Rightarrow> (jstr, int) store" where
  "prune_graves now gone = filter (\<lambda>(key, since). \<not> DELIVERY_TTL_MS \<le> now - since) gone"

text \<open>One queued entry of a renamed agent.\<close>

definition rename_entry ::
  "hub_env \<Rightarrow> jstr \<Rightarrow> (jstr \<times> jstr) list \<Rightarrow> jstr \<times> queued_delivery \<Rightarrow> host_hub \<times> hub_effect list \<Rightarrow>
     host_hub \<times> hub_effect list" where
  "rename_entry env slug renames entry acc =
     (let (key, item) = entry; (st, effs) = acc in
      case map_of renames (qd_agent item) of
        None \<Rightarrow> (st, effs)
      | Some renamed \<Rightarrow>
          if renamed = [] then (st, effs)
          else
            let newKey = replace_first (js ''q:'' @ qd_agent item @ [COLON]) (js ''q:'' @ renamed @ [COLON]) key;
                item' = item\<lparr>qd_agent := renamed, qd_targetAddr := renamed @ AT # slug\<rparr>
            in (st\<lparr>hub_queue := kv_put newKey item' (kv_del key (hub_queue st)),
                   hub_markers := kv_put (marker_key (qd_messageId item) renamed)
                     \<lparr>dm_status = MarkQueued, dm_updatedAt = he_now env, dm_queueKey = Some newKey, dm_item = None\<rparr>
                     (kv_del (marker_key (qd_messageId item) (qd_agent item)) (hub_markers st))\<rparr>,
                effs @ [LedgerRename (renamed @ AT # slug) (he_now env) (qd_messageId item) (qd_targetAddr item)]))"

definition applyRoster ::
  "hub_env \<Rightarrow> host_identity \<Rightarrow> roster_agent list \<Rightarrow> host_hub \<Rightarrow> host_hub \<times> hub_effect list" where
  "applyRoster env identity agents st =
     (let now = he_now env;
          (renames, gone1, departures) = fold (depart_entry now agents) (hub_roster st) ([], hub_gone st, 0);
          gone2 = fold (\<lambda>a s. kv_del (ra_name a) s) agents gone1;
          gone3 = (if 0 < departures then prune_graves now gone2 else gone2);
          st1 = st\<lparr>hub_roster := next_roster agents, hub_gone := gone3\<rparr>;
          (st2, effs) = (if renames = [] then (st1, [])
                         else fold (rename_entry env (hi_slug identity) renames) (hub_queue st1) (st1, []));
          (st3, sent) = dispatchQueued env st2
      in (st3, effs @ [SnapshotAgents (hi_hostId identity) agents now,
                       Broadcast (RosterChanged (hi_slug identity) agents) now (Some (hi_org identity))] @ sent))"


section \<open>Lemmas\<close>

lemma replace_first_prefix: "pat \<noteq> [] \<Longrightarrow> replace_first pat rep (pat @ s) = rep @ s"
  by (cases pat) (auto simp: starts_with_def)

lemma kv_get_next_roster:
  "kv_get (fold (\<lambda>a s. kv_put (ra_name a) a s) agents s) name =
     (case map_of (rev (map (\<lambda>a. (ra_name a, a)) agents)) name of None \<Rightarrow> kv_get s name | Some a \<Rightarrow> Some a)"
proof (induction agents arbitrary: s)
  case (Cons a agents)
  then show ?case
    by (auto simp: store_simps map_add_def split: option.splits)
qed simp

lemma next_roster_mem: "kv_get (next_roster agents) name \<noteq> None \<longleftrightarrow> name \<in> ra_name ` set agents"
proof -
  have "map_of (rev (map (\<lambda>a. (ra_name a, a)) agents)) name = None \<longleftrightarrow> name \<notin> ra_name ` set agents"
    unfolding map_of_eq_None_iff by (simp add: image_image)
  then show ?thesis
    unfolding next_roster_def kv_get_next_roster by (cases "map_of (rev (map (\<lambda>a. (ra_name a, a)) agents)) name") simp_all
qed

lemma kv_get_clear: "kv_get (fold (\<lambda>a s. kv_del (ra_name a) s) agents s) name =
    (if name \<in> ra_name ` set agents then None else kv_get s name)"
  by (induction agents arbitrary: s) (auto simp: store_simps)

text \<open>The renames the loop collects, and the departures it records.\<close>

lemma depart_fold_renames:
  "fst (fold (depart_entry now agents) prev (r, g, d)) =
     rev (List.map_filter (\<lambda>(key, old). map_option (Pair (ra_name old)) (rename_of agents old)) prev) @ r"
proof (induction prev arbitrary: r g d)
  case (Cons e prev)
  obtain key old where e: "e = (key, old)" by (cases e)
  show ?case
    using Cons by (auto simp: e depart_entry_def Let_def map_filter_simps split: option.splits)
qed (simp add: map_filter_simps)

lemma no_renames_iff:
  "fst (fold (depart_entry now agents) prev ([], g, d)) = [] \<longleftrightarrow>
     (\<forall>(key, old) \<in> set prev. rename_of agents old = None)"
  unfolding depart_fold_renames by (induction prev) (auto simp: map_filter_simps split: option.splits)

lemma depart_fold_gone:
  assumes "(key, old) \<in> set prev" "ra_name old \<notin> ra_name ` set agents"
    and "\<forall>(k, o') \<in> set prev. rename_of agents o' = None"
  shows "kv_get (fst (snd (fold (depart_entry now agents) prev ([], g, d)))) (ra_name old) = Some now \<and>
    d < snd (snd (fold (depart_entry now agents) prev ([], g, d)))"
  using assms
proof (induction prev arbitrary: g d)
  case (Cons e prev)
  obtain k o' where e: "e = (k, o')" by (cases e)
  have none: "rename_of agents o' = None" using Cons.prems(3) e by simp
  have keep: "kv_get (fst (snd (fold (depart_entry now agents) prev ([], g', d')))) n = Some now \<and>
      d' \<le> snd (snd (fold (depart_entry now agents) prev ([], g', d')))"
    if "kv_get g' n = Some now" "\<forall>(k, o') \<in> set prev. rename_of agents o' = None" for g' d' n
    using that
  proof (induction prev arbitrary: g' d')
    case (Cons e prev)
    obtain k o' where e: "e = (k, o')" by (cases e)
    have none: "rename_of agents o' = None" and rest: "\<forall>(k, o') \<in> set prev. rename_of agents o' = None"
      using Cons.prems(2) e by auto
    show ?case
    proof (cases "ra_name o' \<in> ra_name ` set agents")
      case True
      then have "depart_entry now agents e ([], g', d') = ([], g', d')"
        using none by (simp add: e depart_entry_def)
      then show ?thesis using Cons.IH [OF Cons.prems(1) rest, of d'] by simp
    next
      case False
      then have "depart_entry now agents e ([], g', d') = ([], kv_put (ra_name o') now g', Suc d')"
        using none by (simp add: e depart_entry_def)
      moreover have "kv_get (kv_put (ra_name o') now g') n = Some now"
        using Cons.prems(1) by (simp add: store_simps)
      ultimately show ?thesis
        using Cons.IH [OF _ rest, of "kv_put (ra_name o') now g'" "Suc d'"] by simp
    qed
  qed simp
  show ?case
  proof (cases "(key, old) = e")
    case True
    then have "o' = old" using e by simp
    then have "depart_entry now agents e ([], g, d) = ([], kv_put (ra_name old) now g, d + 1)"
      using none Cons.prems(2) by (simp add: e depart_entry_def)
    then have "fold (depart_entry now agents) (e # prev) ([], g, d) =
        fold (depart_entry now agents) prev ([], kv_put (ra_name old) now g, d + 1)"
      by simp
    then show ?thesis
      using keep [of "kv_put (ra_name old) now g" "ra_name old" "d + 1"] Cons.prems(3)
      by (simp add: store_simps)
  next
    case False
    obtain g' d' where s: "depart_entry now agents e ([], g, d) = ([], g', d')" "d \<le> d'"
      using none by (cases "ra_name o' \<in> ra_name ` set agents") (auto simp: e depart_entry_def)
    then show ?thesis
      using Cons.IH [of g' d'] Cons.prems False by auto
  qed
qed simp

lemma prune_keeps: "(name, now) \<in> set gone \<Longrightarrow> (name, now) \<in> set (prune_graves now gone)"
  by (simp add: prune_graves_def DELIVERY_TTL_MS_def)

definition renames_nobody :: "roster_agent list \<Rightarrow> host_hub \<Rightarrow> bool" where
  "renames_nobody agents st \<longleftrightarrow> list_all (\<lambda>(key, old). rename_of agents old = None) (hub_roster st)"

lemma hub_inv_roster_frame [simp]:
  "hub_inv (st\<lparr>hub_roster := r, hub_gone := g\<rparr>) = hub_inv st"
  "hub_inv (st\<lparr>hub_socket := s\<rparr>) = hub_inv st"
  by (simp_all add: hub_inv_def)

lemma applyRoster_no_renames:
  assumes "renames_nobody agents st"
  obtains gone where "fst (applyRoster env identity agents st) =
      fst (dispatchQueued env (st\<lparr>hub_roster := next_roster agents, hub_gone := gone\<rparr>))"
    "gone = (let (r, g, d) = fold (depart_entry (he_now env) agents) (hub_roster st) ([], hub_gone st, 0);
                 g2 = fold (\<lambda>a s. kv_del (ra_name a) s) agents g
             in if 0 < d then prune_graves (he_now env) g2 else g2)"
proof -
  have "fst (fold (depart_entry (he_now env) agents) (hub_roster st) ([], hub_gone st, 0)) = []"
    using assms unfolding no_renames_iff renames_nobody_def list_all_iff .
  then show thesis
    using that by (simp add: applyRoster_def Let_def split_def)
qed

lemma applyRoster_inv:
  assumes "hub_inv st" "renames_nobody agents st"
  shows "hub_inv (fst (applyRoster env identity agents st))"
proof (rule applyRoster_no_renames [OF assms(2), of env identity])
  fix gone
  assume "fst (applyRoster env identity agents st) =
      fst (dispatchQueued env (st\<lparr>hub_roster := next_roster agents, hub_gone := gone\<rparr>))"
  then show ?thesis by (simp add: dispatchQueued_inv assms(1))
qed

lemma handleHello_inv: "hub_inv st \<Longrightarrow> hub_inv (fst (handleHello env a v h st))"
  using dispatchQueued_inv [of "st\<lparr>hub_socket := Some (a\<lparr>da_ready := True\<rparr>)\<rparr>" env]
  by (simp add: handleHello_def Let_def split_def)

lemma acceptDaemon_inv: "hub_inv st \<Longrightarrow> hub_inv (fst (acceptDaemon env identity upgrade st))"
  by (simp add: acceptDaemon_def)


lemma dispatch_fold_frame:
  "hub_roster (fst (fold (dispatch_entry env) batch (st, effs, w))) = hub_roster st \<and>
   hub_gone (fst (fold (dispatch_entry env) batch (st, effs, w))) = hub_gone st \<and>
   hub_socket (fst (fold (dispatch_entry env) batch (st, effs, w))) = hub_socket st \<and>
   hub_seq (fst (fold (dispatch_entry env) batch (st, effs, w))) = hub_seq st \<and>
   hub_sends (fst (fold (dispatch_entry env) batch (st, effs, w))) = hub_sends st"
proof (induction batch arbitrary: st effs w)
  case (Cons e batch)
  obtain key item where e: "e = (key, item)" by (cases e)
  obtain st' effs' w' where r: "dispatch_entry env (key, item) (st, effs, w) = (st', effs', w')"
    by (metis prod_cases3)
  show ?case
    using Cons [of st' effs' w'] dispatch_entry_frame(2-6) [of env key item st effs w] by (simp add: e r)
qed simp

lemma dispatchQueued_frame [simp]:
  "hub_roster (fst (dispatchQueued env st)) = hub_roster st"
  "hub_gone (fst (dispatchQueued env st)) = hub_gone st"
  "hub_socket (fst (dispatchQueued env st)) = hub_socket st"
  "hub_seq (fst (dispatchQueued env st)) = hub_seq st"
  "hub_sends (fst (dispatchQueued env st)) = hub_sends st"
  using dispatchQueued_state [of env st]
  by (auto simp: dispatch_fold_frame set_alarm_def split: option.splits)

lemma map_of_filter_keep: "map_of xs k = Some v \<Longrightarrow> P (k, v) \<Longrightarrow> map_of (filter P xs) k = Some v"
  by (induction xs) (auto split: if_splits)


section \<open>Properties\<close>

text \<open>
  leaving the roster is not leaving the address. A publish that renames nobody makes every
  agent of the old roster reachable for the next 24 hours: at once while it is still listed, and by
  its grace otherwise, with no row in the database needed.
\<close>
theorem departed_agent_stays_reachable:
  assumes "renames_nobody agents st" and "(key, old) \<in> set (hub_roster st)"
    and "he_now env' < he_now env + 24 * 60 * 60 * 1000"
  shows "canReceive env' (fst (applyRoster env identity agents st)) (ra_name old) org host"
proof -
  obtain gone where st': "fst (applyRoster env identity agents st) =
      fst (dispatchQueued env (st\<lparr>hub_roster := next_roster agents, hub_gone := gone\<rparr>))"
    and gone: "gone = (let (r, g, d) = fold (depart_entry (he_now env) agents) (hub_roster st) ([], hub_gone st, 0);
                 g2 = fold (\<lambda>a s. kv_del (ra_name a) s) agents g
             in if 0 < d then prune_graves (he_now env) g2 else g2)"
    using applyRoster_no_renames [OF assms(1)] by blast
  show ?thesis
  proof (cases "ra_name old \<in> ra_name ` set agents")
    case True
    then show ?thesis
      using next_roster_mem [of agents "ra_name old"] by (simp add: st' canReceive_def hasAgent_def)
  next
    case False
    let ?f = "fold (depart_entry (he_now env) agents) (hub_roster st) ([], hub_gone st, 0)"
    have f: "kv_get (fst (snd ?f)) (ra_name old) = Some (he_now env)" "0 < snd (snd ?f)"
      using depart_fold_gone [OF assms(2) False, of "he_now env" "hub_gone st" 0] assms(1)
      by (auto simp: renames_nobody_def list_all_iff)
    have "kv_get (fold (\<lambda>a s. kv_del (ra_name a) s) agents (fst (snd ?f))) (ra_name old) = Some (he_now env)"
      using f False by (simp add: kv_get_clear)
    then have "kv_get gone (ra_name old) = Some (he_now env)"
      using f(2) unfolding gone prune_graves_def
      by (simp add: split_def Let_def map_of_filter_keep DELIVERY_TTL_MS_def)
    then show ?thesis
      using assms(3) False next_roster_mem [of agents "ra_name old"]
      by (simp add: st' canReceive_def hasAgent_def departedAt_def DELIVERY_TTL_MS_def)
  qed
qed

definition demo_agent :: "string \<Rightarrow> string \<Rightarrow> roster_agent" where
  "demo_agent name pane = \<lparr>ra_name = js name, ra_kind = js ''claude'', ra_pane_id = js pane,
     ra_status = js ''idle'', ra_cwd = [], ra_title = [], ra_named_by = NamedByAuto\<rparr>"

definition demo_env :: "int \<Rightarrow> hub_env" where
  "demo_env now = \<lparr>he_db = empty_d1, he_now = now, he_send_error = (\<lambda>_. None), he_before = (<)\<rparr>"

definition demo_host :: host_identity where
  "demo_host = \<lparr>hi_hostId = js ''hst_1'', hi_org = js ''org'', hi_slug = js ''titan''\<rparr>"

lemma departed_agent_stays_reachable_witness:
  "canReceive (demo_env 5) (fst (applyRoster (demo_env 1) demo_host []
     (new_hub\<lparr>hub_roster := [(js ''bob'', demo_agent ''bob'' ''p1'')]\<rparr>))) (js ''bob'') (js ''org'') (js ''titan'')"
proof -
  let ?st = "new_hub\<lparr>hub_roster := [(js ''bob'', demo_agent ''bob'' ''p1'')]\<rparr>"
  have "renames_nobody [] ?st" by (simp add: renames_nobody_def rename_of_def current_by_pane_def)
  moreover have "(js ''bob'', demo_agent ''bob'' ''p1'') \<in> set (hub_roster ?st)" by simp
  ultimately show ?thesis
    using departed_agent_stays_reachable [of "[]" ?st "js ''bob''" "demo_agent ''bob'' ''p1''" "demo_env 5" "demo_env 1"]
    by (simp add: demo_env_def demo_agent_def)
qed

text \<open>A state with one message queued for an agent.\<close>

definition demo_input :: "string \<Rightarrow> string \<Rightarrow> queue_delivery_input" where
  "demo_input m agent = \<lparr>qi_messageId = js m, qi_org = js ''org'', qi_targetOrg = js ''org'',
     qi_targetHost = js ''titan'', qi_agent = js agent, qi_targetAddr = js agent @ AT # js ''titan'',
     qi_envelope = js ''<transit/>'', qi_render = None, qi_enqueuedAt = None, qi_roomName = None,
     qi_roomSeq = None, qi_redelivery = False, qi_connectionId = None\<rparr>"

definition queued_for :: "host_hub \<Rightarrow> (jstr \<times> jstr) list" where
  "queued_for st = map (\<lambda>(key, item). (qd_messageId item, qd_agent item)) (hub_queue st)"

text \<open>
  a swap of panes moves mail to the wrong agent. Renames are found by pane alone: when
  \<open>alice\<close> moves to another pane and \<open>bob\<close> takes hers, \<open>alice\<close> is still on the roster, yet
  the message queued for her is handed over to \<open>bob\<close>.
\<close>
theorem pane_swap_moves_mail:
  "\<exists>st. hub_inv st \<and> queued_for st = [(js ''tx_1'', js ''alice'')] \<and>
     (let st' = fst (applyRoster (demo_env 2) demo_host
              [demo_agent ''alice'' ''p2'', demo_agent ''bob'' ''p1''] st)
      in hasAgent st' (js ''alice'') \<and> queued_for st' = [(js ''tx_1'', js ''bob'')])"
proof -
  let ?roster = "[(js ''alice'', demo_agent ''alice'' ''p1'')]"
  let ?st = "fst (enqueue (demo_env 1) (demo_input ''tx_1'' ''alice'') (new_hub\<lparr>hub_roster := ?roster\<rparr>))"
  have "hub_inv ?st"
    by (rule enqueue_inv) (simp add: hub_inv_def new_hub_def queue_inv_def)
  moreover have "queued_for ?st = [(js ''tx_1'', js ''alice'')]"
    by code_simp
  moreover have "hasAgent (fst (applyRoster (demo_env 2) demo_host
        [demo_agent ''alice'' ''p2'', demo_agent ''bob'' ''p1''] ?st)) (js ''alice'')"
    by code_simp
  moreover have "queued_for (fst (applyRoster (demo_env 2) demo_host
        [demo_agent ''alice'' ''p2'', demo_agent ''bob'' ''p1''] ?st)) = [(js ''tx_1'', js ''bob'')]"
    by code_simp
  ultimately show ?thesis by (intro exI [of _ ?st]) (simp only: Let_def simp_thms)
qed

text \<open>
  a message for two agents can lose its marker. One room message is queued for \<open>alice\<close> and for
  \<open>bob\<close>; when the two swap names, both entries stay queued but only one of them keeps a marker, so
  one delivery can no longer be settled, and one settled acknowledgement leaves a live entry behind.
\<close>
theorem name_swap_orphans_delivery:
  "\<exists>st. hub_inv st \<and> length (hub_queue st) = 2 \<and>
     (let st' = fst (applyRoster (demo_env 2) demo_host
              [demo_agent ''bob'' ''p1'', demo_agent ''alice'' ''p2''] st)
      in length (hub_queue st') = 2 \<and> length (hub_markers st') = 1 \<and> \<not> hub_inv st')"
proof -
  let ?roster = "[(js ''alice'', demo_agent ''alice'' ''p1''), (js ''bob'', demo_agent ''bob'' ''p2'')]"
  let ?st = "fst (enqueue (demo_env 1) (demo_input ''tx_1'' ''bob'')
       (fst (enqueue (demo_env 1) (demo_input ''tx_1'' ''alice'') (new_hub\<lparr>hub_roster := ?roster\<rparr>))))"
  let ?st' = "fst (applyRoster (demo_env 2) demo_host
              [demo_agent ''bob'' ''p1'', demo_agent ''alice'' ''p2''] ?st)"
  have inv: "hub_inv ?st"
    by (intro enqueue_inv) (simp add: hub_inv_def new_hub_def queue_inv_def)
  have len: "length (hub_queue ?st) = 2" "length (hub_queue ?st') = 2" "length (hub_markers ?st') = 1"
    by code_simp+
  have "\<not> hub_inv ?st'"
  proof
    assume inv': "hub_inv ?st'"
    obtain k1 i1 k2 i2 where q: "hub_queue ?st' = [(k1, i1), (k2, i2)]"
      using len(2) by (auto simp: numeral_2_eq_2 length_Suc_conv)
    have "distinct (map fst (hub_queue ?st'))"
      using inv' queue_inv_parts(1) kv_ok_distinct unfolding hub_inv_def by blast
    then have "k1 \<noteq> k2" using q by simp
    obtain mkey mk where m: "hub_markers ?st' = [(mkey, mk)]"
      using len(3) by (cases "hub_markers ?st'") auto
    have "kv_get (hub_queue ?st') k1 = Some i1" "kv_get (hub_queue ?st') k2 = Some i2"
      using q \<open>k1 \<noteq> k2\<close> by simp_all
    then have "entry_ok (hub_markers ?st') (hub_seq ?st') k1 i1" "entry_ok (hub_markers ?st') (hub_seq ?st') k2 i2"
      using queue_inv_parts(3) [OF inv' [unfolded hub_inv_def]] by blast+
    then show False using \<open>k1 \<noteq> k2\<close> m by (auto simp: entry_ok_def split: if_splits)
  qed
  with inv len show ?thesis by (intro exI [of _ ?st]) (simp only: Let_def simp_thms)
qed

end
