(* ===== verification/Hub_Properties.thy ===== *)
theory Hub_Properties
  imports Host_Roster
begin

text \<open>
  What the queue of a hub promises: the operations as one step function over \<open>hub_op\<close>, the
  abstract status of a delivery and how each operation moves it, which entries a dispatch sends,
  and the properties that follow.
\<close>

section \<open>Operations as steps\<close>

datatype hub_op =
  OpQueue queue_delivery_input
| OpAck jstr "jstr option" "jstr option"
| OpNak jstr jstr bool "jstr option"
| OpCancel jstr
| OpRequeue jstr
| OpSettle jstr jstr
| OpAlarm
| OpRevoke "jstr option"
| OpConnect host_identity
| OpHello daemon_attachment jstr jstr
| OpRoster host_identity "roster_agent list"

text \<open>The platform clears the alarm before it calls \<open>alarm\<close>.\<close>

definition alarm :: "hub_env \<Rightarrow> host_hub \<Rightarrow> host_hub \<times> hub_effect list" where
  "alarm env st = dispatchQueued env (st\<lparr>hub_alarm := (hub_alarm st)\<lparr>ab_alarm := None\<rparr>\<rparr>)"

fun run_op :: "hub_env \<Rightarrow> hub_op \<Rightarrow> host_hub \<Rightarrow> host_hub \<times> hub_effect list" where
  "run_op env (OpQueue inp) st = (let (st', effs, _) = queueDelivery env inp st in (st', effs))"
| "run_op env (OpAck m agent via) st = handleDeliveryAck env m agent via st"
| "run_op env (OpNak m code retryable agent) st = handleDeliveryNak env m code retryable agent st"
| "run_op env (OpCancel m) st = (fst (cancelDelivery env m st), [])"
| "run_op env (OpRequeue m) st = (let (st', effs, _) = requeue env m st in (st', effs))"
| "run_op env (OpSettle agent m) st = (let (st', effs, _) = settleInbox env agent m st in (st', effs))"
| "run_op env OpAlarm st = alarm env st"
| "run_op env (OpRevoke org) st = revoke env org st"
| "run_op env (OpConnect identity) st = (let (st', effs, _) = acceptDaemon env identity True st in (st', effs))"
| "run_op env (OpHello a ver host) st = handleHello env a ver host st"
| "run_op env (OpRoster identity agents) st = applyRoster env identity agents st"

text \<open>
  A publish in which two agents swap names can break the bookkeeping (the end of \<open>Host_Roster\<close>);
  every other operation is admitted as it is.
\<close>

fun op_ok :: "hub_op \<Rightarrow> host_hub \<Rightarrow> bool" where
  "op_ok (OpRoster identity agents) st = renames_nobody agents st"
| "op_ok _ st = True"

fun_cases run_op_cases: "run_op env op' st = (st', effs)"

definition run_ops :: "(hub_env \<times> hub_op) list \<Rightarrow> host_hub \<Rightarrow> host_hub" where
  "run_ops ops st = fold (\<lambda>(env, op') s. fst (run_op env op' s)) ops st"

fun ops_ok :: "(hub_env \<times> hub_op) list \<Rightarrow> host_hub \<Rightarrow> bool" where
  "ops_ok [] st = True"
| "ops_ok ((env, op') # ops) st = (op_ok op' st \<and> ops_ok ops (fst (run_op env op' st)))"

lemma hub_inv_alarm_frame [simp]: "hub_inv (st\<lparr>hub_alarm := a\<rparr>) = hub_inv st"
  by (simp add: hub_inv_def)

lemmas operations_inv = queueDelivery_inv handleDeliveryAck_inv handleDeliveryNak_inv
  cancelDelivery_inv requeue_inv settleInbox_inv dispatchQueued_inv acceptDaemon_inv handleHello_inv
  applyRoster_inv

lemma run_op_inv: "hub_inv st \<Longrightarrow> op_ok op' st \<Longrightarrow> hub_inv (fst (run_op env op' st))"
  using operations_inv
  by (cases op') (auto simp: split_def Let_def alarm_def revoke_def)

lemma run_ops_inv: "hub_inv st \<Longrightarrow> ops_ok ops st \<Longrightarrow> hub_inv (run_ops ops st)"
  by (induction ops arbitrary: st) (auto simp: run_ops_def run_op_inv)

section \<open>What a dispatch sends\<close>

lemma verdict_frame:
  assumes "hub_roster st' = hub_roster st" "hub_socket st' = hub_socket st"
  shows "dispatch_verdict env st' item = dispatch_verdict env st item"
  by (simp only: dispatch_verdict_def hasAgent_def assms)

text \<open>The entries of a batch that are due, in order: exactly what is sent.\<close>

definition due_entries :: "hub_env \<Rightarrow> host_hub \<Rightarrow> (jstr \<times> queued_delivery) list \<Rightarrow> queued_delivery list" where
  "due_entries env st batch = map snd (filter (\<lambda>(key, item). dispatch_verdict env st item = Due) batch)"

text \<open>The \<open>deliver\<close> frames an operation writes to the socket.\<close>

definition deliver_frame :: "hub_effect \<Rightarrow> worker_frame option" where
  "deliver_frame e = (case e of Frame (Deliver m a t) \<Rightarrow> Some (Deliver m a t) | _ \<Rightarrow> None)"

definition frames :: "hub_effect list \<Rightarrow> worker_frame list" where
  "frames effs = List.map_filter deliver_frame effs"

lemma deliver_frame_simps [simp]:
  "deliver_frame (Frame (Deliver m a t)) = Some (Deliver m a t)"
  "deliver_frame (Frame (HelloOk h1 h2)) = None" "deliver_frame (Frame (HelloErr c)) = None"
  "deliver_frame (CloseSocket c1 c2) = None" "deliver_frame (Broadcast b1 b2 b3) = None"
  "deliver_frame (LedgerAttempt a1 a2 a3 a4 a5) = None" "deliver_frame (LedgerHold l1 l2 l3 l4 l5) = None"
  "deliver_frame (LedgerInjectedBy i1 i2 i3 i4 i5) = None" "deliver_frame (LedgerDeadBy d1 d2 d3 d4 d5) = None"
  "deliver_frame (LedgerRename n1 n2 n3 n4) = None" "deliver_frame (ChannelWireSends w1 w2) = None"
  "deliver_frame (ChannelVia v1 v2) = None" "deliver_frame (ReportInjection r1 r2 r3 r4) = None"
  "deliver_frame (RoomAcknowledge k1 k2 k3 k4) = None" "deliver_frame (HostSeen s1 s2 s3) = None"
  "deliver_frame (HostHello e1 e2 e3 e4) = None" "deliver_frame (SnapshotAgents p1 p2 p3) = None"
  by (simp_all add: deliver_frame_def)

lemma frames_simps [simp]:
  "frames [] = []" "frames (xs @ ys) = frames xs @ frames ys"
  "frames (e # es) = (case deliver_frame e of Some f \<Rightarrow> [f] | None \<Rightarrow> []) @ frames es"
  by (simp_all add: frames_def map_filter_simps List.map_filter_def split: option.splits)

lemma frames_markDead [simp]: "frames (snd (markDead env key item err st)) = []"
  by (simp add: markDead_def)

lemma frames_send_effects:
  "frames (send_effects env item) =
     (if he_send_error env item = None
      then [Deliver (qd_messageId item) (qd_agent item) (render_for_send item)] else [])"
  by (simp add: send_effects_def Let_def)

lemma dispatch_entry_frames:
  assumes "kv_get (hub_queue st) key = Some item"
  shows "frames (fst (snd (dispatch_entry env (key, item) (st, effs, w)))) =
    frames effs @ (if dispatch_verdict env st item = Due then frames (send_effects env item) else [])"
  using assms
  by (cases "dispatch_verdict env st item")
    (auto simp: dispatch_entry_def claim_def split_def Let_def)

lemma dispatch_fold_frames:
  assumes "hub_inv st" "distinct (map fst batch)" "\<forall>(k, i) \<in> set batch. kv_get (hub_queue st) k = Some i"
  shows "frames (fst (snd (fold (dispatch_entry env) batch (st, effs, w)))) =
    frames effs @ concat (map (frames \<circ> send_effects env) (due_entries env st batch))"
  using assms
proof (induction batch arbitrary: st effs w)
  case (Cons e batch)
  obtain key item where e: "e = (key, item)" by (cases e)
  obtain st' effs' w' where r: "dispatch_entry env (key, item) (st, effs, w) = (st', effs', w')"
    by (metis prod_cases3)
  have old: "kv_get (hub_queue st) key = Some item" using Cons.prems(3) e by simp
  have inv: "hub_inv st'"
    using dispatch_entry_inv [OF Cons.prems(1) old, of env effs w] r by simp
  have rest: "\<forall>(k, i) \<in> set batch. kv_get (hub_queue st') k = Some i"
  proof safe
    fix k i assume ki: "(k, i) \<in> set batch"
    then have "k \<noteq> key" using Cons.prems(2) e by (auto simp: image_iff)
    then show "kv_get (hub_queue st') k = Some i"
      using dispatch_entry_frame(1) [of k key env item st effs w] r Cons.prems(3) ki by auto
  qed
  have "hub_roster st' = hub_roster st" "hub_socket st' = hub_socket st"
    using dispatch_entry_frame(3,5) [of env key item st effs w] r by simp_all
  from verdict_frame [OF this] have "due_entries env st' batch = due_entries env st batch"
    by (simp only: due_entries_def)
  then show ?case
    using Cons.IH [OF inv _ rest] Cons.prems(2) dispatch_entry_frames [OF old, of env effs w] r e
    by (simp add: due_entries_def)
qed (simp add: due_entries_def)

lemma dispatchQueued_frames:
  assumes "hub_inv st"
  shows "frames (snd (dispatchQueued env st)) =
    concat (map (frames \<circ> send_effects env) (due_entries env st (take QUEUE_BATCH_SIZE (hub_queue st))))"
proof -
  have "snd (dispatchQueued env st) =
      fst (snd (fold (dispatch_entry env) (take QUEUE_BATCH_SIZE (hub_queue st)) (st, [], None)))"
    unfolding dispatchQueued_def Let_def split_def by auto
  then show ?thesis
    using dispatch_fold_frames [OF assms batch_entries [OF assms], of env] by simp
qed

lemma dispatched_is_due:
  assumes "hub_inv st" "Deliver m a e \<in> set (frames (snd (dispatchQueued env st)))"
  obtains key item where "(key, item) \<in> set (take QUEUE_BATCH_SIZE (hub_queue st))"
    "kv_get (hub_queue st) key = Some item" "qd_messageId item = m" "qd_agent item = a"
    "e = render_for_send item" "dispatch_verdict env st item = Due"
proof -
  obtain item where i: "item \<in> set (due_entries env st (take QUEUE_BATCH_SIZE (hub_queue st)))"
      "Deliver m a e \<in> set (frames (send_effects env item))"
    using assms(2) unfolding dispatchQueued_frames [OF assms(1)] set_concat by auto
  have "qd_messageId item = m" "qd_agent item = a" "e = render_for_send item"
    using i(2) by (auto simp: frames_send_effects split: if_splits)
  moreover obtain key where "(key, item) \<in> set (take QUEUE_BATCH_SIZE (hub_queue st))"
      "dispatch_verdict env st item = Due"
    using i(1) by (auto simp: due_entries_def simp del: set_take_subset)
  ultimately show thesis using that batch_entries(2) [OF assms(1)] by blast
qed


section \<open>The status of a delivery\<close>

definition delivery_status_of :: "host_hub \<Rightarrow> jstr \<Rightarrow> marker_status option" where
  "delivery_status_of st mkey = map_option dm_status (kv_get (hub_markers st) mkey)"

text \<open>A dispatch in closed form: each entry of the batch is decided by its verdict alone.\<close>

definition entry_result :: "hub_env \<Rightarrow> host_hub \<Rightarrow> queued_delivery \<Rightarrow> queued_delivery option" where
  "entry_result env st item =
     (case dispatch_verdict env st item of
        Expired _ \<Rightarrow> None
      | Due \<Rightarrow> Some (item\<lparr>qd_attempts := qd_attempts item + 1, qd_lastAttemptAt := Some (he_now env),
                          qd_lastError := he_send_error env item\<rparr>)
      | _ \<Rightarrow> Some item)"

definition expired_marker :: "hub_env \<Rightarrow> host_hub \<Rightarrow> jstr \<times> queued_delivery \<Rightarrow> (jstr \<times> delivery_marker) option" where
  "expired_marker env st entry =
     (let (key, item) = entry in
      case dispatch_verdict env st item of
        Expired err \<Rightarrow> Some (marker_key (qd_messageId item) (qd_agent item),
          \<lparr>dm_status = MarkDead, dm_updatedAt = he_now env, dm_queueKey = Some key,
           dm_item = Some (item\<lparr>qd_lastError := Some err\<rparr>)\<rparr>)
      | _ \<Rightarrow> None)"

definition expired_markers ::
  "hub_env \<Rightarrow> host_hub \<Rightarrow> (jstr \<times> queued_delivery) list \<Rightarrow> (jstr \<times> delivery_marker) list" where
  "expired_markers env st batch = List.map_filter (expired_marker env st) batch"

lemma dispatch_entry_closed:
  assumes "kv_get (hub_queue st) key = Some item"
  shows "kv_get (hub_queue (fst (dispatch_entry env (key, item) (st, effs, w)))) key = entry_result env st item"
    and "kv_get (hub_markers (fst (dispatch_entry env (key, item) (st, effs, w)))) mkey =
      (case map_of (expired_markers env st [(key, item)]) mkey of Some mk \<Rightarrow> Some mk
       | None \<Rightarrow> kv_get (hub_markers st) mkey)"
  using assms
  by (cases "dispatch_verdict env st item";
      auto simp: dispatch_entry_def claim_def markDead_def entry_result_def expired_markers_def
        expired_marker_def map_filter_simps
        store_simps Let_def)+

lemma dispatch_fold_closed:
  fixes env effs w
  assumes "distinct (map fst batch)" "\<forall>(k, i) \<in> set batch. kv_get (hub_queue st) k = Some i"
  defines "fin \<equiv> fst (fold (dispatch_entry env) batch (st, effs, w))"
  shows "kv_get (hub_queue fin) k =
      (case map_of batch k of None \<Rightarrow> kv_get (hub_queue st) k | Some i \<Rightarrow> entry_result env st i) \<and>
    kv_get (hub_markers fin) mkey =
      (case map_of (rev (expired_markers env st batch)) mkey of Some mk \<Rightarrow> Some mk
       | None \<Rightarrow> kv_get (hub_markers st) mkey) \<and>
    hub_roster fin = hub_roster st \<and> hub_socket fin = hub_socket st"
  using assms(1,2) unfolding fin_def
proof (induction batch arbitrary: st effs w)
  case (Cons e batch)
  obtain key item where e: "e = (key, item)" by (cases e)
  obtain st' effs' w' where r: "dispatch_entry env (key, item) (st, effs, w) = (st', effs', w')"
    by (metis prod_cases3)
  have old: "kv_get (hub_queue st) key = Some item" using Cons.prems(2) e by simp
  have kept: "kv_get (hub_queue st') k = kv_get (hub_queue st) k" if "k \<noteq> key" for k
    using dispatch_entry_frame(1) [OF that, of env item st effs w] r by simp
  have rest: "\<forall>(k, i) \<in> set batch. kv_get (hub_queue st') k = Some i"
  proof safe
    fix k i assume ki: "(k, i) \<in> set batch"
    then have "k \<noteq> key" using Cons.prems(1) e by (auto simp: image_iff)
    then show "kv_get (hub_queue st') k = Some i" using kept Cons.prems(2) ki by auto
  qed
  have fr: "hub_roster st' = hub_roster st" "hub_socket st' = hub_socket st"
    using dispatch_entry_frame(3,5) [of env key item st effs w] r by simp_all
  have v: "dispatch_verdict env st' = dispatch_verdict env st"
    using verdict_frame [OF fr] by blast
  have res: "entry_result env st' = entry_result env st"
    "expired_markers env st' batch = expired_markers env st batch"
    by (simp_all add: entry_result_def expired_markers_def expired_marker_def [abs_def] v fun_eq_iff)
  have nokey: "map_of batch key = None" using Cons.prems(1) e by (simp add: map_of_eq_None_iff)
  note IH = Cons.IH [of st' effs' w', OF _ rest, unfolded res fr]
  note one = dispatch_entry_closed [OF old, of env effs w, unfolded r fst_conv]
  have split: "expired_markers env st ((key, item) # batch) =
      expired_markers env st [(key, item)] @ expired_markers env st batch"
    by (simp add: expired_markers_def map_filter_simps split: option.splits)
  have "map_of (rev (expired_markers env st [(key, item)])) = map_of (expired_markers env st [(key, item)])"
    by (auto simp: expired_markers_def map_filter_simps split: option.splits)
  then have mk: "map_of (rev (expired_markers env st (e # batch))) mkey =
      (case map_of (rev (expired_markers env st batch)) mkey of
         None \<Rightarrow> map_of (expired_markers env st [(key, item)]) mkey | Some x \<Rightarrow> Some x)"
    unfolding e split by (simp add: map_add_def split: option.splits)
  have step: "fold (dispatch_entry env) (e # batch) (st, effs, w) =
      fold (dispatch_entry env) batch (st', effs', w')"
    by (simp add: e r)
  have d: "distinct (map fst batch)" using Cons.prems(1) by simp
  show ?case
    unfolding step mk using IH [OF d] one(1) one(2) [of mkey] kept [of k] nokey
    by (auto simp: e split: option.splits)
qed (simp add: expired_markers_def map_filter_simps)

lemma map_of_rev_SomeD: "map_of (rev xs) k = Some v \<Longrightarrow> (k, v) \<in> set xs"
  by (metis map_of_SomeD set_rev)

lemma dispatchQueued_closed:
  fixes env
  assumes "hub_inv st"
  defines "batch \<equiv> take QUEUE_BATCH_SIZE (hub_queue st)" and "fin \<equiv> fst (dispatchQueued env st)"
  shows "kv_get (hub_queue fin) k =
      (case map_of batch k of None \<Rightarrow> kv_get (hub_queue st) k | Some i \<Rightarrow> entry_result env st i)"
    and "kv_get (hub_markers fin) mkey =
      (case map_of (rev (expired_markers env st batch)) mkey of Some mk \<Rightarrow> Some mk
       | None \<Rightarrow> kv_get (hub_markers st) mkey)"
  using dispatch_fold_closed [OF batch_entries [OF assms(1)], where env = env and effs = "[]" and w = None and k = k and mkey = mkey]
    dispatchQueued_state [of env st]
  unfolding batch_def fin_def by (auto split: option.splits)

lemma expired_markers_mem:
  assumes "(mkey, mk) \<in> set (expired_markers env st batch)"
  obtains key item err where "(key, item) \<in> set batch" "dispatch_verdict env st item = Expired err"
    "mkey = marker_key (qd_messageId item) (qd_agent item)"
    "mk = \<lparr>dm_status = MarkDead, dm_updatedAt = he_now env, dm_queueKey = Some key,
           dm_item = Some (item\<lparr>qd_lastError := Some err\<rparr>)\<rparr>"
proof -
  obtain key item where ki: "(key, item) \<in> set batch" "expired_marker env st (key, item) = Some (mkey, mk)"
    using assms unfolding expired_markers_def List.map_filter_def by auto
  then show thesis
    using that by (cases "dispatch_verdict env st item") (auto simp: expired_marker_def)
qed

text \<open>Dispatch moves a status only from queued to dead.\<close>

lemma dispatch_status:
  assumes "hub_inv st"
  shows "delivery_status_of (fst (dispatchQueued env st)) mkey = delivery_status_of st mkey \<or>
    (delivery_status_of st mkey = Some MarkQueued \<and>
     delivery_status_of (fst (dispatchQueued env st)) mkey = Some MarkDead)"
proof (cases "map_of (rev (expired_markers env st (take QUEUE_BATCH_SIZE (hub_queue st)))) mkey")
  case (Some mk)
  from map_of_rev_SomeD [OF Some] obtain key item where "(key, item) \<in> set (take QUEUE_BATCH_SIZE (hub_queue st))"
      and mk: "mkey = marker_key (qd_messageId item) (qd_agent item)" "dm_status mk = MarkDead"
    by (rule expired_markers_mem) simp
  then have "kv_get (hub_queue st) key = Some item" using batch_entries(2) [OF assms] by blast
  then have "delivery_status_of st mkey = Some MarkQueued"
    using queue_inv_parts(3) [OF assms [unfolded hub_inv_def]] mk
    by (auto simp: entry_ok_def delivery_status_of_def)
  then show ?thesis
    using Some mk dispatchQueued_closed(2) [OF assms, of env mkey] by (simp add: delivery_status_of_def)
qed (simp add: dispatchQueued_closed(2) [OF assms] delivery_status_of_def)


section \<open>How each operation moves a status\<close>

lemma enqueue_status:
  "delivery_status_of (fst (enqueue env inp st)) mkey =
     (if snd (enqueue env inp st) = Queued \<and> mkey = marker_key (qi_messageId inp) (qi_agent inp)
      then Some MarkQueued else delivery_status_of st mkey)"
  by (auto simp: enqueue_def delivery_status_of_def store_simps Let_def split: option.splits)

lemma enqueue_Queued_iff:
  "snd (enqueue env inp st) = Queued \<longleftrightarrow>
     (case delivery_status_of st (marker_key (qi_messageId inp) (qi_agent inp)) of
        None \<Rightarrow> True | Some s \<Rightarrow> qi_redelivery inp \<and> s \<noteq> MarkQueued)"
  by (auto simp: enqueue_def delivery_status_of_def Let_def split: option.splits)

lemma ack_status:
  assumes "hub_inv st"
  shows "delivery_status_of (fst (handleDeliveryAck env m agent via st)) mkey =
    (case resolveQueuedMarker env m agent st of
       None \<Rightarrow> delivery_status_of st mkey
     | Some (k, _) \<Rightarrow> if mkey = k then Some MarkInjected else delivery_status_of st mkey)"
proof (cases "resolveQueuedMarker env m agent st")
  case (Some r)
  obtain k mk where r: "r = (k, mk)" by (cases r)
  obtain key item where "dm_queueKey mk = Some key" "kv_get (hub_queue st) key = Some item"
    using resolve_entry [OF assms] Some r by metis
  then show ?thesis
    using Some r by (simp add: handleDeliveryAck_def delivery_status_of_def store_simps)
qed (simp add: handleDeliveryAck_def)

lemma resolve_status:
  assumes "hub_inv st" "resolveQueuedMarker env m agent st = Some (k, mk)"
  shows "delivery_status_of st k = Some MarkQueued"
  using resolve_sound [OF assms] by (simp add: delivery_status_of_def queued_marker_def)

lemma nak_status:
  assumes "hub_inv st" "delivery_status_of st mkey \<noteq> Some MarkQueued"
  shows "delivery_status_of (fst (handleDeliveryNak env m code retryable agent st)) mkey = delivery_status_of st mkey"
proof (cases "resolveQueuedMarker env m agent st")
  case (Some r)
  obtain k mk where r: "r = (k, mk)" by (cases r)
  obtain key item where k: "dm_queueKey mk = Some key" "kv_get (hub_queue st) key = Some item"
      "k = marker_key (qd_messageId item) (qd_agent item)"
    using resolve_entry [OF assms(1)] Some r by metis
  then have "mkey \<noteq> k" using resolve_status [OF assms(1)] Some r assms(2) by metis
  then show ?thesis
    using Some r k
    by (simp add: handleDeliveryNak_def Let_def markDead_def delivery_status_of_def store_simps)
qed (simp add: handleDeliveryNak_def)

lemma cancel_fold_get:
  "kv_get (hub_markers (fold (cancel_marker env) ms st)) k =
     (if k \<in> fst ` set ms then Some \<lparr>dm_status = MarkInjected, dm_updatedAt = he_now env,
        dm_queueKey = None, dm_item = None\<rparr> else kv_get (hub_markers st) k)"
proof (induction ms arbitrary: st)
  case (Cons e ms)
  then show ?case by (cases e) (auto simp: cancel_marker_frame)
qed simp

lemma cancel_status:
  assumes "hub_inv st"
  shows "delivery_status_of (fst (cancelDelivery env m st)) mkey =
    (if marker_of_message m mkey \<and> delivery_status_of st mkey = Some MarkQueued then Some MarkInjected
     else delivery_status_of st mkey)"
proof -
  let ?P = "\<lambda>(key, mk). marker_of_message m key \<and> dm_status mk = MarkQueued"
  have "mkey \<in> fst ` set (filter ?P (hub_markers st)) \<longleftrightarrow>
      (\<exists>mk. kv_get (hub_markers st) mkey = Some mk \<and> marker_of_message m mkey \<and> dm_status mk = MarkQueued)"
    using cancelled_markers(2) [OF assms, of mkey _ ?P] by force
  then show ?thesis
    by (auto simp: cancelDelivery_def Let_def cancel_fold_get delivery_status_of_def)
qed

text \<open>Only what is queued when the dispatch begins is sent.\<close>

lemma dispatch_sends_queued:
  assumes "hub_inv st" "Deliver m a e \<in> set (frames (snd (dispatchQueued env st)))"
  shows "delivery_status_of st (marker_key m a) = Some MarkQueued"
  using assms
proof (rule dispatched_is_due)
  fix key item
  assume k: "kv_get (hub_queue st) key = Some item" "qd_messageId item = m" "qd_agent item = a"
  then show ?thesis
    using queue_inv_parts(3) [OF assms(1) [unfolded hub_inv_def] k(1)]
    by (auto simp: entry_ok_def delivery_status_of_def)
qed

text \<open>The effects of settlement hold no frame.\<close>

lemma frames_ack [simp]: "frames (snd (handleDeliveryAck env m agent via st)) = []"
  by (auto simp: handleDeliveryAck_def split: option.splits list.splits)

lemma frames_nak [simp]: "frames (snd (handleDeliveryNak env m code retryable agent st)) = []"
  by (auto simp: handleDeliveryNak_def Let_def split: option.splits)

text \<open>
  A step either ends before a dispatch, and sends nothing, or ends with one. In both cases a
  delivery that was injected before is injected when the dispatch begins.
\<close>

definition ends_after :: "hub_env \<Rightarrow> host_hub \<times> hub_effect list \<Rightarrow> host_hub \<Rightarrow> bool" where
  "ends_after env res st1 \<longleftrightarrow>
     (fst res = st1 \<and> frames (snd res) = []) \<or>
     (fst res = fst (dispatchQueued env st1) \<and> frames (snd res) = frames (snd (dispatchQueued env st1)))"

lemma run_op_injected:
  assumes inv: "hub_inv st" and inj: "delivery_status_of st mkey = Some MarkInjected"
    and ok: "op_ok op' st"
    and op: "\<And>inp. op' = OpQueue inp \<Longrightarrow> qi_redelivery inp \<Longrightarrow>
      marker_key (qi_messageId inp) (qi_agent inp) \<noteq> mkey"
  shows "\<exists>st1. hub_inv st1 \<and> delivery_status_of st1 mkey = Some MarkInjected \<and>
    ends_after env (run_op env op' st) st1"
proof (cases op')
  case (OpQueue inp)
  have st1: "delivery_status_of (fst (enqueue env inp st)) mkey = Some MarkInjected"
    using inj op OpQueue by (auto simp: enqueue_status enqueue_Queued_iff split: option.splits)
  consider (no_route) "\<not> canReceive env st (qi_agent inp) (qi_targetOrg inp) (qi_targetHost inp)"
    | (queued) "canReceive env st (qi_agent inp) (qi_targetOrg inp) (qi_targetHost inp)" by blast
  then show ?thesis
  proof cases
    case no_route
    then show ?thesis
      using inv inj OpQueue by (intro exI [of _ st]) (simp add: queueDelivery_def ends_after_def)
  next
    case queued
    then show ?thesis
      using enqueue_inv [OF inv, of env inp] st1 OpQueue
      by (intro exI [of _ "fst (enqueue env inp st)"])
        (simp add: queueDelivery_def ends_after_def split_def Let_def)
  qed
next
  case (OpAck m agent via)
  then show ?thesis
    using inj handleDeliveryAck_inv [OF inv]
    by (intro exI [of _ "fst (run_op env op' st)"])
      (auto simp: ends_after_def ack_status [OF inv] split: option.splits prod.splits)
next
  case (OpNak m code retryable agent)
  then show ?thesis
    using nak_status [OF inv] inj handleDeliveryNak_inv [OF inv]
    by (intro exI [of _ "fst (run_op env op' st)"]) (simp add: ends_after_def)
next
  case (OpCancel m)
  then show ?thesis
    using inj cancelDelivery_inv [OF inv]
    by (intro exI [of _ "fst (run_op env op' st)"]) (simp add: ends_after_def cancel_status [OF inv])
next
  case (OpRequeue m)
  show ?thesis
  proof (cases "findDeadMarker m st")
    case None
    then show ?thesis
      using OpRequeue inj inv by (intro exI [of _ st]) (simp add: requeue_def ends_after_def)
  next
    case (Some r)
    obtain k mk where r: "r = (k, mk)" by (cases r)
    have mem: "(k, mk) \<in> set (hub_markers st)" "dm_status mk = MarkDead"
      using find_in_set [OF Some [unfolded findDeadMarker_def]] r by auto
    have "kv_ok (hub_markers st)" using inv queue_inv_parts(2) unfolding hub_inv_def by blast
    then have get: "kv_get (hub_markers st) k = Some mk" using mem by (simp add: kv_ok_mem_iff)
    then have ne: "k \<noteq> mkey" using inj mem by (auto simp: delivery_status_of_def)
    obtain key item where k: "dm_queueKey mk = Some key" "dm_item mk = Some item"
      using queue_inv_parts(5) [OF inv [unfolded hub_inv_def] get mem(2)] by (auto simp: dead_ok_def)
    show ?thesis
    proof (cases key)
      case Nil
      then show ?thesis
        using OpRequeue Some r k inj inv by (intro exI [of _ st]) (simp add: requeue_def ends_after_def)
    next
      case (Cons c cs)
      let ?fresh = "item\<lparr>qd_attempts := 0, qd_enqueuedAt := he_now env, qd_lastAttemptAt := None, qd_lastError := None\<rparr>"
      let ?st1 = "st\<lparr>hub_queue := kv_put (c # cs) ?fresh (hub_queue st),
          hub_markers := kv_put k \<lparr>dm_status = MarkQueued, dm_updatedAt = he_now env,
            dm_queueKey = Some (c # cs), dm_item = None\<rparr> (hub_markers st)\<rparr>"
      have "hub_inv ?st1"
        using inv_requeue [OF inv [unfolded hub_inv_def] get mem(2) k, of ?fresh] Cons
        unfolding hub_inv_def by simp
      moreover have "delivery_status_of ?st1 mkey = Some MarkInjected"
        using inj ne by (simp add: delivery_status_of_def store_simps)
      ultimately show ?thesis
        using OpRequeue Some r k Cons
        by (intro exI [of _ ?st1]) (simp add: requeue_def ends_after_def Let_def split_def)
    qed
  qed
next
  case (OpSettle agent m)
  have "frames (snd (run_op env op' st)) = []"
    using OpSettle by (simp add: settleInbox_def split_def Let_def del: js_simps split: option.splits)
  moreover have "delivery_status_of (fst (run_op env op' st)) mkey = Some MarkInjected"
    using inj OpSettle by (simp add: settleInbox_def split_def Let_def ack_status [OF inv] del: js_simps
        split: option.splits prod.splits)
  ultimately show ?thesis
    using run_op_inv [OF inv ok, of env] by (intro exI [of _ "fst (run_op env op' st)"]) (simp add: ends_after_def)
next
  case OpAlarm
  then show ?thesis using inv inj
    by (intro exI [of _ "st\<lparr>hub_alarm := (hub_alarm st)\<lparr>ab_alarm := None\<rparr>\<rparr>"])
      (simp add: alarm_def delivery_status_of_def ends_after_def)
next
  case (OpRevoke org)
  then show ?thesis using inj inv
    by (intro exI [of _ "fst (run_op env op' st)"]) (simp add: revoke_def delivery_status_of_def ends_after_def)
next
  case (OpConnect identity)
  then show ?thesis using inj inv
    by (intro exI [of _ "fst (run_op env op' st)"])
      (auto simp: acceptDaemon_def delivery_status_of_def ends_after_def split_def Let_def)
next
  case (OpHello a ver host)
  show ?thesis
  proof (cases "host = hi_slug (da_identity a)")
    case True
    then show ?thesis using OpHello inj inv
      by (intro exI [of _ "st\<lparr>hub_socket := Some (a\<lparr>da_ready := True\<rparr>)\<rparr>"])
        (simp add: handleHello_def delivery_status_of_def ends_after_def split_def Let_def)
  next
    case False
    then show ?thesis using OpHello inj inv
      by (intro exI [of _ "st\<lparr>hub_socket := None\<rparr>"])
        (simp add: handleHello_def delivery_status_of_def ends_after_def)
  qed
next
  case (OpRoster identity agents)
  then have nobody: "renames_nobody agents st" using ok by simp
  then have "fst (fold (depart_entry (he_now env) agents) (hub_roster st) ([], hub_gone st, 0)) = []"
    unfolding no_renames_iff renames_nobody_def list_all_iff .
  then show ?thesis using OpRoster inj inv
    by (intro exI [of _ "st\<lparr>hub_roster := next_roster agents,
          hub_gone := (if 0 < snd (snd (fold (depart_entry (he_now env) agents) (hub_roster st) ([], hub_gone st, 0)))
            then prune_graves (he_now env) (fold (\<lambda>a s. kv_del (ra_name a) s) agents
              (fst (snd (fold (depart_entry (he_now env) agents) (hub_roster st) ([], hub_gone st, 0)))))
            else fold (\<lambda>a s. kv_del (ra_name a) s) agents
              (fst (snd (fold (depart_entry (he_now env) agents) (hub_roster st) ([], hub_gone st, 0)))))\<rparr>"])
      (simp add: applyRoster_def delivery_status_of_def ends_after_def split_def Let_def)
qed


lemma run_op_injected_step:
  assumes "hub_inv st" "delivery_status_of st (marker_key m a) = Some MarkInjected" "op_ok op' st"
    and "\<And>inp. op' = OpQueue inp \<Longrightarrow> qi_redelivery inp \<Longrightarrow>
      marker_key (qi_messageId inp) (qi_agent inp) \<noteq> marker_key m a"
  shows "delivery_status_of (fst (run_op env op' st)) (marker_key m a) = Some MarkInjected \<and>
    Deliver m a e \<notin> set (frames (snd (run_op env op' st)))"
proof -
  obtain st1 where st1: "hub_inv st1" "delivery_status_of st1 (marker_key m a) = Some MarkInjected"
      "ends_after env (run_op env op' st) st1"
    using run_op_injected [OF assms] by blast
  have "Deliver m a e \<notin> set (frames (snd (dispatchQueued env st1)))"
    using dispatch_sends_queued [OF st1(1)] st1(2) by force
  then show ?thesis
    using st1 dispatch_status [OF st1(1), of env "marker_key m a"] by (auto simp: ends_after_def)
qed


section \<open>A publish that renames\<close>

text \<open>
  A publish renames an agent when another name is now in its pane. It takes a delivery over when a
  message queued for a renamed agent becomes, under the new name, that very delivery.
\<close>

definition takes_over :: "roster_agent list \<Rightarrow> host_hub \<Rightarrow> jstr \<Rightarrow> bool" where
  "takes_over agents st mkey \<longleftrightarrow>
     list_ex (\<lambda>(k, old). case rename_of agents old of
         None \<Rightarrow> False
       | Some new \<Rightarrow> list_ex (\<lambda>(key, item). qd_agent item = ra_name old \<and>
           marker_key (qd_messageId item) new = mkey) (hub_queue st)) (hub_roster st)"

text \<open>A dispatch touches the marker of no delivery that is not queued, and writes no frame for it.\<close>

definition not_queued :: "jstr \<Rightarrow> (jstr \<times> queued_delivery) list \<Rightarrow> bool" where
  "not_queued mkey q \<longleftrightarrow> (\<forall>(key, item) \<in> set q. marker_key (qd_messageId item) (qd_agent item) \<noteq> mkey)"

lemma dispatch_entry_foreign:
  assumes "marker_key (qd_messageId item) (qd_agent item) \<noteq> marker_key m a"
    and "dispatch_entry env (key, item) (st, effs, w) = (st', effs', w')"
  shows "delivery_status_of st' (marker_key m a) = delivery_status_of st (marker_key m a) \<and>
    (Deliver m a e \<in> set (frames effs') \<longrightarrow> Deliver m a e \<in> set (frames effs))"
proof (cases "dispatch_verdict env st item")
  case (Expired err)
  have "delivery_status_of (fst (markDead env key item err st)) (marker_key m a) = delivery_status_of st (marker_key m a)"
    using assms(1) by (simp add: markDead_def delivery_status_of_def store_simps)
  moreover have "frames (snd (markDead env key item err st)) = []" by simp
  ultimately show ?thesis
    using assms(2) Expired by (auto simp: dispatch_entry_def split_def Let_def)
next
  case Due
  then show ?thesis
    using assms by (auto simp: dispatch_entry_def claim_def delivery_status_of_def frames_send_effects Let_def
        split: option.splits if_splits)
qed (use assms(2) in \<open>auto simp: dispatch_entry_def\<close>)

lemma dispatch_fold_foreign:
  assumes "not_queued (marker_key m a) batch"
  shows "delivery_status_of (fst (fold (dispatch_entry env) batch (st, effs, w))) (marker_key m a) =
      delivery_status_of st (marker_key m a) \<and>
    (Deliver m a e \<in> set (frames (fst (snd (fold (dispatch_entry env) batch (st, effs, w))))) \<longrightarrow>
       Deliver m a e \<in> set (frames effs))"
  using assms
proof (induction batch arbitrary: st effs w)
  case (Cons b batch)
  obtain key item where b: "b = (key, item)" by (cases b)
  obtain st' effs' w' where r: "dispatch_entry env (key, item) (st, effs, w) = (st', effs', w')"
    by (metis prod_cases3)
  have "marker_key (qd_messageId item) (qd_agent item) \<noteq> marker_key m a" "not_queued (marker_key m a) batch"
    using Cons.prems by (simp_all add: not_queued_def b)
  then show ?case
    using dispatch_entry_foreign [OF _ r, of m a e] Cons.IH [of st' effs' w'] by (simp add: b r)
qed simp

lemma dispatch_foreign:
  assumes "not_queued (marker_key m a) (hub_queue st)"
  shows "delivery_status_of (fst (dispatchQueued env st)) (marker_key m a) = delivery_status_of st (marker_key m a) \<and>
    Deliver m a e \<notin> set (frames (snd (dispatchQueued env st)))"
proof -
  have "not_queued (marker_key m a) (take QUEUE_BATCH_SIZE (hub_queue st))"
    using assms unfolding not_queued_def by (meson in_set_takeD)
  note f = dispatch_fold_foreign [OF this, of env st "[]" None e]
  have alarm: "delivery_status_of (set_alarm env t s) mkey = delivery_status_of s mkey" for t s mkey
    by (simp add: set_alarm_def delivery_status_of_def)
  have "delivery_status_of (fst (dispatchQueued env st)) (marker_key m a) =
      delivery_status_of (fst (fold (dispatch_entry env) (take QUEUE_BATCH_SIZE (hub_queue st)) (st, [], None))) (marker_key m a)"
    using dispatchQueued_state [of env st] by (metis (no_types, lifting) alarm option.case_eq_if)
  moreover have "snd (dispatchQueued env st) =
      fst (snd (fold (dispatch_entry env) (take QUEUE_BATCH_SIZE (hub_queue st)) (st, [], None)))"
    by (simp add: dispatchQueued_def Let_def split_def)
  ultimately show ?thesis using f by simp
qed

text \<open>The loop over the queue in \<open>applyRoster\<close>, for a delivery that no rename takes over.\<close>

lemma set_kv_put: "set (kv_put k v s) \<subseteq> insert (k, v) (set s)"
  by (induction s) (auto split: if_splits)

lemma set_kv_del: "set (kv_del k s) \<subseteq> set s"
  by (auto simp: kv_del_def)

lemma rename_fold_foreign:
  assumes "not_queued mkey batch" "not_queued mkey (hub_queue st)"
    and "\<forall>(key, item) \<in> set batch. \<forall>new. map_of renames (qd_agent item) = Some new \<longrightarrow>
      marker_key (qd_messageId item) new \<noteq> mkey"
    and "frames effs = []"
  shows "delivery_status_of (fst (fold (rename_entry env slug renames) batch (st, effs))) mkey = delivery_status_of st mkey \<and>
    not_queued mkey (hub_queue (fst (fold (rename_entry env slug renames) batch (st, effs)))) \<and>
    frames (snd (fold (rename_entry env slug renames) batch (st, effs))) = []"
  using assms
proof (induction batch arbitrary: st effs)
  case (Cons b batch)
  obtain key item where b: "b = (key, item)" by (cases b)
  obtain st' effs' where r: "rename_entry env slug renames (key, item) (st, effs) = (st', effs')"
    by (cases "rename_entry env slug renames (key, item) (st, effs)")
  have old: "marker_key (qd_messageId item) (qd_agent item) \<noteq> mkey" and rest: "not_queued mkey batch"
    using Cons.prems(1) by (simp_all add: not_queued_def b)
  have "delivery_status_of st' mkey = delivery_status_of st mkey \<and> not_queued mkey (hub_queue st') \<and> frames effs' = []"
  proof (cases "map_of renames (qd_agent item)")
    case None
    then show ?thesis using r Cons.prems(2,4) by (simp add: rename_entry_def)
  next
    case (Some new)
    then have new: "marker_key (qd_messageId item) new \<noteq> mkey" using Cons.prems(3) by (simp add: b)
    show ?thesis
    proof (cases "new = []")
      case True
      then show ?thesis using Some r Cons.prems(2,4) by (simp add: rename_entry_def)
    next
      case False
      let ?key = "replace_first (js ''q:'' @ qd_agent item @ [COLON]) (js ''q:'' @ new @ [COLON]) key"
      let ?item = "item\<lparr>qd_agent := new, qd_targetAddr := new @ AT # slug\<rparr>"
      have q: "hub_queue st' = kv_put ?key ?item (kv_del key (hub_queue st))"
          "delivery_status_of st' mkey = delivery_status_of st mkey" "frames effs' = []"
        using Some r False old new Cons.prems(4)
        by (auto simp: rename_entry_def Let_def delivery_status_of_def store_simps)
      have "set (hub_queue st') \<subseteq> insert (?key, ?item) (set (hub_queue st))"
        unfolding q(1) using set_kv_put set_kv_del by fastforce
      then have "not_queued mkey (hub_queue st')"
        using Cons.prems(2) new unfolding not_queued_def by fastforce
      with q show ?thesis by blast
    qed
  qed
  with Cons.IH [of st' effs'] rest Cons.prems(3) show ?case by (simp add: b r)
qed simp

lemma renames_come_from_roster:
  assumes "map_of (fst (fold (depart_entry now agents) prev ([], g, d))) name = Some new"
  obtains k old where "(k, old) \<in> set prev" "ra_name old = name" "rename_of agents old = Some new"
proof -
  have "(name, new) \<in> set (List.map_filter (\<lambda>(key, old). map_option (Pair (ra_name old)) (rename_of agents old)) prev)"
    using map_of_SomeD [OF assms] unfolding depart_fold_renames by simp
  then show thesis using that by (auto simp: List.map_filter_def)
qed

lemma roster_injected_step:
  assumes inv: "hub_inv st" and inj: "delivery_status_of st (marker_key m a) = Some MarkInjected"
    and free: "\<not> takes_over agents st (marker_key m a)"
  shows "delivery_status_of (fst (applyRoster env identity agents st)) (marker_key m a) = Some MarkInjected \<and>
    Deliver m a e \<notin> set (frames (snd (applyRoster env identity agents st)))"
proof -
  let ?mkey = "marker_key m a"
  obtain renames gone1 departures where f: "fold (depart_entry (he_now env) agents) (hub_roster st) ([], hub_gone st, 0) =
      (renames, gone1, departures)"
    by (metis prod_cases3)
  define st1 where "st1 = st\<lparr>hub_roster := next_roster agents,
      hub_gone := (let gone2 = fold (\<lambda>a s. kv_del (ra_name a) s) agents gone1
        in if 0 < departures then prune_graves (he_now env) gone2 else gone2)\<rparr>"
  define moved where "moved = (if renames = [] then (st1, [])
      else fold (rename_entry env (hi_slug identity) renames) (hub_queue st1) (st1, []))"
  have all: "applyRoster env identity agents st =
      (fst (dispatchQueued env (fst moved)), snd moved @ [SnapshotAgents (hi_hostId identity) agents (he_now env),
         Broadcast (RosterChanged (hi_slug identity) agents) (he_now env) (Some (hi_org identity))] @
         snd (dispatchQueued env (fst moved)))"
    by (simp add: applyRoster_def f moved_def st1_def Let_def split_def)
  have kv: "kv_ok (hub_queue st)" using inv queue_inv_parts(1) unfolding hub_inv_def by blast
  have nq: "not_queued ?mkey (hub_queue st1)"
    unfolding not_queued_def
  proof (clarsimp simp: st1_def)
    fix key item
    assume "(key, item) \<in> set (hub_queue st)" and m: "marker_key (qd_messageId item) (qd_agent item) = ?mkey"
    then have "kv_get (hub_queue st) key = Some item" using kv by (simp add: kv_ok_mem_iff)
    then show False
      using queue_inv_parts(3) [OF inv [unfolded hub_inv_def]] m inj
      by (fastforce simp: entry_ok_def delivery_status_of_def)
  qed
  have new: "marker_key (qd_messageId item) new \<noteq> ?mkey"
    if q: "(key, item) \<in> set (hub_queue st1)" and r: "map_of renames (qd_agent item) = Some new" for key item new
  proof -
    have "map_of (fst (fold (depart_entry (he_now env) agents) (hub_roster st) ([], hub_gone st, 0))) (qd_agent item) = Some new"
      using r f by simp
    then obtain k old where old: "(k, old) \<in> set (hub_roster st)" "ra_name old = qd_agent item" "rename_of agents old = Some new"
      by (rule renames_come_from_roster)
    have "(key, item) \<in> set (hub_queue st)" using q by (simp add: st1_def)
    with old free show ?thesis by (fastforce simp: takes_over_def list_ex_iff)
  qed
  have "delivery_status_of (fst moved) ?mkey = delivery_status_of st1 ?mkey \<and> not_queued ?mkey (hub_queue (fst moved)) \<and>
      frames (snd moved) = []"
  proof (cases "renames = []")
    case True
    then show ?thesis using nq by (simp add: moved_def)
  next
    case False
    then show ?thesis
      using rename_fold_foreign [OF nq nq, of renames "[]" env "hi_slug identity"] new by (auto simp: moved_def)
  qed
  moreover have "delivery_status_of st1 ?mkey = Some MarkInjected"
    using inj by (simp add: st1_def delivery_status_of_def)
  ultimately show ?thesis
    using dispatch_foreign [of m a "fst moved" env e] by (simp add: all)
qed


section \<open>Settlement by name and by message\<close>

lemma resolve_direct:
  assumes "delivery_status_of st (marker_key m a) = Some MarkQueued" "hub_inv st" "a \<noteq> []"
  obtains mk key item where "resolveQueuedMarker env m (Some a) st = Some (marker_key m a, mk)"
    "dm_queueKey mk = Some key" "kv_get (hub_queue st) key = Some item"
    "marker_key m a = marker_key (qd_messageId item) (qd_agent item)"
proof -
  obtain mk where mk: "kv_get (hub_markers st) (marker_key m a) = Some mk" "dm_status mk = MarkQueued"
    using assms(1) by (auto simp: delivery_status_of_def)
  obtain key item where k: "dm_queueKey mk = Some key" "kv_get (hub_queue st) key = Some item"
      "marker_key m a = marker_key (qd_messageId item) (qd_agent item)"
    using queue_inv_parts(4) [OF assms(2) [unfolded hub_inv_def] mk] by (auto simp: queued_ok_def)
  have "key \<noteq> []"
    using queue_inv_parts(3) [OF assms(2) [unfolded hub_inv_def] k(2)] by (auto simp: entry_ok_def)
  then have "resolveQueuedMarker env m (Some a) st = Some (marker_key m a, mk)"
    using mk k assms(3) by (cases a) (auto simp: resolveQueuedMarker_def queued_marker_def Let_def)
  then show thesis using that k by blast
qed

text \<open>The queued deliveries a listing by message id finds.\<close>

definition queued_markers :: "jstr \<Rightarrow> host_hub \<Rightarrow> jstr set" where
  "queued_markers m st = {mkey. marker_of_message m mkey \<and> delivery_status_of st mkey = Some MarkQueued}"

lemma resolve_None_iff:
  assumes "hub_inv st"
  shows "resolveQueuedMarker env m None st = None \<longleftrightarrow> queued_markers m st = {}"
proof -
  let ?P = "\<lambda>(key, mk). marker_of_message m key \<and> queued_marker mk"
  have "mkey \<in> queued_markers m st \<longleftrightarrow> (\<exists>mk. (mkey, mk) \<in> set (filter ?P (hub_markers st)))" for mkey
  proof
    assume "mkey \<in> queued_markers m st"
    then obtain mk where mk: "kv_get (hub_markers st) mkey = Some mk" "dm_status mk = MarkQueued" "marker_of_message m mkey"
      by (auto simp: queued_markers_def delivery_status_of_def)
    obtain key item where k: "dm_queueKey mk = Some key" "kv_get (hub_queue st) key = Some item"
      using queue_inv_parts(4) [OF assms [unfolded hub_inv_def] mk(1,2)] by (auto simp: queued_ok_def)
    have "key \<noteq> []"
      using queue_inv_parts(3) [OF assms [unfolded hub_inv_def] k(2)] by (auto simp: entry_ok_def)
    then have "queued_marker mk" using mk k by (simp add: queued_marker_def)
    then show "\<exists>mk. (mkey, mk) \<in> set (filter ?P (hub_markers st))"
      unfolding cancelled_markers(2) [OF assms] using mk by blast
  next
    assume "\<exists>mk. (mkey, mk) \<in> set (filter ?P (hub_markers st))"
    then show "mkey \<in> queued_markers m st"
      unfolding cancelled_markers(2) [OF assms]
      by (auto simp: queued_markers_def delivery_status_of_def queued_marker_def)
  qed
  then have "queued_markers m st = fst ` set (filter ?P (hub_markers st))"
    unfolding set_eq_iff image_iff Bex_def by (simp del: set_filter)
  then show ?thesis
    by (simp add: resolveQueuedMarker_def Let_def first_queued_None del: set_filter)
qed


section \<open>Properties\<close>

text \<open>
  the books of a hub balance. From a new hub, after any sequence of its operations in which no
  publish renames an agent, every queued entry has attempts within the limit and a marker of status
  queued that points back at it, every queued marker has exactly one entry, and a dead delivery's
  marker holds the entry itself, so that an operator can queue it again.
\<close>
theorem hub_books_balance:
  assumes "ops_ok ops new_hub"
  defines "st \<equiv> run_ops ops new_hub"
  shows "(\<forall>key item. kv_get (hub_queue st) key = Some item \<longrightarrow> qd_attempts item \<le> 40 \<and>
      (\<exists>mk. kv_get (hub_markers st) (marker_key (qd_messageId item) (qd_agent item)) = Some mk \<and>
         dm_status mk = MarkQueued \<and> dm_queueKey mk = Some key)) \<and>
    (\<forall>mkey mk. kv_get (hub_markers st) mkey = Some mk \<longrightarrow> dm_status mk = MarkQueued \<longrightarrow>
      (\<exists>!key. \<exists>item. kv_get (hub_queue st) key = Some item \<and>
         mkey = marker_key (qd_messageId item) (qd_agent item))) \<and>
    (\<forall>mkey mk. kv_get (hub_markers st) mkey = Some mk \<longrightarrow> dm_status mk = MarkDead \<longrightarrow>
      (\<exists>item key. dm_item mk = Some item \<and> dm_queueKey mk = Some key \<and> kv_get (hub_queue st) key = None \<and>
         mkey = marker_key (qd_messageId item) (qd_agent item)))"
proof -
  have inv: "queue_inv (hub_queue st) (hub_markers st) (hub_seq st)"
    using run_ops_inv [OF new_hub_inv assms(1)] unfolding st_def hub_inv_def .
  show ?thesis
  proof (intro conjI allI impI)
    fix mkey mk
    assume q: "kv_get (hub_markers st) mkey = Some mk" "dm_status mk = MarkQueued"
    then obtain key item where k: "kv_get (hub_queue st) key = Some item"
        "mkey = marker_key (qd_messageId item) (qd_agent item)"
      using queue_inv_parts(4) [OF inv q] unfolding queued_ok_def by blast
    show "\<exists>!key. \<exists>item. kv_get (hub_queue st) key = Some item \<and>
         mkey = marker_key (qd_messageId item) (qd_agent item)"
    proof (rule ex1I [of _ key])
      show "\<exists>item. kv_get (hub_queue st) key = Some item \<and> mkey = marker_key (qd_messageId item) (qd_agent item)"
        using k by blast
      show "key' = key" if "\<exists>item. kv_get (hub_queue st) key' = Some item \<and>
          mkey = marker_key (qd_messageId item) (qd_agent item)" for key'
        using that entry_by_marker [OF inv k(1)] k(2) by metis
    qed
  qed (use queue_inv_parts(3,5) [OF inv] in \<open>fastforce simp: entry_ok_def dead_ok_def MAX_DELIVERY_ATTEMPTS_def\<close>)+
qed

text \<open>A run in which one message is queued, handed over, held, sent again and acknowledged.\<close>

definition demo_attachment :: daemon_attachment where
  "demo_attachment = \<lparr>da_identity = demo_host, da_ready = False, da_frameRate = \<lparr>tokens = 100, updatedAt = 0\<rparr>\<rparr>"

definition demo_start :: "(hub_env \<times> hub_op) list" where
  "demo_start = [(demo_env 0, OpHello demo_attachment (js ''1.0'') (js ''titan'')),
     (demo_env 1, OpRoster demo_host [demo_agent ''bob'' ''p1''])]"

definition demo_hub :: host_hub where
  "demo_hub = run_ops (demo_start @ [(demo_env 2, OpQueue (demo_input ''tx_1'' ''bob''))]) new_hub"

lemma demo_ops_ok: "ops_ok (demo_start @ [(demo_env 2, OpQueue (demo_input ''tx_1'' ''bob''))]) new_hub"
  by code_simp

lemma demo_hub_inv: "hub_inv demo_hub"
  unfolding demo_hub_def by (rule run_ops_inv [OF new_hub_inv demo_ops_ok])

lemma demo_hub_status: "delivery_status_of demo_hub (marker_key (js ''tx_1'') (js ''bob'')) = Some MarkQueued"
  by code_simp

lemma hub_books_balance_witness:
  "\<exists>key item. kv_get (hub_queue demo_hub) key = Some item \<and> qd_attempts item \<le> 40"
proof -
  have "js ''bob'' \<noteq> []" by simp
  from resolve_direct [OF demo_hub_status demo_hub_inv this]
  obtain key item where "kv_get (hub_queue demo_hub) key = Some item" by metis
  with hub_books_balance [OF demo_ops_ok] show ?thesis unfolding demo_hub_def by blast
qed


text \<open>
  a rename can bring an acknowledged delivery back. One room message is queued for \<open>alice\<close> and
  acknowledged by \<open>bob\<close>; when \<open>alice\<close>'s pane is published under the name \<open>bob\<close>, the
  injected marker is overwritten and the message is sent to \<open>bob\<close> again.
\<close>
theorem rename_revives_injected:
  "\<exists>st. hub_inv st \<and> delivery_status_of st (marker_key (js ''tx_1'') (js ''bob'')) = Some MarkInjected \<and>
     delivery_status_of (fst (applyRoster (demo_env 900000) demo_host [demo_agent ''bob'' ''p1''] st))
       (marker_key (js ''tx_1'') (js ''bob'')) = Some MarkQueued \<and>
     (\<exists>e. frames (snd (applyRoster (demo_env 900000) demo_host [demo_agent ''bob'' ''p1''] st)) =
        [Deliver (js ''tx_1'') (js ''bob'') e])"
proof -
  let ?ops = "[(demo_env 0, OpHello demo_attachment (js ''1.0'') (js ''titan'')),
     (demo_env 1, OpRoster demo_host [demo_agent ''alice'' ''p1'', demo_agent ''bob'' ''p2'']),
     (demo_env 2, OpQueue (demo_input ''tx_1'' ''alice'')), (demo_env 2, OpQueue (demo_input ''tx_1'' ''bob'')),
     (demo_env 3, OpAck (js ''tx_1'') (Some (js ''bob'')) None)]"
  let ?st = "run_ops ?ops new_hub"
  have "ops_ok ?ops new_hub" by code_simp
  then have "hub_inv ?st" by (rule run_ops_inv [OF new_hub_inv])
  moreover have "delivery_status_of ?st (marker_key (js ''tx_1'') (js ''bob'')) = Some MarkInjected"
    by code_simp
  moreover have "delivery_status_of (fst (applyRoster (demo_env 900000) demo_host [demo_agent ''bob'' ''p1''] ?st))
       (marker_key (js ''tx_1'') (js ''bob'')) = Some MarkQueued"
    by code_simp
  moreover have "frames (snd (applyRoster (demo_env 900000) demo_host [demo_agent ''bob'' ''p1''] ?st)) =
        [Deliver (js ''tx_1'') (js ''bob'') (js ''<transit/>'')]"
    by code_simp
  ultimately show ?thesis by (intro exI [of _ ?st]) blast
qed

definition demo_acked :: host_hub where
  "demo_acked = fst (handleDeliveryAck (demo_env 3) (js ''tx_1'') (Some (js ''bob'')) None demo_hub)"


text \<open>
  C19: an acknowledgement that names its agent settles that delivery and nothing else. The entry
  leaves the queue, its marker becomes injected, every other entry and marker is as before, and a
  room delivery is reported to its room at its sequence number.
\<close>
theorem ack_settles_exactly_one:
  assumes "hub_inv st" and "delivery_status_of st (marker_key m a) = Some MarkQueued" and "a \<noteq> []"
  shows "\<exists>key item. kv_get (hub_queue st) key = Some item \<and>
      marker_key (qd_messageId item) (qd_agent item) = marker_key m a \<and>
      hub_queue (fst (handleDeliveryAck env m (Some a) via st)) = kv_del key (hub_queue st) \<and>
      (\<forall>mkey. delivery_status_of (fst (handleDeliveryAck env m (Some a) via st)) mkey =
         (if mkey = marker_key m a then Some MarkInjected else delivery_status_of st mkey)) \<and>
      (\<forall>r n. qd_roomName item = Some r \<longrightarrow> r \<noteq> [] \<longrightarrow> qd_roomSeq item = Some n \<longrightarrow>
         RoomAcknowledge (qd_org item) r (qd_targetAddr item) n \<in>
           set (snd (handleDeliveryAck env m (Some a) via st)))"
proof -
  obtain mk key item where k: "resolveQueuedMarker env m (Some a) st = Some (marker_key m a, mk)"
      "dm_queueKey mk = Some key" "kv_get (hub_queue st) key = Some item"
      "marker_key m a = marker_key (qd_messageId item) (qd_agent item)"
    using resolve_direct [OF assms(2,1,3)] by blast
  show ?thesis
  proof (intro exI [of _ key] exI [of _ item] conjI allI impI)
    show "delivery_status_of (fst (handleDeliveryAck env m (Some a) via st)) mkey =
         (if mkey = marker_key m a then Some MarkInjected else delivery_status_of st mkey)" for mkey
      using k(1) by (simp add: ack_status [OF assms(1)])
    show "RoomAcknowledge (qd_org item) r (qd_targetAddr item) n \<in> set (snd (handleDeliveryAck env m (Some a) via st))"
      if "qd_roomName item = Some r" "r \<noteq> []" "qd_roomSeq item = Some n" for r n
      using k that by (cases r) (simp_all add: handleDeliveryAck_def)
  qed (use k in \<open>simp_all add: handleDeliveryAck_def\<close>)
qed

lemma ack_settles_exactly_one_witness:
  "\<exists>key item. kv_get (hub_queue demo_hub) key = Some item \<and>
     hub_queue (fst (handleDeliveryAck (demo_env 3) (js ''tx_1'') (Some (js ''bob'')) None demo_hub)) =
       kv_del key (hub_queue demo_hub)"
  using ack_settles_exactly_one [OF demo_hub_inv demo_hub_status, of "demo_env 3" None] by auto

text \<open>
  an older daemon's acknowledgement drains one delivery at a time. Without an agent it settles
  exactly one of the queued deliveries of the message when there is one, and changes nothing when
  there is none.
\<close>
theorem legacy_ack_drains_one:
  assumes "hub_inv st"
  shows "if queued_markers m st = {} then handleDeliveryAck env m None via st = (st, [])
    else \<exists>mkey \<in> queued_markers m st.
      queued_markers m (fst (handleDeliveryAck env m None via st)) = queued_markers m st - {mkey} \<and>
      delivery_status_of (fst (handleDeliveryAck env m None via st)) mkey = Some MarkInjected"
proof (cases "resolveQueuedMarker env m None st")
  case None
  then show ?thesis using resolve_None_iff [OF assms, of env m] by (simp add: handleDeliveryAck_def)
next
  case (Some r)
  obtain mkey mk where r: "r = (mkey, mk)" by (cases r)
  have "mkey \<in> queued_markers m st"
    using resolve_status [OF assms] resolve_sound [OF assms] Some r by (auto simp: queued_markers_def)
  then show ?thesis
    using Some r by (auto simp: ack_status [OF assms] queued_markers_def)
qed

lemma legacy_ack_drains_one_witness:
  "queued_markers (js ''tx_1'') (fst (handleDeliveryAck (demo_env 3) (js ''tx_1'') None None demo_hub))
     \<subset> queued_markers (js ''tx_1'') demo_hub"
proof -
  have "queued_markers (js ''tx_1'') demo_hub \<noteq> {}"
    using demo_hub_status marker_key_matches unfolding queued_markers_def by blast
  then show ?thesis
    using legacy_ack_drains_one [OF demo_hub_inv, of "js ''tx_1''" "demo_env 3" None] by auto
qed



end
