(* ===== verification/Hub_Schedule.thy ===== *)
theory Hub_Schedule
  imports Hub_Properties
begin

text \<open>
  When a hub sends, how often, and when it wakes up: the retry delays, the draft hold, the alarm a
  dispatch leaves behind, the batch limit, cancelling, the inbox; and the contract of the queue
  that the rooms and the integrations rely on, as the locale \<open>delivery_port\<close>.
\<close>

section \<open>The delivery port\<close>

text \<open>
  What a client of a queue relies on: \<open>submit\<close> queues a delivery unless one of that key is already
  pending, \<open>cancel\<close> ends everything pending for a message, and nothing else becomes pending.
\<close>

locale delivery_port =
  fixes submit :: "'i \<Rightarrow> 's \<Rightarrow> 's \<times> queue_status"
    and cancel :: "'m \<Rightarrow> 's \<Rightarrow> 's"
    and pending :: "'s \<Rightarrow> 'k \<Rightarrow> bool"
    and key_of :: "'i \<Rightarrow> 'k"
    and belongs :: "'m \<Rightarrow> 'k \<Rightarrow> bool"
    and ok :: "'s \<Rightarrow> bool"
  assumes ok_submit: "ok s \<Longrightarrow> ok (fst (submit i s))"
    and ok_cancel: "ok s \<Longrightarrow> ok (cancel m s)"
    and submit_pending: "ok s \<Longrightarrow> pending (fst (submit i s)) k \<Longrightarrow> pending s k \<or> (k = key_of i \<and> snd (submit i s) = Queued)"
    and submit_duplicate: "ok s \<Longrightarrow> snd (submit i s) \<noteq> Queued \<Longrightarrow> fst (submit i s) = s"
    and submit_once: "ok s \<Longrightarrow> pending s (key_of i) \<Longrightarrow> snd (submit i s) \<noteq> Queued"
    and cancel_pending: "ok s \<Longrightarrow> pending (cancel m s) k \<longleftrightarrow> pending s k \<and> \<not> belongs m k"
begin

lemma ok_fold_submit: "ok s \<Longrightarrow> ok (fold (\<lambda>i s. fst (submit i s)) is s)"
  by (induction "is" arbitrary: s) (auto simp: ok_submit)

text \<open>A fan-out makes nothing pending but the keys it names.\<close>

lemma fan_out_pending:
  "ok s \<Longrightarrow> pending (fold (\<lambda>i s. fst (submit i s)) is s) k \<Longrightarrow> pending s k \<or> k \<in> key_of ` set is"
proof (induction "is" arbitrary: s)
  case (Cons i "is")
  then have "pending (fst (submit i s)) k \<or> k \<in> key_of ` set is" using ok_submit by auto
  then show ?case using submit_pending [OF Cons.prems(1)] by auto
qed simp

lemma cancel_after_fan_out:
  assumes "ok s"
  shows "pending (cancel m (fold (\<lambda>i s. fst (submit i s)) is s)) k \<Longrightarrow> \<not> belongs m k"
  using cancel_pending [OF ok_fold_submit [OF assms]] by simp

lemma resubmit_is_noop:
  "ok s \<Longrightarrow> pending s (key_of i) \<Longrightarrow> fst (submit i s) = s"
  using submit_once submit_duplicate by blast

end

definition pending_delivery :: "host_hub \<Rightarrow> jstr \<Rightarrow> bool" where
  "pending_delivery st mkey \<longleftrightarrow> delivery_status_of st mkey = Some MarkQueued"

definition submit_delivery :: "hub_env \<Rightarrow> queue_delivery_input \<Rightarrow> host_hub \<Rightarrow> host_hub \<times> queue_status" where
  "submit_delivery env inp st = (let (st', _, s) = queueDelivery env inp st in (st', s))"

definition input_key :: "queue_delivery_input \<Rightarrow> jstr" where
  "input_key inp = marker_key (qi_messageId inp) (qi_agent inp)"

lemma enqueue_not_Queued: "snd (enqueue env inp st) \<noteq> Queued \<Longrightarrow> fst (enqueue env inp st) = st"
  by (auto simp: enqueue_def Let_def split: if_splits)

lemma submit_delivery_eq:
  "submit_delivery env inp st =
     (if \<not> canReceive env st (qi_agent inp) (qi_targetOrg inp) (qi_targetHost inp) then (st, NoRouteTo)
      else if snd (enqueue env inp st) = Queued
      then (fst (dispatchQueued env (fst (enqueue env inp st))), Queued)
      else (st, snd (enqueue env inp st)))"
  using enqueue_not_Queued [of env inp st]
  by (simp add: submit_delivery_def queueDelivery_def split_def Let_def)

interpretation hub: delivery_port
  "submit_delivery env" "\<lambda>m st. fst (cancelDelivery env m st)" pending_delivery input_key
  marker_of_message hub_inv for env
proof unfold_locales
  fix s inp
  assume s: "hub_inv s"
  show "hub_inv (fst (submit_delivery env inp s))"
    using queueDelivery_inv [OF s, of env inp] by (simp add: submit_delivery_def split_def Let_def)
  show "snd (submit_delivery env inp s) \<noteq> Queued \<Longrightarrow> fst (submit_delivery env inp s) = s"
    by (auto simp: submit_delivery_eq split: if_splits)
  show "pending_delivery s (input_key inp) \<Longrightarrow> snd (submit_delivery env inp s) \<noteq> Queued"
    by (auto simp: submit_delivery_eq pending_delivery_def input_key_def enqueue_Queued_iff)
  show "pending_delivery (fst (submit_delivery env inp s)) k \<Longrightarrow>
      pending_delivery s k \<or> k = input_key inp \<and> snd (submit_delivery env inp s) = Queued" for k
    using dispatch_status [OF enqueue_inv [OF s], of env env inp k]
    by (auto simp: submit_delivery_eq pending_delivery_def input_key_def enqueue_status split: if_splits)
qed (auto simp: cancelDelivery_inv cancel_status pending_delivery_def)


section \<open>Retry delays\<close>

lemma retry_delay_bounds: "5000 \<le> retry_delay n" "retry_delay n \<le> 300000"
  by (auto simp: retry_delay_def MAX_RETRY_MS_def)

lemma retry_delay_doubles: "0 < n \<Longrightarrow> retry_delay (Suc n) = min (2 * retry_delay n) 300000"
  by (cases n) (auto simp: retry_delay_def MAX_RETRY_MS_def min_def)

lemma retry_delay_capped: "7 \<le> n \<Longrightarrow> retry_delay n = 300000"
proof -
  assume "7 \<le> n"
  then have "(2 :: int) ^ 6 \<le> 2 ^ (n - 1)" by (intro power_increasing) auto
  then show ?thesis by (simp add: retry_delay_def MAX_RETRY_MS_def)
qed


section \<open>The alarm a dispatch asks for\<close>

text \<open>When an entry that stays in the queue needs the hub again.\<close>

definition deadline :: "hub_env \<Rightarrow> host_hub \<Rightarrow> queued_delivery \<Rightarrow> int" where
  "deadline env st item =
     (case dispatch_verdict env st item of
        Expired _ \<Rightarrow> he_now env
      | Undeliverable t \<Rightarrow> t
      | NotDue t \<Rightarrow> t
      | Due \<Rightarrow> he_now env + retry_delay (qd_attempts item + 1))"

definition stays :: "hub_env \<Rightarrow> host_hub \<Rightarrow> queued_delivery \<Rightarrow> bool" where
  "stays env st item \<longleftrightarrow> (case dispatch_verdict env st item of Expired _ \<Rightarrow> False | _ \<Rightarrow> True)"

lemma dispatch_entry_wake:
  assumes "kv_get (hub_queue st) key = Some item"
  shows "snd (snd (dispatch_entry env (key, item) (st, effs, w))) =
    (if stays env st item then opt_min w (deadline env st item) else w)"
  using assms
  by (cases "dispatch_verdict env st item")
    (auto simp: dispatch_entry_def claim_def split_def Let_def stays_def deadline_def)

lemma opt_min_mono: "w = Some t \<Longrightarrow> \<exists>t' \<le> t. opt_min w x = Some t'"
  by (auto simp: opt_min_def)

lemma dispatch_fold_wake:
  assumes "distinct (map fst batch)" "\<forall>(k, i) \<in> set batch. kv_get (hub_queue st) k = Some i"
  shows "(\<forall>t. w = Some t \<longrightarrow> (\<exists>t' \<le> t. snd (snd (fold (dispatch_entry env) batch (st, effs, w))) = Some t')) \<and>
    (\<forall>(k, i) \<in> set batch. stays env st i \<longrightarrow>
      (\<exists>t \<le> deadline env st i. snd (snd (fold (dispatch_entry env) batch (st, effs, w))) = Some t))"
  using assms
proof (induction batch arbitrary: st effs w)
  case (Cons e batch)
  obtain key item where e: "e = (key, item)" by (cases e)
  obtain st' effs' w' where r: "dispatch_entry env (key, item) (st, effs, w) = (st', effs', w')"
    by (metis prod_cases3)
  have old: "kv_get (hub_queue st) key = Some item" using Cons.prems(2) e by simp
  have rest: "\<forall>(k, i) \<in> set batch. kv_get (hub_queue st') k = Some i"
  proof safe
    fix k i assume ki: "(k, i) \<in> set batch"
    then have "k \<noteq> key" using Cons.prems(1) e by (auto simp: image_iff)
    then show "kv_get (hub_queue st') k = Some i"
      using dispatch_entry_frame(1) [of k key env item st effs w] r Cons.prems(2) ki by auto
  qed
  have "hub_roster st' = hub_roster st" "hub_socket st' = hub_socket st"
    using dispatch_entry_frame(3,5) [of env key item st effs w] r by simp_all
  from verdict_frame [OF this] have v: "stays env st' = stays env st" "deadline env st' = deadline env st"
    by (simp_all add: stays_def deadline_def fun_eq_iff)
  have d: "distinct (map fst batch)" using Cons.prems(1) by simp
  note IH = Cons.IH [OF d rest, of w' effs', unfolded v]
  have w': "w' = (if stays env st item then opt_min w (deadline env st item) else w)"
    using dispatch_entry_wake [OF old, of env effs w] r by simp
  let ?last = "snd (snd (fold (dispatch_entry env) batch (st', effs', w')))"
  have step: "snd (snd (fold (dispatch_entry env) (e # batch) (st, effs, w))) = ?last" by (simp add: e r)
  have mono: "\<exists>t' \<le> t. ?last = Some t'" if w1: "w' = Some t1" and le: "t1 \<le> t" for t1 t
  proof -
    obtain t' where "t' \<le> t1" "?last = Some t'" using IH w1 by blast
    with le show ?thesis by (intro exI [of _ t']) simp
  qed
  have keep: "\<exists>t' \<le> t. ?last = Some t'" if wt: "w = Some t" for t
  proof -
    obtain t1 where "t1 \<le> t" "w' = Some t1" using wt opt_min_mono [OF wt] w' by (auto split: if_splits)
    then show ?thesis using mono by blast
  qed
  have own: "\<exists>t \<le> deadline env st item. ?last = Some t" if stay: "stays env st item"
  proof -
    obtain t1 where "t1 \<le> deadline env st item" "w' = Some t1"
      using w' stay opt_min_le [of w "deadline env st item"] by (cases "w'") (auto simp: opt_min_def)
    then show ?thesis using mono by blast
  qed
  show ?case unfolding step using keep own IH by (auto simp: e)
qed simp


section \<open>Properties\<close>

text \<open>
  an unanswered delivery is spaced out. A delivery is handed to the daemon again only 5 seconds
  or more after the last time, at least twice as long after each further attempt, up to 5 minutes,
  and from the seventh attempt on never sooner than 5 minutes.
\<close>
theorem redelivery_is_spaced:
  assumes "hub_inv st" and "Deliver m a e \<in> set (frames (snd (dispatchQueued env st)))"
  shows "\<exists>key item. kv_get (hub_queue st) key = Some item \<and> qd_messageId item = m \<and> qd_agent item = a \<and>
    qd_attempts item < 40 \<and> he_now env < qd_enqueuedAt item + 24 * 60 * 60 * 1000 \<and>
    (\<forall>t. qd_lastAttemptAt item = Some t \<longrightarrow>
      t + 5000 \<le> he_now env \<and> t + retry_delay (qd_attempts item) \<le> he_now env \<and>
      (7 \<le> qd_attempts item \<longrightarrow> t + 300000 \<le> he_now env))"
  using assms
proof (rule dispatched_is_due)
  fix key item
  assume k: "kv_get (hub_queue st) key = Some item" "qd_messageId item = m" "qd_agent item = a"
    "dispatch_verdict env st item = Due"
  have due: "qd_attempts item < 40 \<and> he_now env < qd_enqueuedAt item + 24 * 60 * 60 * 1000"
    "qd_lastAttemptAt item = Some t \<Longrightarrow> t + retry_delay (qd_attempts item) \<le> he_now env" for t
    using k(4) by (auto simp: dispatch_verdict_def Let_def MAX_DELIVERY_ATTEMPTS_def DELIVERY_TTL_MS_def
        split: if_splits)
  show ?thesis
  proof (intro exI [of _ key] exI [of _ item] conjI allI impI)
    fix t
    assume t: "qd_lastAttemptAt item = Some t"
    show "t + 5000 \<le> he_now env" using due(2) [OF t] retry_delay_bounds(1) [of "qd_attempts item"] by simp
    show "7 \<le> qd_attempts item \<Longrightarrow> t + 300000 \<le> he_now env"
      using due(2) [OF t] retry_delay_capped [of "qd_attempts item"] by simp
  qed (use k due in simp_all)
qed

lemma redelivery_is_spaced_witness:
  "\<exists>key item. kv_get (hub_queue demo_hub) key = Some item \<and> qd_attempts item < 40"
proof -
  have "Deliver (js ''tx_1'') (js ''bob'') (js ''<transit/>'') \<in> set (frames (snd (dispatchQueued (demo_env 5002) demo_hub)))"
    by code_simp
  from redelivery_is_spaced [OF demo_hub_inv this] show ?thesis by blast
qed

text \<open>
  C25: no queued delivery is forgotten. After a dispatch that leaves an entry of its batch waiting, or
  that filled its batch, an alarm is set that is not later than the moment the entry is due again or
  expires, unless the hour's alarm budget is spent, which the status then reports.
\<close>
theorem dispatch_wakes_in_time:
  assumes "hub_inv st" and "(key, item) \<in> set (take 128 (hub_queue st))" and "stays env st item"
  defines "fin \<equiv> fst (dispatchQueued env st)"
  shows "(\<exists>t. ab_alarm (hub_alarm fin) = Some t \<and> t \<le> max (he_now env) (deadline env st item)) \<or>
    hs_budgetExhausted (status fin) \<noteq> None"
proof -
  let ?batch = "take QUEUE_BATCH_SIZE (hub_queue st)"
  let ?f = "fold (dispatch_entry env) ?batch (st, [], None)"
  have mem: "(key, item) \<in> set ?batch" using assms(2) by (simp add: QUEUE_BATCH_SIZE_def)
  obtain w where w: "snd (snd ?f) = Some w" "w \<le> deadline env st item"
    using dispatch_fold_wake [OF batch_entries [OF assms(1)], where env = env and effs = "[]" and w = None] mem assms(3) by fastforce
  define wake where "wake = (if length ?batch = QUEUE_BATCH_SIZE then he_now env else w)"
  have ne: "?batch \<noteq> []" using mem by (metis list.set(1) empty_iff)
  have "fin = set_alarm env wake (fst ?f)"
    using ne w unfolding fin_def dispatchQueued_def Let_def split_def by (auto simp: wake_def)
  moreover have "wake \<le> max (he_now env) (deadline env st item)" using w by (auto simp: wake_def le_max_iff_disj)
  moreover have "ab_alarm (hub_alarm (set_alarm env wake s)) = Some wake \<or>
      hs_budgetExhausted (status (set_alarm env wake s)) \<noteq> None" for s
    by (simp add: set_alarm_def status_def alarmBudgetStatus_def budgetedAlarm_def Let_def)
  ultimately show ?thesis by blast
qed

lemma dispatch_wakes_in_time_witness:
  "\<exists>t. ab_alarm (hub_alarm (fst (dispatchQueued (demo_env 3) demo_hub))) = Some t"
proof -
  obtain key item where e: "hub_queue demo_hub = [(key, item)]" "stays (demo_env 3) demo_hub item"
  proof -
    have "length (hub_queue demo_hub) = 1" "list_all (stays (demo_env 3) demo_hub \<circ> snd) (hub_queue demo_hub)"
      by code_simp+
    with that show thesis by (cases "hub_queue demo_hub") auto
  qed
  have "hs_budgetExhausted (status (fst (dispatchQueued (demo_env 3) demo_hub))) = None" by code_simp
  with e show ?thesis
    using dispatch_wakes_in_time [OF demo_hub_inv, of key item "demo_env 3"] by fastforce
qed

text \<open>
  entries that cannot be delivered starve the rest. A dispatch looks at the first 128 entries in
  key order; when none of them can be delivered, nothing is sent whatever waits behind them, the queue
  is left as it is, and the next alarm is set for now, so that the alarm budget is spent on nothing.
\<close>
theorem full_batch_starves_the_rest:
  assumes "128 \<le> length (hub_queue st)" and "kv_ok (hub_queue st)"
    and "\<forall>(key, item) \<in> set (take 128 (hub_queue st)). \<exists>t. dispatch_verdict env st item = Undeliverable t"
  shows "dispatchQueued env st = (set_alarm env (he_now env) st, [])"
proof -
  have idle: "\<exists>w'. fold (dispatch_entry env) batch (st, [], w) = (st, [], w')"
    if "\<forall>(key, item) \<in> set batch. \<exists>t. dispatch_verdict env st item = Undeliverable t" for batch w
    using that
  proof (induction batch arbitrary: w)
    case (Cons e batch)
    obtain key item where e: "e = (key, item)" by (cases e)
    then obtain t where "dispatch_verdict env st item = Undeliverable t" using Cons.prems by auto
    then have "dispatch_entry env e (st, [], w) = (st, [], opt_min w t)" by (simp add: e dispatch_entry_def)
    then show ?case using Cons by simp
  qed simp
  obtain w where "fold (dispatch_entry env) (take 128 (hub_queue st)) (st, [], None) = (st, [], w)"
    using idle [OF assms(3)] by blast
  then show ?thesis using assms(1) by (auto simp: dispatchQueued_def Let_def QUEUE_BATCH_SIZE_def)
qed

definition idle_item :: "string \<Rightarrow> queued_delivery" where
  "idle_item agent = \<lparr>qd_messageId = js ''tx_1'', qd_org = js ''org'', qd_agent = js agent,
     qd_targetAddr = js agent, qd_envelope = [], qd_render = None, qd_attempts = 0, qd_enqueuedAt = 0,
     qd_roomName = None, qd_roomSeq = None, qd_lastAttemptAt = None, qd_lastError = None,
     qd_connectionId = None\<rparr>"

definition starved_hub :: host_hub where
  "starved_hub = demo_hub\<lparr>hub_queue :=
     map (\<lambda>n. (pad16 n, idle_item ''absent'')) [0..<128] @ [(js ''q:bob'', idle_item ''bob'')]\<rparr>"

lemma full_batch_starves_the_rest_witness:
  "dispatchQueued (demo_env 3) starved_hub = (set_alarm (demo_env 3) 3 starved_hub, []) \<and>
     (\<exists>key item. (key, item) \<in> set (hub_queue starved_hub) \<and> dispatch_verdict (demo_env 3) starved_hub item = Due)"
proof -
  let ?q = "hub_queue starved_hub"
  have frame: "hub_roster starved_hub = hub_roster demo_hub" "hub_socket starved_hub = hub_socket demo_hub"
    by (simp_all add: starved_hub_def)
  have len: "128 \<le> length ?q" by (simp add: starved_hub_def)
  have first: "take 128 ?q = map (\<lambda>n. (pad16 n, idle_item ''absent'')) [0..<128]"
    by (simp add: starved_hub_def)
  have absent: "dispatch_verdict (demo_env 3) demo_hub (idle_item ''absent'') = Undeliverable (24 * 60 * 60 * 1000)"
    and bob: "dispatch_verdict (demo_env 3) demo_hub (idle_item ''bob'') = Due"
    by code_simp+
  have due: "dispatch_verdict (demo_env 3) starved_hub (idle_item ''bob'') = Due"
    using bob by (simp only: verdict_frame [OF frame])
  have und: "dispatch_verdict (demo_env 3) starved_hub (idle_item ''absent'') = Undeliverable (24 * 60 * 60 * 1000)"
    using absent by (simp only: verdict_frame [OF frame])
  have all: "\<forall>(key, item) \<in> set (take 128 ?q). \<exists>t. dispatch_verdict (demo_env 3) starved_hub item = Undeliverable t"
    unfolding first using und by auto
  have "pad16 n < js ''q:bob''" if "n < 128" for n
  proof -
    have "length (pad16 n) = 16" using that by (intro length_pad16) simp
    then obtain c s where cs: "pad16 n = c # s" by (cases "pad16 n") auto
    then have "is_digit c" using pad16_digits [of c n] by simp
    then have "c < 113" by (auto simp: is_digit_def word_le_nat_alt word_less_nat_alt)
    then show ?thesis by (simp add: cs)
  qed
  moreover have "sorted_wrt (<) (map pad16 [0..<128])"
    by (auto simp: sorted_wrt_map sorted_wrt_iff_nth_less pad16_less_iff)
  ultimately have ok: "kv_ok ?q"
    unfolding kv_ok_def starved_hub_def by (simp add: sorted_wrt_append comp_def)
  have "dispatchQueued (demo_env 3) starved_hub = (set_alarm (demo_env 3) (he_now (demo_env 3)) starved_hub, [])"
    by (rule full_batch_starves_the_rest [OF len ok all])
  moreover have "he_now (demo_env 3) = 3" by (simp add: demo_env_def)
  moreover have "(js ''q:bob'', idle_item ''bob'') \<in> set ?q" by (simp add: starved_hub_def)
  ultimately show ?thesis using due by metis
qed

text \<open>
  what a refusal does. A refusal that is final makes the delivery dead, with the daemon's code
  kept on the entry. A \<open>draft_busy\<close> hold gives the attempt back, so that a person who keeps typing
  cannot use up the 40 attempts. Any other refusal leaves the attempt spent. The last two leave the
  delivery queued.
\<close>
theorem nak_branches:
  assumes "hub_inv st" and "delivery_status_of st (marker_key m a) = Some MarkQueued" and "a \<noteq> []"
  shows "\<exists>key item. kv_get (hub_queue st) key = Some item \<and>
    marker_key (qd_messageId item) (qd_agent item) = marker_key m a \<and>
    (let fin = fst (handleDeliveryNak env m code retryable (Some a) st) in
     if \<not> retryable then
       kv_get (hub_queue fin) key = None \<and> delivery_status_of fin (marker_key m a) = Some MarkDead \<and>
       (\<exists>mk. kv_get (hub_markers fin) (marker_key m a) = Some mk \<and>
          dm_item mk = Some (item\<lparr>qd_lastError := Some code\<rparr>))
     else
       delivery_status_of fin (marker_key m a) = Some MarkQueued \<and>
       kv_get (hub_queue fin) key = Some (item\<lparr>qd_lastError := Some code,
         qd_attempts := (if code = js ''draft_busy'' then qd_attempts item - 1 else qd_attempts item)\<rparr>))"
proof -
  obtain mk key item where k: "resolveQueuedMarker env m (Some a) st = Some (marker_key m a, mk)"
      "dm_queueKey mk = Some key" "kv_get (hub_queue st) key = Some item"
      "marker_key m a = marker_key (qd_messageId item) (qd_agent item)"
    using resolve_direct [OF assms(2,1,3)] by blast
  show ?thesis
  proof (intro exI [of _ key] exI [of _ item] conjI)
    show "let fin = fst (handleDeliveryNak env m code retryable (Some a) st) in
     if \<not> retryable then
       kv_get (hub_queue fin) key = None \<and> delivery_status_of fin (marker_key m a) = Some MarkDead \<and>
       (\<exists>mk. kv_get (hub_markers fin) (marker_key m a) = Some mk \<and>
          dm_item mk = Some (item\<lparr>qd_lastError := Some code\<rparr>))
     else
       delivery_status_of fin (marker_key m a) = Some MarkQueued \<and>
       kv_get (hub_queue fin) key = Some (item\<lparr>qd_lastError := Some code,
         qd_attempts := (if code = js ''draft_busy'' then qd_attempts item - 1 else qd_attempts item)\<rparr>)"
    proof (cases retryable)
      case True
      have "hub_markers (fst (handleDeliveryNak env m code retryable (Some a) st)) = hub_markers st"
        using True k(1-3) by (simp add: handleDeliveryNak_def Let_def del: js_simps)
      then show ?thesis
        using True assms(2) k(1-3)
        by (simp add: handleDeliveryNak_def Let_def store_simps delivery_status_of_def del: js_simps)
    next
      case False
      then show ?thesis
        using k by (simp add: handleDeliveryNak_def markDead_def Let_def store_simps delivery_status_of_def)
    qed
  qed (use k in simp_all)
qed

lemma nak_branches_witness:
  "\<exists>key. kv_get (hub_queue (fst (handleDeliveryNak (demo_env 3) (js ''tx_1'') (js ''unreachable'') False
     (Some (js ''bob'')) demo_hub))) key = None \<and> kv_get (hub_queue demo_hub) key \<noteq> None"
proof -
  have "js ''bob'' \<noteq> []" by simp
  from nak_branches [OF demo_hub_inv demo_hub_status this, of "demo_env 3" "js ''unreachable''" False]
  show ?thesis unfolding Let_def by auto
qed

text \<open>
  cancelling a message is final. Afterwards nothing is pending for it, the queue holds no entry of
  that id, the answer counts exactly the deliveries that were pending, and every other delivery is
  untouched.
\<close>
theorem cancel_ends_everything:
  assumes "hub_inv st"
  shows "(\<forall>mkey. pending_delivery (fst (cancelDelivery env m st)) mkey \<longleftrightarrow>
      pending_delivery st mkey \<and> \<not> marker_of_message m mkey) \<and>
    (\<forall>key item. kv_get (hub_queue (fst (cancelDelivery env m st))) key = Some item \<longrightarrow> qd_messageId item \<noteq> m) \<and>
    snd (cancelDelivery env m st) = card (queued_markers m st)"
proof (intro conjI allI impI)
  show "pending_delivery (fst (cancelDelivery env m st)) mkey \<longleftrightarrow>
      pending_delivery st mkey \<and> \<not> marker_of_message m mkey" for mkey
    by (rule hub.cancel_pending [OF assms])
  fix key item
  assume k: "kv_get (hub_queue (fst (cancelDelivery env m st))) key = Some item"
  have "hub_inv (fst (cancelDelivery env m st))" by (rule cancelDelivery_inv [OF assms])
  from queue_inv_parts(3) [OF this [unfolded hub_inv_def] k]
  have "pending_delivery (fst (cancelDelivery env m st)) (marker_key (qd_messageId item) (qd_agent item))"
    by (auto simp: entry_ok_def pending_delivery_def delivery_status_of_def)
  then have "\<not> marker_of_message m (marker_key (qd_messageId item) (qd_agent item))"
    using hub.cancel_pending [OF assms] by blast
  then show "qd_messageId item \<noteq> m" using marker_key_matches by blast
next
  let ?P = "\<lambda>(key, mk). marker_of_message m key \<and> dm_status mk = MarkQueued"
  let ?l = "filter ?P (hub_markers st)"
  have "fst ` set ?l = queued_markers m st"
  proof (intro set_eqI)
    fix mkey
    have "mkey \<in> fst ` set ?l \<longleftrightarrow> (\<exists>mk. (mkey, mk) \<in> set ?l)" by force
    then show "mkey \<in> fst ` set ?l \<longleftrightarrow> mkey \<in> queued_markers m st"
      unfolding cancelled_markers(2) [OF assms] by (auto simp: queued_markers_def delivery_status_of_def)
  qed
  moreover have "card (fst ` set ?l) = length ?l"
    using distinct_card [OF cancelled_markers(1) [OF assms, of ?P]] by (simp only: set_map length_map)
  ultimately show "snd (cancelDelivery env m st) = card (queued_markers m st)"
    by (simp add: cancelDelivery_def Let_def)
qed

lemma cancel_ends_everything_witness:
  "\<not> pending_delivery (fst (cancelDelivery (demo_env 3) (js ''tx_1'') demo_hub)) (marker_key (js ''tx_1'') (js ''bob''))"
  using cancel_ends_everything [OF demo_hub_inv] marker_key_matches by blast

text \<open>
  queueing is idempotent. Queueing a delivery again, at any later time and as often as one likes,
  is answered \<open>duplicate\<close> (or \<open>no_route\<close> when the agent has gone), writes nothing and sends nothing.
\<close>
theorem queueing_is_idempotent:
  assumes "hub_inv st" and "queueDelivery env inp st = (st', effs, Queued)" and "\<not> qi_redelivery inp"
  shows "\<exists>answer \<in> {Duplicate, NoRouteTo}. queueDelivery env' inp st' = (st', [], answer)"
proof -
  have q: "snd (enqueue env inp st) = Queued" and st': "st' = fst (dispatchQueued env (fst (enqueue env inp st)))"
    using assms(2) by (auto simp: queueDelivery_def split_def Let_def split: if_splits)
  have "delivery_status_of (fst (enqueue env inp st)) (input_key inp) = Some MarkQueued"
    using q by (simp add: enqueue_status input_key_def)
  then have "delivery_status_of st' (input_key inp) \<noteq> None"
    using dispatch_status [OF enqueue_inv [OF assms(1)], of env env inp "input_key inp"] st' by auto
  then have "snd (enqueue env' inp st') \<noteq> Queued"
    using assms(3) by (auto simp: enqueue_Queued_iff input_key_def)
  moreover have "snd (enqueue env' inp st') \<in> {Queued, Duplicate}"
    by (auto simp: enqueue_def Let_def)
  ultimately show ?thesis
    using enqueue_not_Queued [of env' inp st'] by (simp add: queueDelivery_def split_def Let_def)
qed

lemma queueing_is_idempotent_witness:
  "\<exists>answer \<in> {Duplicate, NoRouteTo}.
     queueDelivery (demo_env 9) (demo_input ''tx_1'' ''bob'') demo_hub = (demo_hub, [], answer)"
proof -
  let ?before = "run_ops demo_start new_hub"
  have inv: "hub_inv ?before"
    by (rule run_ops_inv [OF new_hub_inv]) code_simp
  have "snd (snd (queueDelivery (demo_env 2) (demo_input ''tx_1'' ''bob'') ?before)) = Queued" by code_simp
  moreover have "fst (queueDelivery (demo_env 2) (demo_input ''tx_1'' ''bob'') ?before) = demo_hub"
    by (simp add: demo_hub_def run_ops_def split_def Let_def)
  ultimately have "queueDelivery (demo_env 2) (demo_input ''tx_1'' ''bob'') ?before =
      (demo_hub, fst (snd (queueDelivery (demo_env 2) (demo_input ''tx_1'' ''bob'') ?before)), Queued)"
    by (metis prod.collapse)
  from queueing_is_idempotent [OF inv this, of "demo_env 9"] show ?thesis by (simp add: demo_input_def)
qed

text \<open>
  an inbox is its own agent's. When no agent name holds a colon, reading an inbox lists exactly the
  queued entries of that agent, in the order they were queued, each with the message id that settles it.
\<close>
theorem inbox_is_exact:
  assumes "hub_inv st" and "COLON \<notin> set agent" and "\<forall>(key, item) \<in> set (hub_queue st). COLON \<notin> set (qd_agent item)"
  shows "readInbox agent st =
    map (\<lambda>(key, item). \<lparr>ib_id = qd_messageId item, ib_envelope = render_for_send item,
           ib_enqueuedAt = qd_enqueuedAt item\<rparr>)
      (filter (\<lambda>(key, item). qd_agent item = agent) (hub_queue st))"
proof -
  have "starts_with key (js ''q:'' @ agent @ [COLON]) \<longleftrightarrow> qd_agent item = agent"
    if mem: "(key, item) \<in> set (hub_queue st)" for key item
  proof -
    have ok: "kv_ok (hub_queue st)" using assms(1) queue_inv_parts(1) unfolding hub_inv_def by blast
    have "kv_get (hub_queue st) key = Some item" using kv_ok_mem_iff [OF ok] mem by simp
    from queue_inv_parts(3) [OF assms(1) [unfolded hub_inv_def] this]
    obtain n where n: "key = queue_key (qd_agent item) n" by (auto simp: entry_ok_def)
    have nocolon: "COLON \<notin> set (qd_agent item)" using assms(3) mem by auto
    show ?thesis
    proof
      assume "starts_with key (js ''q:'' @ agent @ [COLON])"
      then obtain t where "js ''q:'' @ qd_agent item @ COLON # pad16 n = (js ''q:'' @ agent @ [COLON]) @ t"
        unfolding starts_with_iff n queue_key_def by blast
      then have "qd_agent item @ COLON # pad16 n = agent @ COLON # t" by simp
      then show "qd_agent item = agent" using append_sep_inj [OF nocolon assms(2)] by blast
    next
      assume "qd_agent item = agent"
      then show "starts_with key (js ''q:'' @ agent @ [COLON])"
        unfolding starts_with_iff n queue_key_def by auto
    qed
  qed
  then have "filter (\<lambda>(key, item). starts_with key (js ''q:'' @ agent @ [COLON])) (hub_queue st) =
      filter (\<lambda>(key, item). qd_agent item = agent) (hub_queue st)"
    by (intro filter_cong) auto
  then show ?thesis by (simp add: readInbox_def)
qed

lemma inbox_is_exact_witness: "map ib_id (readInbox (js ''bob'') demo_hub) = [js ''tx_1'']"
proof -
  have "\<forall>(key, item) \<in> set (hub_queue demo_hub). COLON \<notin> set (qd_agent item)"
    unfolding Ball_set by code_simp
  moreover have "COLON \<notin> set (js ''bob'')" by simp
  moreover have "map (qd_messageId \<circ> snd) (filter (\<lambda>(key, item). qd_agent item = js ''bob'') (hub_queue demo_hub)) = [js ''tx_1'']"
    by code_simp
  ultimately show ?thesis
    using inbox_is_exact [OF demo_hub_inv, of "js ''bob''"] by (simp add: comp_def split_def)
qed

end
