(* ===== verification/Hub_Interleaving.thy ===== *)
theory Hub_Interleaving
  imports Hub_Schedule
begin

text \<open>
  What interleaves in \<^verbatim>\<open>src/do/host-hub.ts\<close>. \<open>dispatchQueued\<close> takes a snapshot of its batch and then
  awaits between entries (a D1 read for a connection, a storage transaction), so that other
  dispatches, acknowledgements and arrivals run in between. A running dispatch is the list of the
  snapshot's entries it has still to look at; a step looks at one entry, of any running dispatch,
  against the storage as it is then. Two fields are histories, which no step reads: \<open>rc_written\<close> is
  everything the steps emitted, each effect beside the key of the entry that was looked at, and
  \<open>rc_holds\<close> counts, per queue key, the draft holds the daemon answered.
\<close>

record racing =
  rc_hub :: host_hub
  rc_pending :: "(jstr \<times> queued_delivery) list"
  rc_written :: "(jstr \<times> hub_effect) list"
  rc_holds :: "jstr \<Rightarrow> nat"

definition bump :: "jstr \<Rightarrow> (jstr \<Rightarrow> nat) \<Rightarrow> jstr \<Rightarrow> nat" where
  "bump key f = f(key := f key + 1)"

text \<open>The frames on the daemon's socket that were written for one queue key.\<close>

definition is_frame :: "hub_effect \<Rightarrow> bool" where
  "is_frame eff = (case eff of Frame f \<Rightarrow> True | _ \<Rightarrow> False)"

definition rc_sent :: "racing \<Rightarrow> jstr \<Rightarrow> nat" where
  "rc_sent r key = length (filter (\<lambda>(k, eff). k = key \<and> is_frame eff) (rc_written r))"

definition claims :: "hub_env \<Rightarrow> jstr \<times> queued_delivery \<Rightarrow> host_hub \<Rightarrow> bool" where
  "claims env entry st \<longleftrightarrow>
     dispatch_verdict env st (snd entry) = Due \<and> claim env (fst entry) (snd entry) st \<noteq> None"

text \<open>One step: a dispatch starts, one of its entries is looked at, or another operation's own part runs.\<close>

inductive race :: "racing \<Rightarrow> racing \<Rightarrow> bool" where
  start: "race r (r\<lparr>rc_pending := rc_pending r @ take QUEUE_BATCH_SIZE (hub_queue (rc_hub r))\<rparr>)"
| entry: "e \<in> set (rc_pending r) \<Longrightarrow>
    dispatch_entry env e (rc_hub r, [], None) = (st', effs, wake) \<Longrightarrow>
    race r (r\<lparr>rc_hub := st', rc_written := rc_written r @ map (Pair (fst e)) effs\<rparr>)"
| arrive: "race r (r\<lparr>rc_hub := fst (enqueue env inp (rc_hub r))\<rparr>)"
| ack: "race r (r\<lparr>rc_hub := fst (handleDeliveryAck env m agent via (rc_hub r))\<rparr>)"
| nak: "race r (r\<lparr>rc_hub := fst (handleDeliveryNak env m code retryable agent (rc_hub r)),
              rc_holds := (case resolveQueuedMarker env m agent (rc_hub r) of
                 Some (mkey, mk) \<Rightarrow> (if retryable \<and> code = js ''draft_busy''
                           then bump (the (dm_queueKey mk)) (rc_holds r) else rc_holds r)
               | None \<Rightarrow> rc_holds r)\<rparr>)"
| cancel: "race r (r\<lparr>rc_hub := fst (cancelDelivery env m (rc_hub r))\<rparr>)"

inductive_cases race_entryE: "race r r'"
inductive_simps race_from: "race r r'"

inductive racing_reach :: "racing \<Rightarrow> racing \<Rightarrow> bool" where
  refl: "racing_reach r r"
| step: "racing_reach r r' \<Longrightarrow> race r' r'' \<Longrightarrow> racing_reach r r''"

text \<open>
  While an entry is in the queue, its attempts and the holds account for every frame written for it;
  and no key that has left the queue is ever sent again, because a claim needs the key.
\<close>

definition accounted :: "racing \<Rightarrow> bool" where
  "accounted r \<longleftrightarrow>
     (\<forall>key item. kv_get (hub_queue (rc_hub r)) key = Some item \<longrightarrow>
        rc_sent r key \<le> qd_attempts item + rc_holds r key \<and> qd_attempts item \<le> MAX_DELIVERY_ATTEMPTS) \<and>
     (\<forall>key. rc_sent r key \<le> MAX_DELIVERY_ATTEMPTS + rc_holds r key) \<and>
     (\<forall>n agent. hub_seq (rc_hub r) < n \<longrightarrow> rc_sent r (queue_key agent n) = 0) \<and>
     (\<forall>key item. kv_get (hub_queue (rc_hub r)) key = Some item \<longrightarrow>
        (\<exists>agent. \<exists>n \<le> hub_seq (rc_hub r). key = queue_key agent n))"

lemma rc_sent_other [simp]:
  "rc_sent (r\<lparr>rc_hub := st\<rparr>) = rc_sent r" "rc_sent (r\<lparr>rc_pending := p\<rparr>) = rc_sent r"
  "rc_sent (r\<lparr>rc_holds := h\<rparr>) = rc_sent r"
  by (simp_all add: rc_sent_def fun_eq_iff)

lemma rc_sent_written:
  "rc_sent (r\<lparr>rc_written := rc_written r @ map (Pair key) effs\<rparr>) k =
     rc_sent r k + (if k = key then length (filter is_frame effs) else 0)"
  by (auto simp: rc_sent_def comp_def filter_map)

text \<open>What one step of a dispatch writes: one frame, and only when it won the claim.\<close>

lemma step_writes:
  "length (filter is_frame (fst (snd (dispatch_entry env e (st, [], None))))) \<le>
     (if claims env e st then 1 else 0)"
  by (auto simp: dispatch_entry_def claims_def send_effects_def markDead_def is_frame_def Let_def
      split: prod.splits verdict.splits option.splits)

text \<open>Operations that only remove entries or keep their attempts.\<close>

definition shrinks :: "host_hub \<Rightarrow> host_hub \<Rightarrow> bool" where
  "shrinks st st' \<longleftrightarrow> hub_seq st' = hub_seq st \<and>
     (\<forall>key item'. kv_get (hub_queue st') key = Some item' \<longrightarrow>
        (\<exists>item. kv_get (hub_queue st) key = Some item \<and> qd_attempts item' = qd_attempts item))"

lemma accounted_shrinks:
  "accounted r \<Longrightarrow> shrinks (rc_hub r) st' \<Longrightarrow> accounted (r\<lparr>rc_hub := st'\<rparr>)"
  unfolding accounted_def shrinks_def by fastforce

lemma shrinks_ack: "shrinks st (fst (handleDeliveryAck env m agent via st))"
  by (auto simp: shrinks_def handleDeliveryAck_def store_simps split: option.splits)

lemma shrinks_cancel: "shrinks st (fst (cancelDelivery env m st))"
proof -
  have "shrinks st (fold (cancel_marker env) ms st)" for ms
  proof (induction ms arbitrary: st)
    case (Cons e ms)
    obtain mkey mk where e: "e = (mkey, mk)" by (cases e)
    have "shrinks st (cancel_marker env e st)"
      by (auto simp: shrinks_def e cancel_marker_def store_simps split: option.splits)
    with Cons [of "cancel_marker env e st"] show ?case
      unfolding shrinks_def by (simp; metis)
  qed (simp add: shrinks_def)
  then show ?thesis by (simp add: cancelDelivery_def Let_def)
qed

lemma shrinks_markDead: "shrinks st (fst (markDead env key item err st))"
  by (auto simp: shrinks_def markDead_def store_simps)

lemma accounted_entry:
  assumes "accounted r" and step: "dispatch_entry env e (rc_hub r, [], None) = (st', effs, wake)"
  shows "accounted (r\<lparr>rc_hub := st', rc_written := rc_written r @ map (Pair (fst e)) effs\<rparr>)"
    (is "accounted ?r")
proof -
  obtain key item where e: "e = (key, item)" by (cases e)
  let ?st = "rc_hub r"
  have sent: "rc_sent ?r k = rc_sent r k + (if k = fst e then length (filter is_frame effs) else 0)" for k
    using rc_sent_written [of "r\<lparr>rc_hub := st'\<rparr>" "fst e" effs k] by simp
  have few: "length (filter is_frame effs) \<le> (if claims env e ?st then 1 else 0)"
    using step_writes [of env e ?st] step by simp
  show ?thesis
  proof (cases "claims env e ?st")
    case False
    then have "shrinks ?st st'"
      using shrinks_markDead step
      by (cases "dispatch_verdict env ?st item")
        (auto simp: e claims_def dispatch_entry_def split_def Let_def shrinks_def)
    from accounted_shrinks [OF assms(1) this]
    have "accounted (r\<lparr>rc_hub := st'\<rparr>)" .
    moreover have "rc_sent ?r = rc_sent r" using sent few False by (auto simp: fun_eq_iff)
    ultimately show ?thesis unfolding accounted_def by simp
  next
    case True
    then have due: "dispatch_verdict env ?st item = Due" by (simp add: claims_def e)
    obtain current where cur: "kv_get (hub_queue ?st) key = Some current" "qd_attempts current = qd_attempts item"
      using True claim_SomeD [of env key item ?st] by (auto simp: claims_def e)
    have st': "kv_get (hub_queue st') k = (if k = key then Some (item\<lparr>qd_attempts := qd_attempts item + 1,
          qd_lastAttemptAt := Some (he_now env), qd_lastError := he_send_error env item\<rparr>)
        else kv_get (hub_queue ?st) k)" "hub_seq st' = hub_seq ?st" for k
      using due cur step by (auto simp: e dispatch_entry_def claim_def Let_def store_simps)
    have "rc_sent r key \<le> qd_attempts current + rc_holds r key" using assms(1) cur(1) by (simp add: accounted_def)
    then have old: "rc_sent r key \<le> qd_attempts item + rc_holds r key" "qd_attempts item < MAX_DELIVERY_ATTEMPTS"
      using cur(2) due_attempts [OF due] by simp_all
    have place: "\<exists>agent. \<exists>n \<le> hub_seq ?st. key = queue_key agent n"
      using assms(1) cur(1) unfolding accounted_def by blast
    then obtain a0 n0 where "key = queue_key a0 n0" "n0 \<le> hub_seq ?st" by blast
    then have fresh: "queue_key agent n \<noteq> key" if "hub_seq ?st < n" for n agent
      using that queue_key_inj by fastforce
    have all: "rc_sent r k \<le> MAX_DELIVERY_ATTEMPTS + rc_holds r k" for k
      using assms(1) by (simp add: accounted_def)
    have more: "rc_sent ?r k \<le> (if k = key then rc_sent r k + 1 else rc_sent r k)" for k
      using sent [of k] few True by (auto simp: e)
    show ?thesis
      unfolding accounted_def
    proof (intro conjI allI impI)
      fix k i
      assume "kv_get (hub_queue (rc_hub ?r)) k = Some i"
      then consider "k = key" "qd_attempts i = qd_attempts item + 1"
        | "k \<noteq> key" "kv_get (hub_queue ?st) k = Some i"
        by (auto simp: st' split: if_splits)
      then have "rc_sent ?r k \<le> qd_attempts i + rc_holds ?r k \<and> qd_attempts i \<le> MAX_DELIVERY_ATTEMPTS \<and>
          (\<exists>agent. \<exists>n \<le> hub_seq ?st. k = queue_key agent n)"
      proof cases
        case 1
        then show ?thesis using old place more [of key] by auto
      next
        case 2
        then have "rc_sent r k \<le> qd_attempts i + rc_holds r k" "qd_attempts i \<le> MAX_DELIVERY_ATTEMPTS"
            "\<exists>agent. \<exists>n \<le> hub_seq ?st. k = queue_key agent n"
          using assms(1) unfolding accounted_def by blast+
        with 2(1) show ?thesis using more [of k] by simp
      qed
      then show "rc_sent ?r k \<le> qd_attempts i + rc_holds ?r k" "qd_attempts i \<le> MAX_DELIVERY_ATTEMPTS"
        and "\<exists>agent. \<exists>n \<le> hub_seq (rc_hub ?r). k = queue_key agent n"
        using st'(2) by simp_all
    next
      fix k
      show "rc_sent ?r k \<le> MAX_DELIVERY_ATTEMPTS + rc_holds ?r k"
        using all [of k] old more [of k] by (cases "k = key") auto
    next
      fix n agent
      assume "hub_seq (rc_hub ?r) < n"
      then have n: "hub_seq ?st < n" using st'(2) by simp
      then have "rc_sent r (queue_key agent n) = 0" using assms(1) by (simp add: accounted_def)
      then show "rc_sent ?r (queue_key agent n) = 0" using more [of "queue_key agent n"] fresh [OF n, of agent] by simp
    qed
  qed
qed

lemma accounted_enqueue:
  assumes "accounted r"
  shows "accounted (r\<lparr>rc_hub := fst (enqueue env inp (rc_hub r))\<rparr>)"
proof (cases "snd (enqueue env inp (rc_hub r)) = Queued")
  case False
  then show ?thesis using enqueue_not_Queued [of env inp "rc_hub r"] assms by simp
next
  case True
  let ?st = "rc_hub r" and ?st' = "fst (enqueue env inp (rc_hub r))"
  let ?key = "queue_key (qi_agent inp) (hub_seq ?st + 1)"
  obtain item where st': "hub_queue ?st' = kv_put ?key item (hub_queue ?st)" "hub_seq ?st' = hub_seq ?st + 1"
      "qd_attempts item = 0"
    using True by (auto simp: enqueue_def Let_def split: if_splits)
  have zero: "rc_sent r ?key = 0" using assms by (simp add: accounted_def)
  show ?thesis
    unfolding accounted_def
  proof (intro conjI allI impI)
    fix key i
    assume "kv_get (hub_queue (rc_hub (r\<lparr>rc_hub := ?st'\<rparr>))) key = Some i"
    then have "kv_get (hub_queue ?st') key = Some i" by simp
    then have "(if key = ?key then Some item else kv_get (hub_queue ?st) key) = Some i"
      unfolding st'(1) kv_get_put .
    then consider "key = ?key" "i = item" | "kv_get (hub_queue ?st) key = Some i"
      by (cases "key = ?key") simp_all
    then have "rc_sent r key \<le> qd_attempts i + rc_holds r key \<and> qd_attempts i \<le> MAX_DELIVERY_ATTEMPTS \<and>
        (\<exists>agent. \<exists>n \<le> Suc (hub_seq ?st). key = queue_key agent n)"
    proof cases
      case 1
      then show ?thesis using zero st'(3) by auto
    next
      case 2
      then have "rc_sent r key \<le> qd_attempts i + rc_holds r key" "qd_attempts i \<le> MAX_DELIVERY_ATTEMPTS"
          "\<exists>agent. \<exists>n \<le> hub_seq ?st. key = queue_key agent n"
        using assms unfolding accounted_def by blast+
      then show ?thesis using le_SucI by blast
    qed
    then show "rc_sent (r\<lparr>rc_hub := ?st'\<rparr>) key \<le> qd_attempts i + rc_holds (r\<lparr>rc_hub := ?st'\<rparr>) key"
      and "qd_attempts i \<le> MAX_DELIVERY_ATTEMPTS"
      and "\<exists>agent. \<exists>n \<le> hub_seq (rc_hub (r\<lparr>rc_hub := ?st'\<rparr>)). key = queue_key agent n"
      using st'(2) by simp_all
  qed (use assms st'(2) in \<open>auto simp: accounted_def\<close>)
qed

lemma accounted_nak:
  assumes "accounted r" and res: "resolveQueuedMarker env m agent (rc_hub r) = Some (mkey, mk)"
  shows "accounted (r\<lparr>rc_hub := fst (handleDeliveryNak env m code retryable agent (rc_hub r)),
    rc_holds := (if retryable \<and> code = js ''draft_busy''
                 then bump (the (dm_queueKey mk)) (rc_holds r) else rc_holds r)\<rparr>)"
proof (cases "retryable \<and> code = js ''draft_busy''")
  case False
  have "shrinks (rc_hub r) (fst (handleDeliveryNak env m code retryable agent (rc_hub r)))"
    using False res shrinks_markDead
    by (cases "kv_get (hub_queue (rc_hub r)) (the (dm_queueKey mk))")
      (auto simp: handleDeliveryNak_def Let_def shrinks_def store_simps simp del: js_simps)
  from accounted_shrinks [OF assms(1) this] show ?thesis unfolding if_not_P [OF False] by simp
next
  case True
  let ?key = "the (dm_queueKey mk)"
  let ?st = "rc_hub r" and ?st' = "fst (handleDeliveryNak env m code retryable agent (rc_hub r))"
  have st': "hub_seq ?st' = hub_seq ?st"
    "kv_get (hub_queue ?st') k = (if k = ?key \<and> kv_get (hub_queue ?st) ?key \<noteq> None
       then map_option (\<lambda>i. i\<lparr>qd_attempts := qd_attempts i - 1, qd_lastError := Some code\<rparr>) (kv_get (hub_queue ?st) k)
       else kv_get (hub_queue ?st) k)" for k
    using True res
    by (cases "kv_get (hub_queue ?st) ?key";
        simp add: handleDeliveryNak_def Let_def store_simps del: js_simps)+
  show ?thesis
    unfolding accounted_def
  proof (intro conjI allI impI)
    let ?r = "r\<lparr>rc_hub := ?st', rc_holds := (if retryable \<and> code = js ''draft_busy''
                 then bump ?key (rc_holds r) else rc_holds r)\<rparr>"
    fix key i
    assume k: "kv_get (hub_queue (rc_hub ?r)) key = Some i"
    have k': "kv_get (hub_queue ?st') key = Some i" using k by simp
    then obtain i0 where i0: "kv_get (hub_queue ?st) key = Some i0"
        "qd_attempts i = (if key = ?key then qd_attempts i0 - 1 else qd_attempts i0)"
    proof (cases "kv_get (hub_queue ?st) key")
      case None
      then show ?thesis using k' st'(2) [of key] by (simp split: if_splits)
    next
      case (Some i1)
      then have "qd_attempts i = (if key = ?key then qd_attempts i1 - 1 else qd_attempts i1)"
        using k' st'(2) [of key] by (cases "key = ?key") auto
      with Some that show ?thesis by blast
    qed
    have b: "rc_sent r key \<le> qd_attempts i0 + rc_holds r key" "qd_attempts i0 \<le> MAX_DELIVERY_ATTEMPTS"
        "\<exists>agent. \<exists>n \<le> hub_seq ?st. key = queue_key agent n"
      using assms(1) i0(1) unfolding accounted_def by blast+
    show "rc_sent ?r key \<le> qd_attempts i + rc_holds ?r key"
      using b i0(2) True by (auto simp: bump_def simp del: js_simps)
    show "qd_attempts i \<le> MAX_DELIVERY_ATTEMPTS" using b i0(2) by auto
    show "\<exists>agent. \<exists>n \<le> hub_seq (rc_hub ?r). key = queue_key agent n" using b st'(1) by simp
  next
    fix key
    have "rc_sent r key \<le> MAX_DELIVERY_ATTEMPTS + rc_holds r key" using assms(1) by (simp add: accounted_def)
    then show "rc_sent (r\<lparr>rc_hub := ?st', rc_holds := (if retryable \<and> code = js ''draft_busy''
                 then bump ?key (rc_holds r) else rc_holds r)\<rparr>) key \<le> MAX_DELIVERY_ATTEMPTS +
        rc_holds (r\<lparr>rc_hub := ?st', rc_holds := (if retryable \<and> code = js ''draft_busy''
                 then bump ?key (rc_holds r) else rc_holds r)\<rparr>) key"
      using True by (auto simp: bump_def simp del: js_simps)
  qed (use assms(1) st'(1) in \<open>auto simp: accounted_def simp del: js_simps\<close>)
qed

lemma accounted_nak_any:
  assumes "accounted r"
  shows "accounted (r\<lparr>rc_hub := fst (handleDeliveryNak env m code retryable agent (rc_hub r)),
    rc_holds := (case resolveQueuedMarker env m agent (rc_hub r) of
       Some (mkey, mk) \<Rightarrow> (if retryable \<and> code = js ''draft_busy''
                 then bump (the (dm_queueKey mk)) (rc_holds r) else rc_holds r)
     | None \<Rightarrow> rc_holds r)\<rparr>)"
proof (cases "resolveQueuedMarker env m agent (rc_hub r)")
  case None
  then have "shrinks (rc_hub r) (fst (handleDeliveryNak env m code retryable agent (rc_hub r)))"
    by (simp add: handleDeliveryNak_def shrinks_def)
  from accounted_shrinks [OF assms this] show ?thesis by (simp add: None)
next
  case (Some x)
  obtain mkey mk where x: "x = (mkey, mk)" by (cases x)
  show ?thesis using accounted_nak [OF assms, of env m agent mkey mk retryable code] Some
    by (simp add: x del: js_simps)
qed

lemma race_accounted: "race r r' \<Longrightarrow> accounted r \<Longrightarrow> accounted r'"
proof (induction rule: race.induct)
  case (start r)
  then show ?case by (simp add: accounted_def)
qed (simp_all add: accounted_nak_any accounted_entry accounted_enqueue accounted_shrinks shrinks_ack shrinks_cancel
    del: js_simps)

lemma racing_accounted: "racing_reach r r' \<Longrightarrow> accounted r \<Longrightarrow> accounted r'"
  by (induction rule: racing_reach.induct) (auto simp: race_accounted)

definition quiet :: "host_hub \<Rightarrow> racing" where
  "quiet st = \<lparr>rc_hub = st, rc_pending = [], rc_written = [], rc_holds = (\<lambda>_. 0)\<rparr>"

lemma quiet_accounted: "hub_inv st \<Longrightarrow> accounted (quiet st)"
  using queue_inv_parts(3) [of "hub_queue st" "hub_markers st" "hub_seq st"]
  unfolding accounted_def quiet_def hub_inv_def entry_ok_def rc_sent_def by fastforce

section \<open>Properties\<close>

text \<open>
  C4: concurrent dispatches do not multiply deliveries. However many dispatches run at once, from
  whatever stale snapshots, interleaved with arrivals, acknowledgements, refusals and cancellations in
  any order, the frames they write to the daemon for one queue entry are at most 40 plus the draft
  holds the daemon answered for it, and while the entry is queued at most its recorded attempts plus
  its holds.
\<close>
theorem claims_bound_sends:
  assumes "hub_inv st" and "racing_reach (quiet st) r"
  shows "length (filter (\<lambda>(k, eff). k = key \<and> is_frame eff) (rc_written r)) \<le> 40 + rc_holds r key \<and>
    (\<forall>item. kv_get (hub_queue (rc_hub r)) key = Some item \<longrightarrow>
       length (filter (\<lambda>(k, eff). k = key \<and> is_frame eff) (rc_written r)) \<le> qd_attempts item + rc_holds r key)"
  using racing_accounted [OF assms(2) quiet_accounted [OF assms(1)]]
  by (auto simp: accounted_def MAX_DELIVERY_ATTEMPTS_def rc_sent_def)

lemma demo_queue: "\<exists>item. hub_queue demo_hub = [(queue_key (js ''bob'') 1, item)] \<and>
    claims (demo_env 5002) (queue_key (js ''bob'') 1, item) demo_hub"
proof -
  have "(\<lambda>st. map fst (hub_queue st) = [queue_key (js ''bob'') 1] \<and>
      list_all (\<lambda>e. claims (demo_env 5002) e st) (hub_queue st)) demo_hub"
    by code_simp
  then show ?thesis by (cases "hub_queue demo_hub") (auto split: prod.splits)
qed

lemma race_entry:
  "e \<in> set (rc_pending r) \<Longrightarrow>
     race r (r\<lparr>rc_hub := fst (dispatch_entry env e (rc_hub r, [], None)),
       rc_written := rc_written r @ map (Pair (fst e)) (fst (snd (dispatch_entry env e (rc_hub r, [], None))))\<rparr>)"
  by (rule race.entry [where wake = "snd (snd (dispatch_entry env e (rc_hub r, [], None)))"]) simp_all

text \<open>Two dispatches look at one entry, both from the snapshot: the second claim fails, and one frame is written.\<close>

lemma claims_bound_sends_witness:
  "\<exists>r. racing_reach (quiet demo_hub) r \<and>
     length (filter (\<lambda>(k, eff). k = queue_key (js ''bob'') 1 \<and> is_frame eff) (rc_written r)) = 1 \<and>
     length (filter (\<lambda>(k, eff). k = queue_key (js ''bob'') 1 \<and> is_frame eff) (rc_written r)) \<le>
       40 + rc_holds r (queue_key (js ''bob'') 1)"
proof -
  let ?k = "queue_key (js ''bob'') 1"
  let ?env = "demo_env 5002"
  obtain item where q: "hub_queue demo_hub = [(?k, item)]" using demo_queue by blast
  let ?e = "(?k, item)"
  define first where "first = dispatch_entry ?env ?e (demo_hub, [], None)"
  define second where "second = dispatch_entry ?env ?e (fst first, [], None)"
  define r1 where "r1 = (quiet demo_hub)\<lparr>rc_pending := rc_pending (quiet demo_hub) @
      take QUEUE_BATCH_SIZE (hub_queue (rc_hub (quiet demo_hub)))\<rparr>"
  define r2 where "r2 = r1\<lparr>rc_hub := fst first, rc_written := rc_written r1 @ map (Pair ?k) (fst (snd first))\<rparr>"
  define r3 where "r3 = r2\<lparr>rc_hub := fst second, rc_written := rc_written r2 @ map (Pair ?k) (fst (snd second))\<rparr>"
  have "race (quiet demo_hub) r1" unfolding r1_def by (rule race.start)
  moreover have e: "?e \<in> set (rc_pending r1)" by (simp add: r1_def quiet_def q QUEUE_BATCH_SIZE_def)
  then have "race r1 r2"
    using race_entry [of ?e r1 ?env] by (simp add: r2_def first_def r1_def quiet_def)
  moreover have "race r2 r3"
    using race_entry [of ?e r2 ?env] e by (simp add: r3_def second_def r2_def)
  ultimately have reach: "racing_reach (quiet demo_hub) r3"
    using racing_reach.refl racing_reach.step by metis
  have "(\<lambda>st. list_all (\<lambda>e. let (st1, effs, w) = dispatch_entry ?env e (st, [], None);
      (st2, effs2, w2) = dispatch_entry ?env e (st1, [], None)
      in length (filter is_frame effs) = 1 \<and> filter is_frame effs2 = []) (hub_queue st)) demo_hub"
    by code_simp
  then have "length (filter is_frame (fst (snd first))) = 1" "filter is_frame (fst (snd second)) = []"
    by (simp_all add: q first_def second_def split_def Let_def)
  then have "length (filter (\<lambda>(k, eff). k = ?k \<and> is_frame eff) (rc_written r3)) = 1"
    by (simp add: r3_def r2_def r1_def quiet_def filter_map comp_def)
  with claims_bound_sends [OF demo_hub_inv reach, of ?k] reach show ?thesis by blast
qed

text \<open>
  a dispatch that works from a stale snapshot can bury a delivered message. The snapshot is taken,
  the acknowledgement arrives while the dispatch waits (for the D1 read of another entry's connection,
  say), and the dispatch then finds the snapshot's entry over its limits, which it checks, and acts
  on, before the compare-and-set that protects a send: the delivery, already injected, becomes dead, with an entry to queue again.
\<close>
theorem stale_dispatch_buries_injected:
  "\<exists>st r1 r2. hub_inv st \<and> racing_reach (quiet st) r1 \<and> race r1 r2 \<and>
     delivery_status_of (rc_hub r1) (marker_key (js ''tx_1'') (js ''bob'')) = Some MarkInjected \<and>
     delivery_status_of (rc_hub r2) (marker_key (js ''tx_1'') (js ''bob'')) = Some MarkDead"
proof -
  let ?late = "demo_env (25 * 60 * 60 * 1000)"
  let ?m = "marker_key (js ''tx_1'') (js ''bob'')"
  define e where "e = hd (hub_queue demo_hub)"
  define r0 where "r0 = (quiet demo_hub)\<lparr>rc_pending := rc_pending (quiet demo_hub) @
      take QUEUE_BATCH_SIZE (hub_queue (rc_hub (quiet demo_hub)))\<rparr>"
  define r1 where "r1 = r0\<lparr>rc_hub := fst (handleDeliveryAck ?late (js ''tx_1'') (Some (js ''bob'')) None (rc_hub r0))\<rparr>"
  define r2 where "r2 = r1\<lparr>rc_hub := fst (dispatch_entry ?late e (rc_hub r1, [], None)),
      rc_written := rc_written r1 @ map (Pair (fst e)) (fst (snd (dispatch_entry ?late e (rc_hub r1, [], None))))\<rparr>"
  have hub: "rc_hub r0 = demo_hub" by (simp add: r0_def quiet_def)
  have "race (quiet demo_hub) r0" unfolding r0_def by (rule race.start)
  moreover have "race r0 r1" unfolding r1_def by (rule race.ack)
  ultimately have reach: "racing_reach (quiet demo_hub) r1"
    using racing_reach.refl racing_reach.step by metis
  have "e \<in> set (rc_pending r1)"
    using demo_queue by (auto simp: r1_def r0_def quiet_def e_def QUEUE_BATCH_SIZE_def)
  then have race: "race r1 r2" unfolding r2_def by (rule race_entry)
  have "delivery_status_of (fst (handleDeliveryAck ?late (js ''tx_1'') (Some (js ''bob'')) None demo_hub)) ?m = Some MarkInjected"
    by code_simp
  then have inj: "delivery_status_of (rc_hub r1) ?m = Some MarkInjected" by (simp add: r1_def hub)
  have "delivery_status_of (fst (dispatch_entry ?late (hd (hub_queue demo_hub))
      (fst (handleDeliveryAck ?late (js ''tx_1'') (Some (js ''bob'')) None demo_hub), [], None))) ?m = Some MarkDead"
    by code_simp
  then have "delivery_status_of (rc_hub r2) ?m = Some MarkDead" by (simp add: r2_def r1_def hub e_def)
  with inj reach race demo_hub_inv show ?thesis by blast
qed

end
