(* ===== verification/Js_Date.thy ===== *)
theory Js_Date
  imports Js_Text
begin

text \<open>
  \<^verbatim>\<open>Date.prototype.toISOString\<close> of the standard library: a time in milliseconds since 1970, in UTC,
  as \<open>YYYY-MM-DDTHH:mm:ss.sssZ\<close>, with a signed six-digit year outside 0 to 9999.
\<close>

text \<open>The proleptic Gregorian date of a day number (day 0 is 1970-01-01), by eras of 400 years.\<close>

definition civil_from_days :: "int \<Rightarrow> int \<times> int \<times> int" where
  "civil_from_days days =
     (let z = days + 719468;
          era = z div 146097;
          doe = z mod 146097;
          yoe = (doe - doe div 1460 + doe div 36524 - doe div 146096) div 365;
          doy = doe - (365 * yoe + yoe div 4 - yoe div 100);
          mp = (5 * doy + 2) div 153;
          d = doy - (153 * mp + 2) div 5 + 1;
          m = (if mp < 10 then mp + 3 else mp - 9)
      in (yoe + era * 400 + (if m \<le> 2 then 1 else 0), m, d))"

text \<open>The last \<open>w\<close> decimal digits of a number, most significant first.\<close>

definition digits :: "nat \<Rightarrow> int \<Rightarrow> jstr" where
  "digits w n = map (\<lambda>k. 48 + of_int (n div 10 ^ k mod 10)) (rev [0..<w])"

definition iso_year :: "int \<Rightarrow> jstr" where
  "iso_year y =
     (if 0 \<le> y \<and> y \<le> 9999 then digits 4 y
      else (if y < 0 then [45] else [43]) @ digits 6 \<bar>y\<bar>)"

definition toISOString :: "int \<Rightarrow> jstr" where
  "toISOString ms =
     (let (y, m, d) = civil_from_days (ms div 86400000);
          t = ms mod 86400000
      in iso_year y @ [45] @ digits 2 m @ [45] @ digits 2 d @ js ''T'' @
         digits 2 (t div 3600000) @ [58] @ digits 2 (t div 60000 mod 60) @ [58] @
         digits 2 (t div 1000 mod 60) @ [46] @ digits 3 (t mod 1000) @ js ''Z'')"

text \<open>Known dates: the epoch, the last day of a leap February, the end of a century.\<close>

lemma toISOString_epoch: "toISOString 0 = js ''1970-01-01T00:00:00.000Z''"
  by code_simp

lemma toISOString_leap: "toISOString 1709251199999 = js ''2024-02-29T23:59:59.999Z''"
  by code_simp

end
