(* ===== verification/Room_Ledger.thy ===== *)
theory Room_Ledger
  imports Host_Queue Js_Date
begin

text \<open>
  \<^verbatim>\<open>src/do/room.ts\<close> and \<^verbatim>\<open>src/lib/transit/rooms.ts\<close>: one room's storage, membership, the sequenced
  ledger, the fan-out of a post to the hubs of its members, acknowledgements, channel deliveries
  and retention. The Durable Objects a room calls are the store \<open>hubs\<close>, by the names the code
  gives them. An operation that throws keeps what it wrote before: its result is the pair of the
  state and the outcome. A call to another object can fail by itself (\<open>rv_unreachable\<close>); the
  members of a fan-out are reached in the order of the listing.
\<close>

definition MAX_ROOM_MEMBERS :: nat where "MAX_ROOM_MEMBERS = 64"
definition ROOM_RETENTION_MS :: int where "ROOM_RETENTION_MS = 7 * 24 * 60 * 60 * 1000"

record room_member =
  rb_address :: jstr
  rb_org :: jstr
  rb_orgSlug :: "jstr option"
  rb_connectionId :: "jstr option"
  rb_joinedAt :: int
  rb_lastAckedSeq :: nat

record room_entry =
  rr_id :: jstr
  rr_seq :: nat
  rr_from :: jstr
  rr_body :: jstr
  rr_replyTo :: "jstr option"
  rr_createdAt :: int

record room_config =
  rf_org :: jstr
  rf_orgSlug :: "jstr option"
  rf_name :: jstr
  rf_policy :: room_policy
  rf_createdAt :: int

text \<open>The storage of one room: a prefix of its keys is one store.\<close>

record room =
  ro_config :: "room_config option"
  ro_members :: "(jstr, room_member) store"
  ro_messages :: "(jstr, room_entry) store"
  ro_ids :: "(jstr, nat) store"
  ro_sequence :: nat

definition new_room :: room where
  "new_room = \<lparr>ro_config = None, ro_members = [], ro_messages = [], ro_ids = [], ro_sequence = 0\<rparr>"

datatype room_event =
  Message room_entry
| MemberJoined room_member
| MemberLeft jstr
| MemberAck jstr nat

text \<open>What a room does outside its storage and the hubs: its D1 writes and its viewers.\<close>

datatype room_effect =
  RoomMemberInsert room_member_row
| RoomMemberDelete jstr jstr jstr
| RoomRowsDelete jstr jstr
| ArchiveRoomMessage message_row
| LedgerRoom jstr jstr ledger_status "jstr option" int
| RoomBroadcast room_event int
| CloseViewers nat jstr

record room_env =
  rv_db :: d1
  rv_now :: int
  rv_txId :: jstr
  rv_canAcceptMessage :: "jstr \<Rightarrow> bool"
  rv_unreachable :: "jstr \<Rightarrow> jstr option"
  rv_hub :: hub_env

type_synonym hub_store = "(jstr, host_hub) store"

definition hub_name :: "jstr \<Rightarrow> jstr \<Rightarrow> jstr" where
  "hub_name org host = js ''org:'' @ org @ js '':host:'' @ host"

definition hub_at :: "hub_store \<Rightarrow> jstr \<Rightarrow> host_hub" where
  "hub_at hubs name = (case kv_get hubs name of None \<Rightarrow> new_hub | Some h \<Rightarrow> h)"

text \<open>The error message an outcome carries.\<close>

definition thrown :: "address_error + 'a \<Rightarrow> jstr + 'a" where
  "thrown r = (case r of Inl e \<Rightarrow> Inl (err_message e) | Inr a \<Rightarrow> Inr a)"

definition requireConfig :: "room \<Rightarrow> jstr + room_config" where
  "requireConfig ro = (case ro_config ro of None \<Rightarrow> Inl (js ''room_not_configured'') | Some c \<Rightarrow> Inr c)"

definition normaliseMember :: "room_config \<Rightarrow> room_member \<Rightarrow> room_member" where
  "normaliseMember cfg m = (if rb_org m \<noteq> [] then m else m\<lparr>rb_org := rf_org cfg\<rparr>)"

definition members_of :: "room_config \<Rightarrow> room \<Rightarrow> room_member list" where
  "members_of cfg ro = map (\<lambda>(_, m). normaliseMember cfg m) (ro_members ro)"

text \<open>One entry of \<open>connectionStates\<close>: the live connection to a foreign member's organization.\<close>

definition connection_state :: "room_env \<Rightarrow> room_config \<Rightarrow> jstr \<Rightarrow> jstr option" where
  "connection_state env cfg org =
     (if org = rf_org cfg then None
      else map_option fst (connectedOrganizationById (rv_db env) (rf_org cfg) org))"

definition message_key :: "nat \<Rightarrow> jstr" where
  "message_key sequence = js ''message:'' @ pad16 sequence"


section \<open>Configuration and membership\<close>

definition configure :: "room_config \<Rightarrow> room \<Rightarrow> room \<times> (jstr + unit)" where
  "configure cfg ro =
     (if (case ro_config ro of None \<Rightarrow> False
          | Some old \<Rightarrow> rf_org old \<noteq> rf_org cfg \<or> rf_name old \<noteq> rf_name cfg)
      then (ro, Inl (js ''room identity cannot change''))
      else (ro\<lparr>ro_config := Some cfg\<rparr>, Inr ()))"

definition room_status :: "room \<Rightarrow> nat \<times> nat" where
  "room_status ro = (ro_sequence ro, length (ro_members ro))"

definition hasMember :: "jstr \<Rightarrow> room \<Rightarrow> jstr + bool" where
  "hasMember address ro =
     rbind (requireConfig ro) (\<lambda>_. Inr (kv_get (ro_members ro) address \<noteq> None))"

datatype join_source = ByAgent | ByCreator | ByOperator
datatype join_error = InviteOnly | RoomFull | NotConnected

record member_input =
  mi_org :: jstr
  mi_orgSlug :: jstr
  mi_connectionId :: jstr

type_synonym join_result = "bool \<times> join_error option"

definition join_connected :: "room_env \<Rightarrow> room_config \<Rightarrow> jstr option \<Rightarrow> member_input option \<Rightarrow> bool" where
  "join_connected env cfg organization memberInput =
     (case memberInput of
        Some mi \<Rightarrow>
          (case connectedOrganizationById (rv_db env) (rf_org cfg) (mi_org mi) of
             None \<Rightarrow> False
           | Some (connectionId, peerSlug) \<Rightarrow>
               peerSlug = mi_orgSlug mi \<and> connectionId = mi_connectionId mi \<and>
               organization = Some (mi_orgSlug mi))
      | None \<Rightarrow> truthy organization = None)"

definition join ::
  "room_env \<Rightarrow> jstr \<Rightarrow> join_source \<Rightarrow> member_input option \<Rightarrow> room \<Rightarrow>
     room \<times> room_effect list \<times> (jstr + join_result)" where
  "join env address source memberInput ro =
     (case requireConfig ro of Inl e \<Rightarrow> (ro, [], Inl e)
      | Inr cfg \<Rightarrow>
     (case thrown (parseAddress address) of Inl e \<Rightarrow> (ro, [], Inl e)
      | Inr (RoomAddress _ _ _) \<Rightarrow> (ro, [], Inl (js ''room members must be agents''))
      | Inr (AgentAddress name host organization addr) \<Rightarrow>
          if rf_policy cfg = Invite \<and> source = ByAgent then (ro, [], Inr (False, Some InviteOnly))
          else if \<not> join_connected env cfg organization memberInput
          then (ro, [], Inr (False, Some NotConnected))
          else if kv_get (ro_members ro) addr \<noteq> None then (ro, [], Inr (False, None))
          else if MAX_ROOM_MEMBERS \<le> length (ro_members ro) then (ro, [], Inr (False, Some RoomFull))
          else
            let member = \<lparr>rb_address = addr,
                  rb_org = (case memberInput of None \<Rightarrow> rf_org cfg | Some mi \<Rightarrow> mi_org mi),
                  rb_orgSlug = map_option mi_orgSlug memberInput,
                  rb_connectionId = map_option mi_connectionId memberInput,
                  rb_joinedAt = rv_now env, rb_lastAckedSeq = 0\<rparr>
            in (ro\<lparr>ro_members := kv_put addr member (ro_members ro)\<rparr>,
                [RoomMemberInsert \<lparr>mb_orgId = rf_org cfg, mb_memberOrgId = rb_org member,
                   mb_room = rf_name cfg, mb_address = addr, mb_joinedAt = rb_joinedAt member\<rparr>,
                 RoomBroadcast (MemberJoined member) (rv_now env)],
                Inr (True, None))))"

definition leave :: "room_env \<Rightarrow> jstr \<Rightarrow> room \<Rightarrow> room \<times> room_effect list \<times> (jstr + bool)" where
  "leave env address ro =
     (case requireConfig ro of Inl e \<Rightarrow> (ro, [], Inl e)
      | Inr cfg \<Rightarrow>
          if kv_get (ro_members ro) address = None then (ro, [], Inr False)
          else (ro\<lparr>ro_members := kv_del address (ro_members ro)\<rparr>,
                [RoomMemberDelete (rf_org cfg) (rf_name cfg) address,
                 RoomBroadcast (MemberLeft address) (rv_now env)],
                Inr True))"

definition canPost :: "room_env \<Rightarrow> room \<Rightarrow> jstr + bool" where
  "canPost env ro = rbind (requireConfig ro) (\<lambda>cfg. Inr (rv_canAcceptMessage env (rf_org cfg)))"


section \<open>Posting\<close>

text \<open>The ledger entry an id already has.\<close>

definition committed_entry :: "jstr \<Rightarrow> room \<Rightarrow> room_entry option" where
  "committed_entry ident ro =
     (case kv_get (ro_ids ro) ident of None \<Rightarrow> None
      | Some sequence \<Rightarrow> kv_get (ro_messages ro) (message_key sequence))"

text \<open>Who posts: nobody for the operator, a member otherwise.\<close>

definition post_sender :: "room_env \<Rightarrow> room_config \<Rightarrow> jstr \<Rightarrow> room \<Rightarrow> jstr + room_member option" where
  "post_sender env cfg from' ro =
     (if from' = OPERATOR_ADDRESS then Inr None
      else (case kv_get (ro_members ro) from' of
              None \<Rightarrow> Inl (js ''not_member'')
            | Some stored \<Rightarrow>
                let sender = normaliseMember cfg stored in
                if rb_org sender \<noteq> rf_org cfg \<and>
                   connectedOrganizationById (rv_db env) (rf_org cfg) (rb_org sender) = None
                then Inl (js ''not_member'') else Inr (Some sender)))"

text \<open>The transaction of a post: the next sequence, the entry under it, and the id's index.\<close>

definition commit_entry ::
  "room_env \<Rightarrow> jstr \<Rightarrow> jstr \<Rightarrow> jstr option \<Rightarrow> jstr option \<Rightarrow> room \<Rightarrow> room \<times> room_entry \<times> bool" where
  "commit_entry env from' body replyTo messageId ro =
     (let ident = (case messageId of None \<Rightarrow> rv_txId env | Some m \<Rightarrow> m) in
      case committed_entry ident ro of
        Some existing \<Rightarrow> (ro, existing, True)
      | None \<Rightarrow>
          let sequence = ro_sequence ro + 1;
              entry = \<lparr>rr_id = ident, rr_seq = sequence, rr_from = from', rr_body = body,
                       rr_replyTo = truthy replyTo, rr_createdAt = rv_now env\<rparr>
          in (ro\<lparr>ro_sequence := sequence,
                 ro_messages := kv_put (message_key sequence) entry (ro_messages ro),
                 ro_ids := kv_put ident sequence (ro_ids ro)\<rparr>, entry, False))"

text \<open>\<open>roomOrgSlug\<close>: from the configuration, or from D1 and then remembered in it.\<close>

definition roomOrgSlug :: "room_env \<Rightarrow> room_config \<Rightarrow> room \<Rightarrow> room \<times> (jstr + jstr)" where
  "roomOrgSlug env cfg ro =
     (case truthy (rf_orgSlug cfg) of
        Some s \<Rightarrow> (ro, Inr s)
      | None \<Rightarrow>
          (case truthy (organizationSlugById (rv_db env) (rf_org cfg)) of
             None \<Rightarrow> (ro, Inl (js ''room organization not found''))
           | Some s \<Rightarrow> (ro\<lparr>ro_config := Some (cfg\<lparr>rf_orgSlug := Some s\<rparr>)\<rparr>, Inr s)))"

definition or_undefined :: "jstr option \<Rightarrow> jstr" where
  "or_undefined s = (case s of None \<Rightarrow> js ''undefined'' | Some v \<Rightarrow> v)"

text \<open>What a post's fan-out knows of the post.\<close>

record fan_context =
  fc_config :: room_config
  fc_entry :: room_entry
  fc_sender :: "room_member option"
  fc_senderAddress :: "(jstr \<times> jstr) option"
  fc_senderOrgSlug :: "jstr option"
  fc_roomOrgSlug :: "jstr option"
  fc_replyTo :: "jstr option"

text \<open>The address a member sees as the sender.\<close>

definition envelope_from :: "fan_context \<Rightarrow> room_member \<Rightarrow> jstr + jstr" where
  "envelope_from fc member =
     (case fc_senderAddress fc of
        None \<Rightarrow> Inr (rr_from (fc_entry fc))
      | Some (name, host) \<Rightarrow>
          let sameOrganization = (case fc_sender fc of None \<Rightarrow> True | Some s \<Rightarrow> rb_org s = rb_org member) in
          thrown (formatAgentAddress name host (if sameOrganization then None else fc_senderOrgSlug fc)))"

definition room_envelope_for :: "fan_context \<Rightarrow> room_member \<Rightarrow> jstr \<Rightarrow> jstr" where
  "room_envelope_for fc member from' =
     (let cfg = fc_config fc; entry = fc_entry fc; foreign = (rb_org member \<noteq> rf_org cfg) in
      renderEnvelope (RoomEnvelope
        \<lparr>re_from = from', re_id = rr_id entry, re_ts = toISOString (rr_createdAt entry),
         re_room = (if foreign then or_undefined (fc_roomOrgSlug fc) @ [SLASH] @ rf_name cfg else rf_name cfg),
         re_seq = rr_seq entry, re_body = rr_body entry, re_replyTo = fc_replyTo fc,
         re_replyTarget =
           (if foreign then Some (or_undefined (fc_roomOrgSlug fc) @ [SLASH, HASH] @ rf_name cfg)
            else if rr_from entry = OPERATOR_ADDRESS then Some ([HASH] @ rf_name cfg) else None)\<rparr>))"

text \<open>The call to the member's hub.\<close>

definition call_queueDelivery ::
  "room_env \<Rightarrow> jstr \<Rightarrow> queue_delivery_input \<Rightarrow> hub_store \<Rightarrow> hub_store \<times> (jstr + queue_status)" where
  "call_queueDelivery env name inp hubs =
     (case rv_unreachable env name of
        Some e \<Rightarrow> (hubs, Inl e)
      | None \<Rightarrow>
          let (st, _, status) = queueDelivery (rv_hub env) inp (hub_at hubs name)
          in (kv_put name st hubs, Inr status))"

definition post_input :: "fan_context \<Rightarrow> room_member \<Rightarrow> jstr \<Rightarrow> jstr \<Rightarrow> jstr \<Rightarrow> jstr \<Rightarrow> jstr option \<Rightarrow> queue_delivery_input" where
  "post_input fc member name host addr envelope connectionId =
     \<lparr>qi_messageId = rr_id (fc_entry fc), qi_org = rf_org (fc_config fc), qi_targetOrg = rb_org member,
      qi_targetHost = host, qi_agent = name, qi_targetAddr = addr, qi_envelope = envelope,
      qi_render = None, qi_enqueuedAt = None, qi_roomName = Some (rf_name (fc_config fc)),
      qi_roomSeq = Some (rr_seq (fc_entry fc)), qi_redelivery = False,
      qi_connectionId = truthy connectionId\<rparr>"

definition deliver_to ::
  "room_env \<Rightarrow> fan_context \<Rightarrow> room_member \<Rightarrow> hub_store \<Rightarrow> hub_store \<times> jstr option" where
  "deliver_to env fc member hubs =
     (let cfg = fc_config fc;
          live = connection_state env cfg (rb_org member)
      in if rb_org member \<noteq> rf_org cfg \<and> truthy live = None
         then (hubs, Some (js ''organization_connection_revoked''))
         else (case thrown (parseAddress (rb_address member)) of
             Inl e \<Rightarrow> (hubs, Some e)
           | Inr (RoomAddress _ _ _) \<Rightarrow> (hubs, Some (js ''invalid member address''))
           | Inr (AgentAddress name host organization addr) \<Rightarrow>
               (case envelope_from fc member of
                  Inl e \<Rightarrow> (hubs, Some e)
                | Inr from' \<Rightarrow>
                    (case call_queueDelivery env (hub_name (rb_org member) host)
                            (post_input fc member name host addr (room_envelope_for fc member from') live) hubs of
                       (hubs', Inl e) \<Rightarrow> (hubs', Some e)
                     | (hubs', Inr NoRouteTo) \<Rightarrow> (hubs', Some (js ''no_route''))
                     | (hubs', Inr _) \<Rightarrow> (hubs', None)))))"

text \<open>The members in turn; the outcome of each is kept.\<close>

fun fan_out ::
  "room_env \<Rightarrow> fan_context \<Rightarrow> room_member list \<Rightarrow> hub_store \<Rightarrow> hub_store \<times> (room_member \<times> jstr option) list" where
  "fan_out env fc [] hubs = (hubs, [])"
| "fan_out env fc (m # ms) hubs =
     (let (hubs1, outcome) = deliver_to env fc m hubs;
          (hubs2, outcomes) = fan_out env fc ms hubs1
      in (hubs2, (m, outcome) # outcomes))"

definition mirrorEntry :: "room_env \<Rightarrow> room_config \<Rightarrow> room_entry \<Rightarrow> (room_member \<times> jstr option) list \<Rightarrow> room_effect list" where
  "mirrorEntry env cfg entry outcomes =
     ArchiveRoomMessage \<lparr>ms_id = rr_id entry, ms_orgId = rf_org cfg, ms_recipientOrgId = None,
        ms_kind = KindRoom, ms_fromAddr = rr_from entry, ms_toAddr = [HASH] @ rf_name cfg,
        ms_roomSeq = Some (rr_seq entry), ms_body = rr_body entry, ms_replyTo = rr_replyTo entry,
        ms_createdAt = rr_createdAt entry\<rparr>
     # map (\<lambda>(member, err). LedgerRoom (rr_id entry) (rb_address member)
              (if truthy err = None then LedgerQueued else LedgerDead) err (rv_now env)) outcomes"

definition pruneLedger :: "int \<Rightarrow> room \<Rightarrow> room" where
  "pruneLedger now ro =
     (let expired = filter (\<lambda>(_, m). rr_createdAt m < now - ROOM_RETENTION_MS) (take 256 (ro_messages ro))
      in ro\<lparr>ro_messages := fold (\<lambda>(k, _). kv_del k) expired (ro_messages ro),
            ro_ids := fold (\<lambda>(_, m). kv_del (rr_id m)) expired (ro_ids ro)\<rparr>)"

text \<open>What a post computes between the commit and the fan-out; it may throw, the entry being kept.\<close>

definition fan_context_of ::
  "room_env \<Rightarrow> room_config \<Rightarrow> room_entry \<Rightarrow> jstr option \<Rightarrow> room_member option \<Rightarrow> room_member list \<Rightarrow>
     room \<Rightarrow> room \<times> (jstr + fan_context)" where
  "fan_context_of env cfg entry replyTo sender targets ro =
     (let (ro1, roomSlug) =
            (if list_ex (\<lambda>m. rb_org m \<noteq> rf_org cfg) targets
             then (case roomOrgSlug env cfg ro of
                     (r, Inl e) \<Rightarrow> (r, Inl e) | (r, Inr s) \<Rightarrow> (r, Inr (Some s)))
             else (ro, Inr None))
      in (ro1,
          rbind roomSlug (\<lambda>slug.
          rbind (if rr_from entry = OPERATOR_ADDRESS then Inr None
                 else (case thrown (parseAddress (rr_from entry)) of
                         Inl e \<Rightarrow> Inl e
                       | Inr (RoomAddress _ _ _) \<Rightarrow> Inl (js ''invalid member address'')
                       | Inr (AgentAddress name host _ _) \<Rightarrow> Inr (Some (name, host)))) (\<lambda>senderAddress.
          let foreign = (case sender of None \<Rightarrow> False | Some s \<Rightarrow> rb_org s \<noteq> rf_org cfg);
              senderSlug = (case sender of
                  Some s \<Rightarrow>
                    if rb_org s \<noteq> rf_org cfg
                    then (case rb_orgSlug s of Some g \<Rightarrow> Some g | None \<Rightarrow> organizationSlugById (rv_db env) (rb_org s))
                    else slug
                | None \<Rightarrow> slug)
          in if foreign \<and> truthy senderSlug = None then Inl (js ''sender organization not found'')
             else Inr \<lparr>fc_config = (case slug of None \<Rightarrow> cfg | Some s \<Rightarrow> cfg\<lparr>rf_orgSlug := Some s\<rparr>),
                       fc_entry = entry, fc_sender = sender, fc_senderAddress = senderAddress,
                       fc_senderOrgSlug = senderSlug, fc_roomOrgSlug = slug, fc_replyTo = replyTo\<rparr>))))"

text \<open>The commit, and for an entry that was not there before, its fan-out, archive and announcement.\<close>

definition commit_and_fan ::
  "room_env \<Rightarrow> room_config \<Rightarrow> room_member option \<Rightarrow> jstr \<Rightarrow> jstr \<Rightarrow> jstr option \<Rightarrow> jstr option \<Rightarrow>
     room \<times> hub_store \<Rightarrow> (room \<times> hub_store) \<times> room_effect list \<times> (jstr + room_entry)" where
  "commit_and_fan env cfg sender from' body replyTo messageId world =
     (let (ro, hubs) = world;
          (ro1, entry, duplicate) = commit_entry env from' body replyTo messageId ro in
      if duplicate then ((ro1, hubs), [], Inr entry)
      else
        let targets = filter (\<lambda>m. rb_address m \<noteq> from') (members_of cfg ro1) in
        (case fan_context_of env cfg entry replyTo sender targets ro1 of
           (ro2, Inl e) \<Rightarrow> ((ro2, hubs), [], Inl e)
         | (ro2, Inr fc) \<Rightarrow>
             let (hubs', outcomes) = fan_out env fc targets hubs
             in ((pruneLedger (rv_now env) ro2, hubs'),
                 mirrorEntry env cfg entry outcomes @ [RoomBroadcast (Message entry) (rv_now env)],
                 Inr entry)))"

text \<open>What a post checks before it commits: the room, the size, the sender, a retry, the plan.\<close>

definition post_checks ::
  "room_env \<Rightarrow> jstr \<Rightarrow> jstr \<Rightarrow> jstr option \<Rightarrow> room \<Rightarrow>
     jstr + (room_config \<times> room_member option \<times> room_entry option)" where
  "post_checks env from' body messageId ro =
     rbind (requireConfig ro) (\<lambda>cfg.
     rbind (guard_or (utf8_length body \<le> MAX_MESSAGE_BYTES) (js ''body_too_large'')) (\<lambda>_.
     rbind (post_sender env cfg from' ro) (\<lambda>sender.
     (case (case truthy messageId of None \<Rightarrow> None | Some m \<Rightarrow> committed_entry m ro) of
        Some existing \<Rightarrow> Inr (cfg, sender, Some existing)
      | None \<Rightarrow>
          rbind (guard_or (rv_canAcceptMessage env (rf_org cfg)) (js ''plan_limit'')) (\<lambda>_.
            Inr (cfg, sender, None))))))"

definition post ::
  "room_env \<Rightarrow> jstr \<Rightarrow> jstr \<Rightarrow> jstr option \<Rightarrow> jstr option \<Rightarrow> room \<times> hub_store \<Rightarrow>
     (room \<times> hub_store) \<times> room_effect list \<times> (jstr + room_entry)" where
  "post env from' body replyTo messageId world =
     (case post_checks env from' body messageId (fst world) of
        Inl e \<Rightarrow> (world, [], Inl e)
      | Inr (cfg, sender, Some existing) \<Rightarrow> (world, [], Inr existing)
      | Inr (cfg, sender, None) \<Rightarrow> commit_and_fan env cfg sender from' body replyTo messageId world)"


section \<open>Channel deliveries, acknowledgements, the end of a room\<close>

record room_channel_delivery =
  rd_deliveryId :: jstr
  rd_org :: jstr
  rd_envelope :: jstr
  rd_render :: "channel_envelope option"
  rd_redelivery :: bool

text \<open>
  The member's part of a channel operation: nothing for a foreign member whose organization is not
  connected now, else the call, with the member's parsed address.
\<close>

definition on_member ::
  "room_env \<Rightarrow> room_config \<Rightarrow> room_member \<Rightarrow> (jstr \<Rightarrow> jstr \<Rightarrow> jstr \<Rightarrow> jstr option \<Rightarrow> 's \<Rightarrow> 's \<times> (jstr + bool)) \<Rightarrow>
     's \<Rightarrow> 's \<times> (jstr + bool)" where
  "on_member env cfg member call s =
     (let live = connection_state env cfg (rb_org member) in
      if rb_org member \<noteq> rf_org cfg \<and> truthy live = None then (s, Inr False)
      else (case thrown (parseAddress (rb_address member)) of
              Inl e \<Rightarrow> (s, Inl e)
            | Inr (RoomAddress _ _ _) \<Rightarrow> (s, Inr False)
            | Inr (AgentAddress name host _ addr) \<Rightarrow> call name host addr live s))"

fun for_members :: "(room_member \<Rightarrow> 's \<Rightarrow> 's \<times> 'r) \<Rightarrow> room_member list \<Rightarrow> 's \<Rightarrow> 's \<times> 'r list" where
  "for_members f [] s = (s, [])"
| "for_members f (m # ms) s =
     (let (s1, r) = f m s; (s2, rs) = for_members f ms s1 in (s2, r # rs))"

text \<open>\<open>Promise.all\<close> rejects with the first rejection, the other calls having been made.\<close>

fun all_or_first :: "('e + 'a) list \<Rightarrow> 'e + 'a list" where
  "all_or_first [] = Inr []"
| "all_or_first (r # rs) = rbind r (\<lambda>a. rbind (all_or_first rs) (\<lambda>as. Inr (a # as)))"

definition channel_input ::
  "room_config \<Rightarrow> room_channel_delivery \<Rightarrow> room_member \<Rightarrow> jstr \<Rightarrow> jstr \<Rightarrow> jstr \<Rightarrow> jstr option \<Rightarrow> queue_delivery_input" where
  "channel_input cfg inp member name host addr live =
     \<lparr>qi_messageId = rd_deliveryId inp, qi_org = rf_org cfg, qi_targetOrg = rb_org member,
      qi_targetHost = host, qi_agent = name, qi_targetAddr = addr, qi_envelope = rd_envelope inp,
      qi_render = rd_render inp, qi_enqueuedAt = None, qi_roomName = None, qi_roomSeq = None,
      qi_redelivery = rd_redelivery inp, qi_connectionId = truthy live\<rparr>"

definition queueChannelDelivery ::
  "room_env \<Rightarrow> room_channel_delivery \<Rightarrow> room \<times> hub_store \<Rightarrow> (room \<times> hub_store) \<times> (jstr + nat)" where
  "queueChannelDelivery env inp world =
     (let (ro, hubs) = world in
      case requireConfig ro of Inl e \<Rightarrow> (world, Inl e)
      | Inr cfg \<Rightarrow>
          if rd_org inp \<noteq> rf_org cfg then (world, Inl (js ''room organization mismatch''))
          else
            let (hubs', results) = for_members
                  (\<lambda>m. on_member env cfg m (\<lambda>name host addr live hs.
                     case call_queueDelivery env (hub_name (rb_org m) host)
                            (channel_input cfg inp m name host addr live) hs of
                       (hs', Inl e) \<Rightarrow> (hs', Inl e)
                     | (hs', Inr st) \<Rightarrow> (hs', Inr (st \<noteq> NoRouteTo))))
                  (members_of cfg ro) hubs
            in ((ro, hubs'), rbind (all_or_first results) (\<lambda>rs. Inr (length (filter id rs)))))"

text \<open>\<open>Promise.allSettled\<close>: failures of single calls are dropped.\<close>

definition cancelChannelDelivery ::
  "room_env \<Rightarrow> jstr \<Rightarrow> room \<times> hub_store \<Rightarrow> (room \<times> hub_store) \<times> (jstr + unit)" where
  "cancelChannelDelivery env deliveryId world =
     (let (ro, hubs) = world in
      case requireConfig ro of Inl e \<Rightarrow> (world, Inl e)
      | Inr cfg \<Rightarrow>
          ((ro, fst (for_members
              (\<lambda>m. on_member env cfg m (\<lambda>name host addr live hs.
                 let h = hub_name (rb_org m) host in
                 case rv_unreachable env h of
                   Some e \<Rightarrow> (hs, Inl e)
                 | None \<Rightarrow> (kv_put h (fst (cancelDelivery (rv_hub env) deliveryId (hub_at hs h))) hs, Inr True)))
              (members_of cfg ro) hubs)), Inr ()))"

definition acknowledge ::
  "room_env \<Rightarrow> jstr \<Rightarrow> nat \<Rightarrow> room \<Rightarrow> room \<times> room_effect list \<times> (jstr + unit)" where
  "acknowledge env address sequence ro =
     (case requireConfig ro of Inl e \<Rightarrow> (ro, [], Inl e)
      | Inr cfg \<Rightarrow>
     (case kv_get (ro_members ro) address of None \<Rightarrow> (ro, [], Inr ())
      | Some stored \<Rightarrow>
          let member = normaliseMember cfg stored in
          if sequence \<le> rb_lastAckedSeq member then (ro, [], Inr ())
          else (ro\<lparr>ro_members := kv_put address (member\<lparr>rb_lastAckedSeq := sequence\<rparr>) (ro_members ro)\<rparr>,
                [RoomBroadcast (MemberAck address sequence) (rv_now env)], Inr ())))"

definition destroy :: "room \<Rightarrow> room \<times> room_effect list \<times> (jstr + unit)" where
  "destroy ro =
     (case requireConfig ro of Inl e \<Rightarrow> (ro, [], Inl e)
      | Inr cfg \<Rightarrow> (new_room, [RoomRowsDelete (rf_org cfg) (rf_name cfg), CloseViewers 4004 (js ''room deleted'')],
                    Inr ()))"


section \<open>Views\<close>

record room_member_view =
  rw_address :: jstr
  rw_organization :: "jstr option"
  rw_connected :: "bool option"
  rw_joinedAt :: int
  rw_lastAckedSeq :: nat

record room_detail =
  dt_org :: jstr
  dt_name :: jstr
  dt_policy :: room_policy
  dt_sequence :: nat
  dt_members :: "room_member_view list"
  dt_messages :: "room_entry list"

text \<open>A stable sort by a comparison, as \<open>Array.prototype.sort\<close> is.\<close>

fun insert_before :: "('a \<Rightarrow> 'a \<Rightarrow> bool) \<Rightarrow> 'a \<Rightarrow> 'a list \<Rightarrow> 'a list" where
  "insert_before before x [] = [x]"
| "insert_before before x (y # ys) =
     (if before y x then y # insert_before before x ys else x # y # ys)"

definition sort_before :: "('a \<Rightarrow> 'a \<Rightarrow> bool) \<Rightarrow> 'a list \<Rightarrow> 'a list" where
  "sort_before before xs = foldr (insert_before before) xs []"

definition member_view :: "room_env \<Rightarrow> room_config \<Rightarrow> room_member \<Rightarrow> room_member_view" where
  "member_view env cfg m =
     (let foreign = (rb_org m \<noteq> rf_org cfg) in
      \<lparr>rw_address = rb_address m,
       rw_organization = (if foreign then truthy (rb_orgSlug m) else None),
       rw_connected = (if foreign then Some (truthy (connection_state env cfg (rb_org m)) \<noteq> None) else None),
       rw_joinedAt = rb_joinedAt m, rw_lastAckedSeq = rb_lastAckedSeq m\<rparr>)"

definition detail :: "room_env \<Rightarrow> int \<Rightarrow> room \<Rightarrow> jstr + room_detail" where
  "detail env limit ro =
     rbind (requireConfig ro) (\<lambda>cfg.
       Inr \<lparr>dt_org = rf_org cfg, dt_name = rf_name cfg, dt_policy = rf_policy cfg,
            dt_sequence = ro_sequence ro,
            dt_members = sort_before (\<lambda>l r. he_before (rv_hub env) (rw_address l) (rw_address r))
              (map (member_view env cfg) (members_of cfg ro)),
            dt_messages = sort_key rr_seq
              (map snd (take (nat (min 500 (max 1 limit))) (rev (ro_messages ro))))\<rparr>)"

text \<open>A viewer's upgrade: the snapshot it is sent, if it is admitted.\<close>

definition viewer_connect :: "room_env \<Rightarrow> jstr option \<Rightarrow> bool \<Rightarrow> jstr option \<Rightarrow> room \<Rightarrow> nat + room_detail" where
  "viewer_connect env role upgrade org ro =
     (if role \<noteq> Some (js ''viewer'') \<or> \<not> upgrade then Inl 404
      else (case (ro_config ro, truthy org) of
              (Some cfg, Some o') \<Rightarrow>
                if rf_org cfg \<noteq> o' then Inl 404
                else (case detail env 200 ro of Inl _ \<Rightarrow> Inl 500 | Inr d \<Rightarrow> Inr d)
            | _ \<Rightarrow> Inl 404))"


section \<open>rooms.ts\<close>

text \<open>The name of a room's object, and the rooms by name.\<close>

definition room_name :: "jstr \<Rightarrow> jstr \<Rightarrow> jstr" where
  "room_name org name = js ''org:'' @ org @ js '':room:'' @ name"

type_synonym room_store = "(jstr, room) store"

definition room_at :: "room_store \<Rightarrow> jstr \<Rightarrow> room" where
  "room_at rms name = (case kv_get rms name of None \<Rightarrow> new_room | Some r \<Rightarrow> r)"

definition room_exists :: "d1 \<Rightarrow> jstr \<Rightarrow> jstr \<Rightarrow> bool" where
  "room_exists db org name = list_ex (\<lambda>r. rm_orgId r = org \<and> rm_name r = name) (rooms db)"

definition join_error_text :: "join_error \<Rightarrow> jstr" where
  "join_error_text e = (case e of InviteOnly \<Rightarrow> js ''invite_only'' | RoomFull \<Rightarrow> js ''room_full''
     | NotConnected \<Rightarrow> js ''not_connected'')"

definition createRoom ::
  "room_env \<Rightarrow> jstr \<Rightarrow> jstr \<Rightarrow> room_policy \<Rightarrow> jstr option \<Rightarrow> d1 \<times> room_store \<Rightarrow>
     (d1 \<times> room_store) \<times> room_effect list \<times> (jstr + room_row option)" where
  "createRoom env org name policy creator world =
     (let (db, rms) = world in
      if room_exists db org name then (world, [], Inr None)
      else
        let row = \<lparr>rm_orgId = org, rm_name = name, rm_policy = policy, rm_createdAt = rv_now env\<rparr>;
            db1 = db\<lparr>rooms := rooms db @ [row]\<rparr>;
            key = room_name org name
        in (case configure \<lparr>rf_org = org, rf_orgSlug = None, rf_name = name, rf_policy = policy,
                           rf_createdAt = rv_now env\<rparr> (room_at rms key) of
              (r1, Inl e) \<Rightarrow> ((db1, kv_put key r1 rms), [], Inl e)
            | (r1, Inr _) \<Rightarrow>
                (case truthy creator of
                   None \<Rightarrow> ((db1, kv_put key r1 rms), [], Inr (Some row))
                 | Some c \<Rightarrow>
                     (case join env c ByCreator None r1 of
                        (r2, effs, Inl e) \<Rightarrow> ((db1, kv_put key r2 rms), effs, Inl e)
                      | (r2, effs, Inr (_, Some e)) \<Rightarrow> ((db1, kv_put key r2 rms), effs, Inl (join_error_text e))
                      | (r2, effs, Inr (_, None)) \<Rightarrow> ((db1, kv_put key r2 rms), effs, Inr (Some row))))))"

end
