(* ===== verification/Room_Properties.thy ===== *)
theory Room_Properties
  imports Room_Ledger Hub_Schedule
begin

text \<open>
  What a room guarantees: the invariant of its storage under every operation, a ledger that is only
  appended to, retried posts, who may post, the exact fan-out of a post, and acknowledgements.
\<close>

section \<open>The operations and the invariant\<close>

datatype room_op =
  RConfigure room_config
| RJoin jstr join_source "member_input option"
| RLeave jstr
| RPost jstr jstr "jstr option" "jstr option" hub_store
| RAck jstr nat
| RQueueChannel room_channel_delivery hub_store
| RCancelChannel jstr hub_store
| RDestroy

fun run_room :: "room_env \<Rightarrow> room_op \<Rightarrow> room \<Rightarrow> room" where
  "run_room env (RConfigure cfg) ro = fst (configure cfg ro)"
| "run_room env (RJoin address source mi) ro = fst (join env address source mi ro)"
| "run_room env (RLeave address) ro = fst (leave env address ro)"
| "run_room env (RPost from' body replyTo messageId hubs) ro =
     fst (fst (post env from' body replyTo messageId (ro, hubs)))"
| "run_room env (RAck address sequence) ro = fst (acknowledge env address sequence ro)"
| "run_room env (RQueueChannel inp hubs) ro = fst (fst (queueChannelDelivery env inp (ro, hubs)))"
| "run_room env (RCancelChannel ident hubs) ro = fst (fst (cancelChannelDelivery env ident (ro, hubs)))"
| "run_room env RDestroy ro = fst (destroy ro)"

fun run_rooms :: "(room_env \<times> room_op) list \<Rightarrow> room \<Rightarrow> room" where
  "run_rooms [] ro = ro"
| "run_rooms ((env, op') # ops) ro = run_rooms ops (run_room env op' ro)"

lemma message_key_inj: "message_key m = message_key n \<longleftrightarrow> m = n"
  by (auto simp: message_key_def dest: pad16_inj)

text \<open>
  The ledger: every entry is under the key of its sequence, which is not beyond the counter, and the
  index leads from its id to it and to nothing else.
\<close>

definition entries_ok :: "room \<Rightarrow> bool" where
  "entries_ok ro \<longleftrightarrow> (\<forall>k e. kv_get (ro_messages ro) k = Some e \<longrightarrow>
     k = message_key (rr_seq e) \<and> rr_seq e \<le> ro_sequence ro \<and> kv_get (ro_ids ro) (rr_id e) = Some (rr_seq e))"

definition ids_ok :: "room \<Rightarrow> bool" where
  "ids_ok ro \<longleftrightarrow> (\<forall>i s. kv_get (ro_ids ro) i = Some s \<longrightarrow>
     (\<exists>e. kv_get (ro_messages ro) (message_key s) = Some e \<and> rr_id e = i \<and> rr_seq e = s))"

definition members_ok :: "room \<Rightarrow> bool" where
  "members_ok ro \<longleftrightarrow> length (ro_members ro) \<le> MAX_ROOM_MEMBERS \<and>
     (\<forall>k m. kv_get (ro_members ro) k = Some m \<longrightarrow> rb_address m = k \<and>
        (\<exists>name host organization. parseAddress k = Inr (AgentAddress name host organization k)))"

definition room_inv :: "room \<Rightarrow> bool" where
  "room_inv ro \<longleftrightarrow> kv_ok (ro_members ro) \<and> kv_ok (ro_messages ro) \<and> entries_ok ro \<and> ids_ok ro \<and> members_ok ro"

lemma room_inv_new: "room_inv new_room"
  by (simp add: room_inv_def new_room_def entries_ok_def ids_ok_def members_ok_def)

lemma room_inv_frame [simp]: "room_inv (ro\<lparr>ro_config := c\<rparr>) = room_inv ro"
  by (simp add: room_inv_def entries_ok_def ids_ok_def members_ok_def)

lemma thrown_simps [simp]: "thrown (Inl e) = Inl (err_message e)" "thrown (Inr a) = Inr a"
  by (simp_all add: thrown_def)

lemma thrown_Inr: "thrown r = Inr a \<longleftrightarrow> r = Inr a"
  by (cases r) auto

lemma parse_canonical: "parseAddress v = Inr (AgentAddress name host organization addr) \<Longrightarrow> addr = v"
  using address.enc_dec [of v "AgentAddress name host organization addr"]
  by (simp add: parse_option_def)

lemma join_inv: "room_inv ro \<Longrightarrow> room_inv (fst (join env address source mi ro))"
proof (cases "fst (join env address source mi ro) = ro")
  case False
  assume inv: "room_inv ro"
  obtain cfg name host organization addr m where
    p: "parseAddress address = Inr (AgentAddress name host organization addr)"
    and n: "length (ro_members ro) < MAX_ROOM_MEMBERS" "kv_get (ro_members ro) addr = None"
    and j: "fst (join env address source mi ro) = ro\<lparr>ro_members := kv_put addr m (ro_members ro)\<rparr>"
    and a: "rb_address m = addr"
    using False
    by (auto simp: join_def Let_def thrown_Inr split: sum.splits transit_address.splits if_splits)
  have "addr = address" using p by (rule parse_canonical)
  with inv p n a show ?thesis
    unfolding j room_inv_def
    by (auto simp: members_ok_def entries_ok_def ids_ok_def length_kv_put store_simps)
qed simp

lemma leave_inv: "room_inv ro \<Longrightarrow> room_inv (fst (leave env address ro))"
proof -
  assume inv: "room_inv ro"
  have "length (kv_del address (ro_members ro)) \<le> length (ro_members ro)" by (simp add: kv_del_def)
  with inv show ?thesis
    unfolding leave_def room_inv_def members_ok_def entries_ok_def ids_ok_def
    by (auto simp: store_simps split: sum.splits)
qed

lemma acknowledge_inv: "room_inv ro \<Longrightarrow> room_inv (fst (acknowledge env address sequence ro))"
proof -
  assume inv: "room_inv ro"
  have len: "kv_get s a = Some x \<Longrightarrow> kv_ok s \<Longrightarrow> length (kv_put a v s) = length s" for a x v and s :: "(jstr, room_member) store"
    by (force simp: length_kv_put dest!: map_of_SomeD)
  from inv show ?thesis
    unfolding acknowledge_def room_inv_def members_ok_def entries_ok_def ids_ok_def
    by (auto simp: store_simps normaliseMember_def Let_def len split: sum.splits option.splits)
qed

lemma committed_entry_iff:
  assumes "room_inv ro"
  shows "committed_entry i ro = Some e \<longleftrightarrow> rr_id e = i \<and> (\<exists>k. kv_get (ro_messages ro) k = Some e)"
proof
  assume "committed_entry i ro = Some e"
  then show "rr_id e = i \<and> (\<exists>k. kv_get (ro_messages ro) k = Some e)"
    using assms unfolding committed_entry_def room_inv_def ids_ok_def
    by (fastforce split: option.splits)
next
  assume "rr_id e = i \<and> (\<exists>k. kv_get (ro_messages ro) k = Some e)"
  then show "committed_entry i ro = Some e"
    using assms unfolding committed_entry_def room_inv_def entries_ok_def by fastforce
qed

lemma commit_inv: "room_inv ro \<Longrightarrow> room_inv (fst (commit_entry env from' body replyTo messageId ro))"
proof (cases "committed_entry (case messageId of None \<Rightarrow> rv_txId env | Some m \<Rightarrow> m) ro")
  case (Some e)
  then show "room_inv ro \<Longrightarrow> ?thesis" by (simp add: commit_entry_def)
next
  case None
  assume inv: "room_inv ro"
  let ?i = "case messageId of None \<Rightarrow> rv_txId env | Some m \<Rightarrow> m"
  have fresh: "rr_id e \<noteq> ?i" if "kv_get (ro_messages ro) k = Some e" for k e
    using None committed_entry_iff [OF inv, of ?i e] that by auto
  have key: "kv_get (ro_messages ro) (message_key (Suc (ro_sequence ro))) = None"
  proof (rule ccontr)
    assume "kv_get (ro_messages ro) (message_key (Suc (ro_sequence ro))) \<noteq> None"
    then obtain e where "kv_get (ro_messages ro) (message_key (Suc (ro_sequence ro))) = Some e" by blast
    then have "message_key (Suc (ro_sequence ro)) = message_key (rr_seq e)" "rr_seq e \<le> ro_sequence ro"
      using inv unfolding room_inv_def entries_ok_def by blast+
    then show False by (simp add: message_key_inj)
  qed
  show ?thesis
    using inv None fresh key
    unfolding room_inv_def entries_ok_def ids_ok_def members_ok_def commit_entry_def
    by (auto simp: Let_def store_simps message_key_inj le_SucI split: if_splits; fastforce)
qed

text \<open>Retention removes entries and their index entries together.\<close>

lemma kv_get_fold_del:
  "kv_get (fold (\<lambda>(k, v). kv_del (f k v)) es s) k =
     (if \<exists>(k', v) \<in> set es. f k' v = k then None else kv_get s k)"
  by (induction es arbitrary: s) (auto simp: store_simps)

lemma kv_ok_fold_del: "kv_ok s \<Longrightarrow> kv_ok (fold (\<lambda>(k, v). kv_del (f k v)) es s)"
  by (induction es arbitrary: s) auto

definition expired_entries :: "int \<Rightarrow> room \<Rightarrow> (jstr \<times> room_entry) list" where
  "expired_entries now ro =
     filter (\<lambda>(_, m). rr_createdAt m < now - ROOM_RETENTION_MS) (take 256 (ro_messages ro))"

lemma expired_mem:
  "room_inv ro \<Longrightarrow> (k, e) \<in> set (expired_entries now ro) \<Longrightarrow> kv_get (ro_messages ro) k = Some e"
  unfolding expired_entries_def room_inv_def
  using kv_ok_mem_iff [of "ro_messages ro" k e] by (auto dest: in_set_takeD)

lemma prune_messages:
  assumes "room_inv ro"
  shows "kv_get (ro_messages (pruneLedger now ro)) k =
    (if \<exists>e. (k, e) \<in> set (expired_entries now ro) then None else kv_get (ro_messages ro) k)"
  unfolding pruneLedger_def expired_entries_def [symmetric] Let_def
  using kv_get_fold_del [of "\<lambda>k _. k" "expired_entries now ro" "ro_messages ro" k] by auto

lemma prune_ids:
  assumes "room_inv ro"
  shows "kv_get (ro_ids (pruneLedger now ro)) i =
    (if \<exists>k e. (k, e) \<in> set (expired_entries now ro) \<and> rr_id e = i then None else kv_get (ro_ids ro) i)"
  unfolding pruneLedger_def expired_entries_def [symmetric] Let_def
  using kv_get_fold_del [of "\<lambda>_ m. rr_id m" "expired_entries now ro" "ro_ids ro" i] by auto

lemma prune_frame [simp]:
  "ro_sequence (pruneLedger now ro) = ro_sequence ro" "ro_members (pruneLedger now ro) = ro_members ro"
  "ro_config (pruneLedger now ro) = ro_config ro"
  by (simp_all add: pruneLedger_def Let_def)

lemma prune_inv: "room_inv ro \<Longrightarrow> room_inv (pruneLedger now ro)"
proof -
  assume inv: "room_inv ro"
  have "kv_ok (ro_messages (pruneLedger now ro))"
    unfolding pruneLedger_def Let_def
    using inv kv_ok_fold_del [of "ro_messages ro" "\<lambda>k _. k"] by (simp add: room_inv_def)
  moreover have "entries_ok (pruneLedger now ro)"
    unfolding entries_ok_def
  proof (intro allI impI)
    fix k e
    assume "kv_get (ro_messages (pruneLedger now ro)) k = Some e"
    then have k: "kv_get (ro_messages ro) k = Some e" "\<nexists>e'. (k, e') \<in> set (expired_entries now ro)"
      by (auto simp: prune_messages [OF inv] split: if_splits)
    have "\<nexists>k' e'. (k', e') \<in> set (expired_entries now ro) \<and> rr_id e' = rr_id e"
    proof clarify
      fix k' e'
      assume e': "(k', e') \<in> set (expired_entries now ro)" "rr_id e' = rr_id e"
      have "k' = k" using inv k(1) e'(2) expired_mem [OF inv e'(1)]
        unfolding room_inv_def entries_ok_def by (metis option.inject)
      with e'(1) k(2) show False by blast
    qed
    then show "k = message_key (rr_seq e) \<and> rr_seq e \<le> ro_sequence (pruneLedger now ro) \<and>
        kv_get (ro_ids (pruneLedger now ro)) (rr_id e) = Some (rr_seq e)"
      using inv k(1) unfolding room_inv_def entries_ok_def by (auto simp: prune_ids [OF inv])
  qed
  moreover have "ids_ok (pruneLedger now ro)"
    unfolding ids_ok_def
  proof (intro allI impI)
    fix i s
    assume "kv_get (ro_ids (pruneLedger now ro)) i = Some s"
    then have i: "kv_get (ro_ids ro) i = Some s" "\<nexists>k e. (k, e) \<in> set (expired_entries now ro) \<and> rr_id e = i"
      by (auto simp: prune_ids [OF inv] split: if_splits)
    then obtain e where e: "kv_get (ro_messages ro) (message_key s) = Some e" "rr_id e = i" "rr_seq e = s"
      using inv unfolding room_inv_def ids_ok_def by blast
    then have "\<nexists>e'. (message_key s, e') \<in> set (expired_entries now ro)"
      using i(2) expired_mem [OF inv] by (metis option.inject)
    with e show "\<exists>e. kv_get (ro_messages (pruneLedger now ro)) (message_key s) = Some e \<and> rr_id e = i \<and> rr_seq e = s"
      by (auto simp: prune_messages [OF inv])
  qed
  ultimately show ?thesis using inv by (simp add: room_inv_def members_ok_def)
qed

section \<open>What a post does to the room\<close>

lemma fan_context_room:
  "\<exists>c. fst (fan_context_of env cfg entry replyTo sender targets ro) = ro\<lparr>ro_config := c\<rparr>"
  by (auto simp: fan_context_of_def roomOrgSlug_def split: option.splits prod.splits
      intro: exI [of _ "ro_config ro"])

text \<open>A post leaves the room alone, or commits an entry and then perhaps prunes the ledger.\<close>

lemma post_room:
  obtains (same) "fst (fst (post env from' body replyTo messageId (ro, hubs))) = ro"
  | (kept) c where "fst (fst (post env from' body replyTo messageId (ro, hubs))) =
      (fst (commit_entry env from' body replyTo messageId ro))\<lparr>ro_config := c\<rparr>"
  | (pruned) c where "fst (fst (post env from' body replyTo messageId (ro, hubs))) =
      pruneLedger (rv_now env) ((fst (commit_entry env from' body replyTo messageId ro))\<lparr>ro_config := c\<rparr>)"
proof -
  let ?c = "fst (commit_entry env from' body replyTo messageId ro)"
  have "(\<exists>c. fst (fst (commit_and_fan env cfg sender from' body replyTo messageId (ro, hubs))) = ?c\<lparr>ro_config := c\<rparr>) \<or>
    (\<exists>c. fst (fst (commit_and_fan env cfg sender from' body replyTo messageId (ro, hubs))) =
       pruneLedger (rv_now env) (?c\<lparr>ro_config := c\<rparr>))" for cfg sender
  proof -
    obtain ro1 entry dup where c: "commit_entry env from' body replyTo messageId ro = (ro1, entry, dup)"
      by (cases "commit_entry env from' body replyTo messageId ro")
    let ?targets = "filter (\<lambda>m. rb_address m \<noteq> from') (members_of cfg ro1)"
    obtain ro2 x where f: "fan_context_of env cfg entry replyTo sender ?targets ro1 = (ro2, x)"
      by (cases "fan_context_of env cfg entry replyTo sender ?targets ro1")
    obtain c' where r: "ro2 = ro1\<lparr>ro_config := c'\<rparr>"
      using fan_context_room [of env cfg entry replyTo sender ?targets ro1] f by auto
    have one: "ro1 = ro1\<lparr>ro_config := ro_config ro1\<rparr>" by simp
    show ?thesis
    proof (cases dup)
      case True
      then show ?thesis using one by (simp add: commit_and_fan_def c) (rule disjI1, rule exI [of _ "ro_config ro1"], simp)
    next
      case False
      then show ?thesis by (cases x) (auto simp: commit_and_fan_def c f r Let_def split_def)
    qed
  qed
  then show ?thesis
    using same kept pruned
    by (cases "post_checks env from' body messageId ro")
      (fastforce simp: post_def split: option.splits prod.splits)+
qed

lemma post_inv: "room_inv ro \<Longrightarrow> room_inv (fst (fst (post env from' body replyTo messageId (ro, hubs))))"
  by (cases rule: post_room [of env from' body replyTo messageId ro hubs])
    (simp_all add: commit_inv prune_inv)

lemma configure_inv: "room_inv ro \<Longrightarrow> room_inv (fst (configure cfg ro))"
  by (simp add: configure_def)

lemmas room_operations_inv = configure_inv join_inv leave_inv post_inv acknowledge_inv

lemma channel_delivery_room:
  "fst (fst (queueChannelDelivery env inp (ro, hubs))) = ro"
  "fst (fst (cancelChannelDelivery env ident (ro, hubs))) = ro"
  by (auto simp: queueChannelDelivery_def cancelChannelDelivery_def Let_def split: sum.splits prod.splits)

lemma destroy_inv: "room_inv ro \<Longrightarrow> room_inv (fst (destroy ro))"
  by (auto simp: destroy_def room_inv_new split: sum.splits)

lemma run_room_inv: "room_inv ro \<Longrightarrow> room_inv (run_room env op' ro)"
  using room_operations_inv destroy_inv by (cases op') (simp_all add: channel_delivery_room)

lemma run_rooms_inv: "room_inv ro \<Longrightarrow> room_inv (run_rooms ops ro)"
  by (induction ops arbitrary: ro) (auto simp: run_room_inv)

text \<open>What appending means: old sequences keep their entries or lose them, new ones are beyond the counter.\<close>

definition appends :: "room \<Rightarrow> room \<Rightarrow> bool" where
  "appends ro ro' \<longleftrightarrow> ro_sequence ro \<le> ro_sequence ro' \<and>
     (\<forall>k e. kv_get (ro_messages ro') k = Some e \<longrightarrow>
        kv_get (ro_messages ro) k = Some e \<or> ro_sequence ro < rr_seq e)"

lemma appends_frame [simp]: "appends ro (ro'\<lparr>ro_config := c\<rparr>) = appends ro ro'"
  by (simp add: appends_def)

lemma appends_refl: "appends ro ro"
  by (simp add: appends_def)

lemma appends_trans: "appends ro ro1 \<Longrightarrow> appends ro1 ro2 \<Longrightarrow> appends ro ro2"
  unfolding appends_def by (meson le_trans order_le_less_trans)

lemma commit_appends: "appends ro (fst (commit_entry env from' body replyTo messageId ro))"
  by (auto simp: appends_def commit_entry_def Let_def store_simps split: option.splits if_splits)

lemma prune_appends: "room_inv ro \<Longrightarrow> appends ro (pruneLedger now ro)"
  by (auto simp: appends_def prune_messages split: if_splits)

lemma run_room_appends: "room_inv ro \<Longrightarrow> op' \<noteq> RDestroy \<Longrightarrow> appends ro (run_room env op' ro)"
proof (cases op')
  case (RPost from' body replyTo messageId hubs)
  assume inv: "room_inv ro"
  let ?c = "fst (commit_entry env from' body replyTo messageId ro)"
  show ?thesis unfolding RPost run_room.simps
  proof (cases rule: post_room [of env from' body replyTo messageId ro hubs])
    case (pruned c)
    then have "appends (?c\<lparr>ro_config := c\<rparr>) (fst (fst (post env from' body replyTo messageId (ro, hubs))))"
      using prune_appends commit_inv [OF inv] by (metis room_inv_frame)
    then show "appends ro (fst (fst (post env from' body replyTo messageId (ro, hubs))))"
      using commit_appends [of ro env from' body replyTo messageId] appends_trans appends_frame by meson
  qed (simp_all add: appends_refl commit_appends)
qed (auto simp: appends_def configure_def join_def leave_def acknowledge_def channel_delivery_room Let_def
    split: sum.splits option.splits transit_address.splits)

lemma run_rooms_appends: "room_inv ro \<Longrightarrow> RDestroy \<notin> snd ` set ops \<Longrightarrow> appends ro (run_rooms ops ro)"
proof (induction ops arbitrary: ro)
  case (Cons x ops)
  obtain env op' where x: "x = (env, op')" by (cases x)
  have "appends ro (run_room env op' ro)" "appends (run_room env op' ro) (run_rooms ops (run_room env op' ro))"
    using Cons run_room_inv run_room_appends x by auto
  then show ?case unfolding x run_rooms.simps by (rule appends_trans)
qed (simp add: appends_refl)

section \<open>What a post does to the hubs\<close>

definition hubs_inv :: "hub_store \<Rightarrow> bool" where
  "hubs_inv hubs \<longleftrightarrow> (\<forall>n. hub_inv (hub_at hubs n))"

definition known_delivery :: "host_hub \<Rightarrow> jstr \<Rightarrow> bool" where
  "known_delivery st mkey \<longleftrightarrow> delivery_status_of st mkey \<noteq> None"

lemma hub_at_inv: "hubs_inv hubs \<Longrightarrow> hub_inv (hub_at hubs n)"
  by (simp add: hubs_inv_def)

lemma hubs_inv_empty: "hubs_inv []"
  by (simp add: hubs_inv_def hub_at_def new_hub_inv)

lemma hub_at_put: "hub_at (kv_put n st hubs) n' = (if n' = n then st else hub_at hubs n')"
  by (simp add: hub_at_def store_simps)

lemma hubs_inv_put: "hubs_inv hubs \<Longrightarrow> hub_inv st \<Longrightarrow> hubs_inv (kv_put n st hubs)"
  by (simp add: hubs_inv_def hub_at_put)

lemma hubs_inv_single: "hub_inv st \<Longrightarrow> hubs_inv [(n, st)]"
  by (simp add: hubs_inv_def hub_at_def new_hub_inv)

lemma queueDelivery_known:
  assumes "hub_inv st"
  shows "known_delivery st k \<Longrightarrow> known_delivery (fst (queueDelivery env inp st)) k"
    and "snd (snd (queueDelivery env inp st)) \<noteq> NoRouteTo \<Longrightarrow>
      known_delivery (fst (queueDelivery env inp st)) (input_key inp)"
proof -
  have d: "known_delivery (fst (dispatchQueued env (fst (enqueue env inp st)))) k =
      known_delivery (fst (enqueue env inp st)) k" for k
    using dispatch_status [OF enqueue_inv [OF assms], of env env inp k] unfolding known_delivery_def
    by (elim disjE conjE) simp_all
  have e: "known_delivery (fst (enqueue env inp st)) k \<longleftrightarrow> known_delivery st k \<or>
      (k = input_key inp \<and> snd (enqueue env inp st) = Queued)" for k
    by (auto simp: known_delivery_def delivery_status_of_def enqueue_def input_key_def Let_def store_simps)
  have dup: "snd (enqueue env inp st) = Duplicate \<Longrightarrow> known_delivery st (input_key inp)"
    by (auto simp: known_delivery_def delivery_status_of_def enqueue_def input_key_def Let_def
        split: if_splits option.splits)
  have two: "snd (enqueue env inp st) = Queued \<or> snd (enqueue env inp st) = Duplicate"
    by (auto simp: enqueue_def Let_def)
  show "known_delivery st k \<Longrightarrow> known_delivery (fst (queueDelivery env inp st)) k"
    and "snd (snd (queueDelivery env inp st)) \<noteq> NoRouteTo \<Longrightarrow>
      known_delivery (fst (queueDelivery env inp st)) (input_key inp)"
    using d e dup two by (auto simp: queueDelivery_def Let_def split_def)
qed

text \<open>What a call to a hub keeps, and what it establishes when it is taken.\<close>

definition hubs_grow :: "hub_store \<Rightarrow> hub_store \<Rightarrow> bool" where
  "hubs_grow hubs hubs' \<longleftrightarrow> (hubs_inv hubs \<longrightarrow> hubs_inv hubs') \<and>
     (\<forall>n k. hubs_inv hubs \<longrightarrow> known_delivery (hub_at hubs n) k \<longrightarrow> known_delivery (hub_at hubs' n) k)"

lemma hubs_grow_refl: "hubs_grow hubs hubs"
  by (simp add: hubs_grow_def)

lemma hubs_grow_trans: "hubs_grow h1 h2 \<Longrightarrow> hubs_grow h2 h3 \<Longrightarrow> hubs_grow h1 h3"
  by (simp add: hubs_grow_def)

lemma call_queue_facts:
  assumes "call_queueDelivery env name inp hubs = (hubs', r)"
  shows "hubs_grow hubs hubs'"
    and "n \<noteq> name \<Longrightarrow> hub_at hubs' n = hub_at hubs n"
    and "hubs_inv hubs \<Longrightarrow> r = Inr qs \<Longrightarrow> qs \<noteq> NoRouteTo \<Longrightarrow>
      known_delivery (hub_at hubs' name) (input_key inp)"
proof -
  obtain st effs s where q: "queueDelivery (rv_hub env) inp (hub_at hubs name) = (st, effs, s)"
    by (metis prod_cases3)
  have "hub_inv st" if "hubs_inv hubs"
    using queueDelivery_inv [OF hub_at_inv [OF that, of name], of "rv_hub env" inp] q by simp
  moreover have "known_delivery st k" if "hubs_inv hubs" "known_delivery (hub_at hubs name) k" for k
    using queueDelivery_known(1) [OF hub_at_inv [OF that(1)] that(2), of "rv_hub env" inp] q by simp
  moreover have "known_delivery st (input_key inp)" if "hubs_inv hubs" "s \<noteq> NoRouteTo"
    using queueDelivery_known(2) [OF hub_at_inv [OF that(1), of name], of "rv_hub env" inp] that(2) q by simp
  ultimately show "hubs_grow hubs hubs'"
      and "n \<noteq> name \<Longrightarrow> hub_at hubs' n = hub_at hubs n"
      and "hubs_inv hubs \<Longrightarrow> r = Inr qs \<Longrightarrow> qs \<noteq> NoRouteTo \<Longrightarrow>
        known_delivery (hub_at hubs' name) (input_key inp)"
    using assms q
    by (auto simp: call_queueDelivery_def hubs_grow_def hub_at_put hubs_inv_put split: option.splits)
qed

text \<open>The place a member's copy goes to, and the tenants a post may reach.\<close>

definition in_member_hub :: "hub_store \<Rightarrow> room_member \<Rightarrow> jstr \<Rightarrow> bool" where
  "in_member_hub hubs m ident \<longleftrightarrow>
     (case parseAddress (rb_address m) of
        Inr (AgentAddress name host _ _) \<Rightarrow>
          known_delivery (hub_at hubs (hub_name (rb_org m) host)) (marker_key ident name)
      | _ \<Rightarrow> False)"

definition may_reach :: "room_env \<Rightarrow> room_config \<Rightarrow> jstr \<Rightarrow> bool" where
  "may_reach env cfg org \<longleftrightarrow> org = rf_org cfg \<or> connectedOrganizationById (rv_db env) (rf_org cfg) org \<noteq> None"

lemma deliver_to_facts:
  assumes "deliver_to env fc m hubs = (hubs', outcome)"
  shows "hubs_grow hubs hubs'"
    and "hub_at hubs' n \<noteq> hub_at hubs n \<Longrightarrow>
      may_reach env (fc_config fc) (rb_org m) \<and> (\<exists>host. n = hub_name (rb_org m) host)"
    and "hubs_inv hubs \<Longrightarrow> outcome = None \<Longrightarrow> in_member_hub hubs' m (rr_id (fc_entry fc))"
    and "\<not> may_reach env (fc_config fc) (rb_org m) \<Longrightarrow> outcome = Some (js ''organization_connection_revoked'')"
proof -
  consider (skip) err where "hubs' = hubs" "outcome = Some err"
      "\<not> may_reach env (fc_config fc) (rb_org m) \<longrightarrow> err = js ''organization_connection_revoked''"
    | (call) name host organization addr envelope r live where
      "may_reach env (fc_config fc) (rb_org m)"
      "parseAddress (rb_address m) = Inr (AgentAddress name host organization addr)"
      "call_queueDelivery env (hub_name (rb_org m) host) (post_input fc m name host addr envelope live) hubs = (hubs', r)"
      "outcome = None \<longleftrightarrow> (\<exists>s. r = Inr s \<and> s \<noteq> NoRouteTo)"
  proof (cases "rb_org m \<noteq> rf_org (fc_config fc) \<and> truthy (connection_state env (fc_config fc) (rb_org m)) = None")
    case True
    then have "hubs' = hubs" "outcome = Some (js ''organization_connection_revoked'')"
      using assms by (auto simp: deliver_to_def Let_def)
    then show ?thesis by (intro skip) auto
  next
    case False
    then have may: "may_reach env (fc_config fc) (rb_org m)"
      by (auto simp: may_reach_def connection_state_def truthy_def split: if_splits option.splits)
    show ?thesis
    proof (cases "parseAddress (rb_address m)")
      case (Inl e)
      then show ?thesis using assms False may by (intro skip [of "err_message e"]) (auto simp: deliver_to_def Let_def)
    next
      case (Inr a)
      show ?thesis
      proof (cases a)
        case (RoomAddress r o' ad)
        then show ?thesis using assms False may Inr
          by (intro skip [of "js ''invalid member address''"]) (auto simp: deliver_to_def Let_def)
      next
        case (AgentAddress name host organization addr)
        show ?thesis
        proof (cases "envelope_from fc m")
          case (Inl e)
          then show ?thesis using assms False may Inr AgentAddress
            by (intro skip [of e]) (auto simp: deliver_to_def Let_def)
        next
          case from': (Inr f)
          let ?inp = "post_input fc m name host addr (room_envelope_for fc m f) (connection_state env (fc_config fc) (rb_org m))"
          obtain h r where c: "call_queueDelivery env (hub_name (rb_org m) host) ?inp hubs = (h, r)"
            by (cases "call_queueDelivery env (hub_name (rb_org m) host) ?inp hubs")
          have "hubs' = h \<and> (outcome = None \<longleftrightarrow> (\<exists>s. r = Inr s \<and> s \<noteq> NoRouteTo))"
            using assms False Inr AgentAddress from' c
            by (cases r) (auto simp: deliver_to_def Let_def split: queue_status.splits)
          then show ?thesis using c may Inr AgentAddress by (intro call) auto
        qed
      qed
    qed
  qed
  note split = this
  show "hubs_grow hubs hubs'"
    using split by cases (auto simp: hubs_grow_refl dest: call_queue_facts(1))
  show "hub_at hubs' n \<noteq> hub_at hubs n \<Longrightarrow>
      may_reach env (fc_config fc) (rb_org m) \<and> (\<exists>host. n = hub_name (rb_org m) host)"
    using split call_queue_facts(2) by cases (auto, metis)
  show "hubs_inv hubs \<Longrightarrow> outcome = None \<Longrightarrow> in_member_hub hubs' m (rr_id (fc_entry fc))"
    using split
  proof cases
    case (call name host organization addr envelope r live)
    assume "hubs_inv hubs" "outcome = None"
    with call(2) call_queue_facts(3) [OF call(3)] call(4) show ?thesis
      by (auto simp: in_member_hub_def input_key_def post_input_def)
  qed simp
  show "\<not> may_reach env (fc_config fc) (rb_org m) \<Longrightarrow> outcome = Some (js ''organization_connection_revoked'')"
    using split by cases auto
qed

lemma in_member_hub_grow: "hubs_inv hubs \<Longrightarrow> hubs_grow hubs hubs' \<Longrightarrow> in_member_hub hubs m i \<Longrightarrow> in_member_hub hubs' m i"
  by (auto simp: in_member_hub_def hubs_grow_def split: sum.splits transit_address.splits)

lemma fan_out_facts:
  assumes "fan_out env fc ms hubs = (hubs', outcomes)"
  shows "map fst outcomes = ms" and "hubs_grow hubs hubs'"
    and "hub_at hubs' n \<noteq> hub_at hubs n \<Longrightarrow>
      \<exists>m \<in> set ms. may_reach env (fc_config fc) (rb_org m) \<and> (\<exists>host. n = hub_name (rb_org m) host)"
    and "hubs_inv hubs \<Longrightarrow> (m, None) \<in> set outcomes \<Longrightarrow> in_member_hub hubs' m (rr_id (fc_entry fc))"
    and "(m, outcome) \<in> set outcomes \<Longrightarrow> \<not> may_reach env (fc_config fc) (rb_org m) \<Longrightarrow>
      outcome = Some (js ''organization_connection_revoked'')"
proof -
  have "map fst outcomes = ms \<and> hubs_grow hubs hubs' \<and>
    (\<forall>n. hub_at hubs' n \<noteq> hub_at hubs n \<longrightarrow>
      (\<exists>m \<in> set ms. may_reach env (fc_config fc) (rb_org m) \<and> (\<exists>host. n = hub_name (rb_org m) host))) \<and>
    (\<forall>m. hubs_inv hubs \<longrightarrow> (m, None) \<in> set outcomes \<longrightarrow> in_member_hub hubs' m (rr_id (fc_entry fc))) \<and>
    (\<forall>m outcome. (m, outcome) \<in> set outcomes \<longrightarrow> \<not> may_reach env (fc_config fc) (rb_org m) \<longrightarrow>
      outcome = Some (js ''organization_connection_revoked''))"
    using assms
  proof (induction ms arbitrary: hubs hubs' outcomes)
    case (Cons m0 ms)
    obtain h1 o1 where d: "deliver_to env fc m0 hubs = (h1, o1)" by (cases "deliver_to env fc m0 hubs")
    obtain os where f: "fan_out env fc ms h1 = (hubs', os)" "outcomes = (m0, o1) # os"
      using Cons.prems d by (auto split: prod.splits)
    note IH = Cons.IH [OF f(1)] and D = deliver_to_facts [OF d]
    have g: "hubs_grow h1 hubs'" using IH by blast
    have inv: "hubs_inv hubs \<Longrightarrow> hubs_inv h1" using D(1) by (simp add: hubs_grow_def)
    show ?case
    proof (intro conjI allI impI)
      show "map fst outcomes = m0 # ms" using IH f(2) by simp
      show "hubs_grow hubs hubs'" using D(1) g by (rule hubs_grow_trans)
      fix n
      assume "hub_at hubs' n \<noteq> hub_at hubs n"
      then show "\<exists>m \<in> set (m0 # ms). may_reach env (fc_config fc) (rb_org m) \<and> (\<exists>host. n = hub_name (rb_org m) host)"
        using IH D(2) [of n] by (cases "hub_at h1 n = hub_at hubs n") auto
    next
      fix m
      assume "hubs_inv hubs" "(m, None) \<in> set outcomes"
      then show "in_member_hub hubs' m (rr_id (fc_entry fc))"
        using IH f(2) D(3) inv in_member_hub_grow [OF inv g] by auto
    next
      fix m outcome
      assume "(m, outcome) \<in> set outcomes" "\<not> may_reach env (fc_config fc) (rb_org m)"
      then show "outcome = Some (js ''organization_connection_revoked'')"
        using IH f(2) D(4) by (metis prod.inject set_ConsD)
    qed
  qed (simp add: hubs_grow_refl)
  then show "map fst outcomes = ms" and "hubs_grow hubs hubs'"
    and "hub_at hubs' n \<noteq> hub_at hubs n \<Longrightarrow>
      \<exists>m \<in> set ms. may_reach env (fc_config fc) (rb_org m) \<and> (\<exists>host. n = hub_name (rb_org m) host)"
    and "hubs_inv hubs \<Longrightarrow> (m, None) \<in> set outcomes \<Longrightarrow> in_member_hub hubs' m (rr_id (fc_entry fc))"
    and "(m, outcome) \<in> set outcomes \<Longrightarrow> \<not> may_reach env (fc_config fc) (rb_org m) \<Longrightarrow>
      outcome = Some (js ''organization_connection_revoked'')"
    by blast+
qed

text \<open>Whether a member's agent can take mail at its hub now; no delivery to others changes that.\<close>

definition takes_mail :: "room_env \<Rightarrow> hub_store \<Rightarrow> room_member \<Rightarrow> jstr \<Rightarrow> jstr \<Rightarrow> bool" where
  "takes_mail env hubs m name host \<longleftrightarrow>
     canReceive (rv_hub env) (hub_at hubs (hub_name (rb_org m) host)) name (rb_org m) host"

definition connected_member :: "room_env \<Rightarrow> room_config \<Rightarrow> room_member \<Rightarrow> bool" where
  "connected_member env cfg m \<longleftrightarrow> rb_org m = rf_org cfg \<or>
     (\<exists>c slug. connectedOrganizationById (rv_db env) (rf_org cfg) (rb_org m) = Some (c, slug) \<and> c \<noteq> [])"

lemma connected_state:
  "connected_member env cfg m \<longleftrightarrow> rb_org m = rf_org cfg \<or> truthy (connection_state env cfg (rb_org m)) \<noteq> None"
  by (auto simp: connected_member_def connection_state_def truthy_def split: option.splits)

lemma queueDelivery_people:
  "hub_roster (fst (queueDelivery env inp st)) = hub_roster st \<and> hub_gone (fst (queueDelivery env inp st)) = hub_gone st"
  by (simp add: queueDelivery_def enqueue_def Let_def split_def)

lemma call_queue_takes:
  assumes "call_queueDelivery env n inp hubs = (hubs', r)"
  shows "takes_mail env hubs' m name host = takes_mail env hubs m name host"
proof -
  have "hub_roster (hub_at hubs' x) = hub_roster (hub_at hubs x) \<and> hub_gone (hub_at hubs' x) = hub_gone (hub_at hubs x)" for x
    using assms queueDelivery_people [of "rv_hub env" inp "hub_at hubs n"]
    by (auto simp: call_queueDelivery_def Let_def split_def hub_at_put split: option.splits)
  then show ?thesis by (simp add: takes_mail_def canReceive_def hasAgent_def departedAt_def)
qed

lemma deliver_to_takes:
  assumes "deliver_to env fc m0 hubs = (hubs', outcome)"
  shows "takes_mail env hubs' m name host = takes_mail env hubs m name host"
  using assms call_queue_takes
  by (auto simp: deliver_to_def Let_def split: if_splits sum.splits transit_address.splits prod.splits queue_status.splits)

text \<open>What the call for one member comes to.\<close>

definition member_outcome :: "room_env \<Rightarrow> hub_store \<Rightarrow> room_member \<Rightarrow> jstr \<Rightarrow> jstr \<Rightarrow> jstr option" where
  "member_outcome env hubs m name host =
     (case rv_unreachable env (hub_name (rb_org m) host) of
        Some err \<Rightarrow> Some err
      | None \<Rightarrow> if takes_mail env hubs m name host then None else Some (js ''no_route''))"

lemma deliver_to_exact:
  assumes "deliver_to env fc m hubs = (hubs', outcome)"
    and "parseAddress (rb_address m) = Inr (AgentAddress name host organization addr)"
  shows "outcome = (if \<not> connected_member env (fc_config fc) m then Some (js ''organization_connection_revoked'')
    else (case envelope_from fc m of Inl err \<Rightarrow> Some err | Inr _ \<Rightarrow> member_outcome env hubs m name host))"
proof -
  have q: "snd (snd (queueDelivery he inp st)) = NoRouteTo \<longleftrightarrow> \<not> canReceive he st (qi_agent inp) (qi_targetOrg inp) (qi_targetHost inp)"
    for he inp st by (auto simp: queueDelivery_def Let_def split_def enqueue_def)
  have r: "snd (call_queueDelivery env (hub_name (rb_org m) host) (post_input fc m name host a e l) hubs) =
      (case rv_unreachable env (hub_name (rb_org m) host) of Some err \<Rightarrow> Inl err
       | None \<Rightarrow> Inr (snd (snd (queueDelivery (rv_hub env) (post_input fc m name host a e l) (hub_at hubs (hub_name (rb_org m) host))))))"
    for a e l by (auto simp: call_queueDelivery_def Let_def split_def split: option.splits)
  show ?thesis
  proof (cases "connected_member env (fc_config fc) m")
    case False
    then show ?thesis using assms by (auto simp: connected_state deliver_to_def Let_def)
  next
    case True
    then have c: "\<not> (rb_org m \<noteq> rf_org (fc_config fc) \<and> truthy (connection_state env (fc_config fc) (rb_org m)) = None)"
      by (auto simp: connected_state)
    show ?thesis
    proof (cases "envelope_from fc m")
      case (Inl err)
      then show ?thesis using assms True c by (auto simp: deliver_to_def Let_def)
    next
      case (Inr f)
      let ?inp = "post_input fc m name host addr (room_envelope_for fc m f) (connection_state env (fc_config fc) (rb_org m))"
      obtain h r where call: "call_queueDelivery env (hub_name (rb_org m) host) ?inp hubs = (h, r)"
        by (cases "call_queueDelivery env (hub_name (rb_org m) host) ?inp hubs")
      then have "outcome = (case r of Inl e \<Rightarrow> Some e | Inr st \<Rightarrow> if st = NoRouteTo then Some (js ''no_route'') else None)"
        using assms c Inr
        by (auto simp: deliver_to_def Let_def simp del: js_simps split: sum.splits queue_status.splits)
      moreover have "takes_mail env hubs m name host \<longleftrightarrow>
          snd (snd (queueDelivery (rv_hub env) ?inp (hub_at hubs (hub_name (rb_org m) host)))) \<noteq> NoRouteTo"
        by (simp add: q takes_mail_def post_input_def)
      ultimately show ?thesis
        using r [of addr "room_envelope_for fc m f" "connection_state env (fc_config fc) (rb_org m)"] call True Inr
        by (auto simp: member_outcome_def simp del: js_simps split: option.splits)
    qed
  qed
qed

lemma fan_out_exact:
  assumes "fan_out env fc ms hubs = (hubs', outcomes)" and "(m, outcome) \<in> set outcomes"
    and "parseAddress (rb_address m) = Inr (AgentAddress name host organization addr)"
  shows "outcome = (if \<not> connected_member env (fc_config fc) m then Some (js ''organization_connection_revoked'')
    else (case envelope_from fc m of Inl err \<Rightarrow> Some err | Inr _ \<Rightarrow> member_outcome env hubs m name host))"
  using assms(1,2)
proof (induction ms arbitrary: hubs hubs' outcomes)
  case (Cons m0 ms)
  obtain h1 o1 where d: "deliver_to env fc m0 hubs = (h1, o1)" by (cases "deliver_to env fc m0 hubs")
  obtain os where f: "fan_out env fc ms h1 = (hubs', os)" "outcomes = (m0, o1) # os"
    using Cons.prems d by (auto split: prod.splits)
  have same: "member_outcome env h1 m name host = member_outcome env hubs m name host"
    by (simp add: member_outcome_def deliver_to_takes [OF d])
  from Cons.prems(2) f(2) consider "m = m0" "outcome = o1" | "(m, outcome) \<in> set os" by auto
  then show ?case
  proof cases
    case 1
    show ?thesis unfolding 1 by (rule deliver_to_exact [OF d assms(3) [unfolded 1(1)]])
  next
    case 2
    from Cons.IH [OF f(1) this] show ?thesis unfolding same .
  qed
qed simp

text \<open>Whether the sender can be named to a member: across organizations that takes a valid slug.\<close>

definition nameable :: "room_env \<Rightarrow> room_config \<Rightarrow> room_member option \<Rightarrow> room_member \<Rightarrow> bool" where
  "nameable env cfg sender m \<longleftrightarrow>
     (case sender of None \<Rightarrow> True
      | Some s \<Rightarrow> rb_org s = rb_org m \<or>
          (\<forall>g. rf_orgSlug cfg = Some g \<or> rb_orgSlug s = Some g \<or> (\<exists>org. organizationSlugById (rv_db env) org = Some g) \<longrightarrow>
             validateOrganizationSlug g = Inr ()))"

lemma fan_context_sender:
  assumes "fan_context_of env cfg entry replyTo sender targets ro = (ro2, Inr fc)"
  shows "fc_sender fc = sender"
    and "fc_senderAddress fc = Some (name, host) \<Longrightarrow> \<exists>o' a. parseAddress (rr_from entry) = Inr (AgentAddress name host o' a)"
    and "rr_from entry = OPERATOR_ADDRESS \<Longrightarrow> fc_senderAddress fc = None"
    and "fc_senderOrgSlug fc = Some g \<Longrightarrow> rf_orgSlug cfg = Some g \<or> (\<exists>org. organizationSlugById (rv_db env) org = Some g) \<or>
      (\<exists>s. sender = Some s \<and> rb_orgSlug s = Some g)"
proof -
  show "fc_sender fc = sender"
    and "fc_senderAddress fc = Some (name, host) \<Longrightarrow> \<exists>o' a. parseAddress (rr_from entry) = Inr (AgentAddress name host o' a)"
    and "rr_from entry = OPERATOR_ADDRESS \<Longrightarrow> fc_senderAddress fc = None"
    using assms
    by (auto simp: fan_context_of_def Let_def result_simps thrown_Inr split: prod.splits if_splits sum.splits transit_address.splits)
  have room: "rf_orgSlug cfg = Some g \<or> organizationSlugById (rv_db env) (rf_org cfg) = Some g"
    if "roomOrgSlug env cfg ro = (r, Inr g)" for r g
    using that by (auto simp: roomOrgSlug_def truthy_def split: option.splits if_splits)
  have "\<exists>slug r. (slug = None \<or> (\<exists>g. slug = Some g \<and> roomOrgSlug env cfg ro = (r, Inr g))) \<and>
      fc_senderOrgSlug fc = (case sender of
                  Some s \<Rightarrow>
                    if rb_org s \<noteq> rf_org cfg
                    then (case rb_orgSlug s of Some g \<Rightarrow> Some g | None \<Rightarrow> organizationSlugById (rv_db env) (rb_org s))
                    else slug
                | None \<Rightarrow> slug)"
    using assms
    by (auto simp: fan_context_of_def Let_def result_simps split: prod.splits if_splits sum.splits)
  then obtain slug where slug: "slug = None \<or> (\<exists>g. slug = Some g \<and> (rf_orgSlug cfg = Some g \<or> organizationSlugById (rv_db env) (rf_org cfg) = Some g))"
    and fc: "fc_senderOrgSlug fc = (case sender of
                  Some s \<Rightarrow>
                    if rb_org s \<noteq> rf_org cfg
                    then (case rb_orgSlug s of Some g \<Rightarrow> Some g | None \<Rightarrow> organizationSlugById (rv_db env) (rb_org s))
                    else slug
                | None \<Rightarrow> slug)"
    using room by blast
  show "fc_senderOrgSlug fc = Some g \<Longrightarrow> rf_orgSlug cfg = Some g \<or> (\<exists>org. organizationSlugById (rv_db env) org = Some g) \<or>
      (\<exists>s. sender = Some s \<and> rb_orgSlug s = Some g)"
    using slug fc by (auto split: option.splits if_splits)
qed

lemma nameable_envelope:
  assumes "fan_context_of env cfg entry replyTo sender targets ro = (ro2, Inr fc)"
    and "nameable env cfg sender m" "sender = None \<Longrightarrow> rr_from entry = OPERATOR_ADDRESS"
  shows "\<exists>f. envelope_from fc m = Inr f"
proof (cases "fc_senderAddress fc")
  case None
  then show ?thesis by (simp add: envelope_from_def)
next
  case (Some nh)
  obtain name host where nh: "nh = (name, host)" by (cases nh)
  note S = fan_context_sender [OF assms(1)]
  obtain o' a where p: "parseAddress (rr_from entry) = Inr (AgentAddress name host o' a)" using S(2) Some nh by blast
  then have v: "validateName name = Inr ()" "validateHost host = Inr ()"
    using address.enc_dec [of "rr_from entry" "AgentAddress name host o' a"] formatAgentAddress_Inr
    by (auto simp: parse_option_def valid_address_def)
  obtain s where s: "sender = Some s" using S(3) assms(3) Some by fastforce
  have "org_ok (truthy (if rb_org s = rb_org m then None else fc_senderOrgSlug fc))"
    using assms(2) S(4) s by (auto simp: nameable_def org_ok_def truthy_def split: option.splits)
  then have "\<exists>t. formatAgentAddress name host (if rb_org s = rb_org m then None else fc_senderOrgSlug fc) = Inr t"
    using v by (auto simp: formatAgentAddress_def result_simps validateOptionalOrganization_def org_ok_def truthy_def Let_def split: option.splits if_splits)
  then show ?thesis using Some nh s S(1) by (auto simp: envelope_from_def)
qed

text \<open>No error of a delivery is the empty text, unless the hub's own is.\<close>

lemma format_error: "formatAgentAddress name host organization = Inl e \<Longrightarrow> err_message e \<noteq> []"
  by (auto simp: formatAgentAddress_def result_simps validateName_def validateHost_def validateOptionalOrganization_def
      validateOrganizationSlug_def Let_def split: if_splits option.splits)

lemma outcome_not_empty:
  assumes "fan_out env fc ms hubs = (hubs', outcomes)" and "(m, Some err) \<in> set outcomes"
    and "parseAddress (rb_address m) = Inr (AgentAddress name host organization addr)"
    and "\<forall>n. rv_unreachable env n \<noteq> Some []"
  shows "err \<noteq> []"
proof -
  have "js ''no_route'' \<noteq> []" "js ''organization_connection_revoked'' \<noteq> []" by (simp_all add: js_def)
  moreover have "envelope_from fc m = Inl x \<Longrightarrow> x \<noteq> []" for x
    using format_error by (auto simp: envelope_from_def thrown_def Let_def split: option.splits prod.splits sum.splits if_splits)
  ultimately show ?thesis
    using fan_out_exact [OF assms(1-3)] assms(4)
    by (auto simp: member_outcome_def simp del: js_simps split: if_splits sum.splits option.splits)
qed

section \<open>The shape of a post\<close>

lemma post_checks_Inr:
  assumes "post_checks env from' body messageId ro = Inr (cfg, sender, x)"
  shows "requireConfig ro = Inr cfg" "utf8_length body \<le> MAX_MESSAGE_BYTES"
    "post_sender env cfg from' ro = Inr sender"
    "x = (case truthy messageId of None \<Rightarrow> None | Some m \<Rightarrow> committed_entry m ro)"
  using assms by (auto simp: post_checks_def result_simps guard_or_def split: option.splits if_splits)

text \<open>A post that returns: a retry, or a new entry with its fan-out.\<close>

lemma post_returns:
  assumes "post env from' body replyTo messageId (ro, hubs) = ((ro', hubs'), effs, Inr e)"
  obtains (retry) cfg sender where "post_checks env from' body messageId ro = Inr (cfg, sender, Some e)"
      "ro' = ro" "hubs' = hubs" "effs = []"
  | (raced) cfg sender where "post_checks env from' body messageId ro = Inr (cfg, sender, None)"
      "commit_entry env from' body replyTo messageId ro = (ro', e, True)" "hubs' = hubs" "effs = []"
  | (fresh) cfg sender ro1 c fc outcomes where
      "post_checks env from' body messageId ro = Inr (cfg, sender, None)"
      "commit_entry env from' body replyTo messageId ro = (ro1, e, False)"
      "ro' = pruneLedger (rv_now env) (ro1\<lparr>ro_config := c\<rparr>)" "fc_entry fc = e" "rf_org (fc_config fc) = rf_org cfg"
      "fan_out env fc (filter (\<lambda>m. rb_address m \<noteq> from') (members_of cfg ro)) hubs = (hubs', outcomes)"
      "effs = mirrorEntry env cfg e outcomes @ [RoomBroadcast (Message e) (rv_now env)]"
      "\<exists>targets ro2. fan_context_of env cfg e replyTo sender targets ro1 = (ro2, Inr fc)"
proof (cases "post_checks env from' body messageId ro")
  case (Inl err)
  then show ?thesis using assms by (simp add: post_def)
next
  case (Inr y)
  obtain cfg sender x where y: "y = (cfg, sender, x)" by (metis prod_cases3)
  show ?thesis
  proof (cases x)
    case (Some old)
    then have "ro' = ro \<and> hubs' = hubs \<and> effs = [] \<and> old = e" using assms Inr y by (simp add: post_def)
    with Some Inr y show ?thesis by (intro retry [of cfg sender]) simp_all
  next
    case None
    obtain ro1 entry dup where c: "commit_entry env from' body replyTo messageId ro = (ro1, entry, dup)"
      by (metis prod_cases3)
    have mem: "ro_members ro1 = ro_members ro"
      using c by (auto simp: commit_entry_def Let_def split: option.splits)
    let ?targets = "filter (\<lambda>m. rb_address m \<noteq> from') (members_of cfg ro1)"
    obtain ro2 z where f: "fan_context_of env cfg entry replyTo sender ?targets ro1 = (ro2, z)"
      by (cases "fan_context_of env cfg entry replyTo sender ?targets ro1")
    obtain cc where r: "ro2 = ro1\<lparr>ro_config := cc\<rparr>"
      using fan_context_room [of env cfg entry replyTo sender ?targets ro1] f by auto
    show ?thesis
    proof (cases dup)
      case True
      then have "ro' = ro1 \<and> hubs' = hubs \<and> effs = [] \<and> entry = e"
        using assms Inr y None c by (simp add: post_def commit_and_fan_def)
      with True Inr y None c show ?thesis by (intro raced [of cfg sender]) simp_all
    next
      case False
      then obtain fc where z: "z = Inr fc"
        using assms Inr y None c f by (cases z) (auto simp: post_def commit_and_fan_def Let_def)
      then have fc: "fc_entry fc = entry" "rf_org (fc_config fc) = rf_org cfg"
        using f by (auto simp: fan_context_of_def Let_def result_simps split: prod.splits if_splits option.splits)
      obtain os where o': "fan_out env fc ?targets hubs = (hubs', os)" "entry = e"
          "ro' = pruneLedger (rv_now env) ro2"
          "effs = mirrorEntry env cfg e os @ [RoomBroadcast (Message e) (rv_now env)]"
        using assms Inr y None c f z False
        by (auto simp: post_def commit_and_fan_def Let_def split: prod.splits)
      then show ?thesis
        using Inr y None c r fc False mem f z
        by (intro fresh [of cfg sender ro1 cc fc os]) (simp_all add: members_of_def, blast)
    qed
  qed
qed

lemma committed_after_post:
  assumes "room_inv ro" "m \<noteq> []" "post env from' body replyTo (Some m) (ro, hubs) = ((ro', hubs'), effs, Inr e)"
  shows "committed_entry m ro' = Some e"
  using assms(3)
proof (cases rule: post_returns)
  case (retry cfg sender)
  then show ?thesis using post_checks_Inr(4) [OF retry(1)] assms(2) by (simp add: truthy_def)
next
  case (raced cfg sender)
  then show ?thesis
    using post_checks_Inr(4) [OF raced(1)] assms(2)
    by (auto simp: truthy_def commit_entry_def Let_def split: option.splits)
next
  case (fresh cfg sender ro1 c fc outcomes)
  have inv: "room_inv (ro1\<lparr>ro_config := c\<rparr>)"
    using commit_inv [OF assms(1), of env from' body replyTo "Some m"] fresh(2) by simp
  have e: "rr_id e = m" "rr_createdAt e = rv_now env"
      "kv_get (ro_messages (ro1\<lparr>ro_config := c\<rparr>)) (message_key (rr_seq e)) = Some e"
    using fresh(2) by (auto simp: commit_entry_def Let_def store_simps split: option.splits)
  have "\<nexists>e'. (message_key (rr_seq e), e') \<in> set (expired_entries (rv_now env) (ro1\<lparr>ro_config := c\<rparr>))"
  proof clarify
    fix e'
    assume x: "(message_key (rr_seq e), e') \<in> set (expired_entries (rv_now env) (ro1\<lparr>ro_config := c\<rparr>))"
    then have "e' = e" using expired_mem [OF inv x] e(3) by simp
    with x e(2) show False by (auto simp: expired_entries_def ROOM_RETENTION_MS_def)
  qed
  then have "kv_get (ro_messages ro') (message_key (rr_seq e)) = Some e"
    unfolding fresh(3) prune_messages [OF inv] using e(3) by simp
  then show ?thesis
    using committed_entry_iff [OF prune_inv [OF inv, of "rv_now env"], of m e] fresh(3) e(1) by auto
qed

text \<open>A room of organization \<open>a\<close> with one member, whose hub publishes the agent; the operator posts.\<close>

definition room_demo_env :: "int \<Rightarrow> room_env" where
  "room_demo_env now = \<lparr>rv_db = connected_db, rv_now = now, rv_txId = js ''tx_9'',
     rv_canAcceptMessage = (\<lambda>_. True), rv_unreachable = (\<lambda>_. None),
     rv_hub = (demo_env now)\<lparr>he_db := connected_db\<rparr>\<rparr>"

definition demo_config :: room_config where
  "demo_config = \<lparr>rf_org = js ''a'', rf_orgSlug = None, rf_name = js ''ops'', rf_policy = Open, rf_createdAt = 1\<rparr>"

definition demo_member :: room_member where
  "demo_member = \<lparr>rb_address = js ''alice@titan'', rb_org = js ''a'', rb_orgSlug = None, rb_connectionId = None,
     rb_joinedAt = 1, rb_lastAckedSeq = 0\<rparr>"

definition demo_room :: room where
  "demo_room = \<lparr>ro_config = Some demo_config, ro_members = [(js ''alice@titan'', demo_member)],
     ro_messages = [], ro_ids = [], ro_sequence = 0\<rparr>"

definition demo_hubs :: hub_store where
  "demo_hubs = kv_put (hub_name (js ''a'') (js ''titan''))
     (new_hub\<lparr>hub_roster := [(js ''alice'', demo_agent ''alice'' ''p1'')]\<rparr>) []"

definition demo_post :: "(room \<times> hub_store) \<times> room_effect list \<times> (jstr + room_entry)" where
  "demo_post = post (room_demo_env 2) OPERATOR_ADDRESS (js ''hi'') None (Some (js ''tx_1'')) (demo_room, demo_hubs)"

lemma alice_parses: "parseAddress (js ''alice@titan'') =
   Inr (AgentAddress (js ''alice'') (js ''titan'') None (js ''alice@titan''))"
  by code_simp

lemma demo_room_inv: "room_inv demo_room"
  using alice_parses
  by (auto simp: room_inv_def entries_ok_def ids_ok_def members_ok_def demo_room_def demo_member_def kv_ok_def
      MAX_ROOM_MEMBERS_def simp del: js_simps)

lemma demo_hubs_inv: "hubs_inv demo_hubs"
proof -
  have "hub_inv (new_hub\<lparr>hub_roster := r\<rparr>)" for r by (simp add: hub_inv_def new_hub_def queue_inv_def)
  then show ?thesis unfolding demo_hubs_def by (intro hubs_inv_put) (simp_all add: hubs_inv_empty)
qed

lemma ack_returns:
  "ro_config ro = Some cfg \<Longrightarrow> \<exists>ro' effs. acknowledge env address sequence ro = (ro', effs, Inr ())"
  by (auto simp: acknowledge_def requireConfig_def Let_def split: option.splits)

lemma demo_room_config: "ro_config demo_room = Some demo_config"
  by (simp add: demo_room_def)

lemma demo_checks:
  "post_checks (room_demo_env 2) OPERATOR_ADDRESS (js ''hi'') (Some (js ''tx_1'')) demo_room = Inr (demo_config, None, None)"
  by (simp add: post_checks_def requireConfig_def demo_room_def post_sender_def truthy_def committed_entry_def
      room_demo_env_def MAX_MESSAGE_BYTES_def)

lemma operator_context:
  assumes "rr_from entry = OPERATOR_ADDRESS" "\<forall>m \<in> set targets. rb_org m = rf_org cfg"
  shows "\<exists>fc. fan_context_of env cfg entry replyTo None targets ro = (ro, Inr fc)"
proof -
  have "\<not> list_ex (\<lambda>m. rb_org m \<noteq> rf_org cfg) targets" using assms(2) by (auto simp: list_ex_iff)
  with assms(1) show ?thesis by (simp add: fan_context_of_def)
qed

lemma demo_post_returns: "\<exists>ro' hubs' effs e. demo_post = ((ro', hubs'), effs, Inr e) \<and> effs \<noteq> []"
proof -
  have d: "demo_post = commit_and_fan (room_demo_env 2) demo_config None OPERATOR_ADDRESS (js ''hi'') None
      (Some (js ''tx_1'')) (demo_room, demo_hubs)"
    unfolding demo_post_def post_def by (simp add: demo_checks del: js_simps)
  obtain ro1 entry where c: "commit_entry (room_demo_env 2) OPERATOR_ADDRESS (js ''hi'') None (Some (js ''tx_1'')) demo_room
      = (ro1, entry, False)" "rr_from entry = OPERATOR_ADDRESS" "ro_members ro1 = ro_members demo_room"
    by (simp add: commit_entry_def committed_entry_def demo_room_def Let_def del: js_simps)
  let ?targets = "filter (\<lambda>m. rb_address m \<noteq> OPERATOR_ADDRESS) (members_of demo_config ro1)"
  have "\<forall>m \<in> set ?targets. rb_org m = rf_org demo_config"
    by (auto simp: members_of_def c(3) demo_room_def demo_member_def normaliseMember_def demo_config_def)
  from operator_context [OF c(2) this, of "room_demo_env 2" None ro1] obtain fc where
    "fan_context_of (room_demo_env 2) demo_config entry None None ?targets ro1 = (ro1, Inr fc)" by blast
  then show ?thesis
    unfolding d commit_and_fan_def by (simp add: c(1) mirrorEntry_def Let_def split_def del: js_simps)
qed

section \<open>Properties\<close>



text \<open>
  C14: posting is idempotent. Once a post with an id has returned its entry, a later post with the
  same id, by whoever and with whatever body, either is refused or returns that same entry, and in
  either case writes nothing and calls no hub.
\<close>
theorem post_is_idempotent:
  assumes "room_inv ro" and "m \<noteq> []"
    and "post env from' body replyTo (Some m) (ro, hubs) = ((ro', hubs'), effs, Inr e)"
  shows "rr_id e = m \<and>
    (\<exists>r. post env2 from2 body2 replyTo2 (Some m) (ro', hubs2) = ((ro', hubs2), [], r) \<and>
       (r = Inr e \<or> (\<exists>err. r = Inl err)))"
proof -
  have inv: "room_inv ro'" using post_inv [OF assms(1), of env from' body replyTo "Some m" hubs] assms(3) by simp
  have c: "committed_entry m ro' = Some e" using committed_after_post [OF assms] .
  then have "rr_id e = m" using committed_entry_iff [OF inv] by blast
  moreover have "\<exists>r. post env2 from2 body2 replyTo2 (Some m) (ro', hubs2) = ((ro', hubs2), [], r) \<and>
      (r = Inr e \<or> (\<exists>err. r = Inl err))"
  proof (cases "post_checks env2 from2 body2 (Some m) ro'")
    case (Inr y)
    obtain cfg sender x where "y = (cfg, sender, x)" by (metis prod_cases3)
    with Inr post_checks_Inr(4) [of env2 from2 body2 "Some m" ro' cfg sender x] c assms(2) show ?thesis
      by (simp add: post_def truthy_def)
  qed (simp add: post_def)
  ultimately show ?thesis by blast
qed

lemma post_is_idempotent_witness:
  "\<exists>ro' hubs' effs e. demo_post = ((ro', hubs'), effs, Inr e) \<and> rr_id e = js ''tx_1''"
proof -
  obtain ro' hubs' effs e where d: "demo_post = ((ro', hubs'), effs, Inr e)" using demo_post_returns by blast
  have "js ''tx_1'' \<noteq> []" by simp
  from post_is_idempotent [OF demo_room_inv this d [unfolded demo_post_def]] d show ?thesis by blast
qed

text \<open>
  C11: a post reaches every member and stays within the tenants it may reach. When a new entry
  has been posted, the poster was the operator or a member whose organization owns the room or is
  connected to it now, and the body is at most 64 KB. What is written is the archive's row of the
  message, one row of the delivery ledger for each other member in their order, and the
  announcement. A member whose organization is not connected now has the row dead with
  \<open>organization_connection_revoked\<close>. Every other member, when the sender can be named to it, has the
  row dead with the hub's error if the hub did not answer, dead with \<open>no_route\<close> if the hub could not
  take mail for the agent, and otherwise queued. Whose row is queued, their hub knows the delivery
  for that agent. No hub changes but those of members whose organization is the room's or connected
  to it.
\<close>
theorem post_reaches_every_member:
  assumes "hubs_inv hubs" and "room_inv ro" and "\<forall>n. rv_unreachable env n \<noteq> Some []"
    and "post env from' body replyTo messageId (ro, hubs) = ((ro', hubs'), effs, Inr e)" and "effs \<noteq> []"
  shows "\<exists>cfg sender outcomes. ro_config ro = Some cfg \<and> utf8_length body \<le> 65536 \<and>
    (from' = OPERATOR_ADDRESS \<and> sender = None \<or>
     (\<exists>s. kv_get (ro_members ro) from' = Some s \<and> sender = Some (normaliseMember cfg s) \<and>
        may_reach env cfg (rb_org (normaliseMember cfg s)))) \<and>
    rr_from e = from' \<and> rr_body e = body \<and>
    map fst outcomes = filter (\<lambda>m. rb_address m \<noteq> from') (members_of cfg ro) \<and>
    effs = ArchiveRoomMessage \<lparr>ms_id = rr_id e, ms_orgId = rf_org cfg, ms_recipientOrgId = None, ms_kind = KindRoom,
        ms_fromAddr = from', ms_toAddr = HASH # rf_name cfg, ms_roomSeq = Some (rr_seq e), ms_body = body,
        ms_replyTo = rr_replyTo e, ms_createdAt = rr_createdAt e\<rparr> #
      map (\<lambda>(m, err). LedgerRoom (rr_id e) (rb_address m) (if err = None then LedgerQueued else LedgerDead) err (rv_now env)) outcomes @
      [RoomBroadcast (Message e) (rv_now env)] \<and>
    (\<forall>(m, err) \<in> set outcomes.
       (\<not> connected_member env cfg m \<longrightarrow> err = Some (js ''organization_connection_revoked'')) \<and>
       (connected_member env cfg m \<longrightarrow> nameable env cfg sender m \<longrightarrow>
          (\<exists>name host organization. parseAddress (rb_address m) = Inr (AgentAddress name host organization (rb_address m)) \<and>
             err = (case rv_unreachable env (hub_name (rb_org m) host) of
                 Some down \<Rightarrow> Some down
               | None \<Rightarrow> if canReceive (rv_hub env) (hub_at hubs (hub_name (rb_org m) host)) name (rb_org m) host
                   then None else Some (js ''no_route'')))) \<and>
       (err = None \<longrightarrow> in_member_hub hubs' m (rr_id e))) \<and>
    (\<forall>n. hub_at hubs' n \<noteq> hub_at hubs n \<longrightarrow>
       (\<exists>m \<in> set (members_of cfg ro). may_reach env cfg (rb_org m) \<and> (\<exists>host. n = hub_name (rb_org m) host)))"
  using assms(4)
proof (cases rule: post_returns)
  case (fresh cfg sender ro1 c fc outcomes)
  note chk = post_checks_Inr [OF fresh(1)] and F = fan_out_facts [OF fresh(6)]
  have same: "may_reach env (fc_config fc) = may_reach env cfg"
    by (simp add: may_reach_def [abs_def] fresh(5))
  have conn: "connected_member env (fc_config fc) = connected_member env cfg"
    by (simp add: connected_member_def [abs_def] fresh(5))
  have snd: "from' = OPERATOR_ADDRESS \<and> sender = None \<or>
     (\<exists>s. kv_get (ro_members ro) from' = Some s \<and> sender = Some (normaliseMember cfg s) \<and>
        may_reach env cfg (rb_org (normaliseMember cfg s)))"
    using chk(3) by (auto simp: post_sender_def may_reach_def Let_def split: if_splits option.splits)
  have conf: "ro_config ro = Some cfg" using chk(1) by (auto simp: requireConfig_def split: option.splits)
  have e: "rr_from e = from'" "rr_body e = body"
    using fresh(2) by (auto simp: commit_entry_def Let_def split: option.splits)
  have frame: "\<exists>m \<in> set (members_of cfg ro). may_reach env cfg (rb_org m) \<and> (\<exists>host. n = hub_name (rb_org m) host)"
    if "hub_at hubs' n \<noteq> hub_at hubs n" for n
    using F(3) [OF that] same by auto
  have parses: "\<exists>name host organization. parseAddress (rb_address m) = Inr (AgentAddress name host organization (rb_address m))"
    if "(m, err) \<in> set outcomes" for m err
  proof -
    have "m \<in> set (members_of cfg ro)" using F(1) that by (metis (no_types, lifting) filter_is_subset fst_conv image_eqI list.set_map subsetD)
    then obtain k m0 where m: "(k, m0) \<in> set (ro_members ro)" "m = normaliseMember cfg m0" by (auto simp: members_of_def)
    then have "kv_get (ro_members ro) k = Some m0" using assms(2) by (simp add: room_inv_def kv_ok_mem_iff)
    then have "rb_address m0 = k \<and> (\<exists>name host organization. parseAddress k = Inr (AgentAddress name host organization k))"
      using assms(2) unfolding room_inv_def members_ok_def by blast
    then show ?thesis by (simp add: m(2) normaliseMember_def)
  qed
  have known: "in_member_hub hubs' m (rr_id e)" if "(m, None) \<in> set outcomes" for m
    using F(4) [OF assms(1) that] fresh(4) by simp
  have revoked: "err = Some (js ''organization_connection_revoked'')"
    if "(m, err) \<in> set outcomes" "\<not> connected_member env cfg m" for m err
    using parses [OF that(1)] fan_out_exact [OF fresh(6) that(1)] that(2) conn by auto
  have exact: "\<exists>name host organization. parseAddress (rb_address m) = Inr (AgentAddress name host organization (rb_address m)) \<and>
      err = member_outcome env hubs m name host"
    if m: "(m, err) \<in> set outcomes" "connected_member env cfg m" "nameable env cfg sender m" for m err
  proof -
    obtain name host organization where p: "parseAddress (rb_address m) = Inr (AgentAddress name host organization (rb_address m))"
      using parses [OF m(1)] by blast
    obtain targets ro2 where ctx: "fan_context_of env cfg e replyTo sender targets ro1 = (ro2, Inr fc)"
      using fresh(8) by blast
    have "\<exists>f. envelope_from fc m = Inr f"
      by (rule nameable_envelope [OF ctx m(3)]) (use snd e(1) in auto)
    then have "err = member_outcome env hubs m name host"
      using fan_out_exact [OF fresh(6) m(1) p] m(2) conn by auto
    with p show ?thesis by blast
  qed
  have rows: "mirrorEntry env cfg e outcomes = ArchiveRoomMessage \<lparr>ms_id = rr_id e, ms_orgId = rf_org cfg, ms_recipientOrgId = None, ms_kind = KindRoom,
        ms_fromAddr = from', ms_toAddr = HASH # rf_name cfg, ms_roomSeq = Some (rr_seq e), ms_body = body,
        ms_replyTo = rr_replyTo e, ms_createdAt = rr_createdAt e\<rparr> #
      map (\<lambda>(m, err). LedgerRoom (rr_id e) (rb_address m) (if err = None then LedgerQueued else LedgerDead) err (rv_now env)) outcomes"
  proof -
    have "truthy err = err" if row: "(m, err) \<in> set outcomes" for m err
    proof (cases err)
      case (Some x)
      obtain name host organization where "parseAddress (rb_address m) = Inr (AgentAddress name host organization (rb_address m))"
        using parses [OF row] by blast
      from outcome_not_empty [OF fresh(6) row [unfolded Some] this assms(3)] show ?thesis by (simp add: Some truthy_def)
    qed (simp add: truthy_def)
    then show ?thesis by (auto simp: mirrorEntry_def e intro!: map_cong)
  qed
  show ?thesis
  proof (rule exI [of _ cfg], rule exI [of _ sender], rule exI [of _ outcomes], intro conjI)
    show "effs = ArchiveRoomMessage \<lparr>ms_id = rr_id e, ms_orgId = rf_org cfg, ms_recipientOrgId = None, ms_kind = KindRoom,
        ms_fromAddr = from', ms_toAddr = HASH # rf_name cfg, ms_roomSeq = Some (rr_seq e), ms_body = body,
        ms_replyTo = rr_replyTo e, ms_createdAt = rr_createdAt e\<rparr> #
      map (\<lambda>(m, err). LedgerRoom (rr_id e) (rb_address m) (if err = None then LedgerQueued else LedgerDead) err (rv_now env)) outcomes @
      [RoomBroadcast (Message e) (rv_now env)]"
      using fresh(7) rows by simp
    show "\<forall>(m, err) \<in> set outcomes.
       (\<not> connected_member env cfg m \<longrightarrow> err = Some (js ''organization_connection_revoked'')) \<and>
       (connected_member env cfg m \<longrightarrow> nameable env cfg sender m \<longrightarrow>
          (\<exists>name host organization. parseAddress (rb_address m) = Inr (AgentAddress name host organization (rb_address m)) \<and>
             err = (case rv_unreachable env (hub_name (rb_org m) host) of
                 Some down \<Rightarrow> Some down
               | None \<Rightarrow> if canReceive (rv_hub env) (hub_at hubs (hub_name (rb_org m) host)) name (rb_org m) host
                   then None else Some (js ''no_route'')))) \<and>
       (err = None \<longrightarrow> in_member_hub hubs' m (rr_id e))"
      using revoked exact [unfolded member_outcome_def takes_mail_def] known by blast
  qed (use snd conf e frame F(1) chk(2) in \<open>simp_all add: MAX_MESSAGE_BYTES_def\<close>)
qed (use assms(5) in auto)

lemma post_reaches_every_member_witness:
  "\<exists>ro' hubs' effs e. demo_post = ((ro', hubs'), effs, Inr e) \<and>
     LedgerRoom (rr_id e) (js ''alice@titan'') LedgerQueued None 2 \<in> set effs \<and>
     in_member_hub hubs' demo_member (rr_id e)"
proof -
  obtain ro' hubs' effs e where d: "demo_post = ((ro', hubs'), effs, Inr e)" "effs \<noteq> []"
    using demo_post_returns by blast
  have up: "\<forall>n. rv_unreachable (room_demo_env 2) n \<noteq> Some []" by (simp add: room_demo_env_def)
  have ready: "canReceive (rv_hub (room_demo_env 2)) (hub_at demo_hubs (hub_name (js ''a'') (js ''titan''))) (js ''alice'') (js ''a'') (js ''titan'')"
    by code_simp
  have ne: "js ''alice@titan'' \<noteq> OPERATOR_ADDRESS" "OPERATOR_ADDRESS \<noteq> js ''alice@titan''" by code_simp+
  have norm: "normaliseMember demo_config demo_member = demo_member" "rb_address demo_member = js ''alice@titan''" "rb_org demo_member = js ''a''"
      "rf_org demo_config = js ''a''"
    by (simp_all add: normaliseMember_def demo_member_def demo_config_def)
  have targets: "filter (\<lambda>m. rb_address m \<noteq> OPERATOR_ADDRESS) (members_of demo_config demo_room) = [demo_member]"
    using ne by (simp add: members_of_def demo_room_def norm del: js_simps)
  have "LedgerRoom (rr_id e) (js ''alice@titan'') LedgerQueued None 2 \<in> set effs \<and> in_member_hub hubs' demo_member (rr_id e)"
    using post_reaches_every_member [OF demo_hubs_inv demo_room_inv up d(1) [unfolded demo_post_def] d(2)]
  proof (elim exE conjE)
    fix cfg sender outcomes
    let ?err = "\<lambda>m name host. case rv_unreachable (room_demo_env 2) (hub_name (rb_org m) host) of
                 Some down \<Rightarrow> Some down
               | None \<Rightarrow> if canReceive (rv_hub (room_demo_env 2)) (hub_at demo_hubs (hub_name (rb_org m) host)) name (rb_org m) host
                   then None else Some (js ''no_route'')"
    assume c: "ro_config demo_room = Some cfg"
      and p: "OPERATOR_ADDRESS = OPERATOR_ADDRESS \<and> sender = None \<or>
        (\<exists>s. kv_get (ro_members demo_room) OPERATOR_ADDRESS = Some s \<and> sender = Some (normaliseMember cfg s) \<and>
           may_reach (room_demo_env 2) cfg (rb_org (normaliseMember cfg s)))"
      and o': "map fst outcomes = filter (\<lambda>m. rb_address m \<noteq> OPERATOR_ADDRESS) (members_of cfg demo_room)"
      and effs: "effs = ArchiveRoomMessage \<lparr>ms_id = rr_id e, ms_orgId = rf_org cfg, ms_recipientOrgId = None, ms_kind = KindRoom,
          ms_fromAddr = OPERATOR_ADDRESS, ms_toAddr = HASH # rf_name cfg, ms_roomSeq = Some (rr_seq e), ms_body = js ''hi'',
          ms_replyTo = rr_replyTo e, ms_createdAt = rr_createdAt e\<rparr> #
        map (\<lambda>(m, err). LedgerRoom (rr_id e) (rb_address m) (if err = None then LedgerQueued else LedgerDead) err (rv_now (room_demo_env 2))) outcomes @
        [RoomBroadcast (Message e) (rv_now (room_demo_env 2))]"
      and each: "\<forall>(m, err) \<in> set outcomes.
         (\<not> connected_member (room_demo_env 2) cfg m \<longrightarrow> err = Some (js ''organization_connection_revoked'')) \<and>
         (connected_member (room_demo_env 2) cfg m \<longrightarrow> nameable (room_demo_env 2) cfg sender m \<longrightarrow>
            (\<exists>name host organization. parseAddress (rb_address m) = Inr (AgentAddress name host organization (rb_address m)) \<and>
               err = ?err m name host)) \<and>
         (err = None \<longrightarrow> in_member_hub hubs' m (rr_id e))"
    have cfg: "cfg = demo_config" using c demo_room_config by simp
    have s: "sender = None" using p ne by (auto simp: demo_room_def simp del: js_simps)
    have "map fst outcomes = [demo_member]" using o' unfolding cfg targets .
    then obtain err where os: "outcomes = [(demo_member, err)]" by (auto simp: map_eq_Cons_conv)
    have "connected_member (room_demo_env 2) cfg demo_member" "nameable (room_demo_env 2) cfg sender demo_member"
      by (simp_all add: connected_member_def nameable_def norm cfg s)
    then obtain name host organization where n: "parseAddress (js ''alice@titan'') = Inr (AgentAddress name host organization (js ''alice@titan''))"
        "err = ?err demo_member name host"
      using each unfolding os by (auto simp: norm simp del: js_simps)
    then have "name = js ''alice''" "host = js ''titan''" using alice_parses by simp_all
    then have "err = ?err demo_member (js ''alice'') (js ''titan'')" using n(2) by simp
    also have "\<dots> = None" unfolding norm(3) if_P [OF ready] by (simp add: room_demo_env_def)
    finally have "err = None" .
    then show ?thesis using each effs unfolding os by (simp add: norm(2) room_demo_env_def del: js_simps)
  qed
  with d(1) show ?thesis by blast
qed

text \<open>
  acknowledgements only rise. Acknowledging a sequence sets the named member's mark to the
  larger of its old mark and the sequence, keeps every other member and the ledger, and an address
  that is no member changes nothing.
\<close>
theorem acks_only_rise:
  assumes "acknowledge env address sequence ro = (ro', effs, Inr ())"
  shows "map_option rb_lastAckedSeq (kv_get (ro_members ro') a) =
      map_option (\<lambda>m. if a = address then max (rb_lastAckedSeq m) sequence else rb_lastAckedSeq m)
        (kv_get (ro_members ro) a) \<and>
    ro_messages ro' = ro_messages ro \<and> ro_ids ro' = ro_ids ro \<and> ro_sequence ro' = ro_sequence ro \<and>
    (effs \<noteq> [] \<longleftrightarrow> (\<exists>m. kv_get (ro_members ro) address = Some m \<and> rb_lastAckedSeq m < sequence))"
  using assms
  by (cases "kv_get (ro_members ro) a")
    (auto simp: acknowledge_def normaliseMember_def Let_def store_simps max_def
      split: sum.splits option.splits if_splits)

lemma acks_only_rise_witness:
  "\<exists>ro' effs. acknowledge (room_demo_env 3) (js ''alice@titan'') 7 demo_room = (ro', effs, Inr ()) \<and>
     map_option rb_lastAckedSeq (kv_get (ro_members ro') (js ''alice@titan'')) = Some 7"
proof -
  obtain ro' effs where a: "acknowledge (room_demo_env 3) (js ''alice@titan'') 7 demo_room = (ro', effs, Inr ())"
    using ack_returns [OF demo_room_config] by blast
  have "map_option rb_lastAckedSeq (kv_get (ro_members demo_room) (js ''alice@titan'')) = Some 0"
    by (simp add: demo_room_def demo_member_def)
  then show ?thesis using acks_only_rise [OF a, of "js ''alice@titan''"] a by (auto simp del: js_simps)
qed

end
