(* ===== verification/Ids.thy ===== *)
theory Ids
  imports Js_Text
begin

text \<open>
  \<^verbatim>\<open>src/lib/transit/ids.ts\<close>: identifiers, tokens and enrollment codes from random bytes. The bytes
  are an argument; \<open>btoa\<close> is written out. An enrollment code draws bytes until it has eight units,
  so it takes a stream of bytes and may find too few.
\<close>

type_synonym byte = "8 word"

definition ID_BYTES :: nat where "ID_BYTES = 6"

definition ENROLL_ALPHABET :: jstr where
  "ENROLL_ALPHABET = js ''ABCDEFGHJKMNPQRSTVWXYZ23456789''"

definition hex_digit :: "nat \<Rightarrow> unit16" where
  "hex_digit n = (if n < 10 then 48 + of_nat n else 87 + of_nat n)"

definition hex_byte :: "byte \<Rightarrow> jstr" where
  "hex_byte b = [hex_digit (unat b div 16), hex_digit (unat b mod 16)]"

definition prefixedId :: "jstr \<Rightarrow> byte list \<Rightarrow> jstr" where
  "prefixedId prefix bytes = prefix @ js ''_'' @ concat (map hex_byte bytes)"

definition txId :: "byte list \<Rightarrow> jstr" where "txId = prefixedId (js ''tx'')"
definition dlvId :: "byte list \<Rightarrow> jstr" where "dlvId = prefixedId (js ''dlv'')"
definition hostId :: "byte list \<Rightarrow> jstr" where "hostId = prefixedId (js ''hst'')"
definition intId :: "byte list \<Rightarrow> jstr" where "intId = prefixedId (js ''int'')"
definition eventId :: "byte list \<Rightarrow> jstr" where "eventId = prefixedId (js ''evt'')"
definition agentClientId :: "byte list \<Rightarrow> jstr" where "agentClientId = prefixedId (js ''agc'')"

text \<open>The URL-safe digits of base 64, without the padding that the code strips.\<close>

definition base64_digit :: "nat \<Rightarrow> unit16" where
  "base64_digit n =
     (if n < 26 then 65 + of_nat n else if n < 52 then 71 + of_nat n
      else if n < 62 then of_nat (n - 52) + 48 else if n = 62 then 45 else 95)"

fun base64_url :: "byte list \<Rightarrow> jstr" where
  "base64_url [] = []"
| "base64_url [a] = (let n = unat a * 16 in [base64_digit (n div 64), base64_digit (n mod 64)])"
| "base64_url [a, b] =
     (let n = (unat a * 256 + unat b) * 4
      in [base64_digit (n div 4096), base64_digit (n div 64 mod 64), base64_digit (n mod 64)])"
| "base64_url (a # b # c # s) =
     (let n = unat a * 65536 + unat b * 256 + unat c
      in [base64_digit (n div 262144), base64_digit (n div 4096 mod 64), base64_digit (n div 64 mod 64),
          base64_digit (n mod 64)] @ base64_url s)"

definition randomToken :: "byte list \<Rightarrow> jstr" where
  "randomToken bytes = base64_url bytes"

definition unbiasedCeiling :: nat where
  "unbiasedCeiling = 256 - 256 mod length ENROLL_ALPHABET"

fun draw_code :: "nat \<Rightarrow> byte list \<Rightarrow> jstr option" where
  "draw_code 0 bytes = Some []"
| "draw_code (Suc n) [] = None"
| "draw_code (Suc n) (b # bytes) =
     (if unbiasedCeiling \<le> unat b then draw_code (Suc n) bytes
      else map_option (\<lambda>code. ENROLL_ALPHABET ! (unat b mod length ENROLL_ALPHABET) # code) (draw_code n bytes))"

definition enrollCode :: "byte list \<Rightarrow> jstr option" where
  "enrollCode bytes = map_option (\<lambda>code. take 4 code @ [45] @ drop 4 code) (draw_code 8 bytes)"

lemma length_alphabet: "length ENROLL_ALPHABET = 30"
  by (simp add: ENROLL_ALPHABET_def)

lemma draw_code_shape:
  "draw_code n bytes = Some code \<Longrightarrow> length code = n \<and> set code \<subseteq> set ENROLL_ALPHABET"
proof (induction n bytes arbitrary: code rule: draw_code.induct)
  case (3 n b bytes)
  have "unat b mod length ENROLL_ALPHABET < length ENROLL_ALPHABET" by (simp add: length_alphabet)
  then have "ENROLL_ALPHABET ! (unat b mod length ENROLL_ALPHABET) \<in> set ENROLL_ALPHABET" by (rule nth_mem)
  with 3 show ?case by (auto split: if_splits)
qed auto

lemma draw_code_uses:
  "n \<le> length (filter (\<lambda>b. unat b < unbiasedCeiling) bytes) \<Longrightarrow> \<exists>code. draw_code n bytes = Some code"
  by (induction n bytes rule: draw_code.induct) (auto split: if_splits)

lemma hex_byte_inj: "hex_byte a = hex_byte b \<Longrightarrow> a = b"
proof -
  have inj: "m = n" if "hex_digit m = hex_digit n" "m < 16" "n < 16" for m n
  proof -
    have "m \<in> set [0..<16]" "n \<in> set [0..<16]" using that by auto
    moreover have "list_all (\<lambda>m. list_all (\<lambda>n. hex_digit m = hex_digit n \<longrightarrow> m = n) [0..<16]) [0..<16]"
      by code_simp
    ultimately show ?thesis using that(1) by (auto simp: list_all_iff)
  qed
  assume "hex_byte a = hex_byte b"
  moreover have "unat a < 256" "unat b < 256"
    using unsigned_less [of a] unsigned_less [of b] by simp_all
  ultimately have "unat a div 16 = unat b div 16" "unat a mod 16 = unat b mod 16"
    using inj [of "unat a div 16" "unat b div 16"] inj [of "unat a mod 16" "unat b mod 16"]
    by (auto simp: hex_byte_def)
  then have "unat a = unat b" by (metis div_mult_mod_eq)
  then show "a = b" by (simp add: word_unat_eq_iff)
qed

lemma prefixedId_inj:
  assumes "prefixedId p xs = prefixedId p ys" shows "xs = ys"
proof -
  have "concat (map hex_byte xs) = concat (map hex_byte ys)" using assms by (simp add: prefixedId_def)
  then show ?thesis
  proof (induction xs arbitrary: ys)
    case Nil
    then show ?case by (cases ys) (auto simp: hex_byte_def)
  next
    case (Cons x xs)
    then obtain y ys' where ys: "ys = y # ys'" by (cases ys) (auto simp: hex_byte_def)
    with Cons.prems have "hex_byte x @ concat (map hex_byte xs) = hex_byte y @ concat (map hex_byte ys')"
      by simp
    moreover have "length (hex_byte x) = length (hex_byte y)" by (simp add: hex_byte_def)
    ultimately have "hex_byte x = hex_byte y" "concat (map hex_byte xs) = concat (map hex_byte ys')" by auto
    with Cons.IH ys show ?case using hex_byte_inj by blast
  qed
qed

end
