(* ===== verification/Directory.thy ===== *)
theory Directory
  imports Room_Ledger
begin

text \<open>
  \<^verbatim>\<open>src/services/directory.ts\<close> and \<^verbatim>\<open>src/services/person.ts\<close>: who and what exists in an
  organization, read from the database, and the addresses people claim for themselves. SQL's
  \<open>ORDER BY\<close> is the order of the code units; \<open>localeCompare\<close> is a parameter.
\<close>

datatype service_failure =
  ServiceError jstr jstr
| Uncaught jstr


section \<open>person.ts\<close>

definition PERSON_HOST_SLUG :: jstr where "PERSON_HOST_SLUG = js ''people''"

definition personHostTokenHash :: "jstr \<Rightarrow> jstr" where
  "personHostTokenHash org = js ''person-host:'' @ org"

record person_address =
  ps_org :: jstr
  ps_userId :: jstr
  ps_host :: jstr
  ps_hostId :: jstr
  ps_name :: jstr

definition ensurePersonHost :: "d1 \<Rightarrow> jstr \<Rightarrow> jstr \<Rightarrow> int \<Rightarrow> d1 \<times> jstr" where
  "ensurePersonHost db org freshId now =
     (let existing = find (\<lambda>h. h_orgId h = org \<and> h_slug h = PERSON_HOST_SLUG) (hosts db) in
      case existing of
        Some h \<Rightarrow>
          if is_null (h_revokedAt h) then (db, h_id h)
          else (db\<lparr>hosts := update_where (\<lambda>r. h_orgId r = org \<and> h_slug r = PERSON_HOST_SLUG)
                     (\<lambda>r. r\<lparr>h_revokedAt := None\<rparr>) (hosts db)\<rparr>, h_id h)
      | None \<Rightarrow>
          (db\<lparr>hosts := hosts db @ [\<lparr>h_id = freshId, h_orgId = org, h_slug = PERSON_HOST_SLUG,
                h_tokenHash = personHostTokenHash org, h_tokenIssuedAt = now, h_daemonVer = js ''person'',
                h_lastSeenAt = None, h_revokedAt = None\<rparr>]\<rparr>, freshId))"

definition resolvePersonAddress :: "d1 \<Rightarrow> jstr \<Rightarrow> jstr \<Rightarrow> person_address option" where
  "resolvePersonAddress db org userId =
     (case [ \<lparr>ps_org = org, ps_userId = userId, ps_host = pa_host p, ps_hostId = h_id h, ps_name = pa_name p\<rparr>.
             p \<leftarrow> person_addresses db, pa_orgId p = org \<and> pa_userId p = userId,
             h \<leftarrow> hosts db, h_orgId h = pa_orgId p \<and> h_slug h = pa_host p \<and> is_null (h_revokedAt h) ] of
        [] \<Rightarrow> None | a # _ \<Rightarrow> Some a)"

definition taken_by_person :: "d1 \<Rightarrow> jstr \<Rightarrow> jstr \<Rightarrow> jstr \<Rightarrow> bool" where
  "taken_by_person db org name userId =
     list_ex (\<lambda>p. pa_orgId p = org \<and> pa_host p = PERSON_HOST_SLUG \<and> pa_name p = name \<and> pa_userId p \<noteq> userId)
       (person_addresses db)"

definition taken_by_agent :: "d1 \<Rightarrow> jstr \<Rightarrow> jstr \<Rightarrow> bool" where
  "taken_by_agent db org name =
     list_ex (\<lambda>c. ac_orgId c = org \<and> ac_host c = PERSON_HOST_SLUG \<and> ac_name c = name \<and> is_null (ac_revokedAt c))
       (agent_clients db)"

definition claimPersonAddress ::
  "d1 \<Rightarrow> jstr \<Rightarrow> jstr \<Rightarrow> jstr \<Rightarrow> jstr \<Rightarrow> int \<Rightarrow> d1 \<times> (service_failure + person_address)" where
  "claimPersonAddress db org userId name freshId now =
     (case validateName name of
        Inl e \<Rightarrow> (db, Inl (ServiceError (js ''invalid_name'') (err_message e)))
      | Inr _ \<Rightarrow>
          let (db1, ident) = ensurePersonHost db org freshId now in
          if taken_by_person db1 org name userId \<or> taken_by_agent db1 org name
          then (db1, Inl (ServiceError (js ''name_taken'')
                 (name @ [AT] @ PERSON_HOST_SLUG @ js '' is already claimed'')))
          else (db1\<lparr>person_addresses := upsert (\<lambda>p. (pa_orgId p, pa_userId p)) (\<lambda>p. p\<lparr>pa_name := name\<rparr>)
                  \<lparr>pa_orgId = org, pa_userId = userId, pa_host = PERSON_HOST_SLUG, pa_name = name,
                   pa_createdAt = now\<rparr> (person_addresses db1)\<rparr>,
                Inr \<lparr>ps_org = org, ps_userId = userId, ps_host = PERSON_HOST_SLUG, ps_hostId = ident,
                     ps_name = name\<rparr>))"

definition listPeople :: "d1 \<Rightarrow> jstr \<Rightarrow> jstr option \<Rightarrow> person_address_row list" where
  "listPeople db org host =
     (case truthy host of
        Some h \<Rightarrow> if h \<noteq> PERSON_HOST_SLUG then []
                   else sort_key pa_name [p. p \<leftarrow> person_addresses db, pa_orgId p = org,
                          h \<leftarrow> hosts db, h_orgId h = pa_orgId p \<and> h_slug h = pa_host p \<and> is_null (h_revokedAt h)]
      | None \<Rightarrow> sort_key pa_name [p. p \<leftarrow> person_addresses db, pa_orgId p = org,
                          h \<leftarrow> hosts db, h_orgId h = pa_orgId p \<and> h_slug h = pa_host p \<and> is_null (h_revokedAt h)])"


section \<open>directory.ts\<close>

record agent_listing =
  al_name :: jstr
  al_kind :: jstr
  al_pane_id :: jstr
  al_status :: jstr
  al_namedByAuto :: bool
  al_title :: jstr
  al_cwd :: jstr
  al_host :: jstr
  al_updated_at :: int
  al_organization :: "jstr option"
  al_address :: "jstr option"

record room_listing =
  rl_name :: jstr
  rl_policy :: room_policy
  rl_created_at :: int
  rl_members :: nat
  rl_messages_24h :: "nat option"
  rl_organization :: "jstr option"
  rl_address :: "jstr option"

text \<open>Whose directory is read, and the slug its addresses carry.\<close>

definition scopeFor :: "d1 \<Rightarrow> jstr \<Rightarrow> jstr option \<Rightarrow> service_failure + (jstr \<times> jstr option)" where
  "scopeFor db org organization =
     (case truthy organization of
        None \<Rightarrow> Inr (org, None)
      | Some slug \<Rightarrow>
          (case resolveConnectedOrganization db org slug of
             None \<Rightarrow> Inl (ServiceError (js ''organization_not_connected'') (js ''organization is not connected''))
           | Some c \<Rightarrow> Inr (co_targetOrgId c, Some (co_targetSlug c))))"

definition agent_row :: "agent_snapshot_row \<Rightarrow> host_row \<Rightarrow> agent_listing" where
  "agent_row a h =
     \<lparr>al_name = as_name a, al_kind = as_kind a, al_pane_id = as_paneId a, al_status = as_status a,
      al_namedByAuto = as_namedByAuto a, al_title = as_title a, al_cwd = as_cwd a, al_host = h_slug h,
      al_updated_at = as_updatedAt a, al_organization = None, al_address = None\<rparr>"

definition person_row :: "person_address_row \<Rightarrow> agent_listing" where
  "person_row p =
     \<lparr>al_name = pa_name p, al_kind = js ''person'', al_pane_id = [], al_status = js ''reachable'',
      al_namedByAuto = False, al_title = [], al_cwd = [], al_host = pa_host p,
      al_updated_at = pa_createdAt p, al_organization = None, al_address = None\<rparr>"

definition published_agents :: "d1 \<Rightarrow> jstr \<Rightarrow> jstr option \<Rightarrow> agent_listing list" where
  "published_agents db org host =
     sort_key al_host (sort_key al_name
       [ agent_row a h. a \<leftarrow> agent_snapshots db, h \<leftarrow> hosts db,
         h_id h = as_hostId a \<and> h_orgId h = org \<and> is_null (h_revokedAt h) \<and>
         (case truthy host of None \<Rightarrow> True | Some s \<Rightarrow> h_slug h = s) ])"

definition by_host_then_name :: "(jstr \<Rightarrow> jstr \<Rightarrow> bool) \<Rightarrow> agent_listing \<Rightarrow> agent_listing \<Rightarrow> bool" where
  "by_host_then_name before a b \<longleftrightarrow>
     before (al_host a) (al_host b) \<or> (\<not> before (al_host b) (al_host a) \<and> before (al_name a) (al_name b))"

text \<open>A foreign listing carries qualified addresses; formatting one may throw.\<close>

fun map_thrown :: "('a \<Rightarrow> 'e + 'b) \<Rightarrow> 'a list \<Rightarrow> 'e + 'b list" where
  "map_thrown f [] = Inr []"
| "map_thrown f (x # xs) = rbind (f x) (\<lambda>y. rbind (map_thrown f xs) (\<lambda>ys. Inr (y # ys)))"

definition qualify_agent :: "jstr \<Rightarrow> agent_listing \<Rightarrow> service_failure + agent_listing" where
  "qualify_agent slug a =
     (case formatAgentAddress (al_name a) (al_host a) (Some slug) of
        Inl e \<Rightarrow> Inl (Uncaught (err_message e))
      | Inr address \<Rightarrow> Inr (a\<lparr>al_organization := Some slug, al_address := Some address\<rparr>))"

definition listAgents ::
  "(jstr \<Rightarrow> jstr \<Rightarrow> bool) \<Rightarrow> d1 \<Rightarrow> jstr \<Rightarrow> jstr option \<Rightarrow> jstr option \<Rightarrow> service_failure + agent_listing list" where
  "listAgents before db org host organization =
     rbind (scopeFor db org organization) (\<lambda>(scope, slug).
       let listing = sort_before (by_host_then_name before)
             (published_agents db scope host @ map person_row (listPeople db scope host))
       in (case truthy slug of
             None \<Rightarrow> Inr listing
           | Some s \<Rightarrow> map_thrown (qualify_agent s) listing))"

definition room_listing_of :: "d1 \<Rightarrow> int option \<Rightarrow> room_row \<Rightarrow> room_listing" where
  "room_listing_of db since r =
     \<lparr>rl_name = rm_name r, rl_policy = rm_policy r, rl_created_at = rm_createdAt r,
      rl_members = length (remdups [mb_address m. m \<leftarrow> room_members db, mb_orgId m = rm_orgId r \<and> mb_room m = rm_name r]),
      rl_messages_24h = map_option (\<lambda>cutoff. length (remdups
        [ms_id m. m \<leftarrow> messages db, ms_orgId m = rm_orgId r \<and> ms_toAddr m = [HASH] @ rm_name r \<and>
           ms_kind m = KindRoom \<and> cutoff \<le> ms_createdAt m])) since,
      rl_organization = None, rl_address = None\<rparr>"

definition qualify_room :: "jstr \<Rightarrow> room_listing \<Rightarrow> service_failure + room_listing" where
  "qualify_room slug r =
     (case formatRoomAddress (rl_name r) None of
        Inl e \<Rightarrow> Inl (Uncaught (err_message e))
      | Inr address \<Rightarrow> Inr (r\<lparr>rl_organization := Some slug, rl_address := Some (slug @ [SLASH] @ address)\<rparr>))"

definition listRooms ::
  "d1 \<Rightarrow> jstr \<Rightarrow> jstr option \<Rightarrow> int option \<Rightarrow> int \<Rightarrow> service_failure + room_listing list" where
  "listRooms db org organization activityWindowMs now =
     rbind (scopeFor db org organization) (\<lambda>(scope, slug).
       let rooms' = map (room_listing_of db (map_option (\<lambda>w. now - w) activityWindowMs))
             (sort_key rm_name [r. r \<leftarrow> rooms db, rm_orgId r = scope])
       in (case truthy slug of
             None \<Rightarrow> Inr rooms'
           | Some s \<Rightarrow> map_thrown (qualify_room s) rooms'))"

definition addressExists :: "d1 \<Rightarrow> jstr \<Rightarrow> jstr \<Rightarrow> jstr \<Rightarrow> bool" where
  "addressExists db org host name \<longleftrightarrow>
     list_ex (\<lambda>a. as_name a = name \<and>
       list_ex (\<lambda>h. h_id h = as_hostId a \<and> h_orgId h = org \<and> h_slug h = host \<and> is_null (h_revokedAt h)) (hosts db))
       (agent_snapshots db) \<or>
     list_ex (\<lambda>p. pa_orgId p = org \<and> pa_host p = host \<and> pa_name p = name \<and> host_live db (pa_orgId p) (pa_host p))
       (person_addresses db)"

definition integrationForDelivery :: "d1 \<Rightarrow> jstr \<Rightarrow> jstr \<Rightarrow> jstr option" where
  "integrationForDelivery db org deliveryId =
     (case [ iv_integrationId e. d \<leftarrow> integration_deliveries db, id_id d = deliveryId,
             e \<leftarrow> integration_events db, iv_id e = id_eventId d,
             i \<leftarrow> integrations db, in_id i = iv_integrationId e \<and> in_orgId i = org ] of
        [] \<Rightarrow> None | i # _ \<Rightarrow> Some i)"

end
