(* ===== verification/Directory_Properties.thy ===== *)
theory Directory_Properties
  imports Directory
begin

text \<open>
  What the directory answers: a claimed address is one person's, an address exists exactly when the
  directory lists it, and what a connected organization's listing shows.
\<close>

definition people_ok :: "d1 \<Rightarrow> bool" where
  "people_ok db \<longleftrightarrow> host_ok (hosts db) \<and> person_address_ok (person_addresses db) \<and>
     list_all (\<lambda>p. pa_host p = PERSON_HOST_SLUG) (person_addresses db)"

section \<open>Claims\<close>

lemma ensured_host:
  assumes "ensurePersonHost db org freshId now = (db', ident)" and "host_ok (hosts db)"
    and "\<forall>h \<in> set (hosts db). h_id h \<noteq> freshId \<and> (h_tokenHash h = personHostTokenHash org \<longrightarrow> h_slug h = PERSON_HOST_SLUG \<and> h_orgId h = org)"
  shows "host_ok (hosts db')" and "person_addresses db' = person_addresses db" and "agent_clients db' = agent_clients db"
    and "\<exists>h \<in> set (hosts db'). h_id h = ident \<and> h_orgId h = org \<and> h_slug h = PERSON_HOST_SLUG \<and> h_revokedAt h = None"
proof -
  let ?key = "\<lambda>h. (h_orgId h, h_slug h)" and ?P = "\<lambda>h. h_orgId h = org \<and> h_slug h = PERSON_HOST_SLUG"
  show "person_addresses db' = person_addresses db" "agent_clients db' = agent_clients db"
    using assms(1) by (auto simp: ensurePersonHost_def Let_def simp del: is_null_iff split: option.splits if_splits)
  show "host_ok (hosts db')"
  proof (cases "find ?P (hosts db)")
    case None
    then have no: "\<forall>h \<in> set (hosts db). ?key h \<noteq> (org, PERSON_HOST_SLUG)" by (simp add: find_None_iff)
    obtain r where r: "hosts db' = hosts db @ [r]" "h_id r = freshId" "?key r = (org, PERSON_HOST_SLUG)" "h_tokenHash r = personHostTokenHash org"
      using None assms(1) by (auto simp: ensurePersonHost_def)
    have "h_id r \<notin> h_id ` set (hosts db)" using assms(3) r(2) by auto
    moreover have "?key r \<notin> ?key ` set (hosts db)" unfolding r(3) image_iff using no by metis
    moreover have "h_tokenHash r \<notin> h_tokenHash ` set (hosts db)" unfolding r(4) using no assms(3) by auto
    ultimately show ?thesis using assms(2) unfolding host_ok_def r(1) by simp
  next
    case (Some h)
    then have keep: "map k (hosts db') = map k (hosts db)" if "\<And>r v. k (r\<lparr>h_revokedAt := v\<rparr>) = k r" for k :: "host_row \<Rightarrow> 'k"
      using assms(1) that by (auto simp: ensurePersonHost_def Let_def update_where_def split: if_splits)
    from assms(2) keep [of h_id] keep [of ?key] keep [of h_tokenHash] show ?thesis by (simp add: host_ok_def)
  qed
  show "\<exists>h \<in> set (hosts db'). h_id h = ident \<and> h_orgId h = org \<and> h_slug h = PERSON_HOST_SLUG \<and> h_revokedAt h = None"
  proof (cases "find ?P (hosts db)")
    case None
    with assms(1) show ?thesis by (auto simp: ensurePersonHost_def)
  next
    case (Some h)
    note h = find_in_set [OF Some]
    show ?thesis
    proof (cases "h_revokedAt h")
      case None
      with assms(1) Some h show ?thesis by (intro bexI [of _ h]) (auto simp: ensurePersonHost_def)
    next
      case (Some t)
      with assms(1) \<open>find ?P (hosts db) = Some h\<close> have "hosts db' = update_where ?P (\<lambda>r. r\<lparr>h_revokedAt := None\<rparr>) (hosts db)" "ident = h_id h"
        by (auto simp: ensurePersonHost_def)
      moreover from this h have "h\<lparr>h_revokedAt := None\<rparr> \<in> set (hosts db')" unfolding update_where_def by (force simp: image_iff)
      ultimately show ?thesis using h by (intro bexI [of _ "h\<lparr>h_revokedAt := None\<rparr>"]) simp_all
    qed
  qed
qed

lemma claim_steps:
  assumes "claimPersonAddress db org user name freshId now = (db', Inr a)"
  obtains db1 ident where "ensurePersonHost db org freshId now = (db1, ident)" "validateName name = Inr ()"
    "\<not> taken_by_person db1 org name user" "\<not> taken_by_agent db1 org name"
    "db' = db1\<lparr>person_addresses := upsert (\<lambda>p. (pa_orgId p, pa_userId p)) (\<lambda>p. p\<lparr>pa_name := name\<rparr>)
       \<lparr>pa_orgId = org, pa_userId = user, pa_host = PERSON_HOST_SLUG, pa_name = name, pa_createdAt = now\<rparr> (person_addresses db1)\<rparr>"
    "a = \<lparr>ps_org = org, ps_userId = user, ps_host = PERSON_HOST_SLUG, ps_hostId = ident, ps_name = name\<rparr>"
  using assms by (cases "ensurePersonHost db org freshId now")
    (auto simp: claimPersonAddress_def Let_def split: sum.splits if_splits)

text \<open>The rows after the upsert: the claimant's row has the name, and the others are the old ones.\<close>

lemma claimed_rows:
  assumes "distinct (map (\<lambda>p. (pa_orgId p, pa_userId p)) ps)"
    and "row = \<lparr>pa_orgId = org, pa_userId = user, pa_host = PERSON_HOST_SLUG, pa_name = name, pa_createdAt = now\<rparr>"
    and "ps' = upsert (\<lambda>p. (pa_orgId p, pa_userId p)) (\<lambda>p. p\<lparr>pa_name := name\<rparr>) row ps"
  shows "p \<in> set ps' \<Longrightarrow> (pa_orgId p, pa_userId p) \<noteq> (org, user) \<Longrightarrow> p \<in> set ps"
    and "p \<in> set ps' \<Longrightarrow> (pa_orgId p, pa_userId p) = (org, user) \<Longrightarrow> pa_name p = name"
    and "p \<in> set ps' \<Longrightarrow> list_all (\<lambda>p. pa_host p = PERSON_HOST_SLUG) ps \<Longrightarrow> pa_host p = PERSON_HOST_SLUG"
    and "\<exists>p \<in> set ps'. (pa_orgId p, pa_userId p) = (org, user)"
    and "distinct (map (\<lambda>p. (pa_orgId p, pa_userId p)) ps')"
proof -
  let ?key = "\<lambda>p. (pa_orgId p, pa_userId p)" and ?f = "\<lambda>p. p\<lparr>pa_name := name\<rparr>"
  have k: "?key (?f r) = ?key r" for r by simp
  note su = set_upsert [where key = ?key and f = ?f and row = row, OF k assms(1)]
  have kr: "?key row = (org, user)" by (simp add: assms(2))
  show "p \<in> set ps' \<Longrightarrow> ?key p \<noteq> (org, user) \<Longrightarrow> p \<in> set ps"
    unfolding assms(3) su kr by simp
  show "p \<in> set ps' \<Longrightarrow> ?key p = (org, user) \<Longrightarrow> pa_name p = name"
  proof -
    assume p: "p \<in> set ps'" and key: "?key p = (org, user)"
    from p key kr consider r0 where "p = ?f r0" | "p = row" unfolding assms(3) su by (metis (no_types, lifting))
    then show "pa_name p = name" by cases (simp_all add: assms(2))
  qed
  show "p \<in> set ps' \<Longrightarrow> list_all (\<lambda>p. pa_host p = PERSON_HOST_SLUG) ps \<Longrightarrow> pa_host p = PERSON_HOST_SLUG"
  proof -
    assume p: "p \<in> set ps'" and all: "list_all (\<lambda>p. pa_host p = PERSON_HOST_SLUG) ps"
    from p [unfolded assms(3) su] consider r0 where "r0 \<in> set ps" "p = ?f r0" | "p = row" | "p \<in> set ps"
      by (metis (no_types, lifting))
    then show "pa_host p = PERSON_HOST_SLUG" using all by cases (simp_all add: list_all_iff assms(2))
  qed
  show "distinct (map ?key ps')" unfolding assms(3) by (rule distinct_upsert [OF k assms(1)])
  show "\<exists>p \<in> set ps'. ?key p = (org, user)"
  proof (cases "\<exists>r \<in> set ps. ?key r = ?key row")
    case True
    then obtain r where r: "r \<in> set ps" "?key r = (org, user)" using kr by auto
    then have "?f r \<in> set ps'" unfolding assms(3) su kr by auto
    then show ?thesis using r(2) by (intro bexI [of _ "?f r"]) simp_all
  next
    case False
    then have "row \<in> set ps'" unfolding assms(3) su by auto
    then show ?thesis using kr by auto
  qed
qed

lemma resolve_person_iff:
  assumes "host_ok (hosts db)" and "distinct (map (\<lambda>p. (pa_orgId p, pa_userId p)) (person_addresses db))"
  shows "resolvePersonAddress db org user = Some a \<longleftrightarrow>
    (\<exists>p \<in> set (person_addresses db). \<exists>h \<in> set (hosts db). pa_orgId p = org \<and> pa_userId p = user \<and>
       h_orgId h = org \<and> h_slug h = pa_host p \<and> h_revokedAt h = None \<and>
       a = \<lparr>ps_org = org, ps_userId = user, ps_host = pa_host p, ps_hostId = h_id h, ps_name = pa_name p\<rparr>)" (is "?l \<longleftrightarrow> ?r")
proof
  assume ?l
  then obtain p h where "p \<in> set (person_addresses db)" "h \<in> set (hosts db)" "pa_orgId p = org" "pa_userId p = user"
      "h_orgId h = org" "h_slug h = pa_host p" "h_revokedAt h = None"
      "a = \<lparr>ps_org = org, ps_userId = user, ps_host = pa_host p, ps_hostId = h_id h, ps_name = pa_name p\<rparr>"
    unfolding resolvePersonAddress_def by (auto dest!: first_row split: if_splits)
  then show ?r by blast
next
  assume ?r
  then obtain p h where p: "p \<in> set (person_addresses db)" "h \<in> set (hosts db)" "pa_orgId p = org" "pa_userId p = user"
      "h_orgId h = org" "h_slug h = pa_host p" "h_revokedAt h = None"
    and a: "a = \<lparr>ps_org = org, ps_userId = user, ps_host = pa_host p, ps_hostId = h_id h, ps_name = pa_name p\<rparr>" by blast
  show ?l unfolding resolvePersonAddress_def
  proof (rule only_row, goal_cases)
    case 1
    then show ?case using p a by force
  next
    case (2 r')
    then obtain p' h' where r': "r' = \<lparr>ps_org = org, ps_userId = user, ps_host = pa_host p', ps_hostId = h_id h', ps_name = pa_name p'\<rparr>"
      and p': "p' \<in> set (person_addresses db)" "h' \<in> set (hosts db)" "pa_orgId p' = org" "pa_userId p' = user"
        "h_orgId h' = pa_orgId p'" "h_slug h' = pa_host p'" by auto
    have "p' = p" using key_unique [OF assms(2) p'(1) p(1)] p p' by simp
    moreover have "h' = h"
      using key_unique [of "\<lambda>h. (h_orgId h, h_slug h)" "hosts db" h' h] assms(1) p p' calculation by (simp add: host_ok_def)
    ultimately show ?case using r' a by simp
  qed
qed

text \<open>
  C34: a claimed address is its claimant's alone at the time of the claim. After a claim the person
  resolves to the claimed name on the host of people and the directory knows the address; no other
  person of the organization has it or can claim it, no agent client of the organization that is not
  revoked has it, and the tables stay well-formed. (The route that makes an agent client does not look at the
  claims of people, so one with this name can appear later.)
\<close>
theorem claimed_address_is_exclusive:
  assumes "claimPersonAddress db org user name freshId now = (db', Inr a)" and "people_ok db"
    and "\<forall>h \<in> set (hosts db). h_id h \<noteq> freshId \<and>
      (h_tokenHash h = personHostTokenHash org \<longrightarrow> h_slug h = PERSON_HOST_SLUG \<and> h_orgId h = org)"
  shows "resolvePersonAddress db' org user = Some a \<and> ps_name a = name \<and> ps_host a = PERSON_HOST_SLUG \<and>
    addressExists db' org PERSON_HOST_SLUG name \<and> people_ok db' \<and>
    (\<forall>other b. other \<noteq> user \<longrightarrow> resolvePersonAddress db' org other = Some b \<longrightarrow> ps_name b \<noteq> name) \<and>
    (\<forall>c \<in> set (agent_clients db'). \<not> (ac_orgId c = org \<and> ac_host c = js ''people'' \<and> ac_name c = name \<and> ac_revokedAt c = None)) \<and>
    (\<forall>other t i. other \<noteq> user \<longrightarrow> snd (claimPersonAddress db' org other name i t) =
       Inl (ServiceError (js ''name_taken'') (name @ [AT] @ PERSON_HOST_SLUG @ js '' is already claimed'')))"
  using assms(1)
proof (cases rule: claim_steps)
  case (1 db1 ident)
  define row where "row = \<lparr>pa_orgId = org, pa_userId = user, pa_host = PERSON_HOST_SLUG, pa_name = name, pa_createdAt = now\<rparr>"
  note H = ensured_host [OF 1(1) _ assms(3)]
  have ok: "host_ok (hosts db)" "person_address_ok (person_addresses db)" "list_all (\<lambda>p. pa_host p = PERSON_HOST_SLUG) (person_addresses db)"
    using assms(2) by (simp_all add: people_ok_def)
  have dist: "distinct (map (\<lambda>p. (pa_orgId p, pa_userId p)) (person_addresses db))" using ok(2) by (simp add: person_address_ok_def)
  have ps: "person_addresses db' = upsert (\<lambda>p. (pa_orgId p, pa_userId p)) (\<lambda>p. p\<lparr>pa_name := name\<rparr>) row (person_addresses db)"
    using 1(5) H(2) [OF ok(1)] by (simp add: row_def)
  note R = claimed_rows [OF dist row_def ps]
  have hosts': "hosts db' = hosts db1" "host_ok (hosts db')" using 1(5) H(1) [OF ok(1)] by simp_all
  have onpeople: "pa_host p = PERSON_HOST_SLUG" if "p \<in> set (person_addresses db')" for p using R(3) [OF that ok(3)] .
  have mine: "pa_userId p = user" if "p \<in> set (person_addresses db')" "pa_orgId p = org" "pa_name p = name" for p
  proof (rule ccontr)
    assume n: "pa_userId p \<noteq> user"
    then have "p \<in> set (person_addresses db)" using R(1) that by simp
    then show False
      using 1(3) n that onpeople [OF that(1)] H(2) [OF ok(1)] by (auto simp: taken_by_person_def list_ex_iff)
  qed
  obtain p where p: "p \<in> set (person_addresses db')" "pa_orgId p = org" "pa_userId p = user" using R(4) by auto
  then have pn: "pa_name p = name" "pa_host p = PERSON_HOST_SLUG" using R(2) onpeople by auto
  obtain h where h: "h \<in> set (hosts db')" "h_id h = ident" "h_orgId h = org" "h_slug h = PERSON_HOST_SLUG" "h_revokedAt h = None"
    using H(4) [OF ok(1)] hosts'(1) by auto
  have res: "resolvePersonAddress db' org user = Some a"
    using p pn h 1(6) by (subst resolve_person_iff [OF hosts'(2) R(5)]) (intro bexI [of _ p] bexI [of _ h], simp_all)
  have "addressExists db' org PERSON_HOST_SLUG name"
    unfolding addressExists_def host_live_def list_ex_iff
    by (intro disjI2 bexI [of _ p] conjI bexI [of _ h]) (use p pn h in simp_all)
  moreover have "person_address_ok (person_addresses db')"
  proof -
    have "inj_on (\<lambda>p. (pa_orgId p, pa_host p, pa_name p)) (set (person_addresses db'))"
    proof (rule inj_onI)
      fix q r assume q: "q \<in> set (person_addresses db')" and r: "r \<in> set (person_addresses db')"
        and eq: "(pa_orgId q, pa_host q, pa_name q) = (pa_orgId r, pa_host r, pa_name r)"
      show "q = r"
      proof (cases "(pa_orgId q, pa_userId q) = (org, user) \<or> (pa_orgId r, pa_userId r) = (org, user)")
        case True
        then have "pa_orgId q = org" "pa_name q = name" "pa_orgId r = org" "pa_name r = name" using R(2) q r eq by auto
        then have "pa_userId q = user" "pa_userId r = user" using mine q r by auto
        then show ?thesis using key_unique [OF R(5) q r] eq by simp
      next
        case False
        then have "q \<in> set (person_addresses db)" "r \<in> set (person_addresses db)" using R(1) q r by auto
        then show ?thesis using eq ok(2) key_unique [of "\<lambda>p. (pa_orgId p, pa_host p, pa_name p)" "person_addresses db" q r]
          by (simp add: person_address_ok_def)
      qed
    qed
    moreover have "distinct (person_addresses db')" using R(5) by (simp add: distinct_map)
    ultimately show ?thesis using R(5) by (simp add: person_address_ok_def distinct_map)
  qed
  moreover have "ps_name b \<noteq> name" if "other \<noteq> user" "resolvePersonAddress db' org other = Some b" for other b
    using that mine by (auto simp: resolve_person_iff [OF hosts'(2) R(5)])
  moreover have "snd (claimPersonAddress db' org other name i t) =
       Inl (ServiceError (js ''name_taken'') (name @ [AT] @ PERSON_HOST_SLUG @ js '' is already claimed''))"
    if "other \<noteq> user" for other i t
  proof -
    have "person_addresses (fst (ensurePersonHost db' org i t)) = person_addresses db'"
      by (auto simp: ensurePersonHost_def Let_def split: option.splits)
    then have "taken_by_person (fst (ensurePersonHost db' org i t)) org name other"
      using p pn that by (auto simp: taken_by_person_def list_ex_iff)
    then show ?thesis using 1(2) by (simp add: claimPersonAddress_def split_def Let_def)
  qed
  moreover have "\<not> (ac_orgId c = org \<and> ac_host c = js ''people'' \<and> ac_name c = name \<and> ac_revokedAt c = None)"
    if "c \<in> set (agent_clients db')" for c
    using that 1(4,5) by (auto simp: taken_by_agent_def list_ex_iff PERSON_HOST_SLUG_def simp del: js_simps)
  ultimately show ?thesis using res hosts' onpeople 1(6) by (auto simp: people_ok_def list_all_iff simp del: js_simps)
qed

lemma claimed_address_is_exclusive_witness:
  "\<exists>db' a. claimPersonAddress empty_d1 (js ''acme'') (js ''u1'') (js ''ann'') (js ''hst_p'') 1000 = (db', Inr a) \<and>
     resolvePersonAddress db' (js ''acme'') (js ''u1'') = Some a \<and>
     snd (claimPersonAddress db' (js ''acme'') (js ''u2'') (js ''ann'') (js ''hst_q'') 2000) =
       Inl (ServiceError (js ''name_taken'') (js ''ann'' @ [AT] @ PERSON_HOST_SLUG @ js '' is already claimed''))"
proof -
  have "\<not> isl (snd (claimPersonAddress empty_d1 (js ''acme'') (js ''u1'') (js ''ann'') (js ''hst_p'') 1000))" by code_simp
  then obtain db' a where c: "claimPersonAddress empty_d1 (js ''acme'') (js ''u1'') (js ''ann'') (js ''hst_p'') 1000 = (db', Inr a)"
    by (metis isl_def prod.collapse sum.collapse(2))
  have "people_ok empty_d1" "js ''u2'' \<noteq> js ''u1''"
    by (simp_all add: people_ok_def empty_d1_def host_ok_def person_address_ok_def)
  with claimed_address_is_exclusive [OF c] c show ?thesis by (simp add: empty_d1_def del: js_simps)
qed


section \<open>The listings\<close>

lemma set_sort_before [simp]: "set (sort_before before xs) = set xs"
proof -
  have "set (insert_before before x ys) = insert x (set ys)" for x ys
    by (induction ys) auto
  then show ?thesis by (induction xs) (simp_all add: sort_before_def)
qed

lemma scope_own: "scopeFor db org None = Inr (org, None)"
  by (simp add: scopeFor_def truthy_def)

lemma own_listing:
  "listAgents before db org host None =
     Inr (sort_before (by_host_then_name before) (published_agents db org host @ map person_row (listPeople db org host)))"
  by (simp add: listAgents_def scope_own truthy_def Let_def)

lemma truthy_nonempty: "s \<noteq> [] \<Longrightarrow> truthy (Some s) = Some s"
  by (simp add: truthy_def)

lemma listed_people:
  "p \<in> set (listPeople db org host) \<longleftrightarrow>
     p \<in> set (person_addresses db) \<and> pa_orgId p = org \<and> host_live db (pa_orgId p) (pa_host p) \<and>
     (truthy host = None \<or> truthy host = Some PERSON_HOST_SLUG)"
  by (auto simp: listPeople_def host_live_def list_ex_iff split: option.splits)

lemma listed_agents:
  "a \<in> set (published_agents db org host) \<longleftrightarrow>
     (\<exists>r \<in> set (agent_snapshots db). \<exists>h \<in> set (hosts db). a = agent_row r h \<and> h_id h = as_hostId r \<and> h_orgId h = org \<and>
        h_revokedAt h = None \<and> (case truthy host of None \<Rightarrow> True | Some s \<Rightarrow> h_slug h = s))"
  by (auto simp: published_agents_def split: option.splits; metis)

text \<open>
  an address exists exactly when the directory lists it. The check that an operator's routes make
  before adding an address to a room or an integration agrees with the listing of that host.
\<close>
theorem address_exists_iff_listed:
  assumes "people_ok db" and "host \<noteq> []"
  shows "addressExists db org host name \<longleftrightarrow>
    (\<exists>ls. listAgents before db org (Some host) None = Inr ls \<and> (\<exists>a \<in> set ls. al_name a = name \<and> al_host a = host))"
proof -
  have people: "pa_host p = PERSON_HOST_SLUG" if "p \<in> set (person_addresses db)" for p
    using assms(1) that by (simp add: people_ok_def list_all_iff)
  have t: "truthy (Some host) = Some host" using assms(2) by (rule truthy_nonempty)
  have row: "al_name (agent_row r h) = as_name r" "al_host (agent_row r h) = h_slug h" for r h
    by (simp_all add: agent_row_def)
  have "(\<exists>a \<in> set (published_agents db org (Some host)). al_name a = name \<and> al_host a = host) \<longleftrightarrow>
      list_ex (\<lambda>a. as_name a = name \<and>
        list_ex (\<lambda>h. h_id h = as_hostId a \<and> h_orgId h = org \<and> h_slug h = host \<and> is_null (h_revokedAt h)) (hosts db))
        (agent_snapshots db)" (is "?listed \<longleftrightarrow> ?found")
  proof
    assume ?listed
    then obtain r h where "r \<in> set (agent_snapshots db)" "h \<in> set (hosts db)" "h_id h = as_hostId r" "h_orgId h = org"
        "h_slug h = host" "h_revokedAt h = None" "as_name r = name" by (auto simp: listed_agents t row)
    then show ?found unfolding list_ex_iff is_null_iff by blast
  next
    assume ?found
    then obtain r h where "r \<in> set (agent_snapshots db)" "h \<in> set (hosts db)" "h_id h = as_hostId r" "h_orgId h = org"
        "h_slug h = host" "h_revokedAt h = None" "as_name r = name" by (auto simp: list_ex_iff)
    then show ?listed by (intro bexI [of _ "agent_row r h"]) (auto simp: listed_agents t row)
  qed
  moreover have "(\<exists>a \<in> person_row ` set (listPeople db org (Some host)). al_name a = name \<and> al_host a = host) \<longleftrightarrow>
      list_ex (\<lambda>p. pa_orgId p = org \<and> pa_host p = host \<and> pa_name p = name \<and> host_live db (pa_orgId p) (pa_host p))
       (person_addresses db)" (is "?listed \<longleftrightarrow> ?found")
  proof
    assume ?listed
    then obtain p where "p \<in> set (listPeople db org (Some host))" "al_name (person_row p) = name" "al_host (person_row p) = host"
      by auto
    then have "p \<in> set (person_addresses db)" "pa_orgId p = org \<and> pa_host p = host \<and> pa_name p = name \<and>
        host_live db (pa_orgId p) (pa_host p)"
      by (auto simp: listed_people person_row_def)
    then show ?found unfolding list_ex_iff by blast
  next
    assume ?found
    then obtain p where "p \<in> set (person_addresses db)" "pa_orgId p = org" "pa_host p = host" "pa_name p = name"
        "host_live db (pa_orgId p) (pa_host p)" by (auto simp: list_ex_iff)
    moreover from this people have "host = PERSON_HOST_SLUG" by simp
    ultimately have "p \<in> set (listPeople db org (Some host))" "al_name (person_row p) = name" "al_host (person_row p) = host"
      using t by (simp_all add: listed_people person_row_def)
    then show ?listed by blast
  qed
  ultimately show ?thesis by (simp add: own_listing addressExists_def bex_Un)
qed

lemma address_exists_iff_listed_witness:
  "\<exists>ls. listAgents (<) (fst (claimPersonAddress empty_d1 (js ''acme'') (js ''u1'') (js ''ann'') (js ''hst_p'') 1000))
       (js ''acme'') (Some (js ''people'')) None = Inr ls \<and> (\<exists>a \<in> set ls. al_name a = js ''ann'' \<and> al_host a = js ''people'')"
proof -
  let ?db = "fst (claimPersonAddress empty_d1 (js ''acme'') (js ''u1'') (js ''ann'') (js ''hst_p'') 1000)"
  have "person_addresses ?db = [\<lparr>pa_orgId = js ''acme'', pa_userId = js ''u1'', pa_host = js ''people'', pa_name = js ''ann'', pa_createdAt = 1000\<rparr>]"
    "hosts ?db = [\<lparr>h_id = js ''hst_p'', h_orgId = js ''acme'', h_slug = js ''people'', h_tokenHash = js ''person-host:acme'',
       h_tokenIssuedAt = 1000, h_daemonVer = js ''person'', h_lastSeenAt = None, h_revokedAt = None\<rparr>]" by code_simp+
  then have "people_ok ?db" by (simp add: people_ok_def host_ok_def person_address_ok_def PERSON_HOST_SLUG_def)
  moreover have "addressExists ?db (js ''acme'') (js ''people'') (js ''ann'')" "js ''people'' \<noteq> []" by code_simp+
  ultimately show ?thesis using address_exists_iff_listed by blast
qed

lemma map_thrown_Inr: "map_thrown f xs = Inr ys \<longleftrightarrow> list_all2 (\<lambda>x y. f x = Inr y) xs ys"
proof (induction xs arbitrary: ys)
  case Nil
  then show ?case by (cases ys) auto
next
  case (Cons x xs)
  then show ?case by (cases ys) (auto simp: result_simps)
qed

lemma map_thrown_Inl: "map_thrown f xs = Inl e \<Longrightarrow> \<exists>x \<in> set xs. f x = Inl e"
  by (induction xs) (auto simp: result_simps)

lemma map_thrown_ok: "(\<And>x. x \<in> set xs \<Longrightarrow> f x = Inr (g x)) \<Longrightarrow> map_thrown f xs = Inr (map g xs)"
  by (induction xs) auto

text \<open>
  what a connected organization's listing shows. Asking for the agents of another organization
  by its slug answers only under an active connection, and then with exactly the rows that
  organization lists itself, each with the qualified address that the strict parser reads back as
  that agent. If one name or host of the roster is ill-formed, no row is shown at all and the error
  is none of the service's own.
\<close>
theorem foreign_listing_is_the_peers_own:
  assumes "organization_ok (organizations db)" and "connection_ok (organization_connections db)" and "slug \<noteq> []"
    and "validateOrganizationSlug slug = Inr ()"
    and "scopeFor db org (Some slug) = Inr (peer, s)" and "listAgents before db peer host None = Inr own"
  shows "(\<exists>a b c. connects db a b c \<and> org_id a = org \<and> org_id b = peer \<and> org_slug b = slug) \<and>
    (if \<forall>a \<in> set own. validateName (al_name a) = Inr () \<and> validateHost (al_host a) = Inr ()
     then \<exists>ls. listAgents before db org host (Some slug) = Inr ls \<and>
       map (\<lambda>l. l\<lparr>al_organization := None, al_address := None\<rparr>) ls = map (\<lambda>l. l\<lparr>al_organization := None, al_address := None\<rparr>) own \<and>
       list_all (\<lambda>l. al_organization l = Some slug \<and> (\<exists>text. al_address l = Some text \<and>
         parseAddress text = Inr (AgentAddress (al_name l) (al_host l) (Some slug) text))) ls
     else \<exists>m. listAgents before db org host (Some slug) = Inl (Uncaught m))"
proof -
  have t: "truthy (Some slug) = Some slug" using assms(3) by (rule truthy_nonempty)
  obtain r where r: "resolveConnectedOrganization db org slug = Some r" "peer = co_targetOrgId r" "s = Some (co_targetSlug r)"
    using assms(5) t by (auto simp: scopeFor_def split: option.splits)
  from r(1) obtain a b c where abc: "connects db a b c" "org_id a = org" "org_slug b = slug" "peer = org_id b" "s = Some slug"
    unfolding resolve_iff [OF assms(1,2)] using r(2,3) by auto
  have own: "own = sort_before (by_host_then_name before) (published_agents db peer host @ map person_row (listPeople db peer host))"
    using assms(6) by (simp add: own_listing)
  have lst: "listAgents before db org host (Some slug) = map_thrown (qualify_agent slug) own"
    using assms(5) abc(5) t by (simp add: listAgents_def own Let_def)
  have org: "org_ok (Some slug)" using assms(3,4) by (simp add: org_ok_def)
  have good: "qualify_agent slug x = Inr (x\<lparr>al_organization := Some slug, al_address := Some (qualify (Some slug) (al_name x @ AT # al_host x))\<rparr>)"
    if "validateName (al_name x) = Inr ()" "validateHost (al_host x) = Inr ()" for x
    using formatAgentAddress_ok [OF that org] by (simp add: qualify_agent_def)
  have bad: "\<exists>m. qualify_agent slug x = Inl (Uncaught m)"
    if "\<not> (validateName (al_name x) = Inr () \<and> validateHost (al_host x) = Inr ())" for x
    using that formatAgentAddress_Inr [of "al_name x" "al_host x" "Some slug"]
    by (cases "formatAgentAddress (al_name x) (al_host x) (Some slug)") (auto simp: qualify_agent_def)
  show ?thesis
  proof (intro conjI)
    show "\<exists>a b c. connects db a b c \<and> org_id a = org \<and> org_id b = peer \<and> org_slug b = slug" using abc by blast
  next
    let ?g = "\<lambda>x. x\<lparr>al_organization := Some slug, al_address := Some (qualify (Some slug) (al_name x @ AT # al_host x))\<rparr>"
    let ?ok = "\<lambda>a. validateName (al_name a) = Inr () \<and> validateHost (al_host a) = Inr ()"
    show "if \<forall>a \<in> set own. ?ok a
     then \<exists>ls. listAgents before db org host (Some slug) = Inr ls \<and>
       map (\<lambda>l. l\<lparr>al_organization := None, al_address := None\<rparr>) ls = map (\<lambda>l. l\<lparr>al_organization := None, al_address := None\<rparr>) own \<and>
       list_all (\<lambda>l. al_organization l = Some slug \<and> (\<exists>text. al_address l = Some text \<and>
         parseAddress text = Inr (AgentAddress (al_name l) (al_host l) (Some slug) text))) ls
     else \<exists>m. listAgents before db org host (Some slug) = Inl (Uncaught m)"
    proof (cases "\<forall>a \<in> set own. ?ok a")
      case True
      then have "listAgents before db org host (Some slug) = Inr (map ?g own)"
        unfolding lst by (intro map_thrown_ok good) auto
      moreover have "list_all (\<lambda>l. al_organization l = Some slug \<and> (\<exists>text. al_address l = Some text \<and>
         parseAddress text = Inr (AgentAddress (al_name l) (al_host l) (Some slug) text))) (map ?g own)"
        using True parse_agent [OF _ _ org] by (simp add: list_all_iff)
      ultimately show ?thesis using True by (simp add: comp_def)
    next
      case False
      then obtain x m where x: "x \<in> set own" "qualify_agent slug x = Inl (Uncaught m)" using bad by blast
      obtain e where e: "map_thrown (qualify_agent slug) own = Inl e"
      proof (cases "map_thrown (qualify_agent slug) own")
        case (Inr ys)
        then show ?thesis using x unfolding map_thrown_Inr list_all2_conv_all_nth in_set_conv_nth by force
      qed auto
      from map_thrown_Inl [OF this] obtain y where "qualify_agent slug y = Inl e" by blast
      then have "\<exists>m. e = Uncaught m"
        by (cases "formatAgentAddress (al_name y) (al_host y) (Some slug)") (auto simp: qualify_agent_def)
      with e False lst show ?thesis by auto
    qed
  qed
qed

definition demo_peers :: d1 where
  "demo_peers = connected_db
     \<lparr>hosts := [\<lparr>h_id = js ''h1'', h_orgId = js ''b'', h_slug = js ''titan'', h_tokenHash = js ''t'', h_tokenIssuedAt = 1,
        h_daemonVer = js ''1'', h_lastSeenAt = None, h_revokedAt = None\<rparr>],
      agent_snapshots := [\<lparr>as_hostId = js ''h1'', as_name = js ''bob'', as_kind = js ''claude'', as_paneId = js ''p1'',
        as_status = js ''idle'', as_namedByAuto = False, as_title = [], as_cwd = [], as_updatedAt = 5\<rparr>]\<rparr>"

lemma foreign_listing_is_the_peers_own_witness:
  "\<exists>ls. listAgents (<) demo_peers (js ''a'') None (Some (js ''beta'')) = Inr ls \<and>
     list_all (\<lambda>l. al_organization l = Some (js ''beta'')) ls"
proof -
  obtain own where own: "listAgents (<) demo_peers (js ''b'') None None = Inr own" by (simp add: own_listing)
  have "list_all (\<lambda>a. validateName (al_name a) = Inr () \<and> validateHost (al_host a) = Inr ())
      (case listAgents (<) demo_peers (js ''b'') None None of Inr ls \<Rightarrow> ls | Inl _ \<Rightarrow> [])" by code_simp
  with own have ok: "\<forall>a \<in> set own. validateName (al_name a) = Inr () \<and> validateHost (al_host a) = Inr ()"
    by (simp add: list_all_iff)
  have "organization_ok (organizations demo_peers)" "connection_ok (organization_connections demo_peers)" "js ''beta'' \<noteq> []"
    "validateOrganizationSlug (js ''beta'') = Inr ()"
    "scopeFor demo_peers (js ''a'') (Some (js ''beta'')) = Inr (js ''b'', Some (js ''beta''))"
    by code_simp+
  from foreign_listing_is_the_peers_own [OF this own] ok show ?thesis by (auto simp: list_all_iff)
qed

end
