(* ===== verification/Enrollment.thy ===== *)
theory Enrollment
  imports Ids Directory
begin

text \<open>
  How hosts and agent clients come by credentials, in \<^verbatim>\<open>src/index.ts\<close>: enrollment codes, the device
  flow, the host table's tokens, the daemon's connection, and the clients of the MCP endpoint. A
  route takes the session's organization (or none) and the fields of its body that are strings;
  \<open>ee_sha\<close> is \<open>sha256hex\<close>, random values are read from the environment. A violated unique index
  makes the statement fail, and the route with it.
\<close>

record enroll_env =
  ee_now :: int
  ee_sha :: "jstr \<Rightarrow> jstr"
  ee_token :: jstr
  ee_codes :: "jstr list"
  ee_freshId :: jstr

definition ENROLL_TTL_MS :: int where "ENROLL_TTL_MS = 15 * 60 * 1000"
definition DEVICE_POLL_INTERVAL_SECONDS :: int where "DEVICE_POLL_INTERVAL_SECONDS = 5"

text \<open>
  \<open>toUpperCase\<close>, on the units whose upper case has ASCII letters; the others are left as they are,
  and no code holds them.
\<close>

definition upper_unit :: "unit16 \<Rightarrow> jstr" where
  "upper_unit c =
     (if is_lower c then [c - 32]
      else case map_of [(0xDF, js ''SS''), (0x131, js ''I''), (0x149, [0x2BC, 78]), (0x17F, js ''S''),
              (0x1F0, [74, 0x30C]), (0x1E96, [72, 0x331]), (0x1E97, [84, 0x308]), (0x1E98, [87, 0x30A]),
              (0x1E99, [89, 0x30A]), (0x1E9A, [65, 0x2BE]), (0xFB00, js ''FF''), (0xFB01, js ''FI''),
              (0xFB02, js ''FL''), (0xFB03, js ''FFI''), (0xFB04, js ''FFL''), (0xFB05, js ''ST''),
              (0xFB06, js ''ST'')] c of
            Some u \<Rightarrow> u | None \<Rightarrow> [c])"

definition normalise_code :: "jstr \<Rightarrow> jstr" where
  "normalise_code code = concat (map upper_unit (trim code))"

definition addr_code_text :: "addr_code \<Rightarrow> jstr" where
  "addr_code_text c = (case c of Invalid_name \<Rightarrow> js ''invalid_name'' | Invalid_address \<Rightarrow> js ''invalid_address''
     | Reserved_name \<Rightarrow> js ''reserved_name'')"

definition server_error :: http_error where "server_error = (500, js ''server_error'')"


section \<open>Enrollment codes\<close>

record issued_code =
  ic_code :: jstr
  ic_expiresAt :: int

definition hosts_enroll ::
  "enroll_env \<Rightarrow> jstr option \<Rightarrow> jstr option \<Rightarrow> d1 \<Rightarrow> d1 \<times> (http_error + issued_code)" where
  "hosts_enroll env session body_slug db =
     (case session of None \<Rightarrow> (db, Inl (401, js ''Unauthorized''))
      | Some org \<Rightarrow>
     (case body_slug of None \<Rightarrow> (db, Inl (400, js ''slug is required''))
      | Some slug \<Rightarrow>
     (case validateHost slug of Inl e \<Rightarrow> (db, Inl (400, addr_code_text (err_code e)))
      | Inr _ \<Rightarrow>
          if (case find (\<lambda>h. h_orgId h = org \<and> h_slug h = slug) (hosts db) of
                None \<Rightarrow> False | Some h \<Rightarrow> is_null (h_revokedAt h))
          then (db, Inl (409, js ''host_exists''))
          else
            let code = hd (ee_codes env);
                codeHash = ee_sha env code;
                expiresAt = ee_now env + ENROLL_TTL_MS;
                row = \<lparr>ec_codeHash = codeHash, ec_orgId = org, ec_slug = slug, ec_expiresAt = expiresAt, ec_usedAt = None\<rparr>
            in if list_ex (\<lambda>c. ec_codeHash c = codeHash) (enroll_codes db) then (db, Inl server_error)
               else (db\<lparr>enroll_codes :=
                       update_where (\<lambda>c. ec_orgId c = org \<and> ec_slug c = slug \<and> is_null (ec_usedAt c))
                         (\<lambda>c. c\<lparr>ec_usedAt := Some (ee_now env)\<rparr>) (enroll_codes db) @ [row]\<rparr>,
                     Inr \<lparr>ic_code = code, ic_expiresAt = expiresAt\<rparr>))))"

record provisioned =
  pv_token :: jstr
  pv_hostId :: jstr
  pv_host :: jstr
  pv_org :: jstr

text \<open>The upsert of the host's row; a token hash or an id another row has makes it fail.\<close>

definition provisionHost :: "enroll_env \<Rightarrow> jstr \<Rightarrow> jstr \<Rightarrow> jstr \<Rightarrow> d1 \<Rightarrow> (d1 \<times> provisioned) option" where
  "provisionHost env org slug daemonVer db =
     (let tokenHash = ee_sha env (ee_token env);
          existing = find (\<lambda>h. h_orgId h = org \<and> h_slug h = slug) (hosts db);
          ident = (case existing of None \<Rightarrow> ee_freshId env | Some h \<Rightarrow> h_id h);
          row = \<lparr>h_id = ident, h_orgId = org, h_slug = slug, h_tokenHash = tokenHash,
                 h_tokenIssuedAt = ee_now env, h_daemonVer = daemonVer, h_lastSeenAt = None, h_revokedAt = None\<rparr>
      in if list_ex (\<lambda>h. (h_orgId h, h_slug h) \<noteq> (org, slug) \<and> (h_tokenHash h = tokenHash \<or> h_id h = ident)) (hosts db)
         then None
         else Some (db\<lparr>hosts := upsert (\<lambda>h. (h_orgId h, h_slug h))
                    (\<lambda>h. h\<lparr>h_tokenHash := tokenHash, h_tokenIssuedAt := ee_now env, h_daemonVer := daemonVer,
                            h_lastSeenAt := None, h_revokedAt := None\<rparr>) row (hosts db)\<rparr>,
                    \<lparr>pv_token = ee_token env, pv_hostId = ident, pv_host = slug, pv_org = org\<rparr>))"

definition usable_code :: "int \<Rightarrow> jstr \<Rightarrow> enroll_code_row \<Rightarrow> bool" where
  "usable_code now codeHash c \<longleftrightarrow> ec_codeHash c = codeHash \<and> is_null (ec_usedAt c) \<and> now < ec_expiresAt c"

definition version_ok :: "jstr option \<Rightarrow> jstr option" where
  "version_ok v = (case v of None \<Rightarrow> None | Some s \<Rightarrow> if s = [] \<or> 100 < length s then None else Some s)"

definition daemon_enroll ::
  "enroll_env \<Rightarrow> jstr option \<Rightarrow> jstr option \<Rightarrow> d1 \<Rightarrow> d1 \<times> (http_error + provisioned)" where
  "daemon_enroll env body_code body_ver db =
     (case (body_code, version_ok body_ver) of
        (Some code, Some daemonVer) \<Rightarrow>
          let codeHash = ee_sha env (normalise_code code); now = ee_now env in
          (case find (usable_code now codeHash) (enroll_codes db) of
             None \<Rightarrow> (db, Inl (401, js ''Unauthorized''))
           | Some c \<Rightarrow>
               let db1 = db\<lparr>enroll_codes := update_where (usable_code now codeHash)
                     (\<lambda>c. c\<lparr>ec_usedAt := Some now\<rparr>) (enroll_codes db)\<rparr>
               in (case provisionHost env (ec_orgId c) (ec_slug c) daemonVer db1 of
                     Some (db2, p) \<Rightarrow> (db2, Inr p)
                   | None \<Rightarrow>
                       (db1\<lparr>enroll_codes := update_where
                          (\<lambda>c. ec_codeHash c = codeHash \<and> ec_usedAt c = Some now)
                          (\<lambda>c. c\<lparr>ec_usedAt := None\<rparr>) (enroll_codes db1)\<rparr>, Inl server_error)))
      | _ \<Rightarrow> (db, Inl (401, js ''Unauthorized'')))"


section \<open>The device flow\<close>

definition device_authorize ::
  "enroll_env \<Rightarrow> jstr option \<Rightarrow> jstr option \<Rightarrow> d1 \<Rightarrow> d1 \<times> (http_error + (jstr \<times> jstr))" where
  "device_authorize env hostname daemon_ver db =
     (case (version_ok hostname, version_ok daemon_ver) of
        (Some h, Some v) \<Rightarrow>
          let codeHash = ee_sha env (ee_token env); now = ee_now env;
              taken = (\<lambda>candidate. list_ex (\<lambda>d. dv_userCode d = candidate \<and> now < dv_expiresAt d) (device_authorizations db))
          in (case find (\<lambda>candidate. \<not> taken candidate) (take 5 (ee_codes env)) of
                None \<Rightarrow> (db, Inl (503, js ''server_error''))
              | Some userCode \<Rightarrow>
                  if list_ex (\<lambda>d. dv_deviceCodeHash d = codeHash \<or> dv_userCode d = userCode) (device_authorizations db)
                  then (db, Inl server_error)
                  else (db\<lparr>device_authorizations := device_authorizations db @
                         [\<lparr>dv_deviceCodeHash = codeHash, dv_userCode = userCode, dv_orgId = None, dv_slug = None,
                           dv_hostname = h, dv_daemonVer = v, dv_expiresAt = now + ENROLL_TTL_MS,
                           dv_approvedAt = None, dv_claimedAt = None, dv_polledAt = None\<rparr>]\<rparr>,
                        Inr (ee_token env, userCode)))
      | _ \<Rightarrow> (db, Inl (400, js ''invalid_request'')))"

definition set_device :: "jstr \<Rightarrow> (device_authorization_row \<Rightarrow> device_authorization_row) \<Rightarrow> d1 \<Rightarrow> d1" where
  "set_device codeHash f db =
     db\<lparr>device_authorizations := update_where (\<lambda>d. dv_deviceCodeHash d = codeHash) f (device_authorizations db)\<rparr>"

text \<open>
  A poll. The organization and slug must be there and not empty; the claim is a compare-and-set, so
  that of two polls that read the same row only one gets a token (the other reads \<open>claimed_at\<close> in
  its update). Failing to provision leaves the flow claimed.
\<close>

definition device_token ::
  "enroll_env \<Rightarrow> jstr option \<Rightarrow> d1 \<Rightarrow> d1 \<times> (http_error + provisioned)" where
  "device_token env body_code db =
     (case body_code of None \<Rightarrow> (db, Inl (400, js ''invalid_request''))
      | Some code \<Rightarrow>
          let codeHash = ee_sha env code; now = ee_now env in
          (case find (\<lambda>d. dv_deviceCodeHash d = codeHash) (device_authorizations db) of
             None \<Rightarrow> (db, Inl (400, js ''invalid_grant''))
           | Some row \<Rightarrow>
               if \<not> is_null (dv_claimedAt row) then (db, Inl (400, js ''invalid_grant''))
               else if dv_expiresAt row \<le> now then (db, Inl (400, js ''expired_token''))
               else if (case dv_polledAt row of None \<Rightarrow> False
                        | Some t \<Rightarrow> now - t < DEVICE_POLL_INTERVAL_SECONDS * 800)
               then (db, Inl (429, js ''slow_down''))
               else
                 let db1 = set_device codeHash (\<lambda>d. d\<lparr>dv_polledAt := Some now\<rparr>) db in
                 (case (dv_approvedAt row, truthy (dv_orgId row), truthy (dv_slug row)) of
                    (Some _, Some org, Some slug) \<Rightarrow>
                      let db2 = set_device codeHash (\<lambda>d. d\<lparr>dv_claimedAt := Some now\<rparr>) db1 in
                      (case provisionHost env org slug (dv_daemonVer row) db2 of
                         Some (db3, p) \<Rightarrow> (db3, Inr p)
                       | None \<Rightarrow> (db2, Inl server_error))
                  | _ \<Rightarrow> (db1, Inl (400, js ''authorization_pending'')))))"

definition pending_flow :: "int \<Rightarrow> jstr \<Rightarrow> d1 \<Rightarrow> device_authorization_row option" where
  "pending_flow now userCode db =
     find (\<lambda>d. dv_userCode d = userCode \<and> now < dv_expiresAt d \<and> is_null (dv_claimedAt d)) (device_authorizations db)"

definition device_approve ::
  "enroll_env \<Rightarrow> jstr option \<Rightarrow> jstr option \<Rightarrow> jstr option \<Rightarrow> d1 \<Rightarrow> d1 \<times> (http_error + jstr)" where
  "device_approve env session user_code body_slug db =
     (case session of None \<Rightarrow> (db, Inl (401, js ''Unauthorized''))
      | Some org \<Rightarrow>
     (case user_code of None \<Rightarrow> (db, Inl (400, js ''user_code is required''))
      | Some u \<Rightarrow>
     (case pending_flow (ee_now env) (normalise_code u) db of None \<Rightarrow> (db, Inl (404, js ''unknown_code''))
      | Some row \<Rightarrow>
          if \<not> is_null (dv_approvedAt row) then (db, Inl (409, js ''already_approved''))
          else
            let slug = (case truthy body_slug of None \<Rightarrow> dv_hostname row | Some s \<Rightarrow> s) in
            (case validateHost slug of Inl e \<Rightarrow> (db, Inl (400, addr_code_text (err_code e)))
             | Inr _ \<Rightarrow>
                 (set_device (dv_deviceCodeHash row)
                    (\<lambda>d. d\<lparr>dv_approvedAt := Some (ee_now env), dv_orgId := Some org, dv_slug := Some slug\<rparr>) db,
                  Inr slug)))))"

definition device_pending :: "int \<Rightarrow> jstr \<Rightarrow> d1 \<Rightarrow> http_error + (jstr \<times> jstr \<times> bool)" where
  "device_pending now code db =
     (case pending_flow now (normalise_code code) db of
        None \<Rightarrow> Inl (404, js ''unknown_code'')
      | Some row \<Rightarrow> Inr (dv_hostname row, dv_daemonVer row, \<not> is_null (dv_approvedAt row)))"


section \<open>The daemon's connection and the host table\<close>

definition authenticate_host :: "(jstr \<Rightarrow> jstr) \<Rightarrow> jstr \<Rightarrow> d1 \<Rightarrow> host_row option" where
  "authenticate_host sha token db =
     find (\<lambda>h. h_tokenHash h = sha token \<and> is_null (h_revokedAt h)) (hosts db)"

definition daemon_ws ::
  "(jstr \<Rightarrow> jstr) \<Rightarrow> bool \<Rightarrow> jstr option \<Rightarrow> d1 \<Rightarrow> http_error + (jstr \<times> host_identity)" where
  "daemon_ws sha upgrade authorization db =
     (if \<not> upgrade then Inl (426, js ''WebSocket upgrade required'')
      else (case authorization of None \<Rightarrow> Inl (401, js ''Unauthorized'')
       | Some a \<Rightarrow>
           if \<not> starts_with a (js ''Bearer '') \<or> drop 7 a = [] then Inl (401, js ''Unauthorized'')
           else (case authenticate_host sha (drop 7 a) db of
                   None \<Rightarrow> Inl (401, js ''Unauthorized'')
                 | Some h \<Rightarrow> Inr (hub_name (h_orgId h) (h_slug h),
                     \<lparr>hi_hostId = h_id h, hi_org = h_orgId h, hi_slug = h_slug h\<rparr>))))"

record host_listing =
  hl_id :: jstr
  hl_slug :: jstr
  hl_daemonVer :: jstr
  hl_lastSeenAt :: "int option"
  hl_tokenIssuedAt :: int
  hl_fingerprint :: jstr
  hl_agentCount :: nat
  hl_connected :: bool
  hl_queueDepth :: nat
  hl_spooledDead :: "nat option"

definition list_hosts :: "jstr option \<Rightarrow> hub_store \<Rightarrow> d1 \<Rightarrow> http_error + host_listing list" where
  "list_hosts session hubs db =
     (case session of None \<Rightarrow> Inl (401, js ''Unauthorized'')
      | Some org \<Rightarrow>
          Inr (map (\<lambda>h. let st = status (hub_at hubs (hub_name org (h_slug h))) in
                 \<lparr>hl_id = h_id h, hl_slug = h_slug h, hl_daemonVer = h_daemonVer h, hl_lastSeenAt = h_lastSeenAt h,
                  hl_tokenIssuedAt = h_tokenIssuedAt h, hl_fingerprint = take 8 (h_tokenHash h),
                  hl_agentCount = length (filter (\<lambda>a. as_hostId a = h_id h) (agent_snapshots db)),
                  hl_connected = hs_connected st, hl_queueDepth = hs_queueDepth st,
                  hl_spooledDead = hs_spooledDead st\<rparr>)
               (sort_key h_slug (filter (\<lambda>h. h_orgId h = org \<and> is_null (h_revokedAt h) \<and> h_slug h \<noteq> PERSON_HOST_SLUG)
                 (hosts db)))))"

text \<open>Revoking a host: the row, and then the hub's socket.\<close>

definition revoke_host ::
  "enroll_env \<Rightarrow> hub_env \<Rightarrow> jstr option \<Rightarrow> jstr \<Rightarrow> d1 \<times> hub_store \<Rightarrow>
     (d1 \<times> hub_store) \<times> hub_effect list \<times> (http_error + unit)" where
  "revoke_host env henv session slug world =
     (let (db, hubs) = world; matching = (\<lambda>org h. h_orgId h = org \<and> h_slug h = slug \<and> is_null (h_revokedAt h)) in
      case session of None \<Rightarrow> (world, [], Inl (401, js ''Unauthorized''))
      | Some org \<Rightarrow>
     (case validateHost slug of Inl _ \<Rightarrow> (world, [], Inl (404, js ''host_not_found''))
      | Inr _ \<Rightarrow>
          if slug = PERSON_HOST_SLUG \<or> \<not> list_ex (matching org) (hosts db)
          then (world, [], Inl (404, js ''host_not_found''))
          else
            let (st, effs) = revoke henv (Some org) (hub_at hubs (hub_name org slug)) in
            ((db\<lparr>hosts := update_where (matching org) (\<lambda>h. h\<lparr>h_revokedAt := Some (ee_now env)\<rparr>) (hosts db)\<rparr>,
              kv_put (hub_name org slug) st hubs), effs, Inr ())))"


section \<open>Agent clients\<close>

record issued_client =
  cl_clientId :: jstr
  cl_secret :: jstr
  cl_address :: jstr

definition list_agent_clients :: "jstr option \<Rightarrow> d1 \<Rightarrow> http_error + (agent_client_row \<times> jstr) list" where
  "list_agent_clients session db =
     (case session of None \<Rightarrow> Inl (401, js ''Unauthorized'')
      | Some org \<Rightarrow> Inr (map (\<lambda>c. (c, take 8 (ac_secretHash c)))
          (sort_key ac_host (sort_key ac_name (sort_key ac_createdAt
            (filter (\<lambda>c. ac_orgId c = org \<and> is_null (ac_revokedAt c)) (agent_clients db)))))))"

definition create_agent_client ::
  "enroll_env \<Rightarrow> jstr option \<Rightarrow> jstr option \<Rightarrow> jstr option \<Rightarrow> d1 \<Rightarrow> d1 \<times> (http_error + issued_client)" where
  "create_agent_client env session body_host body_name db =
     (case session of None \<Rightarrow> (db, Inl (401, js ''Unauthorized''))
      | Some org \<Rightarrow>
     (case (body_host, body_name) of
        (Some host, Some name) \<Rightarrow>
          (case rbind (validateHost host) (\<lambda>_. validateName name) of
             Inl e \<Rightarrow> (db, Inl (400, addr_code_text (err_code e)))
           | Inr _ \<Rightarrow>
               if \<not> host_live db org host then (db, Inl (404, js ''host_not_found''))
               else if list_ex (\<lambda>c. ac_clientId c = ee_freshId env \<or> ac_secretHash c = ee_sha env (ee_token env)) (agent_clients db) then (db, Inl server_error)
               else (case formatAgentAddress name host None of
                       Inl e \<Rightarrow> (db, Inl server_error)
                     | Inr address \<Rightarrow>
                         (db\<lparr>agent_clients := agent_clients db @
                            [\<lparr>ac_clientId = ee_freshId env, ac_orgId = org, ac_host = host, ac_name = name,
                              ac_secretHash = ee_sha env (ee_token env), ac_createdAt = ee_now env,
                              ac_lastUsedAt = None, ac_revokedAt = None\<rparr>]\<rparr>,
                          Inr \<lparr>cl_clientId = ee_freshId env, cl_secret = ee_token env, cl_address = address\<rparr>)))
      | _ \<Rightarrow> (db, Inl (400, js ''host and name are required''))))"

definition revoke_agent_client :: "enroll_env \<Rightarrow> jstr option \<Rightarrow> jstr \<Rightarrow> d1 \<Rightarrow> d1 \<times> (http_error + unit)" where
  "revoke_agent_client env session clientId db =
     (let matching = (\<lambda>org c. ac_orgId c = org \<and> ac_clientId c = clientId \<and> is_null (ac_revokedAt c)) in
      case session of None \<Rightarrow> (db, Inl (401, js ''Unauthorized''))
      | Some org \<Rightarrow>
          if \<not> list_ex (matching org) (agent_clients db) then (db, Inl (404, js ''agent_client_not_found''))
          else (db\<lparr>agent_clients := update_where (matching org) (\<lambda>c. c\<lparr>ac_revokedAt := Some (ee_now env)\<rparr>)
                  (agent_clients db)\<rparr>, Inr ()))"

end
