(* ===== verification/Credentials.thy ===== *)
theory Credentials
  imports Enrollment
begin

text \<open>
  Where a host's token comes from. A log of what the enrollment routes granted accompanies the
  database (\<open>enroll_reach\<close>); the invariant ties each row of the code, flow and host tables to it.
  Then what revocation and rotation take away, and two gaps around the host of people.
\<close>

datatype credential_event =
  CodeIssued jstr jstr jstr int
| Redeemed jstr jstr jstr jstr int
| FlowStarted jstr int
| FlowApproved jstr jstr jstr int
| Claimed jstr jstr jstr jstr int

text \<open>
  The routes that write the three tables, from empty ones: a granted request is logged with the hash
  of its code, the host it is for, the hash of the token and the time; a refused one is not.
\<close>

inductive enroll_reach :: "(jstr \<Rightarrow> jstr) \<Rightarrow> d1 \<Rightarrow> credential_event list \<Rightarrow> bool" for sha where
  start: "enroll_codes db = [] \<Longrightarrow> device_authorizations db = [] \<Longrightarrow> hosts db = [] \<Longrightarrow> enroll_reach sha db []"
| issue: "enroll_reach sha db trail \<Longrightarrow> ee_sha env = sha \<Longrightarrow>
    hosts_enroll env (Some org) (Some slug) db = (db', Inr c) \<Longrightarrow>
    enroll_reach sha db' (CodeIssued org slug (sha (ic_code c)) (ee_now env) # trail)"
| redeem: "enroll_reach sha db trail \<Longrightarrow> ee_sha env = sha \<Longrightarrow>
    daemon_enroll env (Some code) ver db = (db', Inr p) \<Longrightarrow>
    enroll_reach sha db' (Redeemed (sha (normalise_code code)) (pv_org p) (pv_host p) (sha (pv_token p)) (ee_now env) # trail)"
| redeem_refused: "enroll_reach sha db trail \<Longrightarrow> ee_sha env = sha \<Longrightarrow>
    daemon_enroll env code ver db = (db', Inl e) \<Longrightarrow> enroll_reach sha db' trail"
| begin_flow: "enroll_reach sha db trail \<Longrightarrow> ee_sha env = sha \<Longrightarrow>
    device_authorize env hostname ver db = (db', Inr (dcode, ucode)) \<Longrightarrow>
    enroll_reach sha db' (FlowStarted (sha dcode) (ee_now env) # trail)"
| approve: "enroll_reach sha db trail \<Longrightarrow> ee_sha env = sha \<Longrightarrow>
    device_approve env (Some org) (Some ucode) body_slug db = (db', Inr slug) \<Longrightarrow>
    pending_flow (ee_now env) (normalise_code ucode) db = Some row \<Longrightarrow>
    enroll_reach sha db' (FlowApproved (dv_deviceCodeHash row) org slug (ee_now env) # trail)"
| claimed: "enroll_reach sha db trail \<Longrightarrow> ee_sha env = sha \<Longrightarrow>
    device_token env (Some dcode) db = (db', Inr p) \<Longrightarrow>
    enroll_reach sha db' (Claimed (sha dcode) (pv_org p) (pv_host p) (sha (pv_token p)) (ee_now env) # trail)"
| poll_refused: "enroll_reach sha db trail \<Longrightarrow> ee_sha env = sha \<Longrightarrow>
    device_token env dcode db = (db', Inl e) \<Longrightarrow> enroll_reach sha db' trail"
| revoke: "enroll_reach sha db trail \<Longrightarrow>
    enroll_reach sha (fst (fst (revoke_host env henv session slug (db, hubs)))) trail"
| person: "enroll_reach sha db trail \<Longrightarrow>
    enroll_reach sha (fst (claimPersonAddress db org user name freshId now)) trail"

inductive_cases reach_startE: "enroll_reach sha db []"

fun redeems :: "jstr \<Rightarrow> credential_event \<Rightarrow> bool" where
  "redeems h (Redeemed h' _ _ _ _) = (h' = h)"
| "redeems h _ = False"

fun claims_flow :: "jstr \<Rightarrow> credential_event \<Rightarrow> bool" where
  "claims_flow h (Claimed h' _ _ _ _) = (h' = h)"
| "claims_flow h _ = False"

definition code_origin :: "credential_event list \<Rightarrow> enroll_code_row \<Rightarrow> bool" where
  "code_origin trail c \<longleftrightarrow>
     (\<exists>t. CodeIssued (ec_orgId c) (ec_slug c) (ec_codeHash c) t \<in> set trail \<and> ec_expiresAt c = t + ENROLL_TTL_MS)"

definition redeemed_ok :: "enroll_code_row list \<Rightarrow> credential_event list \<Rightarrow> bool" where
  "redeemed_ok cs trail \<longleftrightarrow>
     (\<forall>h org slug tok t. Redeemed h org slug tok t \<in> set trail \<longrightarrow>
        (\<exists>c \<in> set cs. ec_codeHash c = h \<and> ec_usedAt c \<noteq> None) \<and>
        (\<exists>t0. CodeIssued org slug h t0 \<in> set trail \<and> t < t0 + ENROLL_TTL_MS)) \<and>
     (\<forall>h. length (filter (redeems h) trail) \<le> 1)"

definition codes_inv :: "enroll_code_row list \<Rightarrow> credential_event list \<Rightarrow> bool" where
  "codes_inv cs trail \<longleftrightarrow> distinct (map ec_codeHash cs) \<and> (\<forall>c \<in> set cs. code_origin trail c) \<and> redeemed_ok cs trail"

definition flow_origin :: "credential_event list \<Rightarrow> device_authorization_row \<Rightarrow> bool" where
  "flow_origin trail d \<longleftrightarrow>
     (\<exists>t. FlowStarted (dv_deviceCodeHash d) t \<in> set trail \<and> dv_expiresAt d = t + ENROLL_TTL_MS) \<and>
     (dv_approvedAt d \<noteq> None \<longrightarrow> (\<exists>org slug t. dv_orgId d = Some org \<and> dv_slug d = Some slug \<and>
        FlowApproved (dv_deviceCodeHash d) org slug t \<in> set trail))"

definition claimed_ok :: "device_authorization_row list \<Rightarrow> credential_event list \<Rightarrow> bool" where
  "claimed_ok ds trail \<longleftrightarrow>
     (\<forall>h org slug tok t. Claimed h org slug tok t \<in> set trail \<longrightarrow>
        (\<exists>d \<in> set ds. dv_deviceCodeHash d = h \<and> dv_claimedAt d \<noteq> None) \<and>
        (\<exists>t0 t1. FlowStarted h t0 \<in> set trail \<and> t < t0 + ENROLL_TTL_MS \<and> FlowApproved h org slug t1 \<in> set trail)) \<and>
     (\<forall>h. length (filter (claims_flow h) trail) \<le> 1)"

definition flows_inv :: "device_authorization_row list \<Rightarrow> credential_event list \<Rightarrow> bool" where
  "flows_inv ds trail \<longleftrightarrow>
     distinct (map dv_deviceCodeHash ds) \<and> (\<forall>d \<in> set ds. flow_origin trail d) \<and> claimed_ok ds trail"

definition token_origin :: "credential_event list \<Rightarrow> host_row \<Rightarrow> bool" where
  "token_origin trail h \<longleftrightarrow>
     h_tokenHash h = personHostTokenHash (h_orgId h) \<or>
     (\<exists>c t. Redeemed c (h_orgId h) (h_slug h) (h_tokenHash h) t \<in> set trail \<or>
            Claimed c (h_orgId h) (h_slug h) (h_tokenHash h) t \<in> set trail)"

definition enroll_inv :: "d1 \<Rightarrow> credential_event list \<Rightarrow> bool" where
  "enroll_inv db trail \<longleftrightarrow> codes_inv (enroll_codes db) trail \<and> flows_inv (device_authorizations db) trail \<and>
     (\<forall>h \<in> set (hosts db). token_origin trail h)"

named_theorems origin_mono \<open>an origin in a log is one in a longer log\<close>

lemma code_origin_mono [origin_mono]: "code_origin trail c \<Longrightarrow> code_origin (e # trail) c"
  by (auto simp: code_origin_def)

lemma flow_origin_mono [origin_mono]: "flow_origin trail d \<Longrightarrow> flow_origin (e # trail) d"
  unfolding flow_origin_def by (auto; blast)

lemma token_origin_mono [origin_mono]: "token_origin trail h \<Longrightarrow> token_origin (e # trail) h"
  unfolding token_origin_def by (auto; blast)

text \<open>Events of the other kinds leave a table's part of the invariant alone.\<close>

lemma codes_inv_other: "codes_inv cs trail \<Longrightarrow> (\<And>h. \<not> redeems h e) \<Longrightarrow> codes_inv cs (e # trail)"
  unfolding codes_inv_def redeemed_ok_def
  by (auto simp: origin_mono; cases e; fastforce)

lemma flows_inv_other: "flows_inv ds trail \<Longrightarrow> (\<And>h. \<not> claims_flow h e) \<Longrightarrow> flows_inv ds (e # trail)"
  unfolding flows_inv_def claimed_ok_def
  by (auto simp: origin_mono; cases e; fastforce)

section \<open>The invariant\<close>

lemma update_where_ex: "(\<exists>r \<in> set (update_where P f rs). Q r) \<longleftrightarrow> (\<exists>r \<in> set rs. Q (if P r then f r else r))"
  by (auto simp: update_where_def)

lemma codes_unique: "codes_inv cs trail \<Longrightarrow> c \<in> set cs \<Longrightarrow> c' \<in> set cs \<Longrightarrow> ec_codeHash c = ec_codeHash c' \<Longrightarrow> c = c'"
  unfolding codes_inv_def using key_unique [of ec_codeHash cs c c'] by blast

lemma flows_unique:
  "flows_inv ds trail \<Longrightarrow> d \<in> set ds \<Longrightarrow> d' \<in> set ds \<Longrightarrow> dv_deviceCodeHash d = dv_deviceCodeHash d' \<Longrightarrow> d = d'"
  unfolding flows_inv_def using key_unique [of dv_deviceCodeHash ds d d'] by blast

text \<open>A row update that keeps the columns an origin speaks of, and uses at most uses more, keeps the invariant.\<close>

lemma codes_inv_update:
  assumes "codes_inv cs trail"
    and keep: "\<And>c. ec_codeHash (f c) = ec_codeHash c \<and> ec_orgId (f c) = ec_orgId c \<and> ec_slug (f c) = ec_slug c \<and>
      ec_expiresAt (f c) = ec_expiresAt c \<and> ec_usedAt (f c) \<noteq> None"
  shows "codes_inv (update_where P f cs) trail"
proof -
  have "map ec_codeHash (update_where P f cs) = map ec_codeHash cs"
    unfolding update_where_def by (rule map_conflict_key) (simp add: keep)
  moreover have "code_origin trail c" if "c \<in> set (update_where P f cs)" for c
    using that assms(1) by (auto simp: update_where_def codes_inv_def code_origin_def keep)
  moreover have "\<exists>c \<in> set (update_where P f cs). ec_codeHash c = h \<and> ec_usedAt c \<noteq> None"
    if "\<exists>c \<in> set cs. ec_codeHash c = h \<and> ec_usedAt c \<noteq> None" for h
  proof -
    from that obtain c where "c \<in> set cs" "ec_codeHash c = h" "ec_usedAt c \<noteq> None" by blast
    then show ?thesis using keep [of c] unfolding update_where_ex by (intro bexI [of _ c]) auto
  qed
  ultimately show ?thesis using assms(1) unfolding codes_inv_def redeemed_ok_def by auto
qed

lemma codes_inv_redeem:
  assumes inv: "codes_inv cs trail" and c: "find (usable_code now h) cs = Some c"
  shows "codes_inv (update_where (usable_code now h) (\<lambda>c. c\<lparr>ec_usedAt := Some now\<rparr>) cs)
    (Redeemed h (ec_orgId c) (ec_slug c) tok now # trail)"
proof -
  let ?cs = "update_where (usable_code now h) (\<lambda>c. c\<lparr>ec_usedAt := Some now\<rparr>) cs"
  have cin: "c \<in> set cs" "usable_code now h c" using find_in_set [OF c] by auto
  then have hc: "ec_codeHash c = h" "ec_usedAt c = None" "now < ec_expiresAt c" by (auto simp: usable_code_def)
  have "codes_inv ?cs trail" by (rule codes_inv_update [OF inv]) simp
  moreover have none: "\<not> redeems h e" if mem: "e \<in> set trail" for e
  proof
    assume "redeems h e"
    then obtain org slug t k where "e = Redeemed h org slug t k" by (cases e) simp_all
    with mem have "Redeemed h org slug t k \<in> set trail" by simp
    then obtain c' where "c' \<in> set cs" "ec_codeHash c' = h" "ec_usedAt c' \<noteq> None"
      using inv unfolding codes_inv_def redeemed_ok_def by blast
    with codes_unique [OF inv this(1) cin(1)] hc show False by simp
  qed
  moreover have "\<exists>c' \<in> set ?cs. ec_codeHash c' = h \<and> ec_usedAt c' \<noteq> None"
    unfolding update_where_ex using cin hc by (intro bexI [of _ c]) auto
  moreover obtain t0 where "CodeIssued (ec_orgId c) (ec_slug c) h t0 \<in> set trail" "now < t0 + ENROLL_TTL_MS"
    using inv cin(1) hc by (fastforce simp: codes_inv_def code_origin_def)
  moreover have "filter (redeems h) trail = []" using none by (simp add: filter_empty_conv)
  ultimately show ?thesis
    unfolding codes_inv_def redeemed_ok_def by (auto simp: origin_mono)
qed

text \<open>Handing a code back restores the table.\<close>

lemma code_handed_back:
  assumes inv: "codes_inv cs trail" and c: "find (usable_code now h) cs = Some c"
  shows "update_where (\<lambda>c. ec_codeHash c = h \<and> ec_usedAt c = Some now) (\<lambda>c. c\<lparr>ec_usedAt := None\<rparr>)
    (update_where (usable_code now h) (\<lambda>c. c\<lparr>ec_usedAt := Some now\<rparr>) cs) = cs"
proof -
  have cin: "c \<in> set cs" "usable_code now h c" using find_in_set [OF c] by auto
  have "(if ec_codeHash c2 = h \<and> ec_usedAt c2 = Some now then c2\<lparr>ec_usedAt := None\<rparr> else c2) = c1"
    if c1: "c1 \<in> set cs" and c2: "c2 = (if usable_code now h c1 then c1\<lparr>ec_usedAt := Some now\<rparr> else c1)" for c1 c2
  proof (cases "ec_codeHash c1 = h")
    case True
    then have "c1 = c" using codes_unique [OF inv c1 cin(1)] cin(2) by (simp add: usable_code_def)
    then show ?thesis using cin(2) c2 by (simp add: usable_code_def)
  qed (use c2 in \<open>auto simp: usable_code_def\<close>)
  then show ?thesis by (simp add: update_where_def comp_def map_idI)
qed

lemma flows_inv_update:
  assumes inv: "flows_inv ds trail"
    and keep: "\<And>d. dv_deviceCodeHash (f d) = dv_deviceCodeHash d"
    and origin: "\<And>d. d \<in> set ds \<Longrightarrow> P d \<Longrightarrow> flow_origin trail (f d)"
    and claimed: "\<And>d. dv_claimedAt d \<noteq> None \<Longrightarrow> dv_claimedAt (f d) \<noteq> None"
  shows "flows_inv (update_where P f ds) trail"
proof -
  have "map dv_deviceCodeHash (update_where P f ds) = map dv_deviceCodeHash ds"
    unfolding update_where_def by (rule map_conflict_key) (simp add: keep)
  moreover have "flow_origin trail d" if "d \<in> set (update_where P f ds)" for d
    using that inv origin by (auto simp: update_where_def flows_inv_def)
  moreover have "\<exists>d \<in> set (update_where P f ds). dv_deviceCodeHash d = h \<and> dv_claimedAt d \<noteq> None"
    if "\<exists>d \<in> set ds. dv_deviceCodeHash d = h \<and> dv_claimedAt d \<noteq> None" for h
  proof -
    from that obtain d where "d \<in> set ds" "dv_deviceCodeHash d = h" "dv_claimedAt d \<noteq> None" by blast
    then show ?thesis using keep [of d] claimed [of d] unfolding update_where_ex by (intro bexI [of _ d]) auto
  qed
  ultimately show ?thesis using inv unfolding flows_inv_def claimed_ok_def by auto
qed

lemma provision_facts:
  assumes "provisionHost env org slug ver db = Some (db', p)"
  shows "enroll_codes db' = enroll_codes db" "device_authorizations db' = device_authorizations db"
    "pv_org p = org" "pv_host p = slug" "pv_token p = ee_token env"
    "h \<in> set (hosts db') \<Longrightarrow> h \<in> set (hosts db) \<or>
      (h_orgId h = org \<and> h_slug h = slug \<and> h_tokenHash h = ee_sha env (ee_token env))"
  using assms by (auto simp: provisionHost_def Let_def upsert_def split: if_splits)

text \<open>A host row that was there, or that holds the token just granted, has its origin.\<close>

lemma hosts_after_provision:
  assumes "provisionHost env org slug ver db0 = Some (db', p)" "\<forall>h \<in> set (hosts db0). token_origin trail h"
    and "e = Redeemed c org slug (ee_sha env (ee_token env)) t \<or> e = Claimed c org slug (ee_sha env (ee_token env)) t"
  shows "\<forall>h \<in> set (hosts db'). token_origin (e # trail) h"
proof
  fix h
  assume "h \<in> set (hosts db')"
  then consider "h \<in> set (hosts db0)"
    | "h_orgId h = org" "h_slug h = slug" "h_tokenHash h = ee_sha env (ee_token env)"
    using provision_facts(6) [OF assms(1)] by blast
  then show "token_origin (e # trail) h"
    by cases (use assms(2,3) in \<open>auto simp: origin_mono token_origin_def\<close>)
qed

lemma hosts_enroll_inv:
  assumes inv: "enroll_inv db trail" and r: "hosts_enroll env (Some org) (Some slug) db = (db', Inr c)"
  shows "enroll_inv db' (CodeIssued org slug (ee_sha env (ic_code c)) (ee_now env) # trail)"
proof -
  let ?upd = "update_where (\<lambda>c. ec_orgId c = org \<and> ec_slug c = slug \<and> is_null (ec_usedAt c))
      (\<lambda>c. c\<lparr>ec_usedAt := Some (ee_now env)\<rparr>) (enroll_codes db)"
  let ?h = "ee_sha env (ic_code c)" and ?e = "CodeIssued org slug (ee_sha env (ic_code c)) (ee_now env)"
  let ?row = "\<lparr>ec_codeHash = ?h, ec_orgId = org, ec_slug = slug, ec_expiresAt = ee_now env + ENROLL_TTL_MS, ec_usedAt = None\<rparr>"
  have db': "enroll_codes db' = ?upd @ [?row]" "device_authorizations db' = device_authorizations db"
      "hosts db' = hosts db" "\<forall>c \<in> set (enroll_codes db). ec_codeHash c \<noteq> ?h"
    using r by (auto simp: hosts_enroll_def Let_def list_ex_iff simp del: is_null_iff split: sum.splits if_splits)
  have "codes_inv (enroll_codes db) trail" using inv by (simp add: enroll_inv_def)
  then have "codes_inv ?upd trail" by (rule codes_inv_update) simp
  then have u: "codes_inv ?upd (?e # trail)" by (rule codes_inv_other) simp
  have "map ec_codeHash ?upd = map ec_codeHash (enroll_codes db)"
    unfolding update_where_def by (rule map_conflict_key) simp
  then have "?h \<notin> set (map ec_codeHash ?upd)" using db'(4) by (metis (no_types, lifting) image_iff list.set_map)
  moreover have "code_origin (?e # trail) ?row" by (simp add: code_origin_def)
  ultimately have "codes_inv (enroll_codes db') (?e # trail)"
    using u unfolding db'(1) codes_inv_def redeemed_ok_def by auto
  moreover have "flows_inv (device_authorizations db') (?e # trail)"
    using inv db'(2) flows_inv_other [of "device_authorizations db" trail ?e] by (simp add: enroll_inv_def)
  ultimately show ?thesis using inv db'(3) by (simp add: enroll_inv_def origin_mono)
qed

lemma daemon_enroll_inv:
  assumes inv: "enroll_inv db trail" and r: "daemon_enroll env (Some code) ver db = (db', Inr p)"
  shows "enroll_inv db' (Redeemed (ee_sha env (normalise_code code)) (pv_org p) (pv_host p)
    (ee_sha env (pv_token p)) (ee_now env) # trail)"
proof -
  let ?h = "ee_sha env (normalise_code code)" and ?now = "ee_now env"
  obtain c v where c: "find (usable_code ?now ?h) (enroll_codes db) = Some c"
      and pv: "provisionHost env (ec_orgId c) (ec_slug c) v (db\<lparr>enroll_codes := update_where (usable_code ?now ?h)
        (\<lambda>c. c\<lparr>ec_usedAt := Some ?now\<rparr>) (enroll_codes db)\<rparr>) = Some (db', p)"
    using r by (auto simp: daemon_enroll_def Let_def split: option.splits prod.splits)
  note F = provision_facts [OF pv]
  let ?e = "Redeemed ?h (ec_orgId c) (ec_slug c) (ee_sha env (ee_token env)) ?now"
  have "codes_inv (enroll_codes db') (?e # trail)"
    using codes_inv_redeem [OF _ c] inv by (simp add: F(1) enroll_inv_def)
  moreover have "flows_inv (device_authorizations db') (?e # trail)"
    using flows_inv_other [of "device_authorizations db" trail ?e] inv by (simp add: F(2) enroll_inv_def)
  moreover have "\<forall>h \<in> set (hosts db'). token_origin (?e # trail) h"
    by (rule hosts_after_provision [OF pv]) (use inv in \<open>auto simp: enroll_inv_def\<close>)
  ultimately show ?thesis by (simp add: enroll_inv_def F(3,4,5))
qed

lemma daemon_enroll_refused_inv:
  assumes inv: "enroll_inv db trail" and r: "daemon_enroll env code ver db = (db', Inl e)"
  shows "enroll_inv db' trail"
proof (cases "db' = db")
  case False
  then obtain cd c where c: "code = Some cd"
      "find (usable_code (ee_now env) (ee_sha env (normalise_code cd))) (enroll_codes db) = Some c"
    and db': "enroll_codes db' = update_where (\<lambda>c. ec_codeHash c = ee_sha env (normalise_code cd) \<and> ec_usedAt c = Some (ee_now env))
        (\<lambda>c. c\<lparr>ec_usedAt := None\<rparr>) (update_where (usable_code (ee_now env) (ee_sha env (normalise_code cd)))
          (\<lambda>c. c\<lparr>ec_usedAt := Some (ee_now env)\<rparr>) (enroll_codes db))"
      "device_authorizations db' = device_authorizations db" "hosts db' = hosts db"
    using r by (auto simp: daemon_enroll_def Let_def split: option.splits prod.splits)
  have "codes_inv (enroll_codes db) trail" using inv by (simp add: enroll_inv_def)
  from code_handed_back [OF this c(2)] have "enroll_codes db' = enroll_codes db" using db'(1) by simp
  with inv db'(2,3) show ?thesis by (simp add: enroll_inv_def)
qed (use inv in simp)

lemma device_authorize_inv:
  assumes inv: "enroll_inv db trail" and r: "device_authorize env hostname ver db = (db', Inr (dcode, ucode))"
  shows "enroll_inv db' (FlowStarted (ee_sha env dcode) (ee_now env) # trail)"
proof -
  let ?e = "FlowStarted (ee_sha env dcode) (ee_now env)"
  obtain d where db': "device_authorizations db' = device_authorizations db @ [d]"
      "enroll_codes db' = enroll_codes db" "hosts db' = hosts db"
      "dv_deviceCodeHash d = ee_sha env dcode" "dv_expiresAt d = ee_now env + ENROLL_TTL_MS"
      "dv_approvedAt d = None" "\<forall>d \<in> set (device_authorizations db). dv_deviceCodeHash d \<noteq> ee_sha env dcode"
    using r by (auto simp: device_authorize_def Let_def list_ex_iff split: option.splits if_splits)
  have "flows_inv (device_authorizations db) (?e # trail)"
    using flows_inv_other [of "device_authorizations db" trail ?e] inv by (simp add: enroll_inv_def)
  moreover have "flow_origin (?e # trail) d" using db'(4-6) by (simp add: flow_origin_def)
  ultimately have "flows_inv (device_authorizations db') (?e # trail)"
    using db'(4,7) unfolding db'(1) flows_inv_def claimed_ok_def by (auto; blast)
  moreover have "codes_inv (enroll_codes db') (?e # trail)"
    using codes_inv_other [of "enroll_codes db" trail ?e] inv db'(2) by (simp add: enroll_inv_def)
  ultimately show ?thesis using inv db'(3) by (simp add: enroll_inv_def origin_mono)
qed

lemma device_approve_inv:
  assumes inv: "enroll_inv db trail" and r: "device_approve env (Some org) (Some ucode) body_slug db = (db', Inr slug)"
    and row: "pending_flow (ee_now env) (normalise_code ucode) db = Some row"
  shows "enroll_inv db' (FlowApproved (dv_deviceCodeHash row) org slug (ee_now env) # trail)"
proof -
  let ?e = "FlowApproved (dv_deviceCodeHash row) org slug (ee_now env)"
  let ?f = "\<lambda>d. d\<lparr>dv_approvedAt := Some (ee_now env), dv_orgId := Some org, dv_slug := Some slug\<rparr>"
  have db': "db' = set_device (dv_deviceCodeHash row) ?f db"
    using r row by (auto simp: device_approve_def Let_def simp del: is_null_iff split: sum.splits if_splits)
  have fl: "flows_inv (device_authorizations db) (?e # trail)"
    using flows_inv_other [of "device_authorizations db" trail ?e] inv by (simp add: enroll_inv_def)
  then have "flow_origin (?e # trail) d" if "d \<in> set (device_authorizations db)" for d
    using that by (simp add: flows_inv_def)
  then have "flow_origin (?e # trail) (?f d)"
    if "d \<in> set (device_authorizations db)" "dv_deviceCodeHash d = dv_deviceCodeHash row" for d
  proof -
    from \<open>\<And>d. d \<in> set (device_authorizations db) \<Longrightarrow> flow_origin (?e # trail) d\<close> [OF that(1)]
    obtain t where "FlowStarted (dv_deviceCodeHash d) t \<in> set (?e # trail)" "dv_expiresAt d = t + ENROLL_TTL_MS"
      unfolding flow_origin_def by blast
    then show ?thesis unfolding flow_origin_def using that(2) by auto
  qed
  then have "flows_inv (device_authorizations db') (?e # trail)"
    unfolding db' set_device_def using flows_inv_update [OF fl] by simp
  moreover have "codes_inv (enroll_codes db') (?e # trail)"
    using codes_inv_other [of "enroll_codes db" trail ?e] inv by (simp add: enroll_inv_def db' set_device_def)
  ultimately show ?thesis using inv by (simp add: enroll_inv_def origin_mono db' set_device_def)
qed

lemma flows_inv_claim:
  assumes inv: "flows_inv ds trail" and d: "find (\<lambda>d. dv_deviceCodeHash d = h) ds = Some row"
    and row: "dv_claimedAt row = None" "now < dv_expiresAt row" "dv_approvedAt row = Some a"
      "dv_orgId row = Some org" "dv_slug row = Some slug"
  shows "flows_inv (update_where (\<lambda>d. dv_deviceCodeHash d = h) (\<lambda>d. d\<lparr>dv_polledAt := p, dv_claimedAt := Some now\<rparr>) ds)
    (Claimed h org slug tok now # trail)"
proof -
  let ?f = "\<lambda>d. d\<lparr>dv_polledAt := p, dv_claimedAt := Some now\<rparr>"
  let ?ds = "update_where (\<lambda>d. dv_deviceCodeHash d = h) ?f ds"
  have rin: "row \<in> set ds" "dv_deviceCodeHash row = h" using find_in_set [OF d] by auto
  have org: "flow_origin trail d" if "d \<in> set ds" for d using inv that by (simp add: flows_inv_def)
  have "flow_origin trail (?f d)" if "d \<in> set ds" for d
    using org [OF that] by (simp add: flow_origin_def)
  then have "flows_inv ?ds trail" using inv by (intro flows_inv_update) auto
  moreover have none: "\<not> claims_flow h e" if mem: "e \<in> set trail" for e
  proof
    assume "claims_flow h e"
    then obtain o' s' t k where "e = Claimed h o' s' t k" by (cases e) simp_all
    with mem have "Claimed h o' s' t k \<in> set trail" by simp
    then obtain d' where "d' \<in> set ds" "dv_deviceCodeHash d' = h" "dv_claimedAt d' \<noteq> None"
      using inv unfolding flows_inv_def claimed_ok_def by blast
    with flows_unique [OF inv this(1) rin(1)] rin row(1) show False by simp
  qed
  moreover have "\<exists>d \<in> set ?ds. dv_deviceCodeHash d = h \<and> dv_claimedAt d \<noteq> None"
    unfolding update_where_ex using rin by (intro bexI [of _ row]) auto
  moreover obtain t0 where "FlowStarted h t0 \<in> set trail" "now < t0 + ENROLL_TTL_MS"
    using org [OF rin(1)] rin(2) row(2) by (auto simp: flow_origin_def)
  moreover obtain t1 where "FlowApproved h org slug t1 \<in> set trail"
    using org [OF rin(1)] rin(2) row(3,4,5) by (auto simp: flow_origin_def)
  moreover have "filter (claims_flow h) trail = []" using none by (simp add: filter_empty_conv)
  ultimately show ?thesis
    unfolding flows_inv_def claimed_ok_def by (auto simp: origin_mono; blast)
qed

lemma set_device_twice:
  assumes "\<And>d. dv_deviceCodeHash (f d) = dv_deviceCodeHash d"
  shows "device_authorizations (set_device h g (set_device h f db)) =
    update_where (\<lambda>d. dv_deviceCodeHash d = h) (\<lambda>d. g (f d)) (device_authorizations db)"
  using assms by (auto simp: set_device_def update_where_def)

lemma set_device_frame [simp]:
  "enroll_codes (set_device h f db) = enroll_codes db" "hosts (set_device h f db) = hosts db"
  by (simp_all add: set_device_def)

lemma device_token_inv:
  assumes inv: "enroll_inv db trail" and r: "device_token env (Some dcode) db = (db', Inr p)"
  shows "enroll_inv db' (Claimed (ee_sha env dcode) (pv_org p) (pv_host p) (ee_sha env (pv_token p)) (ee_now env) # trail)"
proof -
  let ?h = "ee_sha env dcode" and ?now = "ee_now env"
  let ?db2 = "set_device ?h (\<lambda>d. d\<lparr>dv_claimedAt := Some ?now\<rparr>) (set_device ?h (\<lambda>d. d\<lparr>dv_polledAt := Some ?now\<rparr>) db)"
  obtain row a org slug where row: "find (\<lambda>d. dv_deviceCodeHash d = ?h) (device_authorizations db) = Some row"
      "dv_claimedAt row = None" "?now < dv_expiresAt row" "dv_approvedAt row = Some a"
      "truthy (dv_orgId row) = Some org" "truthy (dv_slug row) = Some slug"
      and pv: "provisionHost env org slug (dv_daemonVer row) ?db2 = Some (db', p)"
    using r by (auto simp: device_token_def Let_def not_le split: option.splits prod.splits if_splits)
  have os: "dv_orgId row = Some org" "dv_slug row = Some slug" using row(5,6) by (auto simp: truthy_def split: option.splits if_splits)
  note F = provision_facts [OF pv]
  let ?e = "Claimed ?h org slug (ee_sha env (ee_token env)) ?now"
  have "flows_inv (device_authorizations db) trail" using inv by (simp add: enroll_inv_def)
  from flows_inv_claim [OF this row(1-4) os, of "Some ?now" "ee_sha env (ee_token env)"]
  have "flows_inv (device_authorizations db') (?e # trail)"
    unfolding F(2) by (subst set_device_twice) simp_all
  moreover have "codes_inv (enroll_codes db') (?e # trail)"
    using codes_inv_other [of "enroll_codes db" trail ?e] inv by (simp add: F(1) enroll_inv_def)
  moreover have "\<forall>h \<in> set (hosts db'). token_origin (?e # trail) h"
    by (rule hosts_after_provision [OF pv]) (use inv in \<open>auto simp: enroll_inv_def\<close>)
  ultimately show ?thesis by (simp add: enroll_inv_def F(3,4,5))
qed

lemma device_token_refused_inv:
  assumes inv: "enroll_inv db trail" and r: "device_token env dcode db = (db', Inl e)"
  shows "enroll_inv db' trail"
proof -
  have fl: "flows_inv (device_authorizations db) trail" using inv by (simp add: enroll_inv_def)
  have o': "flow_origin trail d" if "d \<in> set (device_authorizations db)" for d using that fl by (simp add: flows_inv_def)
  have "\<exists>P f. device_authorizations db' = update_where P f (device_authorizations db) \<and>
      (\<forall>d. dv_deviceCodeHash (f d) = dv_deviceCodeHash d \<and> dv_expiresAt (f d) = dv_expiresAt d \<and>
        dv_approvedAt (f d) = dv_approvedAt d \<and> dv_orgId (f d) = dv_orgId d \<and> dv_slug (f d) = dv_slug d \<and>
        (dv_claimedAt d \<noteq> None \<longrightarrow> dv_claimedAt (f d) \<noteq> None)) \<and>
      enroll_codes db' = enroll_codes db \<and> hosts db' = hosts db"
  proof (cases "db' = db")
    case True
    then show ?thesis by (intro exI [of _ "\<lambda>_. False"] exI [of _ id]) (simp add: update_where_def)
  next
    case False
    then obtain h where "db' = set_device h (\<lambda>d. d\<lparr>dv_polledAt := Some (ee_now env)\<rparr>) db \<or>
      db' = set_device h (\<lambda>d. d\<lparr>dv_claimedAt := Some (ee_now env)\<rparr>) (set_device h (\<lambda>d. d\<lparr>dv_polledAt := Some (ee_now env)\<rparr>) db)"
      using r by (auto simp: device_token_def Let_def split: option.splits prod.splits if_splits)
    then show ?thesis
    proof
      assume "db' = set_device h (\<lambda>d. d\<lparr>dv_polledAt := Some (ee_now env)\<rparr>) db"
      then show ?thesis
        by (intro exI [of _ "\<lambda>d. dv_deviceCodeHash d = h"] exI [of _ "\<lambda>d. d\<lparr>dv_polledAt := Some (ee_now env)\<rparr>"])
          (simp add: set_device_def)
    next
      assume d2: "db' = set_device h (\<lambda>d. d\<lparr>dv_claimedAt := Some (ee_now env)\<rparr>) (set_device h (\<lambda>d. d\<lparr>dv_polledAt := Some (ee_now env)\<rparr>) db)"
      have "device_authorizations db' = update_where (\<lambda>d. dv_deviceCodeHash d = h)
          (\<lambda>d. d\<lparr>dv_polledAt := Some (ee_now env), dv_claimedAt := Some (ee_now env)\<rparr>) (device_authorizations db)"
        unfolding d2 by (subst set_device_twice) simp_all
      then show ?thesis
        by (intro exI [of _ "\<lambda>d. dv_deviceCodeHash d = h"]
            exI [of _ "\<lambda>d. d\<lparr>dv_polledAt := Some (ee_now env), dv_claimedAt := Some (ee_now env)\<rparr>"]) (simp add: d2)
    qed
  qed
  then obtain P f where db': "device_authorizations db' = update_where P f (device_authorizations db)"
      and f: "\<And>d. dv_deviceCodeHash (f d) = dv_deviceCodeHash d" "\<And>d. dv_expiresAt (f d) = dv_expiresAt d"
        "\<And>d. dv_approvedAt (f d) = dv_approvedAt d" "\<And>d. dv_orgId (f d) = dv_orgId d" "\<And>d. dv_slug (f d) = dv_slug d"
        "\<And>d. dv_claimedAt d \<noteq> None \<Longrightarrow> dv_claimedAt (f d) \<noteq> None"
      and fr: "enroll_codes db' = enroll_codes db" "hosts db' = hosts db"
    by blast
  have "flows_inv (update_where P f (device_authorizations db)) trail"
    by (rule flows_inv_update [OF fl f(1) _ f(6)]) (use o' in \<open>auto simp: flow_origin_def f\<close>)
  with inv db' fr show ?thesis by (simp add: enroll_inv_def)
qed

lemma revoke_host_inv:
  assumes "enroll_inv db trail"
  shows "enroll_inv (fst (fst (revoke_host env henv session slug (db, hubs)))) trail"
  using assms
  by (auto simp: revoke_host_def Let_def split_def enroll_inv_def update_where_def token_origin_def
      simp del: is_null_iff split: option.splits sum.splits if_splits)

lemma ensurePersonHost_hosts:
  "h \<in> set (hosts (fst (ensurePersonHost db org freshId now))) \<Longrightarrow>
     (\<exists>h0 \<in> set (hosts db). h_orgId h = h_orgId h0 \<and> h_slug h = h_slug h0 \<and> h_tokenHash h = h_tokenHash h0) \<or>
     (h_orgId h = org \<and> h_tokenHash h = personHostTokenHash org)"
  "enroll_codes (fst (ensurePersonHost db org freshId now)) = enroll_codes db"
  "device_authorizations (fst (ensurePersonHost db org freshId now)) = device_authorizations db"
  by (auto simp: ensurePersonHost_def Let_def update_where_def split: option.splits if_splits)

lemma claimPersonAddress_hosts:
  "hosts (fst (claimPersonAddress db org user name freshId now)) \<in>
     {hosts db, hosts (fst (ensurePersonHost db org freshId now))}"
  "enroll_codes (fst (claimPersonAddress db org user name freshId now)) = enroll_codes db"
  "device_authorizations (fst (claimPersonAddress db org user name freshId now)) = device_authorizations db"
  using ensurePersonHost_hosts(2,3) [of db org freshId now]
  by (auto simp: claimPersonAddress_def Let_def split_def split: sum.splits)

lemma claimPersonAddress_inv:
  assumes "enroll_inv db trail"
  shows "enroll_inv (fst (claimPersonAddress db org user name freshId now)) trail"
proof -
  have "token_origin trail h" if "h \<in> set (hosts (fst (claimPersonAddress db org user name freshId now)))" for h
    using that claimPersonAddress_hosts(1) [of db org user name freshId now]
      ensurePersonHost_hosts(1) [of h db org freshId now] assms
    unfolding enroll_inv_def token_origin_def by (auto; metis)
  with assms claimPersonAddress_hosts(2,3) show ?thesis by (simp add: enroll_inv_def)
qed

lemma enroll_reach_inv: "enroll_reach sha db trail \<Longrightarrow> enroll_inv db trail"
proof (induction rule: enroll_reach.induct)
  case (start db)
  then show ?case
    by (simp add: enroll_inv_def codes_inv_def flows_inv_def redeemed_ok_def claimed_ok_def)
next
  case (issue db trail env org slug db' c)
  from hosts_enroll_inv [OF issue(4,3)] issue(2) show ?case by simp
next
  case (redeem db trail env code ver db' p)
  from daemon_enroll_inv [OF redeem(4,3)] redeem(2) show ?case by simp
next
  case (redeem_refused db trail env code ver db' e)
  from daemon_enroll_refused_inv [OF redeem_refused(4,3)] show ?case .
next
  case (begin_flow db trail env hostname ver db' dcode ucode)
  from device_authorize_inv [OF begin_flow(4,3)] begin_flow(2) show ?case by simp
next
  case (approve db trail env org ucode body_slug db' slug row)
  from device_approve_inv [OF approve(5,3,4)] show ?case .
next
  case (claimed db trail env dcode db' p)
  from device_token_inv [OF claimed(4,3)] claimed(2) show ?case by simp
next
  case (poll_refused db trail env dcode db' e)
  from device_token_refused_inv [OF poll_refused(4,3)] show ?case .
next
  case (revoke db trail env henv session slug hubs)
  from revoke_host_inv [OF revoke(2)] show ?case .
next
  case (person db trail org user name freshId now)
  from claimPersonAddress_inv [OF person(2)] show ?case .
qed

end
