(* ===== verification/Enrollment_Properties.thy ===== *)
theory Enrollment_Properties
  imports Credentials Host_Roster
begin

text \<open>
  What the enrollment routes guarantee: where a token comes from, what revocation and rotation take
  away, and two gaps around the host of people.
\<close>

text \<open>
  C26: the provenance of a host's credential. In every database the enrollment routes reach from
  empty tables, a host's token hash is the unusable one of a person host, or was granted for exactly
  that organization and slug: for a code that a session of the organization issued for the slug less
  than fifteen minutes before, or for a device flow that started less than fifteen minutes before and
  that a session of the organization approved for the slug. No code and no flow is good for two tokens.
\<close>
theorem credential_provenance:
  assumes "enroll_reach sha db trail" and "h \<in> set (hosts db)"
  shows "(h_tokenHash h = personHostTokenHash (h_orgId h) \<or>
     (\<exists>c t t0. Redeemed c (h_orgId h) (h_slug h) (h_tokenHash h) t \<in> set trail \<and>
        CodeIssued (h_orgId h) (h_slug h) c t0 \<in> set trail \<and> t < t0 + 900000) \<or>
     (\<exists>f t t0 t1. Claimed f (h_orgId h) (h_slug h) (h_tokenHash h) t \<in> set trail \<and>
        FlowStarted f t0 \<in> set trail \<and> t < t0 + 900000 \<and>
        FlowApproved f (h_orgId h) (h_slug h) t1 \<in> set trail)) \<and>
   length (filter (redeems c) trail) \<le> 1 \<and> length (filter (claims_flow f) trail) \<le> 1"
proof -
  have inv: "enroll_inv db trail" using assms(1) by (rule enroll_reach_inv)
  have ttl: "ENROLL_TTL_MS = 900000" by (simp add: ENROLL_TTL_MS_def)
  have codes: "redeemed_ok (enroll_codes db) trail" and flows: "claimed_ok (device_authorizations db) trail"
    and "token_origin trail h"
    using inv assms(2) by (auto simp: enroll_inv_def codes_inv_def flows_inv_def)
  then show ?thesis
    unfolding redeemed_ok_def claimed_ok_def token_origin_def ttl by blast
qed

definition demo_enroll_env :: "int \<Rightarrow> enroll_env" where
  "demo_enroll_env t =
     \<lparr>ee_now = t, ee_sha = (\<lambda>s. HASH # s), ee_token = js ''token'', ee_codes = [js ''ABCD-2345''], ee_freshId = js ''hst_1''\<rparr>"

definition demo_issued :: d1 where
  "demo_issued = fst (hosts_enroll (demo_enroll_env 1000) (Some (js ''acme'')) (Some (js ''titan'')) empty_d1)"

definition demo_enrolled :: d1 where
  "demo_enrolled = fst (daemon_enroll (demo_enroll_env 2000) (Some (js '' abcd-2345'')) (Some (js ''1.0'')) demo_issued)"

definition demo_host_row :: host_row where
  "demo_host_row = \<lparr>h_id = js ''hst_1'', h_orgId = js ''acme'', h_slug = js ''titan'',
     h_tokenHash = js ''#token'', h_tokenIssuedAt = 2000, h_daemonVer = js ''1.0'', h_lastSeenAt = None, h_revokedAt = None\<rparr>"

lemma demo_issue:
  "hosts_enroll (demo_enroll_env 1000) (Some (js ''acme'')) (Some (js ''titan'')) empty_d1 =
     (demo_issued, Inr \<lparr>ic_code = js ''ABCD-2345'', ic_expiresAt = 901000\<rparr>)"
  unfolding demo_issued_def by code_simp

lemma demo_redeem:
  "daemon_enroll (demo_enroll_env 2000) (Some (js '' abcd-2345'')) (Some (js ''1.0'')) demo_issued =
     (demo_enrolled, Inr \<lparr>pv_token = js ''token'', pv_hostId = js ''hst_1'', pv_host = js ''titan'', pv_org = js ''acme''\<rparr>)"
  unfolding demo_enrolled_def by code_simp

lemma demo_hosts: "hosts demo_enrolled = [demo_host_row]"
  by code_simp

lemma demo_enroll_reach:
  "\<exists>trail. enroll_reach (\<lambda>s. HASH # s) demo_enrolled trail"
proof -
  have "enroll_reach (\<lambda>s. HASH # s) empty_d1 []" by (rule enroll_reach.start) (simp_all add: empty_d1_def)
  from enroll_reach.issue [OF this _ demo_issue]
  obtain trail where "enroll_reach (\<lambda>s. HASH # s) demo_issued trail" by (auto simp: demo_enroll_env_def)
  from enroll_reach.redeem [OF this _ demo_redeem] show ?thesis by (auto simp: demo_enroll_env_def)
qed

lemma credential_provenance_witness:
  "\<exists>trail c t t0. enroll_reach (\<lambda>s. HASH # s) demo_enrolled trail \<and>
     (Redeemed c (js ''acme'') (js ''titan'') (js ''#token'') t \<in> set trail \<and>
      CodeIssued (js ''acme'') (js ''titan'') c t0 \<in> set trail \<or>
      Claimed c (js ''acme'') (js ''titan'') (js ''#token'') t \<in> set trail)"
proof -
  obtain trail where r: "enroll_reach (\<lambda>s. HASH # s) demo_enrolled trail" using demo_enroll_reach by blast
  have "js ''#token'' \<noteq> personHostTokenHash (js ''acme'')" by code_simp
  then show ?thesis
    using r credential_provenance [OF r, of demo_host_row] demo_hosts
    by (simp add: demo_host_row_def del: js_simps) blast
qed

lemma in_update_where:
  "r \<in> set (update_where P f rows) \<Longrightarrow> \<exists>r0 \<in> set rows. r = (if P r0 then f r0 else r0)"
  unfolding update_where_def by auto

definition bearer :: "jstr \<Rightarrow> jstr" where "bearer token = js ''Bearer '' @ token"

lemma daemon_ws_bearer:
  "token \<noteq> [] \<Longrightarrow> daemon_ws sha True (Some (bearer token)) db =
     (case authenticate_host sha token db of
        None \<Rightarrow> Inl (401, js ''Unauthorized'')
      | Some h \<Rightarrow> Inr (hub_name (h_orgId h) (h_slug h), \<lparr>hi_hostId = h_id h, hi_org = h_orgId h, hi_slug = h_slug h\<rparr>))"
proof -
  have "starts_with (bearer token) (js ''Bearer '')" "drop 7 (bearer token) = token"
    by (simp_all add: bearer_def starts_with_def)
  then show "token \<noteq> [] \<Longrightarrow> ?thesis" by (simp add: daemon_ws_def del: js_simps)
qed

text \<open>With the token hash unique, a hash picks out its row.\<close>

lemma authenticate_None: "(\<And>h. h \<in> set (hosts db) \<Longrightarrow> h_tokenHash h = sha token \<Longrightarrow> h_revokedAt h \<noteq> None) \<Longrightarrow>
    authenticate_host sha token db = None"
  by (auto simp: authenticate_host_def find_None_iff)

lemma authenticate_unique:
  assumes "distinct (map h_tokenHash (hosts db))" "h \<in> set (hosts db)" "h_tokenHash h = sha token" "h_revokedAt h = None"
  shows "authenticate_host sha token db = Some h"
proof -
  obtain h' where f: "find (\<lambda>h. h_tokenHash h = sha token \<and> is_null (h_revokedAt h)) (hosts db) = Some h'"
    using assms(2-4) find_None_ex [of "\<lambda>h. h_tokenHash h = sha token \<and> is_null (h_revokedAt h)" "hosts db"] by auto
  then have h': "authenticate_host sha token db = Some h'" "h' \<in> set (hosts db)" "h_tokenHash h' = sha token"
    using find_in_set [OF f] by (simp_all add: authenticate_host_def)
  then show ?thesis using key_unique [OF assms(1) h'(2) assms(2)] assms(3) by simp
qed

text \<open>
  C33: revocation locks a host out. Once an organization has revoked a host, the host's token opens
  no connection, the hub's socket is closed, and the row is neither listed nor there to revoke again.
\<close>
theorem revoked_host_is_locked_out:
  assumes "revoke_host env henv (Some org) slug (db, hubs) = ((db', hubs'), effs, Inr ())" and "host_ok (hosts db)"
    and "h \<in> set (hosts db)" and "h_orgId h = org" and "h_slug h = slug" and "sha token = h_tokenHash h"
    and "token \<noteq> []"
  shows "daemon_ws sha True (Some (bearer token)) db' = Inl (401, js ''Unauthorized'') \<and>
    hub_socket (hub_at hubs' (hub_name org slug)) = None \<and>
    (hub_socket (hub_at hubs (hub_name org slug)) \<noteq> None \<longrightarrow> CloseSocket 4001 (js ''host revoked'') \<in> set effs) \<and>
    slug \<notin> {s. \<exists>ls l. list_hosts (Some org) hubs' db' = Inr ls \<and> l \<in> set ls \<and> hl_slug l = s} \<and>
    snd (snd (revoke_host env' henv' (Some org) slug (db', hubs'))) = Inl (404, js ''host_not_found'')"
proof -
  let ?P = "\<lambda>h. h_orgId h = org \<and> h_slug h = slug \<and> h_revokedAt h = None"
  let ?f = "\<lambda>h. h\<lparr>h_revokedAt := Some (ee_now env)\<rparr>"
  have db': "hosts db' = update_where ?P ?f (hosts db)" and effs: "effs = snd (revoke henv (Some org) (hub_at hubs (hub_name org slug)))"
    and hubs': "hubs' = kv_put (hub_name org slug) (fst (revoke henv (Some org) (hub_at hubs (hub_name org slug)))) hubs"
    using assms(1) by (auto simp: revoke_host_def Let_def split_def simp del: js_simps split: sum.splits if_splits)
  have gone: "h_revokedAt r \<noteq> None" if r: "r \<in> set (hosts db')" and "h_orgId r = org" "h_slug r = slug" for r
  proof -
    obtain r0 where "r0 \<in> set (hosts db)" "r = (if ?P r0 then ?f r0 else r0)" using in_update_where [OF r [unfolded db']] by blast
    then show ?thesis using that(2,3) by (cases "?P r0") auto
  qed
  have "h_revokedAt r \<noteq> None" if r: "r \<in> set (hosts db')" and "h_tokenHash r = sha token" for r
  proof -
    obtain r0 where r0: "r0 \<in> set (hosts db)" "r = (if ?P r0 then ?f r0 else r0)"
      using in_update_where [OF r [unfolded db']] by blast
    then have "h_tokenHash r0 = h_tokenHash h" using that(2) assms(6) by (auto split: if_splits)
    then have "r0 = h" using key_unique [of h_tokenHash "hosts db" r0 h] assms(2,3) r0(1) by (simp add: host_ok_def)
    then show ?thesis using gone [OF that(1)] r0(2) assms(4,5) by (auto split: if_splits)
  qed
  then have "authenticate_host sha token db' = None" by (rule authenticate_None)
  moreover have "list_ex (\<lambda>h. h_orgId h = org \<and> h_slug h = slug \<and> is_null (h_revokedAt h)) (hosts db') = False"
    using gone by (auto simp: list_ex_iff)
  ultimately show ?thesis
    using gone assms(7)
    by (auto simp: daemon_ws_bearer hubs' effs revoke_def hub_at_def store_simps list_hosts_def Let_def revoke_host_def
        split: sum.splits)
qed

text \<open>Provisioning a host that is there again writes the new token to its row, and nothing else.\<close>

lemma provision_again:
  assumes "provisionHost env org slug ver db = Some (db', p)" and "host_ok (hosts db)"
    and "h \<in> set (hosts db)" and "h_orgId h = org" and "h_slug h = slug" and "sha = ee_sha env"
  defines "f \<equiv> \<lambda>h. h\<lparr>h_tokenHash := sha (pv_token p), h_tokenIssuedAt := ee_now env, h_daemonVer := ver,
      h_lastSeenAt := None, h_revokedAt := None\<rparr>"
  shows "hosts db' = map (\<lambda>r. if (h_orgId r, h_slug r) = (org, slug) then f r else r) (hosts db)"
    and "host_ok (hosts db')" and "authenticate_host sha (pv_token p) db' = Some (f h)"
proof -
  let ?key = "\<lambda>h. (h_orgId h, h_slug h)"
  have found: "find (\<lambda>h. h_orgId h = org \<and> h_slug h = slug) (hosts db) = Some h"
  proof -
    obtain h' where h': "find (\<lambda>h. h_orgId h = org \<and> h_slug h = slug) (hosts db) = Some h'"
      using assms(3-5) find_None_ex [of "\<lambda>h. h_orgId h = org \<and> h_slug h = slug" "hosts db"] by auto
    with find_in_set [OF h'] assms(2-5) key_unique [of ?key "hosts db" h h'] show ?thesis by (simp add: host_ok_def)
  qed
  have rows: "hosts db' = map (\<lambda>r. if ?key r = (org, slug) then f r else r) (hosts db)"
    and free: "\<And>r. r \<in> set (hosts db) \<Longrightarrow> ?key r \<noteq> (org, slug) \<Longrightarrow> h_tokenHash r \<noteq> sha (pv_token p)"
    using assms(1,3-6) found unfolding f_def
    by (auto simp: provisionHost_def Let_def upsert_def list_ex_iff split: if_splits)
  have one: "r = h" if "r \<in> set (hosts db)" "?key r = (org, slug)" for r
    using that assms(2-5) key_unique [of ?key "hosts db" r h] by (simp add: host_ok_def)
  have f_hash: "h_tokenHash (f r) = sha (pv_token p)" for r by (simp add: f_def)
  have ok: "host_ok (hosts db')"
  proof -
    have "map h_id (hosts db') = map h_id (hosts db)" "map ?key (hosts db') = map ?key (hosts db)"
      by (auto simp: rows f_def)
    moreover have "inj_on (\<lambda>r. h_tokenHash (if ?key r = (org, slug) then f r else r)) (set (hosts db))"
    proof (rule inj_onI)
      fix r r'
      assume r: "r \<in> set (hosts db)" "r' \<in> set (hosts db)"
        and eq: "h_tokenHash (if ?key r = (org, slug) then f r else r) = h_tokenHash (if ?key r' = (org, slug) then f r' else r')"
      have eq': "(if ?key r = (org, slug) then sha (pv_token p) else h_tokenHash r) =
          (if ?key r' = (org, slug) then sha (pv_token p) else h_tokenHash r')"
        using eq by (simp only: if_distrib [of h_tokenHash] f_hash)
      show "r = r'"
      proof (cases "?key r = (org, slug)")
        case True
        then have "?key r' = (org, slug)" using eq' free [OF r(2)] by (simp split: if_splits)
        with True one r show ?thesis by metis
      next
        case False
        then have "h_tokenHash r = h_tokenHash r'" using eq' free [OF r(1)] by (simp split: if_splits)
        then show ?thesis using key_unique [of h_tokenHash "hosts db" r r'] r assms(2) by (simp add: host_ok_def)
      qed
    qed
    then have "distinct (map h_tokenHash (hosts db'))"
      using assms(2) by (simp add: rows distinct_map o_def host_ok_def)
    ultimately show ?thesis using assms(2) by (simp add: host_ok_def)
  qed
  have "f h \<in> set (hosts db')" using assms(3-5) by (force simp: rows image_iff)
  then show "authenticate_host sha (pv_token p) db' = Some (f h)"
    using ok by (intro authenticate_unique) (simp_all add: host_ok_def f_def)
  show "hosts db' = map (\<lambda>r. if ?key r = (org, slug) then f r else r) (hosts db)" "host_ok (hosts db')"
    by (fact rows, fact ok)
qed

text \<open>
  provisioning a host again rotates its token. The row keeps its id, the new token opens the
  host's hub, and the old one opens nothing.
\<close>
theorem provisioning_rotates_the_token:
  assumes "provisionHost env org slug ver db = Some (db', p)" and "host_ok (hosts db)"
    and "h \<in> set (hosts db)" and "h_orgId h = org" and "h_slug h = slug"
    and "sha = ee_sha env" and "sha old = h_tokenHash h" and "sha old \<noteq> sha (pv_token p)" and "old \<noteq> []" and "pv_token p \<noteq> []"
  shows "daemon_ws sha True (Some (bearer old)) db' = Inl (401, js ''Unauthorized'') \<and>
    daemon_ws sha True (Some (bearer (pv_token p))) db' =
      Inr (hub_name org slug, \<lparr>hi_hostId = h_id h, hi_org = org, hi_slug = slug\<rparr>) \<and> host_ok (hosts db')"
proof -
  let ?key = "\<lambda>h. (h_orgId h, h_slug h)"
  note again = provision_again [OF assms(1-6)]
  have "authenticate_host sha old db' = None"
  proof (rule authenticate_None)
    fix r assume r: "r \<in> set (hosts db')" "h_tokenHash r = sha old"
    obtain r0 where r0: "r0 \<in> set (hosts db)"
        "r = (if ?key r0 = (org, slug) then r0\<lparr>h_tokenHash := sha (pv_token p), h_tokenIssuedAt := ee_now env, h_daemonVer := ver,
           h_lastSeenAt := None, h_revokedAt := None\<rparr> else r0)"
      using r(1) unfolding again(1) by auto
    have k: "?key r0 \<noteq> (org, slug)" using assms(8) r(2) unfolding r0(2) by (intro notI) simp
    then have "r = r0" by (rule trans [OF r0(2) if_not_P])
    with k show "h_revokedAt r \<noteq> None"
      using key_unique [of h_tokenHash "hosts db" r0 h] assms(2-5,7) r(2) r0(1) by (simp add: host_ok_def)
  qed
  with again(2,3) assms(4,5,9,10) show ?thesis by (simp add: daemon_ws_bearer)
qed

lemma revoked_host_is_locked_out_witness:
  "\<exists>db' hubs' effs. revoke_host (demo_enroll_env 3000) (demo_env 3000) (Some (js ''acme'')) (js ''titan'') (demo_enrolled, []) =
      ((db', hubs'), effs, Inr ()) \<and>
    daemon_ws (\<lambda>s. HASH # s) True (Some (bearer (js ''token''))) db' = Inl (401, js ''Unauthorized'')"
proof -
  have "snd (snd (revoke_host (demo_enroll_env 3000) (demo_env 3000) (Some (js ''acme'')) (js ''titan'') (demo_enrolled, []))) = Inr ()"
    by code_simp
  then obtain db' hubs' effs where r: "revoke_host (demo_enroll_env 3000) (demo_env 3000) (Some (js ''acme'')) (js ''titan'') (demo_enrolled, []) =
      ((db', hubs'), effs, Inr ())" by (metis prod.collapse)
  from revoked_host_is_locked_out [OF r, of demo_host_row "\<lambda>s. HASH # s" "js ''token''"] r demo_hosts
  show ?thesis by (auto simp: demo_host_row_def host_ok_def)
qed

lemma provisioning_rotates_the_token_witness:
  "\<exists>db' p. provisionHost (demo_enroll_env 4000\<lparr>ee_token := js ''second''\<rparr>) (js ''acme'') (js ''titan'') (js ''1.1'') demo_enrolled = Some (db', p) \<and>
     daemon_ws (\<lambda>s. HASH # s) True (Some (bearer (js ''token''))) db' = Inl (401, js ''Unauthorized'')"
proof -
  let ?env = "demo_enroll_env 4000\<lparr>ee_token := js ''second''\<rparr>"
  obtain db' p where r: "provisionHost ?env (js ''acme'') (js ''titan'') (js ''1.1'') demo_enrolled = Some (db', p)"
      "pv_token p = js ''second''"
  proof -
    have "map_option (pv_token \<circ> snd) (provisionHost ?env (js ''acme'') (js ''titan'') (js ''1.1'') demo_enrolled) = Some (js ''second'')"
      by code_simp
    with that show thesis by auto
  qed
  have "host_ok (hosts demo_enrolled)" "demo_host_row \<in> set (hosts demo_enrolled)" by (simp_all add: demo_hosts host_ok_def)
  moreover have "h_orgId demo_host_row = js ''acme''" "h_slug demo_host_row = js ''titan''"
      "(\<lambda>s. HASH # s) = ee_sha ?env" "HASH # js ''token'' = h_tokenHash demo_host_row"
      "HASH # js ''token'' \<noteq> HASH # pv_token p" "js ''token'' \<noteq> []" "pv_token p \<noteq> []"
    by (simp_all add: demo_host_row_def demo_enroll_env_def r(2))
  ultimately show ?thesis
    using provisioning_rotates_the_token [OF r(1), of demo_host_row "\<lambda>s. HASH # s" "js ''token''"] r(1) by blast
qed

lemma find_updated:
  assumes "distinct (map key rows)" "r \<in> set rows" "\<And>x. key (f x) = key x"
  shows "find (\<lambda>x. key x = key r) (update_where (\<lambda>x. key x = key r) f rows) = Some (f r)"
proof -
  have "f r \<in> set (update_where (\<lambda>x. key x = key r) f rows)"
    using assms(2) unfolding update_where_def by (force simp: image_iff)
  then obtain x where x: "find (\<lambda>x. key x = key r) (update_where (\<lambda>x. key x = key r) f rows) = Some x"
    using assms(3) find_None_ex [of "\<lambda>x. key x = key r" "update_where (\<lambda>x. key x = key r) f rows"] by auto
  with find_in_set [OF x] have "x \<in> set (update_where (\<lambda>x. key x = key r) f rows)" "key x = key r" by auto
  from in_update_where [OF this(1)] this(2) obtain r0 where "r0 \<in> set rows" "key r0 = key r" "x = f r0"
    using assms(3) by (auto split: if_splits)
  with x key_unique [OF assms(1) _ assms(2)] show ?thesis by simp
qed

text \<open>
  a person host can be enrolled after all. Whoever may approve a device flow of an organization can
  give it the slug of the host of people: provisioning then replaces the hash that nobody can
  present, and the device's token opens the hub that holds every person's mail.
\<close>
theorem person_host_can_be_enrolled:
  assumes "host_ok (hosts db)" and "h \<in> set (hosts db)" and "h_orgId h = org" and "h_slug h = PERSON_HOST_SLUG"
    and "pending_flow (ee_now env) (normalise_code ucode) db = Some row"
    and "dv_approvedAt row = None" and "dv_polledAt row = None" and "dv_deviceCodeHash row = ee_sha env dcode"
    and "distinct (map dv_deviceCodeHash (device_authorizations db))"
    and "org \<noteq> []" and "ee_token env \<noteq> []" and "\<And>r. r \<in> set (hosts db) \<Longrightarrow> h_tokenHash r \<noteq> ee_sha env (ee_token env)"
  shows "\<exists>db' db'' p. device_approve env (Some org) (Some ucode) (Some PERSON_HOST_SLUG) db = (db', Inr PERSON_HOST_SLUG) \<and>
    device_token env (Some dcode) db' = (db'', Inr p) \<and>
    daemon_ws (ee_sha env) True (Some (bearer (pv_token p))) db'' =
      Inr (hub_name org PERSON_HOST_SLUG, \<lparr>hi_hostId = h_id h, hi_org = org, hi_slug = PERSON_HOST_SLUG\<rparr>)"
proof -
  let ?now = "ee_now env" and ?key = "dv_deviceCodeHash"
  let ?f = "\<lambda>d. d\<lparr>dv_approvedAt := Some ?now, dv_orgId := Some org, dv_slug := Some PERSON_HOST_SLUG\<rparr>"
  define db1 where "db1 = set_device (?key row) ?f db"
  have people: "validateHost PERSON_HOST_SLUG = Inr ()" "truthy (Some PERSON_HOST_SLUG) = Some PERSON_HOST_SLUG"
    by code_simp+
  have row: "row \<in> set (device_authorizations db)" "?now < dv_expiresAt row" "dv_claimedAt row = None"
    using find_in_set [OF assms(5) [unfolded pending_flow_def]] by auto
  have ap: "device_approve env (Some org) (Some ucode) (Some PERSON_HOST_SLUG) db = (db1, Inr PERSON_HOST_SLUG)"
    using assms(5,6) people by (simp add: device_approve_def db1_def)
  have found: "find (\<lambda>d. ?key d = ee_sha env dcode) (device_authorizations db1) = Some (?f row)"
    using find_updated [OF assms(9) row(1), of ?f] assms(8) by (simp add: db1_def set_device_def)
  define db2 where "db2 = set_device (ee_sha env dcode) (\<lambda>d. d\<lparr>dv_claimedAt := Some ?now\<rparr>)
      (set_device (ee_sha env dcode) (\<lambda>d. d\<lparr>dv_polledAt := Some ?now\<rparr>) db1)"
  have hosts2: "hosts db2 = hosts db" by (simp add: db2_def db1_def)
  obtain h' where h': "find (\<lambda>h. h_orgId h = org \<and> h_slug h = PERSON_HOST_SLUG) (hosts db2) = Some h'"
    using assms(2-4) find_None_ex [of "\<lambda>h. h_orgId h = org \<and> h_slug h = PERSON_HOST_SLUG" "hosts db"] hosts2 by auto
  have "h_id r \<noteq> h_id h'" if "r \<in> set (hosts db)" "(h_orgId r, h_slug r) \<noteq> (org, PERSON_HOST_SLUG)" for r
    using that find_in_set [OF h'] hosts2 assms(1) key_unique [of h_id "hosts db" r h'] by (auto simp: host_ok_def)
  then obtain db3 p where pv: "provisionHost env org PERSON_HOST_SLUG (dv_daemonVer row) db2 = Some (db3, p)"
    using h' hosts2 assms(12) by (force simp: provisionHost_def Let_def list_ex_iff)
  have "truthy (Some org) = Some org" using assms(10) by (simp add: truthy_def)
  then have tok: "device_token env (Some dcode) db1 = (db3, Inr p)"
    using found row assms(7) people pv by (simp add: device_token_def Let_def db2_def)
  have p: "pv_token p = ee_token env" using pv by (rule provision_facts)
  have "authenticate_host (ee_sha env) (pv_token p) db3 = Some (h\<lparr>h_tokenHash := ee_sha env (pv_token p),
      h_tokenIssuedAt := ee_now env, h_daemonVer := dv_daemonVer row, h_lastSeenAt := None, h_revokedAt := None\<rparr>)"
    using assms(1-4) hosts2 by (intro provision_again [OF pv]) simp_all
  then show ?thesis using ap tok p assms(3,4,11) by (simp add: daemon_ws_bearer)
qed

definition demo_claimed :: d1 where
  "demo_claimed = fst (claimPersonAddress empty_d1 (js ''acme'') (js ''u1'') (js ''ann'') (js ''hst_p'') 1000)"

definition demo_flow :: d1 where
  "demo_flow = fst (device_authorize (demo_enroll_env 2000) (Some (js ''box'')) (Some (js ''1.0'')) demo_claimed)"

definition demo_person_host :: host_row where
  "demo_person_host = \<lparr>h_id = js ''hst_p'', h_orgId = js ''acme'', h_slug = js ''people'',
     h_tokenHash = js ''person-host:acme'', h_tokenIssuedAt = 1000, h_daemonVer = js ''person'', h_lastSeenAt = None, h_revokedAt = None\<rparr>"

definition demo_device :: device_authorization_row where
  "demo_device = \<lparr>dv_deviceCodeHash = js ''#token'', dv_userCode = js ''ABCD-2345'', dv_orgId = None, dv_slug = None,
     dv_hostname = js ''box'', dv_daemonVer = js ''1.0'', dv_expiresAt = 902000,
     dv_approvedAt = None, dv_claimedAt = None, dv_polledAt = None\<rparr>"

lemma demo_flow_rows: "hosts demo_flow = [demo_person_host]" "device_authorizations demo_flow = [demo_device]"
  by code_simp+

lemma person_host_can_be_enrolled_witness:
  "\<exists>db' db'' p. device_approve (demo_enroll_env 9000\<lparr>ee_token := js ''second''\<rparr>) (Some (js ''acme'')) (Some (js ''abcd-2345''))
        (Some PERSON_HOST_SLUG) demo_flow = (db', Inr PERSON_HOST_SLUG) \<and>
     device_token (demo_enroll_env 9000\<lparr>ee_token := js ''second''\<rparr>) (Some (js ''token'')) db' = (db'', Inr p)"
proof -
  let ?env = "demo_enroll_env 9000\<lparr>ee_token := js ''second''\<rparr>"
  have "host_ok (hosts demo_flow)" "demo_person_host \<in> set (hosts demo_flow)"
    "distinct (map dv_deviceCodeHash (device_authorizations demo_flow))"
    by (simp_all add: demo_flow_rows host_ok_def)
  moreover have "h_orgId demo_person_host = js ''acme''" "h_slug demo_person_host = PERSON_HOST_SLUG"
    "pending_flow (ee_now ?env) (normalise_code (js ''abcd-2345'')) demo_flow = Some demo_device"
    "dv_approvedAt demo_device = None" "dv_polledAt demo_device = None"
    "dv_deviceCodeHash demo_device = ee_sha ?env (js ''token'')" "js ''acme'' \<noteq> []" "ee_token ?env \<noteq> []"
    "h_tokenHash demo_person_host \<noteq> ee_sha ?env (ee_token ?env)"
    by code_simp+
  moreover have "h_tokenHash r \<noteq> ee_sha ?env (ee_token ?env)" if "r \<in> set (hosts demo_flow)" for r
    using that calculation(12) by (simp add: demo_flow_rows)
  ultimately show ?thesis
    using person_host_can_be_enrolled [of demo_flow demo_person_host "js ''acme''" ?env "js ''abcd-2345''" demo_device "js ''token''"]
    by blast
qed

text \<open>
  a person's address can be given to an agent client. A member of the organization can create an
  agent client at the address another member has claimed, because the route looks at the host alone;
  the claim, the other way round, refuses a name that an agent client has.
\<close>
theorem agent_client_can_take_a_persons_name:
  assumes "claimPersonAddress db org user name freshId now = (db1, Inr a)"
    and "h \<in> set (hosts db1)" and "h_orgId h = org" and "h_slug h = PERSON_HOST_SLUG" and "h_revokedAt h = None"
    and "\<And>c. c \<in> set (agent_clients db1) \<Longrightarrow> ac_clientId c \<noteq> ee_freshId env \<and> ac_secretHash c \<noteq> ee_sha env (ee_token env)"
  shows "\<exists>db2 c. create_agent_client env (Some org) (Some PERSON_HOST_SLUG) (Some name) db1 = (db2, Inr c) \<and>
    cl_address c = ps_name a @ AT # ps_host a \<and> cl_secret c = ee_token env \<and>
    snd (claimPersonAddress db2 org user' name freshId' now') =
      Inl (ServiceError (js ''name_taken'') (name @ [AT] @ PERSON_HOST_SLUG @ js '' is already claimed''))"
proof -
  have v: "validateName name = Inr ()" and a: "ps_name a = name" "ps_host a = PERSON_HOST_SLUG"
    using assms(1) by (auto simp: claimPersonAddress_def Let_def split_def split: sum.splits if_splits)
  have h: "validateHost PERSON_HOST_SLUG = Inr ()" by code_simp
  have fmt: "formatAgentAddress name PERSON_HOST_SLUG None = Inr (name @ AT # PERSON_HOST_SLUG)"
    using v h by (simp add: formatAgentAddress_def validateOptionalOrganization_def truthy_def)
  have "host_live db1 org PERSON_HOST_SLUG" using assms(2-5) by (auto simp: host_live_def list_ex_iff)
  then obtain db2 c where c: "create_agent_client env (Some org) (Some PERSON_HOST_SLUG) (Some name) db1 = (db2, Inr c)"
      "cl_address c = name @ AT # PERSON_HOST_SLUG" "cl_secret c = ee_token env" and "taken_by_agent db2 org name"
    using v h fmt assms(6) by (auto simp: create_agent_client_def result_simps taken_by_agent_def list_ex_iff)
  have "taken_by_agent (fst (ensurePersonHost db2 org freshId' now')) org name"
    using \<open>taken_by_agent db2 org name\<close> by (auto simp: ensurePersonHost_def Let_def taken_by_agent_def split: option.splits)
  with c v a show ?thesis by (simp add: claimPersonAddress_def split_def Let_def)
qed

lemma agent_client_can_take_a_persons_name_witness:
  "\<exists>db2 c. create_agent_client (demo_enroll_env 3000) (Some (js ''acme'')) (Some PERSON_HOST_SLUG) (Some (js ''ann'')) demo_claimed =
     (db2, Inr c) \<and> cl_address c = js ''ann@people''"
proof -
  have "snd (claimPersonAddress empty_d1 (js ''acme'') (js ''u1'') (js ''ann'') (js ''hst_p'') 1000) =
      Inr \<lparr>ps_org = js ''acme'', ps_userId = js ''u1'', ps_host = js ''people'', ps_hostId = js ''hst_p'', ps_name = js ''ann''\<rparr>"
    by code_simp
  then have c: "claimPersonAddress empty_d1 (js ''acme'') (js ''u1'') (js ''ann'') (js ''hst_p'') 1000 =
      (demo_claimed, Inr \<lparr>ps_org = js ''acme'', ps_userId = js ''u1'', ps_host = js ''people'', ps_hostId = js ''hst_p'', ps_name = js ''ann''\<rparr>)"
    by (simp add: demo_claimed_def prod_eq_iff del: js_simps)
  have rows: "hosts demo_claimed = [demo_person_host]" "agent_clients demo_claimed = []" by code_simp+
  have h: "h_orgId demo_person_host = js ''acme''" "h_slug demo_person_host = PERSON_HOST_SLUG" "h_revokedAt demo_person_host = None"
    by code_simp+
  have "js ''ann'' @ AT # js ''people'' = js ''ann@people''" by simp
  with agent_client_can_take_a_persons_name [OF c _ h, of "demo_enroll_env 3000"] rows show ?thesis
    by (simp del: js_simps) blast
qed


end
