(* ===== verification/Effects.thy ===== *)
theory Effects
  imports Js_Text
begin

text \<open>
  Operations that read and write a state and may throw: how the larger Durable Object is written. A
  thrown error keeps the state that was reached. The locale \<open>step_relation\<close> has the rules that carry
  a reflexive and transitive relation of states through an operation.
\<close>

type_synonym ('s, 'a) op = "'s \<Rightarrow> 's \<times> (jstr + 'a)"

definition return_op :: "'a \<Rightarrow> ('s, 'a) op" where "return_op a s = (s, Inr a)"
definition throw_op :: "jstr \<Rightarrow> ('s, 'a) op" where "throw_op e s = (s, Inl e)"
definition lift_op :: "jstr + 'a \<Rightarrow> ('s, 'a) op" where "lift_op r s = (s, r)"
definition read_op :: "('s \<Rightarrow> 'a) \<Rightarrow> ('s, 'a) op" where "read_op f s = (s, Inr (f s))"
definition write_op :: "('s \<Rightarrow> 's) \<Rightarrow> ('s, unit) op" where "write_op f s = (f s, Inr ())"

definition bind_op :: "('s, 'a) op \<Rightarrow> ('a \<Rightarrow> ('s, 'b) op) \<Rightarrow> ('s, 'b) op" where
  "bind_op m f s = (case m s of (s', Inl e) \<Rightarrow> (s', Inl e) | (s', Inr a) \<Rightarrow> f a s')"

definition then_op :: "('s, 'a) op \<Rightarrow> ('s, 'b) op \<Rightarrow> ('s, 'b) op" where
  "then_op m n = bind_op m (\<lambda>_. n)"

definition try_op :: "('s, 'a) op \<Rightarrow> (jstr \<Rightarrow> ('s, 'a) op) \<Rightarrow> ('s, 'a) op" where
  "try_op m h s = (case m s of (s', Inl e) \<Rightarrow> h e s' | (s', Inr a) \<Rightarrow> (s', Inr a))"

definition when_op :: "bool \<Rightarrow> ('s, unit) op \<Rightarrow> ('s, unit) op" where
  "when_op b m = (if b then m else return_op ())"

fun each_op :: "('x \<Rightarrow> ('s, unit) op) \<Rightarrow> 'x list \<Rightarrow> ('s, unit) op" where
  "each_op f [] = return_op ()"
| "each_op f (x # xs) = then_op (f x) (each_op f xs)"

lemmas op_defs = return_op_def throw_op_def lift_op_def read_op_def write_op_def bind_op_def then_op_def
  try_op_def when_op_def

section \<open>Running an operation\<close>

named_theorems op_simps \<open>running the primitive operations\<close>

lemma run_simps [op_simps]:
  "return_op a s = (s, Inr a)"
  "throw_op e s = (s, Inl e)"
  "lift_op r s = (s, r)"
  "read_op f s = (s, Inr (f s))"
  "write_op g s = (g s, Inr ())"
  by (simp_all add: op_defs)

lemma bind_run [op_simps]:
  "m s = (s', Inr a) \<Longrightarrow> bind_op m f s = f a s'"
  "m s = (s', Inl e) \<Longrightarrow> bind_op m f s = (s', Inl e)"
  "m s = (s', Inr a) \<Longrightarrow> then_op m n s = n s'"
  "m s = (s', Inl e) \<Longrightarrow> then_op m n s = (s', Inl e)"
  "m s = (s', Inr a) \<Longrightarrow> try_op m h s = (s', Inr a)"
  "m s = (s', Inl e) \<Longrightarrow> try_op m h s = h e s'"
  by (simp_all add: op_defs)

lemma when_run [op_simps]: "when_op True m = m" "when_op False m = return_op ()"
  by (simp_all add: when_op_def)

lemma bind_op_assoc: "bind_op (bind_op m f) g = bind_op m (\<lambda>a. bind_op (f a) g)"
  by (rule ext) (simp add: bind_op_def split: prod.splits sum.splits)

lemma bind_op_cases:
  assumes "bind_op m f s = (s', r)"
  obtains (threw) e where "m s = (s', Inl e)" "r = Inl e"
  | (went) a s1 where "m s = (s1, Inr a)" "f a s1 = (s', r)"
  using assms by (auto simp: bind_op_def split: prod.splits sum.splits)

lemma then_op_cases:
  assumes "then_op m n s = (s', r)"
  obtains (threw) e where "m s = (s', Inl e)" "r = Inl e"
  | (went) a s1 where "m s = (s1, Inr a)" "n s1 = (s', r)"
  using assms unfolding then_op_def by (rule bind_op_cases) blast+

lemma try_op_cases:
  assumes "try_op m h s = (s', r)"
  obtains (fine) a where "m s = (s', Inr a)" "r = Inr a"
  | (caught) e s1 where "m s = (s1, Inl e)" "h e s1 = (s', r)"
  using assms by (auto simp: try_op_def split: prod.splits sum.splits)

section \<open>Relations kept by every step\<close>

text \<open>
  \<open>keeps R m\<close>: running \<open>m\<close> takes a state only to related ones. A leaf is shown by its definition; the
  rules put leaves together.
\<close>

definition keeps :: "('s \<Rightarrow> 's \<Rightarrow> bool) \<Rightarrow> ('s, 'a) op \<Rightarrow> bool" where
  "keeps R m \<longleftrightarrow> (\<forall>s. R s (fst (m s)))"

locale step_relation =
  fixes R :: "'s \<Rightarrow> 's \<Rightarrow> bool"
  assumes refl: "R s s" and trans: "R s t \<Longrightarrow> R t u \<Longrightarrow> R s u"
begin

lemma keepsD: "keeps R m \<Longrightarrow> R s (fst (m s))"
  by (simp add: keeps_def)

lemma keepsI: "(\<And>s. R s (fst (m s))) \<Longrightarrow> keeps R m"
  by (simp add: keeps_def)

lemma keeps_return: "keeps R (return_op a)"
  by (simp add: keeps_def op_simps refl)

lemma keeps_throw: "keeps R (throw_op e)"
  by (simp add: keeps_def op_simps refl)

lemma keeps_lift: "keeps R (lift_op r)"
  by (simp add: keeps_def op_simps refl)

lemma keeps_read: "keeps R (read_op f)"
  by (simp add: keeps_def op_simps refl)

lemma keeps_write: "(\<And>s. R s (f s)) \<Longrightarrow> keeps R (write_op f)"
  by (simp add: keeps_def op_simps)

lemma keeps_bind: "keeps R m \<Longrightarrow> (\<And>a. keeps R (f a)) \<Longrightarrow> keeps R (bind_op m f)"
  unfolding keeps_def bind_op_def by (auto split: prod.splits sum.splits intro: trans) (metis fst_conv trans)+

lemma keeps_then: "keeps R m \<Longrightarrow> keeps R n \<Longrightarrow> keeps R (then_op m n)"
  unfolding then_op_def by (rule keeps_bind)

lemma keeps_try: "keeps R m \<Longrightarrow> (\<And>e. keeps R (h e)) \<Longrightarrow> keeps R (try_op m h)"
  unfolding keeps_def try_op_def by (auto split: prod.splits sum.splits) (metis fst_conv trans)+

lemma keeps_when: "keeps R m \<Longrightarrow> keeps R (when_op b m)"
  by (simp add: when_op_def keeps_return)

lemma keeps_each: "(\<And>x. x \<in> set xs \<Longrightarrow> keeps R (f x)) \<Longrightarrow> keeps R (each_op f xs)"
  by (induction xs) (auto intro: keeps_return keeps_then)

text \<open>The rules at one state, with what the first part returned.\<close>

lemma bind_at: "R s (fst (m s)) \<Longrightarrow> (\<And>a s1. m s = (s1, Inr a) \<Longrightarrow> R s1 (fst (f a s1))) \<Longrightarrow> R s (fst (bind_op m f s))"
  unfolding bind_op_def by (auto split: prod.splits sum.splits) (metis fst_conv trans)

lemma then_at: "R s (fst (m s)) \<Longrightarrow> (\<And>a s1. m s = (s1, Inr a) \<Longrightarrow> R s1 (fst (n s1))) \<Longrightarrow> R s (fst (then_op m n s))"
  unfolding then_op_def by (rule bind_at)

lemma try_at: "R s (fst (m s)) \<Longrightarrow> (\<And>e s1. m s = (s1, Inl e) \<Longrightarrow> R s1 (fst (h e s1))) \<Longrightarrow> R s (fst (try_op m h s))"
  unfolding try_op_def by (auto split: prod.splits sum.splits) (metis fst_conv trans)

lemmas keeps_rules = keeps_return keeps_throw keeps_lift keeps_read keeps_bind keeps_then keeps_try keeps_when keeps_each

end

end
