(* ===== verification/Attachment.thy ===== *)
theory Attachment
  imports Wire
begin

text \<open>
  \<^verbatim>\<open>src/lib/transit/attachment.ts\<close>: the capability by which an attachment is fetched. Sealing and
  opening a JSON value (\<open>sealSecret\<close> of \<open>JSON.stringify\<close>, \<open>JSON.parse\<close> of \<open>openSecret\<close>) are
  parameters; opening may fail.
\<close>

definition ATTACHMENT_CAPABILITY_MS :: int where "ATTACHMENT_CAPABILITY_MS = 10 * 60000"
definition MAX_EVENT_ATTACHMENTS :: nat where "MAX_EVENT_ATTACHMENTS = 16"
definition MAX_SAFE_INTEGER :: int where "MAX_SAFE_INTEGER = 9007199254740991"

record attachment_claims =
  tc_org :: jstr
  tc_integrationId :: jstr
  tc_eventId :: jstr
  tc_deliveryId :: jstr
  tc_index :: int
  tc_expiresAt :: int

definition claims_json :: "attachment_claims \<Rightarrow> json" where
  "claims_json c = JObj
     [(js ''version'', JNum 1), (js ''org'', JStr (tc_org c)), (js ''integrationId'', JStr (tc_integrationId c)),
      (js ''eventId'', JStr (tc_eventId c)), (js ''deliveryId'', JStr (tc_deliveryId c)),
      (js ''index'', JNum (of_int (tc_index c))), (js ''expiresAt'', JNum (of_int (tc_expiresAt c)))]"

definition createAttachmentCapability :: "(json \<Rightarrow> jstr) \<Rightarrow> attachment_claims \<Rightarrow> int \<Rightarrow> jstr" where
  "createAttachmentCapability seal claims now =
     seal (claims_json (claims\<lparr>tc_expiresAt := now + ATTACHMENT_CAPABILITY_MS\<rparr>))"

text \<open>\<open>Number.isSafeInteger\<close> and a string that is not empty.\<close>

definition safe_integer :: "json option \<Rightarrow> int option" where
  "safe_integer v =
     (case v of Some (JNum q) \<Rightarrow>
        if of_int \<lfloor>q\<rfloor> = q \<and> \<bar>\<lfloor>q\<rfloor>\<bar> \<le> MAX_SAFE_INTEGER then Some \<lfloor>q\<rfloor> else None
      | _ \<Rightarrow> None)"

definition nonempty_string :: "json option \<Rightarrow> jstr option" where
  "nonempty_string v = (case v of Some (JStr s) \<Rightarrow> if s = [] then None else Some s | _ \<Rightarrow> None)"

definition claims_of :: "json_object \<Rightarrow> attachment_claims option" where
  "claims_of obj =
     (let get = map_of obj in
      case (nonempty_string (get (js ''org'')), nonempty_string (get (js ''integrationId'')),
            nonempty_string (get (js ''eventId'')), nonempty_string (get (js ''deliveryId'')),
            safe_integer (get (js ''index'')), safe_integer (get (js ''expiresAt''))) of
        (Some org, Some integration, Some event, Some delivery, Some index, Some expiresAt) \<Rightarrow>
          if get (js ''version'') = Some (JNum 1) \<and> 0 \<le> index
          then Some \<lparr>tc_org = org, tc_integrationId = integration, tc_eventId = event,
                     tc_deliveryId = delivery, tc_index = index, tc_expiresAt = expiresAt\<rparr>
          else None
      | _ \<Rightarrow> None)"

definition readAttachmentCapability :: "(jstr \<Rightarrow> json option) \<Rightarrow> jstr \<Rightarrow> int \<Rightarrow> jstr + attachment_claims" where
  "readAttachmentCapability open_json token now =
     (case open_json token of
        Some (JObj obj) \<Rightarrow>
          (case claims_of obj of
             None \<Rightarrow> Inl (js ''invalid_attachment_token'')
           | Some claims \<Rightarrow>
               if tc_expiresAt claims < now then Inl (js ''attachment_token_expired'') else Inr claims)
      | _ \<Rightarrow> Inl (js ''invalid_attachment_token''))"

text \<open>
  an attachment capability is good for ten minutes and for what it was made for. Reading it back
  gives the organization, integration, event, delivery and index it was made with, until ten minutes
  after it was made and not after.
\<close>
theorem capability_roundtrip:
  assumes "open_json (createAttachmentCapability seal claims made) = Some (claims_json (claims\<lparr>tc_expiresAt := made + 600000\<rparr>))"
    and "tc_org claims \<noteq> []" and "tc_integrationId claims \<noteq> []" and "tc_eventId claims \<noteq> []" and "tc_deliveryId claims \<noteq> []"
    and "0 \<le> tc_index claims" and "tc_index claims \<le> MAX_SAFE_INTEGER" and "\<bar>made + 600000\<bar> \<le> MAX_SAFE_INTEGER"
  shows "readAttachmentCapability open_json (createAttachmentCapability seal claims made) now =
    (if now \<le> made + 600000 then Inr (claims\<lparr>tc_expiresAt := made + 600000\<rparr>)
     else Inl (js ''attachment_token_expired''))"
  using assms
  by (simp add: readAttachmentCapability_def claims_json_def claims_of_def nonempty_string_def safe_integer_def Let_def)

end
