(* ===== verification/Channel_State.thy ===== *)
theory Channel_State
  imports Room_Ledger Effects Attachment
begin

text \<open>
  \<^verbatim>\<open>src/do/integration.ts\<close>: the Durable Object of one channel connector. It stores events and a
  delivery per event, hands deliveries to the hub or the room of its target, hands replies to the
  connector, and redelivers on an alarm until a delivery is settled. The world of an operation is
  the object, the rooms and hubs it calls and the record of what it did outside (\<open>cw_out\<close>). The
  connectors are packages outside the repository: a connector is the parameter \<open>ch_connectors\<close>,
  whose calls name what they did through the context they are given (\<open>connector_act\<close>) and how they
  ended; work the context leaves in the background is done at once. Opening and sealing the
  configuration are parameters as well.
\<close>

section \<open>Data\<close>

definition HEALTH_PING_INTERVAL_MS :: int where "HEALTH_PING_INTERVAL_MS = 60000"
definition BASE_REDELIVERY_MS :: int where "BASE_REDELIVERY_MS = 5 * 60 * 1000"
definition MAX_REDELIVERY_MS :: int where "MAX_REDELIVERY_MS = 30 * 60 * 1000"
definition READ_REDELIVERY_MULTIPLIER :: int where "READ_REDELIVERY_MULTIPLIER = 4"
definition REPLY_RETRY_MS :: int where "REPLY_RETRY_MS = 60000"
definition POLL_BURST_MS :: int where "POLL_BURST_MS = 1000"
definition POLL_ACTIVE_MS :: int where "POLL_ACTIVE_MS = 5000"
definition POLL_IDLE_MS :: int where "POLL_IDLE_MS = 30000"
definition POLL_DORMANT_MS :: int where "POLL_DORMANT_MS = 60000"
definition POLL_HOT_FOR_MS :: int where "POLL_HOT_FOR_MS = 60000"
definition POLL_IDLE_AFTER_MS :: int where "POLL_IDLE_AFTER_MS = 15 * 60000"
definition POLL_DORMANT_AFTER_MS :: int where "POLL_DORMANT_AFTER_MS = 60 * 60000"
definition POLL_BURST_WINDOW_MS :: int where "POLL_BURST_WINDOW_MS = 30000"
definition POLL_QUIET_EXIT_CYCLES :: nat where "POLL_QUIET_EXIT_CYCLES = 5"
definition POLL_MAX_BACKOFF_MS :: int where "POLL_MAX_BACKOFF_MS = 60000"

type_synonym config = "(jstr \<times> jstr) list"

record integration_meta =
  im_org :: jstr
  im_id :: jstr
  im_connector :: jstr
  im_name :: jstr
  im_targetAddr :: jstr
  im_active :: bool
  im_configEnc :: jstr
  im_createdAt :: int

record attachment =
  at_id :: jstr
  at_name :: jstr
  at_contentType :: "jstr option"
  at_size :: "int option"

record connector_event =
  ev_eventKey :: jstr
  ev_conversationId :: jstr
  ev_user :: "jstr option"
  ev_trigger :: "jstr option"
  ev_content :: jstr
  ev_meta :: "(jstr \<times> jstr) list option"
  ev_attachments :: "attachment list option"

record stored_event = connector_event +
  se_id :: jstr
  se_integrationId :: jstr
  se_receivedAt :: int

record delivery_record =
  dl_id :: jstr
  dl_eventId :: jstr
  dl_targetAddr :: jstr
  dl_status :: delivery_status
  dl_attempts :: nat
  dl_createdAt :: int
  dl_lastDispatchAt :: "int option"
  dl_nextAttemptAt :: "int option"
  dl_readAt :: "int option"
  dl_injectedAt :: "int option"
  dl_injectedVia :: "jstr option"
  dl_injections :: "nat option"
  dl_settledAt :: "int option"
  dl_lastError :: "jstr option"

record reply_record =
  rp_deliveryId :: jstr
  rp_conversationId :: jstr
  rp_caller :: jstr
  rp_message :: jstr
  rp_replyMode :: "jstr option"
  rp_createdAt :: int
  rp_postedAt :: "int option"
  rp_postError :: "jstr option"
  rp_nextAttemptAt :: "int option"

record poll_state =
  po_lastActivityAt :: int
  po_backoffUntil :: int
  po_failures :: nat

datatype connector_state = Connected | Polling | Webhook | InError | Stopped

record connector_status =
  cs_state :: connector_state
  cs_detail :: "jstr option"
  cs_updatedAt :: int

text \<open>The storage of the object, a prefix of its keys to a store, and its two volatile fields.\<close>

record integration =
  ig_meta :: "integration_meta option"
  ig_fingerprints :: "(jstr \<times> jstr) list option"
  ig_connectorStatus :: "connector_status option"
  ig_keys :: "(jstr, jstr \<times> jstr) store"
  ig_events :: "(jstr, stored_event) store"
  ig_deliveries :: "(jstr, delivery_record) store"
  ig_replies :: "(jstr, reply_record) store"
  ig_rates :: "(jstr, token_bucket_state) store"
  ig_poll :: "poll_state option"
  ig_lastPing :: "int option"
  ig_alarm :: alarm_state
  ig_lastStatus :: "(connector_state \<times> jstr) option"
  ig_pollBudget :: "nat option"

definition new_integration :: integration where
  "new_integration = \<lparr>ig_meta = None, ig_fingerprints = None, ig_connectorStatus = None, ig_keys = [], ig_events = [],
     ig_deliveries = [], ig_replies = [], ig_rates = [], ig_poll = None, ig_lastPing = None,
     ig_alarm = new_alarm_state, ig_lastStatus = None, ig_pollBudget = None\<rparr>"

record reply_request =
  rq_deliveryId :: jstr
  rq_conversationId :: jstr
  rq_agent :: jstr
  rq_message :: jstr
  rq_replyMode :: "jstr option"
  rq_event :: stored_event

text \<open>What the object does outside: its D1 writes, its heartbeat, and the calls of \<open>postReply\<close>.\<close>

datatype channel_effect =
  IntegrationUpsert integration_meta
| IntegrationStatusWrite jstr bool
| IntegrationRowsDelete jstr
| EventInsert jstr stored_event
| DeliveryWrite delivery_record
| ReplyWrite reply_record
| Heartbeat jstr jstr connector_state
| ReplyPosted reply_request
| ReplyRefused reply_request jstr

record channel_world =
  cw_self :: integration
  cw_rooms :: "(jstr, room) store"
  cw_hubs :: hub_store
  cw_out :: "channel_effect list"
  cw_draws :: nat

section \<open>Connectors and the environment\<close>

record config_field =
  cf_key :: jstr
  cf_secret :: bool
  cf_required :: bool

datatype connector_act =
  CxIngest connector_event
| CxSettle jstr
| CxStatus connector_state "jstr option"
| CxWake int

type_synonym 'r callback = "connector_act list \<times> (jstr + 'r)"

record connector =
  cn_configFields :: "config_field list"
  cn_mode :: jstr
  cn_start :: "(config \<Rightarrow> unit callback) option"
  cn_stop :: "(config \<Rightarrow> unit callback) option"
  cn_wake :: "(config \<Rightarrow> unit callback) option"
  cn_poll :: "(config \<Rightarrow> nat \<Rightarrow> nat \<times> (bool \<times> int option) callback) option"
  cn_webhook :: "(config \<Rightarrow> jstr \<Rightarrow> (nat \<times> jstr) callback) option"
  cn_canReply :: "(config \<Rightarrow> stored_event \<Rightarrow> jstr + bool) option"
  cn_postReply :: "config \<Rightarrow> reply_request \<Rightarrow> unit callback"
  cn_fetchAttachment :: "(config \<Rightarrow> stored_event \<Rightarrow> attachment \<Rightarrow> jstr + (bool \<times> jstr option)) option"

text \<open>The ids of the \<open>n\<close>-th event and delivery are the values the random source gives then.\<close>

record channel_env =
  ch_now :: int
  ch_eventId :: "nat \<Rightarrow> jstr"
  ch_dlvId :: "nat \<Rightarrow> jstr"
  ch_room :: room_env
  ch_connectors :: "jstr \<Rightarrow> connector option"
  ch_open :: "jstr \<Rightarrow> jstr + config"
  ch_seal :: "config \<Rightarrow> jstr"
  ch_sealClaims :: "json \<Rightarrow> jstr"
  ch_sha :: "jstr \<Rightarrow> jstr"
  ch_canAccept :: "jstr \<Rightarrow> bool"
  ch_httpsURL :: "jstr \<Rightarrow> bool"
  ch_ping :: "jstr \<Rightarrow> bool"

type_synonym 'a channel_op = "(channel_world, 'a) op"

text \<open>A later reading of the clock.\<close>

definition later :: "int \<Rightarrow> channel_env \<Rightarrow> channel_env" where
  "later t env = env\<lparr>ch_now := t, ch_room := (ch_room env)\<lparr>rv_now := t, rv_hub := (rv_hub (ch_room env))\<lparr>he_now := t\<rparr>\<rparr>\<rparr>"

text \<open>JavaScript's truth of a time that may be missing, and of a string looked up in an object.\<close>

definition some_time :: "int option \<Rightarrow> bool" where
  "some_time t = (case t of None \<Rightarrow> False | Some n \<Rightarrow> n \<noteq> 0)"

definition config_at :: "config \<Rightarrow> jstr \<Rightarrow> jstr option" where
  "config_at config key = truthy (map_of config key)"


section \<open>Reading and writing the storage\<close>

definition self_op :: "(integration \<Rightarrow> integration) \<Rightarrow> unit channel_op" where
  "self_op f = write_op (\<lambda>w. w\<lparr>cw_self := f (cw_self w)\<rparr>)"

definition emit :: "channel_effect \<Rightarrow> unit channel_op" where
  "emit e = write_op (\<lambda>w. w\<lparr>cw_out := cw_out w @ [e]\<rparr>)"

definition need :: "jstr \<Rightarrow> (integration \<Rightarrow> 'a option) \<Rightarrow> 'a channel_op" where
  "need err f = bind_op (read_op (\<lambda>w. f (cw_self w)))
     (\<lambda>v. case v of None \<Rightarrow> throw_op err | Some a \<Rightarrow> return_op a)"

definition requireMeta :: "integration_meta channel_op" where
  "requireMeta = need (js ''integration_not_configured'') ig_meta"

definition requireEvent :: "jstr \<Rightarrow> stored_event channel_op" where
  "requireEvent ident = need (js ''event_not_found'') (\<lambda>st. kv_get (ig_events st) ident)"

definition requireDelivery :: "jstr \<Rightarrow> delivery_record channel_op" where
  "requireDelivery ident = need (js ''delivery_not_found'') (\<lambda>st. kv_get (ig_deliveries st) ident)"

definition put_delivery :: "delivery_record \<Rightarrow> unit channel_op" where
  "put_delivery d = self_op (\<lambda>st. st\<lparr>ig_deliveries := kv_put (dl_id d) d (ig_deliveries st)\<rparr>)"

definition put_reply :: "reply_record \<Rightarrow> unit channel_op" where
  "put_reply r = self_op (\<lambda>st. st\<lparr>ig_replies := kv_put (rp_deliveryId r) r (ig_replies st)\<rparr>)"

definition connectorFor :: "channel_env \<Rightarrow> jstr \<Rightarrow> connector channel_op" where
  "connectorFor env name =
     (case ch_connectors env name of None \<Rightarrow> throw_op (js ''unknown connector: '' @ name) | Some c \<Rightarrow> return_op c)"

definition openConfig :: "channel_env \<Rightarrow> integration_meta \<Rightarrow> config channel_op" where
  "openConfig env meta = lift_op (ch_open env (im_configEnc meta))"

definition setConnectorStatus :: "channel_env \<Rightarrow> connector_state \<Rightarrow> jstr option \<Rightarrow> unit channel_op" where
  "setConnectorStatus env state why =
     self_op (\<lambda>st.
       let fingerprint = (state, case why of None \<Rightarrow> [] | Some d \<Rightarrow> d) in
       if ig_lastStatus st = Some fingerprint then st
       else st\<lparr>ig_lastStatus := Some fingerprint,
               ig_connectorStatus := Some \<lparr>cs_state = state, cs_detail = why, cs_updatedAt = ch_now env\<rparr>\<rparr>)"


section \<open>The alarm\<close>

definition alarmLimit :: "channel_env \<Rightarrow> nat channel_op" where
  "alarmLimit env = bind_op (read_op (\<lambda>w. (ig_pollBudget (cw_self w), ig_meta (cw_self w)))) (\<lambda>(budget, meta).
     case budget of Some b \<Rightarrow> return_op b
     | None \<Rightarrow>
         bind_op (case meta of None \<Rightarrow> return_op False
           | Some m \<Rightarrow> bind_op (connectorFor env (im_connector m)) (\<lambda>c. return_op (cn_poll c \<noteq> None))) (\<lambda>polls.
         let limit = (if polls then POLL_ALARM_BUDGET_PER_HOUR else ALARM_BUDGET_PER_HOUR) in
         then_op (self_op (\<lambda>st. st\<lparr>ig_pollBudget := Some limit\<rparr>)) (return_op limit)))"

definition scheduleAt :: "channel_env \<Rightarrow> int \<Rightarrow> unit channel_op" where
  "scheduleAt env t = bind_op (read_op (\<lambda>w. ab_alarm (ig_alarm (cw_self w)))) (\<lambda>existing.
     if (case existing of None \<Rightarrow> False | Some a \<Rightarrow> a \<le> t) then return_op ()
     else bind_op (alarmLimit env) (\<lambda>limit.
       self_op (\<lambda>st. st\<lparr>ig_alarm := fst (budgetedAlarm (ch_now env) t limit (ig_alarm st))\<rparr>)))"

definition redeliveryDelay :: "delivery_record \<Rightarrow> int" where
  "redeliveryDelay d =
     (let attempt = max 1 (dl_attempts d);
          readMultiplier = (if some_time (dl_readAt d) then READ_REDELIVERY_MULTIPLIER else 1)
      in min (BASE_REDELIVERY_MS * readMultiplier * 2 ^ (attempt - 1)) MAX_REDELIVERY_MS)"

text \<open>Whether the target's session holds the envelope, so that it is not sent again.\<close>

definition sessionHeld :: "delivery_record \<Rightarrow> jstr + bool" where
  "sessionHeld d =
     (if dl_injectedVia d \<noteq> Some (js ''adapter'') then Inr False
      else rbind (thrown (parseAddress (dl_targetAddr d))) (\<lambda>a.
        Inr (case a of AgentAddress _ _ _ _ \<Rightarrow> True | RoomAddress _ _ _ \<Rightarrow> False)))"

definition armRedelivery :: "int \<Rightarrow> delivery_record \<Rightarrow> jstr + delivery_record" where
  "armRedelivery now d = rbind (sessionHeld d) (\<lambda>held.
     Inr (d\<lparr>dl_nextAttemptAt := (if held then None else Some (now + redeliveryDelay d))\<rparr>))"

definition schedule_next_attempt :: "channel_env \<Rightarrow> delivery_record \<Rightarrow> unit channel_op" where
  "schedule_next_attempt env d = (case dl_nextAttemptAt d of None \<Rightarrow> return_op () | Some t \<Rightarrow> scheduleAt env t)"

definition scheduleDelivery :: "channel_env \<Rightarrow> delivery_record \<Rightarrow> delivery_record channel_op" where
  "scheduleDelivery env d = bind_op (lift_op (armRedelivery (ch_now env) d)) (\<lambda>armed.
     then_op (put_delivery armed) (then_op (schedule_next_attempt env armed) (return_op armed)))"

end
