(* ===== verification/Channel.thy ===== *)
theory Channel
  imports Channel_State
begin

text \<open>
  \<^verbatim>\<open>src/do/integration.ts\<close>, the deliveries: handing a delivery to its target, ingesting events, reading,
  replying, settling, and what the connector does through its context. An operation runs to its end
  on one reading of the clock; \<open>chatReply\<close> and \<open>dispatchDelivery\<close> are put together from the parts
  before and after the call they wait for, so that what comes in between can be stated.
\<close>

section \<open>Calls of rooms and hubs\<close>

definition call_hub :: "channel_env \<Rightarrow> jstr \<Rightarrow> queue_delivery_input \<Rightarrow> queue_status channel_op" where
  "call_hub env name inp w =
     (let (hubs, r) = call_queueDelivery (ch_room env) name inp (cw_hubs w) in (w\<lparr>cw_hubs := hubs\<rparr>, r))"

definition call_room :: "channel_env \<Rightarrow> jstr \<Rightarrow> room_channel_delivery \<Rightarrow> nat channel_op" where
  "call_room env name inp w =
     (case rv_unreachable (ch_room env) name of
        Some e \<Rightarrow> (w, Inl e)
      | None \<Rightarrow>
          let ((ro, hubs), r) = queueChannelDelivery (ch_room env) inp (room_at (cw_rooms w) name, cw_hubs w)
          in (w\<lparr>cw_rooms := kv_put name ro (cw_rooms w), cw_hubs := hubs\<rparr>, r))"

definition cancel_at_hub :: "channel_env \<Rightarrow> jstr \<Rightarrow> jstr \<Rightarrow> unit channel_op" where
  "cancel_at_hub env name deliveryId w =
     (case rv_unreachable (ch_room env) name of
        Some e \<Rightarrow> (w, Inl e)
      | None \<Rightarrow> (w\<lparr>cw_hubs := kv_put name (fst (cancelDelivery (rv_hub (ch_room env)) deliveryId (hub_at (cw_hubs w) name)))
                   (cw_hubs w)\<rparr>, Inr ()))"

definition cancel_at_room :: "channel_env \<Rightarrow> jstr \<Rightarrow> jstr \<Rightarrow> unit channel_op" where
  "cancel_at_room env name deliveryId w =
     (case rv_unreachable (ch_room env) name of
        Some e \<Rightarrow> (w, Inl e)
      | None \<Rightarrow>
          let ((ro, hubs), r) = cancelChannelDelivery (ch_room env) deliveryId (room_at (cw_rooms w) name, cw_hubs w)
          in (w\<lparr>cw_rooms := kv_put name ro (cw_rooms w), cw_hubs := hubs\<rparr>, r))"

definition cancelHostQueue :: "channel_env \<Rightarrow> delivery_record \<Rightarrow> jstr \<Rightarrow> unit channel_op" where
  "cancelHostQueue env d org =
     try_op (bind_op (lift_op (thrown (parseAddress (dl_targetAddr d)))) (\<lambda>a.
       case a of
         AgentAddress name host organization address \<Rightarrow> cancel_at_hub env (hub_name org host) (dl_id d)
       | RoomAddress room organization address \<Rightarrow> cancel_at_room env (room_name org room) (dl_id d)))
     (\<lambda>e. return_op ())"

definition assertOwner :: "channel_env \<Rightarrow> delivery_record \<Rightarrow> jstr \<Rightarrow> jstr \<Rightarrow> unit channel_op" where
  "assertOwner env d caller org =
     (if dl_targetAddr d = caller then return_op ()
      else bind_op (lift_op (thrown (parseAddress (dl_targetAddr d)))) (\<lambda>a.
        case a of
          AgentAddress name host organization address \<Rightarrow> throw_op (js ''delivery owner mismatch'')
        | RoomAddress room organization address \<Rightarrow>
            let name = room_name org room in
            bind_op (case rv_unreachable (ch_room env) name of Some e \<Rightarrow> throw_op e
              | None \<Rightarrow> bind_op (read_op (\<lambda>w. hasMember caller (room_at (cw_rooms w) name))) lift_op) (\<lambda>member.
            if member then return_op () else throw_op (js ''delivery owner mismatch''))))"


section \<open>Dispatch\<close>

definition channel_render :: "integration_meta \<Rightarrow> stored_event \<Rightarrow> delivery_record \<Rightarrow> channel_envelope" where
  "channel_render meta event d =
     \<lparr>ce_from = im_connector meta, ce_id = dl_id d, ce_ts = toISOString (se_receivedAt event), ce_body = ev_content event,
      ce_conversationId = ev_conversationId event, ce_connector = im_connector meta, ce_user = ev_user event,
      ce_trigger = ev_trigger event, ce_redelivery = Some (int (dl_attempts d)), ce_read = (dl_readAt d \<noteq> None)\<rparr>"

definition send_to_target :: "channel_env \<Rightarrow> integration_meta \<Rightarrow> stored_event \<Rightarrow> delivery_record \<Rightarrow> unit channel_op" where
  "send_to_target env meta event d =
     (let render = channel_render meta event d;
          envelope = renderEnvelope (ChannelEnvelope render);
          again = (0 < dl_attempts d) in
      bind_op (lift_op (thrown (parseAddress (dl_targetAddr d)))) (\<lambda>a.
        case a of
          AgentAddress name host organization address \<Rightarrow>
            bind_op (call_hub env (hub_name (im_org meta) host)
              \<lparr>qi_messageId = dl_id d, qi_org = im_org meta, qi_targetOrg = im_org meta, qi_targetHost = host,
               qi_agent = name, qi_targetAddr = address, qi_envelope = envelope, qi_render = Some render,
               qi_enqueuedAt = None, qi_roomName = None, qi_roomSeq = None, qi_redelivery = again,
               qi_connectionId = None\<rparr>) (\<lambda>status.
            if status = NoRouteTo then throw_op (js ''no_route'') else return_op ())
        | RoomAddress room organization address \<Rightarrow>
            bind_op (call_room env (room_name (im_org meta) room)
              \<lparr>rd_deliveryId = dl_id d, rd_org = im_org meta, rd_envelope = envelope, rd_render = Some render,
               rd_redelivery = again\<rparr>) (\<lambda>queued.
            if queued = 0 then throw_op (js ''no_route'') else return_op ())))"

text \<open>What the attempt makes of the record that was read before it.\<close>

definition attempted :: "channel_env \<Rightarrow> delivery_record \<Rightarrow> delivery_record" where
  "attempted env d = d\<lparr>dl_attempts := dl_attempts d + 1,
     dl_status := (if some_time (dl_readAt d) then Read else Dispatched),
     dl_lastDispatchAt := Some (ch_now env), dl_lastError := None\<rparr>"

definition attempt_delivery ::
  "channel_env \<Rightarrow> integration_meta \<Rightarrow> stored_event \<Rightarrow> delivery_record \<Rightarrow> delivery_record channel_op" where
  "attempt_delivery env meta event d =
     try_op (then_op (send_to_target env meta event d) (return_op (attempted env d)))
       (\<lambda>e. return_op (d\<lparr>dl_lastError := Some e\<rparr>))"

definition close_dispatch :: "channel_env \<Rightarrow> delivery_record \<Rightarrow> unit channel_op" where
  "close_dispatch env d = bind_op (lift_op (armRedelivery (ch_now env) d)) (\<lambda>armed.
     then_op (put_delivery armed) (then_op (emit (DeliveryWrite armed)) (schedule_next_attempt env armed)))"

definition dispatchDelivery :: "channel_env \<Rightarrow> jstr \<Rightarrow> unit channel_op" where
  "dispatchDelivery env ident = bind_op requireMeta (\<lambda>meta.
     if \<not> im_active meta then return_op ()
     else bind_op (requireDelivery ident) (\<lambda>d.
       if dl_settledAt d \<noteq> None \<or> dl_status d = Dead then return_op ()
       else bind_op (requireEvent (dl_eventId d)) (\<lambda>event.
         bind_op (attempt_delivery env meta event d) (close_dispatch env))))"


section \<open>Ingesting events\<close>

definition valid_attachment :: "attachment \<Rightarrow> bool" where
  "valid_attachment a \<longleftrightarrow>
     1 \<le> length (at_id a) \<and> length (at_id a) \<le> 512 \<and> 1 \<le> length (at_name a) \<and> length (at_name a) \<le> 512 \<and>
     (case at_contentType a of None \<Rightarrow> True | Some t \<Rightarrow> length t \<le> 200) \<and>
     (case at_size a of None \<Rightarrow> True | Some n \<Rightarrow> n \<le> MAX_SAFE_INTEGER \<and> 0 \<le> n)"

definition validatedAttachments :: "attachment list option \<Rightarrow> jstr + attachment list option" where
  "validatedAttachments attachments =
     (case attachments of None \<Rightarrow> Inr None
      | Some ats \<Rightarrow>
          if MAX_EVENT_ATTACHMENTS < length ats
          then Inl (js ''attachments must contain at most '' @ show_nat MAX_EVENT_ATTACHMENTS @ js '' files'')
          else if list_all valid_attachment ats then Inr (Some ats)
          else Inl (js ''invalid connector attachment''))"

datatype ingest_result = Accepted jstr jstr | Repeated jstr jstr | RateLimitedEvent | PlanLimited

text \<open>The transaction: the key is looked up once more, then the event and its delivery are stored.\<close>

definition draw_ids :: "channel_env \<Rightarrow> (jstr \<times> jstr) channel_op" where
  "draw_ids env w = (w\<lparr>cw_draws := cw_draws w + 1\<rparr>, Inr (ch_eventId env (cw_draws w), ch_dlvId env (cw_draws w)))"

definition commit_event :: "channel_env \<Rightarrow> integration_meta \<Rightarrow> connector_event \<Rightarrow> ingest_result channel_op" where
  "commit_event env meta event =
     bind_op (read_op (\<lambda>w. kv_get (ig_keys (cw_self w)) (ev_eventKey event))) (\<lambda>existing.
     case existing of Some (e, d) \<Rightarrow> return_op (Repeated e d)
     | None \<Rightarrow> bind_op (draw_ids env) (\<lambda>(newEvent, newDelivery).
         let stored = \<lparr>ev_eventKey = ev_eventKey event, ev_conversationId = ev_conversationId event,
               ev_user = ev_user event, ev_trigger = ev_trigger event, ev_content = ev_content event,
               ev_meta = ev_meta event, ev_attachments = ev_attachments event,
               se_id = newEvent, se_integrationId = im_id meta, se_receivedAt = ch_now env\<rparr>;
             delivery = \<lparr>dl_id = newDelivery, dl_eventId = newEvent, dl_targetAddr = im_targetAddr meta, dl_status = Pending,
               dl_attempts = 0, dl_createdAt = ch_now env, dl_lastDispatchAt = None, dl_nextAttemptAt = None,
               dl_readAt = None, dl_injectedAt = None, dl_injectedVia = None, dl_injections = None,
               dl_settledAt = None, dl_lastError = None\<rparr>
         in then_op (self_op (\<lambda>st. st\<lparr>ig_keys := kv_put (ev_eventKey event) (newEvent, newDelivery) (ig_keys st),
                ig_events := kv_put newEvent stored (ig_events st),
                ig_deliveries := kv_put newDelivery delivery (ig_deliveries st)\<rparr>))
              (return_op (Accepted newEvent newDelivery))))"

definition take_ingest_token :: "channel_env \<Rightarrow> integration_meta \<Rightarrow> bool channel_op" where
  "take_ingest_token env meta =
     (if im_connector meta \<noteq> js ''ingest'' then return_op True
      else (\<lambda>w. let (rates, allowed) = consumeStoredToken (ig_rates (cw_self w)) (js ''rate:ingest'') 5 20 (ch_now env)
             in (w\<lparr>cw_self := (cw_self w)\<lparr>ig_rates := rates\<rparr>\<rparr>, Inr allowed)))"

definition ingestEvent :: "channel_env \<Rightarrow> connector_event \<Rightarrow> ingest_result channel_op" where
  "ingestEvent env event = bind_op requireMeta (\<lambda>meta.
     bind_op (lift_op (validatedAttachments (ev_attachments event))) (\<lambda>ats.
     if \<not> im_active meta then throw_op (js ''integration_paused'')
     else bind_op (take_ingest_token env meta) (\<lambda>allowed.
     if \<not> allowed then return_op RateLimitedEvent
     else bind_op (read_op (\<lambda>w. kv_get (ig_keys (cw_self w)) (ev_eventKey event))) (\<lambda>existing.
     case existing of Some (e, d) \<Rightarrow> return_op (Repeated e d)
     | None \<Rightarrow>
         if \<not> ch_canAccept env (im_org meta) then return_op PlanLimited
         else bind_op (commit_event env meta event) (\<lambda>committed.
           case committed of
             Accepted e d \<Rightarrow>
               bind_op (requireEvent e) (\<lambda>stored. bind_op (requireDelivery d) (\<lambda>delivery.
               then_op (emit (EventInsert (im_id meta) stored))
                 (then_op (emit (DeliveryWrite delivery))
                   (then_op (dispatchDelivery env d) (return_op committed)))))
           | _ \<Rightarrow> return_op committed)))))"


section \<open>Settling\<close>

definition settled :: "channel_env \<Rightarrow> delivery_record \<Rightarrow> delivery_record" where
  "settled env d = d\<lparr>dl_status := Handled, dl_settledAt := Some (ch_now env), dl_nextAttemptAt := None\<rparr>"

definition settle :: "channel_env \<Rightarrow> jstr \<Rightarrow> delivery_record \<Rightarrow> unit channel_op" where
  "settle env org d = then_op (put_delivery (settled env d))
     (then_op (emit (DeliveryWrite (settled env d))) (cancelHostQueue env (settled env d) org))"

text \<open>The result says whether the delivery was settled before.\<close>

definition finishHandled :: "channel_env \<Rightarrow> delivery_record \<Rightarrow> jstr \<Rightarrow> bool channel_op" where
  "finishHandled env d org =
     (if dl_settledAt d \<noteq> None then return_op True else then_op (settle env org d) (return_op False))"

definition markHandled :: "channel_env \<Rightarrow> jstr \<Rightarrow> jstr \<Rightarrow> bool channel_op" where
  "markHandled env ident caller = bind_op requireMeta (\<lambda>meta. bind_op (requireDelivery ident) (\<lambda>d.
     then_op (assertOwner env d caller (im_org meta)) (finishHandled env d (im_org meta))))"

definition operatorMarkHandled :: "channel_env \<Rightarrow> jstr \<Rightarrow> bool channel_op" where
  "operatorMarkHandled env ident = bind_op requireMeta (\<lambda>meta. bind_op (requireDelivery ident) (\<lambda>d.
     finishHandled env d (im_org meta)))"

definition settle_if_of :: "channel_env \<Rightarrow> jstr \<Rightarrow> jstr \<Rightarrow> delivery_record \<Rightarrow> unit channel_op" where
  "settle_if_of env org conversationId d =
     when_op (dl_settledAt d = None) (bind_op (requireEvent (dl_eventId d)) (\<lambda>event.
       when_op (ev_conversationId event = conversationId) (settle env org d)))"

definition settleConversation :: "channel_env \<Rightarrow> jstr \<Rightarrow> unit channel_op" where
  "settleConversation env conversationId = bind_op requireMeta (\<lambda>meta.
     bind_op (read_op (\<lambda>w. map snd (ig_deliveries (cw_self w))))
       (each_op (settle_if_of env (im_org meta) conversationId)))"

text \<open>The hub's report that a delivery reached its agent.\<close>

definition recordInjection :: "channel_env \<Rightarrow> jstr \<Rightarrow> jstr \<Rightarrow> jstr \<Rightarrow> unit channel_op" where
  "recordInjection env ident targetAddr via =
     bind_op (read_op (\<lambda>w. kv_get (ig_deliveries (cw_self w)) ident)) (\<lambda>found.
     case found of None \<Rightarrow> return_op ()
     | Some d \<Rightarrow>
         if dl_targetAddr d \<noteq> targetAddr \<or> dl_settledAt d \<noteq> None \<or> dl_status d = Dead then return_op ()
         else
           let d1 = d\<lparr>dl_injections := Some ((case dl_injections d of None \<Rightarrow> 0 | Some n \<Rightarrow> n) + 1),
                      dl_injectedVia := Some via, dl_injectedAt := Some (ch_now env)\<rparr> in
           bind_op (lift_op (sessionHeld d1)) (\<lambda>held.
             let d2 = (if held then d1\<lparr>dl_nextAttemptAt := None\<rparr> else d1) in
             then_op (put_delivery d2) (emit (DeliveryWrite d2))))"


section \<open>The connector's context\<close>

definition connector_act :: "channel_env \<Rightarrow> connector_act \<Rightarrow> unit channel_op" where
  "connector_act env act =
     try_op (case act of
         CxIngest event \<Rightarrow> then_op (ingestEvent env event) (return_op ())
       | CxSettle conversationId \<Rightarrow> settleConversation env conversationId
       | CxStatus state why \<Rightarrow> setConnectorStatus env state why
       | CxWake afterMs \<Rightarrow> scheduleAt env (ch_now env + max 0 afterMs))
     (\<lambda>e. return_op ())"

definition run_callback :: "channel_env \<Rightarrow> 'r callback \<Rightarrow> 'r channel_op" where
  "run_callback env call = then_op (each_op (connector_act env) (fst call)) (lift_op (snd call))"

definition run_hook :: "channel_env \<Rightarrow> (config \<Rightarrow> unit callback) option \<Rightarrow> config \<Rightarrow> unit channel_op" where
  "run_hook env hook config = (case hook of None \<Rightarrow> return_op () | Some f \<Rightarrow> run_callback env (f config))"


section \<open>Reading and replying\<close>

definition status_text :: "delivery_status \<Rightarrow> jstr" where
  "status_text s = (case s of Pending \<Rightarrow> js ''pending'' | Dispatched \<Rightarrow> js ''dispatched'' | Read \<Rightarrow> js ''read''
     | Replied \<Rightarrow> js ''replied'' | Handled \<Rightarrow> js ''handled'' | Dead \<Rightarrow> js ''dead'')"

definition record_read :: "channel_env \<Rightarrow> delivery_record \<Rightarrow> delivery_record channel_op" where
  "record_read env d =
     (if dl_readAt d = None \<and> \<not> some_time (dl_settledAt d)
      then let d1 = d\<lparr>dl_readAt := Some (ch_now env), dl_status := Read\<rparr> in
        then_op (put_delivery d1) (then_op (emit (DeliveryWrite d1)) (scheduleDelivery env d1))
      else return_op d)"

definition readMessage :: "channel_env \<Rightarrow> jstr \<Rightarrow> jstr \<Rightarrow> jstr channel_op" where
  "readMessage env ident caller = bind_op requireMeta (\<lambda>meta. bind_op (requireDelivery ident) (\<lambda>d.
     then_op (assertOwner env d caller (im_org meta)) (bind_op (requireEvent (dl_eventId d)) (\<lambda>event.
     let firstRead = (dl_readAt d = None) in
     bind_op (record_read env d) (\<lambda>d'.
     bind_op (openConfig env meta) (\<lambda>config.
     return_op (renderFull \<lparr>fe_id = dl_id d', fe_conversationId = ev_conversationId event, fe_user = ev_user event,
       fe_connector = im_connector meta, fe_status = status_text (dl_status d'), fe_firstRead = firstRead,
       fe_settled = (dl_settledAt d' \<noteq> None), fe_body = ev_content event,
       fe_instructions = map_of config (js ''instructions'')\<rparr>)))))))"

record message_attachment =
  ma_name :: jstr
  ma_contentType :: "jstr option"
  ma_size :: "int option"
  ma_token :: jstr

text \<open>The attachments with their capabilities; the URL around a token is left out.\<close>

definition readMessageV2 :: "channel_env \<Rightarrow> jstr \<Rightarrow> jstr \<Rightarrow> (jstr \<times> message_attachment list) channel_op" where
  "readMessageV2 env ident caller = bind_op (readMessage env ident caller) (\<lambda>text'.
     bind_op requireMeta (\<lambda>meta. bind_op (requireDelivery ident) (\<lambda>d.
     then_op (assertOwner env d caller (im_org meta)) (bind_op (requireEvent (dl_eventId d)) (\<lambda>event.
     let ats = (case ev_attachments event of None \<Rightarrow> [] | Some l \<Rightarrow> l) in
     return_op (text', map (\<lambda>(index, a). \<lparr>ma_name = at_name a, ma_contentType = truthy (at_contentType a), ma_size = at_size a,
         ma_token = createAttachmentCapability (ch_sealClaims env)
           \<lparr>tc_org = im_org meta, tc_integrationId = im_id meta, tc_eventId = se_id event, tc_deliveryId = ident,
            tc_index = int index, tc_expiresAt = 0\<rparr> (ch_now env)\<rparr>) (enumerate 0 ats)))))))"

record reply_input =
  ri_deliveryId :: jstr
  ri_conversationId :: jstr
  ri_caller :: jstr
  ri_message :: jstr
  ri_replyMode :: "jstr option"

record chat_reply_result =
  cr_handled :: bool
  cr_duplicate :: bool
  cr_message :: jstr
  cr_postError :: "jstr option"

definition canReply :: "channel_env \<Rightarrow> integration_meta \<Rightarrow> stored_event \<Rightarrow> unit channel_op" where
  "canReply env meta event = bind_op (connectorFor env (im_connector meta)) (\<lambda>connector.
     bind_op (openConfig env meta) (\<lambda>config.
     case cn_canReply connector of None \<Rightarrow> return_op ()
     | Some f \<Rightarrow> bind_op (lift_op (f config event)) (\<lambda>ok.
         if ok then return_op () else throw_op (im_name meta @ js '' is one-way; use mark_handled''))))"

text \<open>Up to the reply being stored, and from there on.\<close>

definition chatReply_open ::
  "channel_env \<Rightarrow> reply_input \<Rightarrow> (integration_meta \<times> stored_event \<times> delivery_record \<times> reply_record) channel_op" where
  "chatReply_open env inp = bind_op requireMeta (\<lambda>meta.
     if \<not> ch_canAccept env (im_org meta) then throw_op (js ''plan_limit'')
     else bind_op (requireDelivery (ri_deliveryId inp)) (\<lambda>d.
     then_op (assertOwner env d (ri_caller inp) (im_org meta)) (bind_op (requireEvent (dl_eventId d)) (\<lambda>event.
     if ev_conversationId event \<noteq> ri_conversationId inp then throw_op (js ''conversation_id mismatch'')
     else then_op (canReply env meta event)
       (let reply = \<lparr>rp_deliveryId = dl_id d, rp_conversationId = ev_conversationId event, rp_caller = ri_caller inp,
              rp_message = ri_message inp, rp_replyMode = truthy (ri_replyMode inp), rp_createdAt = ch_now env,
              rp_postedAt = None, rp_postError = None, rp_nextAttemptAt = Some (ch_now env)\<rparr>;
            d1 = d\<lparr>dl_status := Replied, dl_nextAttemptAt := None\<rparr>
        in then_op (put_reply reply) (then_op (put_delivery d1)
            (then_op (emit (ReplyWrite reply)) (then_op (emit (DeliveryWrite d1))
              (return_op (meta, event, d1, reply))))))))))"

definition posted :: "channel_env \<Rightarrow> reply_record \<Rightarrow> reply_record" where
  "posted env r = r\<lparr>rp_postedAt := Some (ch_now env), rp_postError := None, rp_nextAttemptAt := None\<rparr>"

definition request_of :: "stored_event \<Rightarrow> delivery_record \<Rightarrow> reply_record \<Rightarrow> reply_request" where
  "request_of event d reply =
     \<lparr>rq_deliveryId = dl_id d, rq_conversationId = ev_conversationId event, rq_agent = rp_caller reply,
      rq_message = rp_message reply, rq_replyMode = truthy (rp_replyMode reply), rq_event = event\<rparr>"

definition postRecordedReply ::
  "channel_env \<Rightarrow> integration_meta \<Rightarrow> stored_event \<Rightarrow> delivery_record \<Rightarrow> reply_record \<Rightarrow> unit channel_op" where
  "postRecordedReply env meta event d reply = bind_op (connectorFor env (im_connector meta)) (\<lambda>connector.
     bind_op (openConfig env meta) (\<lambda>config.
     let request = request_of event d reply in
     then_op (try_op (run_callback env (cn_postReply connector config request))
         (\<lambda>e. then_op (emit (ReplyRefused request e)) (throw_op e)))
       (then_op (emit (ReplyPosted request))
       (then_op (put_reply (posted env reply))
       (then_op (put_delivery (settled env d))
       (then_op (emit (ReplyWrite (posted env reply)))
       (then_op (emit (DeliveryWrite (settled env d)))
         (cancelHostQueue env (settled env d) (im_org meta)))))))))"

definition delayed :: "channel_env \<Rightarrow> jstr \<Rightarrow> reply_record \<Rightarrow> reply_record" where
  "delayed env e r = r\<lparr>rp_postError := Some e, rp_nextAttemptAt := Some (ch_now env + REPLY_RETRY_MS)\<rparr>"

definition chatReply_post ::
  "channel_env \<Rightarrow> integration_meta \<Rightarrow> stored_event \<Rightarrow> delivery_record \<Rightarrow> reply_record \<Rightarrow> chat_reply_result channel_op" where
  "chatReply_post env meta event d reply =
     try_op (then_op (postRecordedReply env meta event d reply)
         (return_op \<lparr>cr_handled = True, cr_duplicate = False, cr_message = rp_message reply, cr_postError = None\<rparr>))
       (\<lambda>e. then_op (put_reply (delayed env e reply))
         (then_op (scheduleAt env (ch_now env + REPLY_RETRY_MS))
         (then_op (emit (ReplyWrite (delayed env e reply)))
           (return_op \<lparr>cr_handled = False, cr_duplicate = False, cr_message = rp_message reply, cr_postError = Some e\<rparr>))))"

definition chatReply :: "channel_env \<Rightarrow> reply_input \<Rightarrow> chat_reply_result channel_op" where
  "chatReply env inp = bind_op (read_op (\<lambda>w. kv_get (ig_replies (cw_self w)) (ri_deliveryId inp))) (\<lambda>prior.
     case prior of
       Some r \<Rightarrow> return_op \<lparr>cr_handled = some_time (rp_postedAt r), cr_duplicate = True, cr_message = rp_message r,
         cr_postError = truthy (rp_postError r)\<rparr>
     | None \<Rightarrow> bind_op (chatReply_open env inp) (\<lambda>(meta, event, d, reply). chatReply_post env meta event d reply))"

end
