(* ===== verification/Channel_Alarm.thy ===== *)
theory Channel_Alarm
  imports Channel
begin

text \<open>
  \<^verbatim>\<open>src/do/integration.ts\<close>, the life of the object: configuration, pause, requeue, deletion, webhooks
  and attachments, the alarm with its retries, the poll window and the heartbeat. A poll takes time:
  the window has its own readings of the clock, and what follows it in the alarm runs on the last.
\<close>

section \<open>Redelivery on the alarm\<close>

definition due :: "int \<Rightarrow> delivery_record \<Rightarrow> bool" where
  "due now d \<longleftrightarrow> dl_settledAt d = None \<and> dl_status d \<noteq> Dead \<and>
     (case dl_nextAttemptAt d of None \<Rightarrow> False | Some t \<Rightarrow> t \<le> now)"

definition dispatchDue :: "channel_env \<Rightarrow> unit channel_op" where
  "dispatchDue env = bind_op (read_op (\<lambda>w. map snd (ig_deliveries (cw_self w))))
     (each_op (\<lambda>d. when_op (due (ch_now env) d) (dispatchDelivery env (dl_id d))))"

definition retry_reply :: "channel_env \<Rightarrow> integration_meta \<Rightarrow> reply_record \<Rightarrow> unit channel_op" where
  "retry_reply env meta r =
     (if some_time (rp_postedAt r) \<or> ch_now env < (case rp_nextAttemptAt r of None \<Rightarrow> 0 | Some t \<Rightarrow> t) then return_op ()
      else bind_op (requireDelivery (rp_deliveryId r)) (\<lambda>d. bind_op (requireEvent (dl_eventId d)) (\<lambda>event.
        try_op (postRecordedReply env meta event d r)
          (\<lambda>e. then_op (put_reply (delayed env e r)) (emit (ReplyWrite (delayed env e r)))))))"

definition retryReplies :: "channel_env \<Rightarrow> integration_meta \<Rightarrow> unit channel_op" where
  "retryReplies env meta = bind_op (read_op (\<lambda>w. map snd (ig_replies (cw_self w)))) (each_op (retry_reply env meta))"

definition delivery_deadlines :: "integration \<Rightarrow> int list" where
  "delivery_deadlines st = List.map_filter (\<lambda>(_, d). if dl_settledAt d \<noteq> None then None else dl_nextAttemptAt d) (ig_deliveries st)"

definition reply_deadlines :: "integration \<Rightarrow> int list" where
  "reply_deadlines st = List.map_filter (\<lambda>(_, r). if some_time (rp_postedAt r) then None else rp_nextAttemptAt r) (ig_replies st)"

definition scheduleNext :: "channel_env \<Rightarrow> unit channel_op" where
  "scheduleNext env = bind_op (read_op cw_self) (\<lambda>st.
     let next = fold (\<lambda>t acc. opt_min acc t) (delivery_deadlines st @ reply_deadlines st) None in
     bind_op (case ig_meta st of
         Some meta \<Rightarrow>
           if im_active meta
           then bind_op (openConfig env meta) (\<lambda>config.
             return_op (if config_at config (js ''health_ping_url'') \<noteq> None
               then opt_min next (ch_now env + HEALTH_PING_INTERVAL_MS) else next))
           else return_op next
       | None \<Rightarrow> return_op next) (\<lambda>next'.
     case next' of None \<Rightarrow> return_op () | Some t \<Rightarrow> scheduleAt env t))"


section \<open>Polling\<close>

definition pollState :: "integration \<Rightarrow> poll_state" where
  "pollState st = (case ig_poll st of None \<Rightarrow> \<lparr>po_lastActivityAt = 0, po_backoffUntil = 0, po_failures = 0\<rparr> | Some p \<Rightarrow> p)"

definition pollInterval :: "poll_state \<Rightarrow> int \<Rightarrow> int" where
  "pollInterval p now =
     (let quiet = now - po_lastActivityAt p in
      if quiet < POLL_HOT_FOR_MS then POLL_BURST_MS
      else if quiet < POLL_IDLE_AFTER_MS then POLL_ACTIVE_MS
      else if quiet < POLL_DORMANT_AFTER_MS then POLL_IDLE_MS
      else POLL_DORMANT_MS)"

definition armPoll :: "channel_env \<Rightarrow> connector \<Rightarrow> unit channel_op" where
  "armPoll env connector =
     (if cn_poll connector = None then return_op ()
      else bind_op (read_op (\<lambda>w. pollState (cw_self w))) (\<lambda>p.
        scheduleAt env (max (po_backoffUntil p) (ch_now env + POLL_ACTIVE_MS))))"

definition armHealth :: "channel_env \<Rightarrow> config \<Rightarrow> unit channel_op" where
  "armHealth env config =
     when_op (config_at config (js ''health_ping_url'') \<noteq> None) (scheduleAt env (ch_now env + 1000))"

text \<open>One cycle: the world, the time after it, whether there was activity, and the new cadence.\<close>

definition poll_failed :: "channel_env \<Rightarrow> poll_state \<Rightarrow> jstr \<Rightarrow> channel_world \<Rightarrow> channel_world \<times> int \<times> bool \<times> poll_state" where
  "poll_failed env p e w =
     (let failures = po_failures p + 1 in
      (fst (setConnectorStatus env InError (Some e) w), ch_now env, False,
       p\<lparr>po_failures := failures, po_backoffUntil := ch_now env + min POLL_MAX_BACKOFF_MS (2 ^ failures * 1000)\<rparr>))"

definition pollOnce ::
  "channel_env \<Rightarrow> integration_meta \<Rightarrow> connector \<Rightarrow> nat \<Rightarrow> poll_state \<Rightarrow> channel_world \<Rightarrow>
     channel_world \<times> int \<times> bool \<times> poll_state" where
  "pollOnce env meta connector n p w =
     (case cn_poll connector of None \<Rightarrow> (w, ch_now env, False, p)
      | Some poll \<Rightarrow>
     (case ch_open env (im_configEnc meta) of Inl e \<Rightarrow> poll_failed env p e w
      | Inr config \<Rightarrow>
          let (took, call) = poll config n; env1 = later (ch_now env + int took) env;
              (w1, result) = run_callback env1 call w
          in (case result of
                Inl e \<Rightarrow> poll_failed env1 p e w1
              | Inr (activity, backoffMs) \<Rightarrow>
                  (fst (setConnectorStatus env1 Polling None w1), ch_now env1, activity,
                   p\<lparr>po_failures := 0,
                      po_backoffUntil := (case backoffMs of None \<Rightarrow> po_backoffUntil p
                        | Some b \<Rightarrow> if 0 < b then ch_now env1 + min b POLL_MAX_BACKOFF_MS else po_backoffUntil p)\<rparr>))))"

lemma pollOnce_time: "ch_now env \<le> fst (snd (pollOnce env meta connector n p w))"
  by (auto simp: pollOnce_def poll_failed_def later_def Let_def split: option.splits sum.splits prod.splits)

lemma pollInterval_pos: "1000 \<le> pollInterval p now"
  by (simp add: pollInterval_def POLL_BURST_MS_def POLL_ACTIVE_MS_def POLL_IDLE_MS_def POLL_DORMANT_MS_def Let_def)

text \<open>The cycles of a window from the time \<open>t\<close>, \<open>n\<close> of them done, \<open>quiet\<close> of these the last quiet ones.\<close>

function poll_cycles ::
  "channel_env \<Rightarrow> integration_meta \<Rightarrow> connector \<Rightarrow> int \<Rightarrow> int \<Rightarrow> nat \<Rightarrow> nat \<Rightarrow> poll_state \<Rightarrow> channel_world \<Rightarrow>
     channel_world \<times> int \<times> nat \<times> poll_state" where
  "poll_cycles env meta connector windowEnd t n quiet p w =
     (if t < po_backoffUntil p then (w, t, n, p)
      else
        let (w1, t1, activity, p1) = pollOnce (later t env) meta connector n p w;
            p2 = (if activity then p1\<lparr>po_lastActivityAt := t1\<rparr> else p1);
            quiet' = (if activity then 0 else quiet + 1);
            interval = pollInterval p2 t1
        in if POLL_QUIET_EXIT_CYCLES \<le> quiet' \<or> POLL_BURST_MS < interval \<or> t1 < po_backoffUntil p2 \<or> windowEnd \<le> t1 + interval
           then (w1, t1, n + 1, p2)
           else poll_cycles env meta connector windowEnd (t1 + interval) (n + 1) quiet' p2 w1)"
  by pat_completeness auto

termination
proof (relation "measure (\<lambda>(env, meta, connector, windowEnd, t, n, quiet, p, w). nat (windowEnd - t))", goal_cases)
  case (2 env meta connector windowEnd t n quiet p w x w1 y t1 z activity p1 p2 quiet' interval)
  have "ch_now (later t env) \<le> fst (snd x)" unfolding 2(2) by (rule pollOnce_time)
  moreover have "fst (snd x) = t1" using 2(3,4) by (metis fst_conv snd_conv)
  ultimately have "t \<le> t1" by (simp add: later_def)
  moreover have "1000 \<le> interval" using 2 by (simp add: pollInterval_pos)
  ultimately show ?case using 2 by auto
qed simp

declare poll_cycles.simps [simp del]

definition runPollWindow :: "channel_env \<Rightarrow> integration_meta \<Rightarrow> connector \<Rightarrow> int channel_op" where
  "runPollWindow env meta connector w =
     (let (w1, t, _, p) = poll_cycles env meta connector (ch_now env + POLL_BURST_WINDOW_MS) (ch_now env) 0 0
            (pollState (cw_self w)) w
      in then_op (self_op (\<lambda>st. st\<lparr>ig_poll := Some p\<rparr>))
          (then_op (scheduleAt (later t env) (max (po_backoffUntil p) (t + pollInterval p t))) (return_op t)) w1)"


section \<open>Health and the alarm\<close>

definition reportHealth :: "channel_env \<Rightarrow> integration_meta \<Rightarrow> config \<Rightarrow> unit channel_op" where
  "reportHealth env meta config =
     (case config_at config (js ''health_ping_url'') of None \<Rightarrow> return_op ()
      | Some url \<Rightarrow> bind_op (read_op cw_self) (\<lambda>st.
          if ch_now env - (case ig_lastPing st of None \<Rightarrow> 0 | Some t \<Rightarrow> t) < HEALTH_PING_INTERVAL_MS then return_op ()
          else (case ig_connectorStatus st of None \<Rightarrow> return_op ()
           | Some st' \<Rightarrow>
               if cs_state st' \<in> {InError, Stopped} then return_op ()
               else bind_op (lift_op (thrown (parseAddress (im_targetAddr meta)))) (\<lambda>a.
                 case a of RoomAddress _ _ _ \<Rightarrow> return_op ()
                 | AgentAddress name host _ _ \<Rightarrow>
                     let hub = hub_name (im_org meta) host in
                     bind_op (case rv_unreachable (ch_room env) hub of Some e \<Rightarrow> throw_op e
                       | None \<Rightarrow> read_op (\<lambda>w. hasAgent (hub_at (cw_hubs w) hub) name)) (\<lambda>there.
                     when_op there (then_op (emit (Heartbeat url (im_targetAddr meta) (cs_state st')))
                       (when_op (ch_ping env url) (self_op (\<lambda>st. st\<lparr>ig_lastPing := Some (ch_now env)\<rparr>)))))))))"

text \<open>The alarm that fires is no longer set while the handler runs.\<close>

definition integration_alarm :: "channel_env \<Rightarrow> unit channel_op" where
  "integration_alarm env =
     then_op (self_op (\<lambda>st. st\<lparr>ig_alarm := (ig_alarm st)\<lparr>ab_alarm := None\<rparr>\<rparr>))
       (bind_op (read_op (\<lambda>w. ig_meta (cw_self w))) (\<lambda>m.
        case m of None \<Rightarrow> return_op ()
        | Some meta \<Rightarrow>
            if \<not> im_active meta then return_op ()
            else bind_op (connectorFor env (im_connector meta)) (\<lambda>connector.
              bind_op (openConfig env meta) (\<lambda>config.
              then_op (retryReplies env meta) (then_op (dispatchDue env)
              (then_op (try_op (run_hook env (cn_wake connector) config)
                  (\<lambda>e. setConnectorStatus env InError (Some e)))
              (bind_op (if cn_poll connector = None then return_op (ch_now env) else runPollWindow env meta connector) (\<lambda>t.
              then_op (reportHealth (later t env) meta config) (scheduleNext (later t env))))))))))"


section \<open>Configuration\<close>

definition HEALTH_CONFIG_FIELD :: config_field where
  "HEALTH_CONFIG_FIELD = \<lparr>cf_key = js ''health_ping_url'', cf_secret = True, cf_required = False\<rparr>"

definition all_fields :: "connector \<Rightarrow> config_field list" where
  "all_fields connector = cn_configFields connector @ [HEALTH_CONFIG_FIELD]"

fun configure_fields ::
  "(jstr \<Rightarrow> jstr) \<Rightarrow> config \<Rightarrow> config \<Rightarrow> config_field list \<Rightarrow> config \<times> config \<Rightarrow> jstr + (config \<times> config)" where
  "configure_fields sha supplied existing [] acc = Inr acc"
| "configure_fields sha supplied existing (f # fs) (config, fingerprints) =
     (let value = (if cf_secret f \<and> config_at supplied (cf_key f) = None
                   then config_at existing (cf_key f) else config_at supplied (cf_key f)) in
      case value of
        None \<Rightarrow> if cf_required f then Inl (cf_key f @ js '' is required'')
                else configure_fields sha supplied existing fs (config, fingerprints)
      | Some v \<Rightarrow> configure_fields sha supplied existing fs
          ((cf_key f, v) # config, if cf_secret f then (cf_key f, sha v) # fingerprints else fingerprints))"

record integration_detail =
  ix_meta :: integration_meta
  ix_config :: config
  ix_fingerprints :: config
  ix_connectorStatus :: "connector_status option"
  ix_deliveries :: "delivery_status \<Rightarrow> nat"
  ix_configFields :: "config_field list"
  ix_mode :: jstr

definition integration_detail_of :: "channel_env \<Rightarrow> integration_detail channel_op" where
  "integration_detail_of env = bind_op requireMeta (\<lambda>meta. bind_op (connectorFor env (im_connector meta)) (\<lambda>connector.
     bind_op (openConfig env meta) (\<lambda>config. bind_op (read_op cw_self) (\<lambda>st.
     return_op \<lparr>ix_meta = meta\<lparr>im_configEnc := []\<rparr>,
       ix_config = List.map_filter (\<lambda>f. if cf_secret f then None else map_option (\<lambda>v. (cf_key f, v)) (config_at config (cf_key f)))
         (all_fields connector),
       ix_fingerprints = (case ig_fingerprints st of None \<Rightarrow> [] | Some f \<Rightarrow> f),
       ix_connectorStatus = ig_connectorStatus st,
       ix_deliveries = (\<lambda>s. length (filter (\<lambda>(_, d). dl_status d = s) (ig_deliveries st))),
       ix_configFields = all_fields connector, ix_mode = cn_mode connector\<rparr>))))"

record configure_input =
  gi_org :: jstr
  gi_id :: jstr
  gi_connector :: jstr
  gi_name :: jstr
  gi_targetAddr :: jstr
  gi_config :: config
  gi_active :: "bool option"
  gi_createdAt :: "int option"

definition first_some :: "'a option \<Rightarrow> 'a option \<Rightarrow> 'a \<Rightarrow> 'a" where
  "first_some a b c = (case a of Some x \<Rightarrow> x | None \<Rightarrow> (case b of Some x \<Rightarrow> x | None \<Rightarrow> c))"

definition integration_configure :: "channel_env \<Rightarrow> configure_input \<Rightarrow> integration_detail channel_op" where
  "integration_configure env inp = bind_op (connectorFor env (gi_connector inp)) (\<lambda>connector.
     bind_op (read_op (\<lambda>w. ig_meta (cw_self w))) (\<lambda>previous.
     if (case previous of None \<Rightarrow> False | Some m \<Rightarrow> im_org m \<noteq> gi_org inp \<or> im_id m \<noteq> gi_id inp)
     then throw_op (js ''integration identity cannot change'')
     else bind_op (case previous of None \<Rightarrow> return_op [] | Some m \<Rightarrow> openConfig env m) (\<lambda>existing.
     bind_op (lift_op (configure_fields (ch_sha env) (gi_config inp) existing (all_fields connector) ([], []))) (\<lambda>(config, fingerprints).
     if (case config_at config (js ''health_ping_url'') of None \<Rightarrow> False | Some url \<Rightarrow> \<not> ch_httpsURL env url)
     then throw_op (js ''health_ping_url must be an HTTPS URL'')
     else then_op (case previous of None \<Rightarrow> return_op ()
         | Some m \<Rightarrow> bind_op (connectorFor env (im_connector m)) (\<lambda>old. run_hook env (cn_stop old) existing))
       (let meta = \<lparr>im_org = gi_org inp, im_id = gi_id inp, im_connector = gi_connector inp, im_name = gi_name inp,
              im_targetAddr = gi_targetAddr inp,
              im_active = first_some (gi_active inp) (map_option im_active previous) True,
              im_configEnc = ch_seal env config,
              im_createdAt = first_some (gi_createdAt inp) (map_option im_createdAt previous) (ch_now env)\<rparr> in
        then_op (self_op (\<lambda>st. st\<lparr>ig_meta := Some meta, ig_fingerprints := Some fingerprints,
            ig_pollBudget := None, ig_lastStatus := None\<rparr>))
        (then_op (emit (IntegrationUpsert meta))
        (then_op (when_op (im_active meta)
            (try_op (run_hook env (cn_start connector) config) (\<lambda>e. setConnectorStatus env InError (Some e))))
        (then_op (when_op (im_active meta) (then_op (armPoll env connector) (armHealth env config)))
          (integration_detail_of env)))))))))"


section \<open>Pause, requeue, deletion\<close>

definition integration_pause :: "channel_env \<Rightarrow> bool \<Rightarrow> unit channel_op" where
  "integration_pause env paused = bind_op requireMeta (\<lambda>meta. bind_op (connectorFor env (im_connector meta)) (\<lambda>connector.
     bind_op (openConfig env meta) (\<lambda>config.
     then_op (self_op (\<lambda>st. st\<lparr>ig_meta := Some (meta\<lparr>im_active := \<not> paused\<rparr>)\<rparr>))
       (then_op
         (if paused then then_op (run_hook env (cn_stop connector) config) (setConnectorStatus env Stopped None)
          else then_op (run_hook env (cn_start connector) config)
            (then_op (dispatchDue env) (then_op (armPoll env connector) (armHealth env config))))
         (emit (IntegrationStatusWrite (im_id meta) (\<not> paused)))))))"

definition integration_requeue :: "channel_env \<Rightarrow> jstr \<Rightarrow> unit channel_op" where
  "integration_requeue env ident = bind_op (requireDelivery ident) (\<lambda>d.
     if dl_status d \<noteq> Dead then throw_op (js ''delivery is not dead'')
     else then_op (put_delivery (d\<lparr>dl_status := Pending, dl_attempts := 0, dl_lastError := None, dl_settledAt := None,
            dl_nextAttemptAt := Some (ch_now env)\<rparr>))
       (dispatchDelivery env ident))"

definition integration_destroy :: "channel_env \<Rightarrow> unit channel_op" where
  "integration_destroy env = bind_op requireMeta (\<lambda>meta. bind_op (connectorFor env (im_connector meta)) (\<lambda>connector.
     then_op (if cn_stop connector = None then return_op ()
         else bind_op (openConfig env meta) (run_hook env (cn_stop connector)))
       (then_op (self_op (\<lambda>_. new_integration)) (emit (IntegrationRowsDelete (im_id meta))))))"


section \<open>Webhooks and attachments\<close>

definition integration_webhook :: "channel_env \<Rightarrow> jstr \<Rightarrow> (nat \<times> jstr) channel_op" where
  "integration_webhook env request = bind_op requireMeta (\<lambda>meta.
     if \<not> im_active meta then return_op (409, js ''Integration paused'')
     else bind_op (connectorFor env (im_connector meta)) (\<lambda>connector.
       case cn_webhook connector of None \<Rightarrow> return_op (404, js ''Connector has no webhook'')
       | Some f \<Rightarrow> bind_op (openConfig env meta) (\<lambda>config.
           try_op (run_callback env (f config request))
             (\<lambda>e. if e = js ''plan_limit'' then return_op (402, js ''plan_limit'') else throw_op e))))"

text \<open>A request's index is the safe integer its parameter denotes, if it does.\<close>

definition attachment_fetch :: "channel_env \<Rightarrow> bool \<Rightarrow> jstr option \<Rightarrow> int option \<Rightarrow> (nat \<times> jstr) channel_op" where
  "attachment_fetch env is_attachment_request eventID index =
     (if \<not> is_attachment_request then return_op (404, js ''Not found'')
      else (case (truthy eventID, index) of
        (Some ident, Some i) \<Rightarrow>
          if i < 0 then return_op (400, js ''Invalid attachment'')
          else bind_op requireMeta (\<lambda>meta. bind_op (requireEvent ident) (\<lambda>event.
            if se_integrationId event \<noteq> im_id meta then return_op (404, js ''Attachment not found'')
            else
              let ats = (case ev_attachments event of None \<Rightarrow> [] | Some l \<Rightarrow> l) in
              if length ats \<le> nat i then return_op (404, js ''Attachment not found'')
              else bind_op (connectorFor env (im_connector meta)) (\<lambda>connector.
                case cn_fetchAttachment connector of None \<Rightarrow> return_op (404, js ''Connector has no attachments'')
                | Some f \<Rightarrow> bind_op (openConfig env meta) (\<lambda>config.
                    bind_op (lift_op (f config event (ats ! nat i))) (\<lambda>(ok, contentType).
                    if \<not> ok then return_op (502, js ''Attachment upstream failed'')
                    else return_op (200, case truthy contentType of Some t \<Rightarrow> t
                      | None \<Rightarrow> (case truthy (at_contentType (ats ! nat i)) of Some t \<Rightarrow> t
                        | None \<Rightarrow> js ''application/octet-stream''))))))) 
      | _ \<Rightarrow> return_op (400, js ''Invalid attachment'')))"

end
