(* ===== verification/Channel_Frame.thy ===== *)
theory Channel_Frame
  imports Channel_Alarm
begin

text \<open>
  Which operations of a channel leave its records alone. \<open>untouched\<close> relates worlds whose deliveries,
  replies, events and dedupe keys are the same and in which no reply was posted in between; it is a
  step relation, so the operations that only read, schedule, or call others keep it by the rules.
\<close>

definition posted_ids :: "channel_world \<Rightarrow> jstr list" where
  "posted_ids w = List.map_filter (\<lambda>e. case e of ReplyPosted r \<Rightarrow> Some (rq_deliveryId r) | _ \<Rightarrow> None) (cw_out w)"

definition untouched :: "channel_world \<Rightarrow> channel_world \<Rightarrow> bool" where
  "untouched w w' \<longleftrightarrow> ig_deliveries (cw_self w') = ig_deliveries (cw_self w) \<and> ig_replies (cw_self w') = ig_replies (cw_self w) \<and>
     ig_events (cw_self w') = ig_events (cw_self w) \<and> ig_keys (cw_self w') = ig_keys (cw_self w) \<and>
     cw_draws w' = cw_draws w \<and> posted_ids w' = posted_ids w"

interpretation same: step_relation untouched
  by unfold_locales (auto simp: untouched_def)

named_theorems frame_rules \<open>operations that leave the records alone\<close>

lemmas [frame_rules] = same.keeps_rules

lemma posted_ids_emit: "posted_ids (w\<lparr>cw_out := cw_out w @ [e]\<rparr>) =
    posted_ids w @ (case e of ReplyPosted r \<Rightarrow> [rq_deliveryId r] | _ \<Rightarrow> [])"
  by (cases e) (simp_all add: posted_ids_def List.map_filter_def)

lemma posted_ids_frame [simp]: "posted_ids (w\<lparr>cw_self := s\<rparr>) = posted_ids w" "posted_ids (w\<lparr>cw_hubs := h\<rparr>) = posted_ids w"
    "posted_ids (w\<lparr>cw_rooms := r, cw_hubs := h\<rparr>) = posted_ids w" "posted_ids (w\<lparr>cw_draws := n\<rparr>) = posted_ids w"
    "posted_ids (w\<lparr>cw_rooms := r\<rparr>) = posted_ids w"
  by (simp_all add: posted_ids_def)

lemma keeps_self [frame_rules]:
  assumes "\<And>st. ig_deliveries (f st) = ig_deliveries st \<and> ig_replies (f st) = ig_replies st \<and>
    ig_events (f st) = ig_events st \<and> ig_keys (f st) = ig_keys st"
  shows "keeps untouched (self_op f)"
  using assms by (auto simp: self_op_def untouched_def intro: same.keeps_write)

lemma keeps_emit [frame_rules]: "(\<And>r. e \<noteq> ReplyPosted r) \<Longrightarrow> keeps untouched (emit e)"
  unfolding emit_def by (rule same.keeps_write) (cases e; auto simp: untouched_def posted_ids_emit)

lemma keeps_need [frame_rules]: "keeps untouched (need e f)"
  unfolding need_def by (intro frame_rules) (auto split: option.splits intro: frame_rules)

lemma keeps_requires [frame_rules]: "keeps untouched requireMeta" "keeps untouched (requireEvent i)" "keeps untouched (requireDelivery i)"
  by (simp_all add: requireMeta_def requireEvent_def requireDelivery_def keeps_need)

lemma keeps_connectorFor [frame_rules]: "keeps untouched (connectorFor env name)"
  unfolding connectorFor_def by (auto split: option.splits intro: frame_rules)

lemma keeps_openConfig [frame_rules]: "keeps untouched (openConfig env meta)"
  unfolding openConfig_def by (rule frame_rules)

lemma keeps_status [frame_rules]: "keeps untouched (setConnectorStatus env state why)"
  unfolding setConnectorStatus_def by (rule keeps_self) (simp add: Let_def)

lemma keeps_alarmLimit [frame_rules]: "keeps untouched (alarmLimit env)"
  unfolding alarmLimit_def by (auto simp: Let_def split: option.splits prod.splits intro!: frame_rules)

lemma keeps_scheduleAt [frame_rules]: "keeps untouched (scheduleAt env t)"
  unfolding scheduleAt_def by (auto split: option.splits intro!: frame_rules)

lemma keeps_next_attempt [frame_rules]: "keeps untouched (schedule_next_attempt env d)"
  unfolding schedule_next_attempt_def by (auto split: option.splits intro!: frame_rules)

lemma keeps_calls [frame_rules]:
  "keeps untouched (call_hub env name inp)" "keeps untouched (call_room env name cinp)"
  "keeps untouched (cancel_at_hub env name i)" "keeps untouched (cancel_at_room env name i)"
  by (auto simp: call_hub_def call_room_def cancel_at_hub_def cancel_at_room_def keeps_def untouched_def Let_def
      split: option.splits prod.splits)

lemma keeps_cancelHostQueue [frame_rules]: "keeps untouched (cancelHostQueue env d org)"
  unfolding cancelHostQueue_def by (auto split: transit_address.splits intro!: frame_rules)

lemma keeps_assertOwner [frame_rules]: "keeps untouched (assertOwner env d caller org)"
  unfolding assertOwner_def by (auto simp: Let_def split: transit_address.splits option.splits intro!: frame_rules)

lemma keeps_attempt [frame_rules]: "keeps untouched (attempt_delivery env meta event d)"
  unfolding attempt_delivery_def send_to_target_def
  by (auto simp: Let_def split: transit_address.splits intro!: frame_rules)

lemma keeps_canReply [frame_rules]: "keeps untouched (canReply env meta event)"
  unfolding canReply_def by (auto split: option.splits intro!: frame_rules)

lemma keeps_health [frame_rules]: "keeps untouched (armHealth env config)" "keeps untouched (armPoll env connector)"
    "keeps untouched (reportHealth env meta config)" "keeps untouched (scheduleNext env)"
    "keeps untouched (integration_detail_of env)"
  unfolding armHealth_def armPoll_def reportHealth_def scheduleNext_def integration_detail_of_def
  by (auto simp: Let_def split: transit_address.splits option.splits prod.splits intro!: frame_rules)

text \<open>What the readers return.\<close>

lemma reads [simp]:
  "requireMeta w = (w', Inr m) \<longleftrightarrow> w' = w \<and> ig_meta (cw_self w) = Some m"
  "requireEvent i w = (w', Inr e) \<longleftrightarrow> w' = w \<and> kv_get (ig_events (cw_self w)) i = Some e"
  "requireDelivery i w = (w', Inr d) \<longleftrightarrow> w' = w \<and> kv_get (ig_deliveries (cw_self w)) i = Some d"
  "read_op g w = (w', Inr x) \<longleftrightarrow> w' = w \<and> x = g w"
  "lift_op r w = (w', Inr y) \<longleftrightarrow> w' = w \<and> r = Inr y"
  "return_op a w = (w', Inr b) \<longleftrightarrow> w' = w \<and> b = a"
  by (auto simp: requireMeta_def requireEvent_def requireDelivery_def need_def op_defs split: option.splits)

lemma assertOwner_reads: "fst (assertOwner env d caller org w) = w"
  unfolding assertOwner_def
  by (auto simp: Let_def op_defs hasMember_def split: transit_address.splits option.splits sum.splits)

text \<open>Running what follows a reader.\<close>

lemma run_reads:
  "bind_op requireMeta f w = (case ig_meta (cw_self w) of None \<Rightarrow> (w, Inl (js ''integration_not_configured'')) | Some m \<Rightarrow> f m w)"
  "bind_op (requireEvent i) g w = (case kv_get (ig_events (cw_self w)) i of None \<Rightarrow> (w, Inl (js ''event_not_found'')) | Some e \<Rightarrow> g e w)"
  "bind_op (requireDelivery i) h w =
     (case kv_get (ig_deliveries (cw_self w)) i of None \<Rightarrow> (w, Inl (js ''delivery_not_found'')) | Some d \<Rightarrow> h d w)"
  "bind_op (read_op x) k w = k (x w) w"
  "bind_op (lift_op r) q w = (case r of Inl e \<Rightarrow> (w, Inl e) | Inr a \<Rightarrow> q a w)"
  "bind_op (connectorFor env name) c w =
     (case ch_connectors env name of None \<Rightarrow> (w, Inl (js ''unknown connector: '' @ name)) | Some cn \<Rightarrow> c cn w)"
  "bind_op (openConfig env meta) o' w = (case ch_open env (im_configEnc meta) of Inl e \<Rightarrow> (w, Inl e) | Inr config \<Rightarrow> o' config w)"
  by (auto simp: requireMeta_def requireEvent_def requireDelivery_def need_def connectorFor_def openConfig_def op_defs
      split: option.splits sum.splits)

lemma run_owner: "then_op (assertOwner env d caller org) m w =
    (case snd (assertOwner env d caller org w) of Inl e \<Rightarrow> (w, Inl e) | Inr _ \<Rightarrow> m w)"
  using assertOwner_reads [of env d caller org w]
  by (cases "assertOwner env d caller org w") (auto simp: op_defs split: sum.splits)

lemma run_self_op [op_simps]: "self_op f w = (w\<lparr>cw_self := f (cw_self w)\<rparr>, Inr ())"
  by (simp add: self_op_def op_simps)

lemma run_emit [op_simps]: "emit e w = (w\<lparr>cw_out := cw_out w @ [e]\<rparr>, Inr ())"
  by (simp add: emit_def op_simps)

end
