(* ===== verification/Channel_Ledger.thy ===== *)
theory Channel_Ledger
  imports Channel_Frame
begin

text \<open>
  What a channel promises, as a machine of three moves over an abstract ledger: an event key is
  accepted once and owes one delivery, a delivery owed is finished, and a reply is sent once, which
  finishes its delivery. \<open>ledger_of\<close> reads the ledger off the object, \<open>channel_wf\<close> is the invariant of
  its records, and \<open>advances\<close> the step relation that every operation keeps: the invariant holds after
  it, and the ledger has only made such moves.
\<close>

section \<open>The abstract ledger\<close>

datatype phase = Owed | Finished

record event_ledger =
  el_accepted :: "jstr \<Rightarrow> jstr option"
  el_phase :: "jstr \<Rightarrow> phase option"
  el_sent :: "jstr list"

definition empty_ledger :: event_ledger where
  "empty_ledger = \<lparr>el_accepted = (\<lambda>_. None), el_phase = (\<lambda>_. None), el_sent = []\<rparr>"

inductive ledger_step :: "event_ledger \<Rightarrow> event_ledger \<Rightarrow> bool" where
  accept: "el_accepted l k = None \<Longrightarrow> el_phase l i = None \<Longrightarrow>
    ledger_step l (l\<lparr>el_accepted := (el_accepted l)(k \<mapsto> i), el_phase := (el_phase l)(i \<mapsto> Owed)\<rparr>)"
| finish: "el_phase l i = Some Owed \<Longrightarrow> ledger_step l (l\<lparr>el_phase := (el_phase l)(i \<mapsto> Finished)\<rparr>)"
| send: "el_phase l i \<noteq> None \<Longrightarrow> i \<notin> set (el_sent l) \<Longrightarrow>
    ledger_step l (l\<lparr>el_phase := (el_phase l)(i \<mapsto> Finished), el_sent := el_sent l @ [i]\<rparr>)"

definition ledger_ok :: "event_ledger \<Rightarrow> bool" where
  "ledger_ok l \<longleftrightarrow> inj_on (el_accepted l) (dom (el_accepted l)) \<and> ran (el_accepted l) = dom (el_phase l) \<and>
     distinct (el_sent l) \<and> (\<forall>i \<in> set (el_sent l). el_phase l i = Some Finished)"

lemma empty_ledger_ok: "ledger_ok empty_ledger"
  by (simp add: ledger_ok_def empty_ledger_def)

lemma ledger_step_ok: "ledger_step l l' \<Longrightarrow> ledger_ok l \<Longrightarrow> ledger_ok l'"
proof (induction rule: ledger_step.induct)
  case (accept l k i)
  have "i \<notin> ran (el_accepted l)" using accept by (auto simp: ledger_ok_def)
  then have "inj_on ((el_accepted l)(k \<mapsto> i)) (insert k (dom (el_accepted l)))"
    using accept by (auto simp: ledger_ok_def inj_on_def ran_def)
  moreover have "ran ((el_accepted l)(k \<mapsto> i)) = insert i (ran (el_accepted l))"
    using accept(1) by (rule ran_map_upd)
  ultimately show ?case using accept by (auto simp: ledger_ok_def)
next
  case (finish l i) then show ?case by (auto simp: ledger_ok_def)
next
  case (send l i)
  then have "insert i (dom (el_phase l)) = dom (el_phase l)" by auto
  with send show ?case by (auto simp: ledger_ok_def)
qed

lemma ledger_steps_ok: "ledger_step\<^sup>*\<^sup>* l l' \<Longrightarrow> ledger_ok l \<Longrightarrow> ledger_ok l'"
  by (induction rule: rtranclp_induct) (auto intro: ledger_step_ok)

text \<open>What a ledger never takes back.\<close>

definition ledger_extends :: "event_ledger \<Rightarrow> event_ledger \<Rightarrow> bool" where
  "ledger_extends l l' \<longleftrightarrow> el_accepted l \<subseteq>\<^sub>m el_accepted l' \<and> (\<forall>i. el_phase l i \<noteq> None \<longrightarrow> el_phase l' i \<noteq> None) \<and>
     (\<forall>i. el_phase l i = Some Finished \<longrightarrow> el_phase l' i = Some Finished) \<and> (\<exists>more. el_sent l' = el_sent l @ more)"

interpretation ledger: step_relation ledger_extends
proof unfold_locales
  fix s t u assume "ledger_extends s t" "ledger_extends t u"
  then show "ledger_extends s u" unfolding ledger_extends_def by (metis append.assoc map_le_trans)
qed (simp add: ledger_extends_def)

lemma ledger_step_extends: "ledger_step l l' \<Longrightarrow> ledger_extends l l'"
  by (induction rule: ledger_step.induct) (auto simp: ledger_extends_def map_le_def)

lemma ledger_steps_extend: "ledger_step\<^sup>*\<^sup>* l l' \<Longrightarrow> ledger_extends l l'"
  by (induction rule: rtranclp_induct) (auto intro: ledger.refl ledger.trans ledger_step_extends)


section \<open>The records of a channel\<close>

definition phase_of :: "delivery_record \<Rightarrow> phase" where
  "phase_of d = (if dl_settledAt d = None then Owed else Finished)"

definition ledger_of :: "channel_world \<Rightarrow> event_ledger" where
  "ledger_of w = \<lparr>el_accepted = (\<lambda>k. map_option snd (kv_get (ig_keys (cw_self w)) k)),
     el_phase = (\<lambda>i. map_option phase_of (kv_get (ig_deliveries (cw_self w)) i)), el_sent = posted_ids w\<rparr>"

definition deliveries_wf :: "(nat \<Rightarrow> jstr) \<Rightarrow> nat \<Rightarrow> integration \<Rightarrow> bool" where
  "deliveries_wf D n st \<longleftrightarrow> kv_ok (ig_deliveries st) \<and>
     (\<forall>i d. kv_get (ig_deliveries st) i = Some d \<longrightarrow> dl_id d = i \<and> i \<in> D ` {..<n} \<and> dl_status d \<noteq> Dead \<and>
        (\<exists>ev. kv_get (ig_events st) (dl_eventId d) = Some ev \<and> kv_get (ig_keys st) (ev_eventKey ev) = Some (dl_eventId d, i)))"

definition keys_wf :: "integration \<Rightarrow> bool" where
  "keys_wf st \<longleftrightarrow> kv_ok (ig_keys st) \<and> (\<forall>k e i. kv_get (ig_keys st) k = Some (e, i) \<longrightarrow>
     (\<exists>ev d. kv_get (ig_events st) e = Some ev \<and> ev_eventKey ev = k \<and> kv_get (ig_deliveries st) i = Some d \<and> dl_eventId d = e))"

definition events_wf :: "(nat \<Rightarrow> jstr) \<Rightarrow> nat \<Rightarrow> integration \<Rightarrow> bool" where
  "events_wf E n st \<longleftrightarrow> kv_ok (ig_events st) \<and>
     (\<forall>e ev. kv_get (ig_events st) e = Some ev \<longrightarrow> se_id ev = e \<and> e \<in> E ` {..<n})"

definition replies_wf :: "integration \<Rightarrow> bool" where
  "replies_wf st \<longleftrightarrow> kv_ok (ig_replies st) \<and> (\<forall>i r. kv_get (ig_replies st) i = Some r \<longrightarrow>
     rp_deliveryId r = i \<and> kv_get (ig_deliveries st) i \<noteq> None)"

definition unposted :: "integration \<Rightarrow> jstr \<Rightarrow> bool" where
  "unposted st i \<longleftrightarrow> (case kv_get (ig_replies st) i of None \<Rightarrow> True | Some r \<Rightarrow> \<not> some_time (rp_postedAt r))"

definition channel_wf :: "(nat \<Rightarrow> jstr) \<Rightarrow> (nat \<Rightarrow> jstr) \<Rightarrow> channel_world \<Rightarrow> bool" where
  "channel_wf D E w \<longleftrightarrow> deliveries_wf D (cw_draws w) (cw_self w) \<and> keys_wf (cw_self w) \<and>
     events_wf E (cw_draws w) (cw_self w) \<and> replies_wf (cw_self w) \<and>
     (\<forall>i \<in> set (posted_ids w). \<not> unposted (cw_self w) i)"

text \<open>What a delivery keeps for ever, and what an operation does to the records.\<close>

definition same_letter :: "delivery_record \<Rightarrow> delivery_record \<Rightarrow> bool" where
  "same_letter d d' \<longleftrightarrow> dl_id d' = dl_id d \<and> dl_eventId d' = dl_eventId d \<and> dl_targetAddr d' = dl_targetAddr d \<and>
     dl_createdAt d' = dl_createdAt d \<and> (dl_settledAt d \<noteq> None \<longrightarrow> dl_settledAt d' \<noteq> None)"

definition letters_kept :: "integration \<Rightarrow> integration \<Rightarrow> bool" where
  "letters_kept st st' \<longleftrightarrow> kv_get (ig_events st) \<subseteq>\<^sub>m kv_get (ig_events st') \<and>
     (\<forall>i d. kv_get (ig_deliveries st) i = Some d \<longrightarrow> (\<exists>d'. kv_get (ig_deliveries st') i = Some d' \<and> same_letter d d'))"

definition advances :: "(nat \<Rightarrow> jstr) \<Rightarrow> (nat \<Rightarrow> jstr) \<Rightarrow> channel_world \<Rightarrow> channel_world \<Rightarrow> bool" where
  "advances D E w w' \<longleftrightarrow> (channel_wf D E w \<longrightarrow> channel_wf D E w' \<and> ledger_step\<^sup>*\<^sup>* (ledger_of w) (ledger_of w') \<and>
     letters_kept (cw_self w) (cw_self w'))"

lemma same_letter_refl [simp]: "same_letter d d"
  by (simp add: same_letter_def)

lemma same_letter_trans: "same_letter d d' \<Longrightarrow> same_letter d' d'' \<Longrightarrow> same_letter d d''"
  by (simp add: same_letter_def)

lemma letters_kept_refl [simp]: "letters_kept st st"
  by (simp add: letters_kept_def)

lemma letters_kept_trans: "letters_kept st st' \<Longrightarrow> letters_kept st' st'' \<Longrightarrow> letters_kept st st''"
  unfolding letters_kept_def by (meson map_le_trans same_letter_trans)

interpretation adv: step_relation "advances D E" for D E
  by unfold_locales (auto simp: advances_def intro: letters_kept_trans rtranclp_trans)

lemma untouched_advances: "untouched w w' \<Longrightarrow> advances D E w w'"
  by (simp add: advances_def untouched_def channel_wf_def deliveries_wf_def keys_wf_def events_wf_def replies_wf_def
      ledger_of_def letters_kept_def unposted_def)

lemma keeps_untouched_advances: "keeps untouched m \<Longrightarrow> keeps (advances D E) m"
  by (simp add: keeps_def untouched_advances)

section \<open>The moves\<close>

lemma phase_of_letter: "same_letter d d' \<Longrightarrow> phase_of d' = phase_of d \<or> phase_of d = Owed \<and> phase_of d' = Finished"
  by (auto simp: phase_of_def same_letter_def)

lemma put_delivery_advances:
  assumes "kv_get (ig_deliveries (cw_self w)) (dl_id d') = Some d" "same_letter d d'" "dl_status d' \<noteq> Dead"
  shows "advances D E w (fst (put_delivery d' w))"
proof -
  let ?w = "fst (put_delivery d' w)"
  have st: "ig_deliveries (cw_self ?w) = kv_put (dl_id d') d' (ig_deliveries (cw_self w))"
    "ig_keys (cw_self ?w) = ig_keys (cw_self w)" "ig_events (cw_self ?w) = ig_events (cw_self w)"
    "ig_replies (cw_self ?w) = ig_replies (cw_self w)" "cw_draws ?w = cw_draws w" "posted_ids ?w = posted_ids w"
    by (simp_all add: put_delivery_def op_simps)
  have same: "dl_eventId d' = dl_eventId d" using assms(2) by (simp add: same_letter_def)
  show ?thesis unfolding advances_def
  proof (intro impI conjI)
    assume wf: "channel_wf D E w"
    show "channel_wf D E ?w"
      using wf assms unfolding channel_wf_def deliveries_wf_def keys_wf_def events_wf_def replies_wf_def unposted_def st
      by (auto simp: store_simps same, fastforce)
    have l: "ledger_of ?w = (ledger_of w)\<lparr>el_phase := (el_phase (ledger_of w))(dl_id d' \<mapsto> phase_of d')\<rparr>"
      by (auto simp: ledger_of_def st store_simps fun_upd_def)
    have p: "el_phase (ledger_of w) (dl_id d') = Some (phase_of d)" by (simp add: ledger_of_def assms(1))
    show "ledger_step\<^sup>*\<^sup>* (ledger_of w) (ledger_of ?w)"
    proof (cases "phase_of d' = phase_of d")
      case True
      then have "ledger_of ?w = ledger_of w" unfolding l using p by (simp add: fun_upd_idem)
      then show ?thesis by simp
    next
      case False
      then have "phase_of d = Owed" "phase_of d' = Finished" using phase_of_letter [OF assms(2)] by auto
      then show ?thesis unfolding l using p by (metis ledger_step.finish r_into_rtranclp)
    qed
    show "letters_kept (cw_self w) (cw_self ?w)"
      unfolding letters_kept_def st using assms by (auto simp: store_simps)
  qed
qed

lemma put_reply_advances:
  assumes "kv_get (ig_deliveries (cw_self w)) (rp_deliveryId r) \<noteq> None" "unposted (cw_self w) (rp_deliveryId r)"
  shows "advances D E w (fst (put_reply r w))"
proof -
  let ?w = "fst (put_reply r w)"
  have st: "ig_deliveries (cw_self ?w) = ig_deliveries (cw_self w)" "ig_keys (cw_self ?w) = ig_keys (cw_self w)"
    "ig_events (cw_self ?w) = ig_events (cw_self w)" "cw_draws ?w = cw_draws w" "posted_ids ?w = posted_ids w"
    "ig_replies (cw_self ?w) = kv_put (rp_deliveryId r) r (ig_replies (cw_self w))"
    by (simp_all add: put_reply_def op_simps)
  have "unposted (cw_self ?w) i \<Longrightarrow> unposted (cw_self w) i" for i
    using assms(2) by (simp add: unposted_def st store_simps split: if_splits)
  then have "channel_wf D E w \<Longrightarrow> channel_wf D E ?w"
    using assms(1) unfolding channel_wf_def deliveries_wf_def keys_wf_def events_wf_def replies_wf_def st
    by (auto simp: store_simps split: if_splits)
  moreover have "ledger_of ?w = ledger_of w" by (simp add: ledger_of_def st)
  moreover have "letters_kept (cw_self w) (cw_self ?w)" by (simp add: letters_kept_def st)
  ultimately show ?thesis unfolding advances_def by simp
qed

text \<open>Posting: the reply is out, its record says so, and its delivery is settled.\<close>

definition after_post :: "reply_request \<Rightarrow> reply_record \<Rightarrow> delivery_record \<Rightarrow> channel_world \<Rightarrow> channel_world" where
  "after_post request r d w = w\<lparr>cw_out := cw_out w @ [ReplyPosted request],
     cw_self := (cw_self w)\<lparr>ig_replies := kv_put (rp_deliveryId r) r (ig_replies (cw_self w)),
       ig_deliveries := kv_put (dl_id d) d (ig_deliveries (cw_self w))\<rparr>\<rparr>"

lemma after_post_advances:
  assumes "kv_get (ig_deliveries (cw_self w)) (dl_id d') = Some d" "same_letter d d'" "dl_status d' \<noteq> Dead"
    "dl_settledAt d' \<noteq> None" "some_time (rp_postedAt r)" "rp_deliveryId r = dl_id d'" "rq_deliveryId request = dl_id d'"
    "unposted (cw_self w) (dl_id d')"
  shows "advances D E w (after_post request r d' w)"
proof -
  let ?w = "after_post request r d' w"
  have st: "ig_deliveries (cw_self ?w) = kv_put (dl_id d') d' (ig_deliveries (cw_self w))"
    "ig_keys (cw_self ?w) = ig_keys (cw_self w)" "ig_events (cw_self ?w) = ig_events (cw_self w)"
    "ig_replies (cw_self ?w) = kv_put (dl_id d') r (ig_replies (cw_self w))" "cw_draws ?w = cw_draws w"
    "posted_ids ?w = posted_ids w @ [dl_id d']"
    using assms(6,7) by (simp_all add: after_post_def posted_ids_def List.map_filter_def)
  have same: "dl_eventId d' = dl_eventId d" using assms(2) by (simp add: same_letter_def)
  show ?thesis unfolding advances_def
  proof (intro impI conjI)
    assume wf: "channel_wf D E w"
    have ds: "deliveries_wf D (cw_draws ?w) (cw_self ?w)" "keys_wf (cw_self ?w)" "events_wf E (cw_draws ?w) (cw_self ?w)"
      using wf assms unfolding channel_wf_def deliveries_wf_def keys_wf_def events_wf_def st
      by (auto simp: store_simps same, fastforce)
    have rs: "replies_wf (cw_self ?w)"
      using wf assms unfolding channel_wf_def replies_wf_def st by (auto simp: store_simps)
    have "unposted (cw_self ?w) i \<longleftrightarrow> i \<noteq> dl_id d' \<and> unposted (cw_self w) i" for i
      using assms(5) by (simp add: unposted_def st store_simps)
    then show "channel_wf D E ?w" using ds rs wf unfolding channel_wf_def st(6) by auto
    have "ledger_of ?w = (ledger_of w)\<lparr>el_phase := (el_phase (ledger_of w))(dl_id d' \<mapsto> Finished),
        el_sent := el_sent (ledger_of w) @ [dl_id d']\<rparr>"
      using assms(4) by (auto simp: ledger_of_def st store_simps fun_upd_def phase_of_def)
    moreover have "dl_id d' \<notin> set (posted_ids w)" using wf assms(8) by (auto simp: channel_wf_def)
    ultimately show "ledger_step\<^sup>*\<^sup>* (ledger_of w) (ledger_of ?w)"
      using assms(1) ledger_step.send [of "ledger_of w" "dl_id d'"] by (simp add: ledger_of_def)
    show "letters_kept (cw_self w) (cw_self ?w)"
      unfolding letters_kept_def st using assms by (auto simp: store_simps)
  qed
qed

text \<open>The ids of an environment, fixed for the life of the object, and a clock past the epoch.\<close>

definition channel_fit :: "(nat \<Rightarrow> jstr) \<Rightarrow> (nat \<Rightarrow> jstr) \<Rightarrow> channel_env \<Rightarrow> bool" where
  "channel_fit D E env \<longleftrightarrow> ch_dlvId env = D \<and> ch_eventId env = E \<and> inj D \<and> inj E \<and> 0 < ch_now env"

lemma fit_later: "channel_fit D E env \<Longrightarrow> 0 < t \<Longrightarrow> channel_fit D E (later t env)"
  by (simp add: channel_fit_def later_def)

lemma channel_wf_fresh:
  assumes "channel_wf D E w" "inj D" "inj E"
  shows "kv_get (ig_deliveries (cw_self w)) (D (cw_draws w)) = None" "kv_get (ig_events (cw_self w)) (E (cw_draws w)) = None"
proof -
  have out: "f n \<notin> f ` {..<n}" if "inj f" for f :: "nat \<Rightarrow> jstr" and n using that by (auto dest: injD)
  show "kv_get (ig_deliveries (cw_self w)) (D (cw_draws w)) = None"
    using assms(1) out [OF assms(2)] unfolding channel_wf_def deliveries_wf_def by (meson not_Some_eq)
  show "kv_get (ig_events (cw_self w)) (E (cw_draws w)) = None"
    using assms(1) out [OF assms(3)] unfolding channel_wf_def events_wf_def by (meson not_Some_eq)
qed

text \<open>A new event and its delivery, under the ids drawn.\<close>

definition after_commit :: "jstr \<Rightarrow> stored_event \<Rightarrow> delivery_record \<Rightarrow> channel_world \<Rightarrow> channel_world" where
  "after_commit key ev d w = w\<lparr>cw_draws := cw_draws w + 1, cw_self := (cw_self w)\<lparr>
     ig_keys := kv_put key (se_id ev, dl_id d) (ig_keys (cw_self w)),
     ig_events := kv_put (se_id ev) ev (ig_events (cw_self w)),
     ig_deliveries := kv_put (dl_id d) d (ig_deliveries (cw_self w))\<rparr>\<rparr>"

lemma after_commit_advances:
  assumes "inj D" "inj E" "kv_get (ig_keys (cw_self w)) key = None" "ev_eventKey ev = key"
    "se_id ev = E (cw_draws w)" "dl_id d = D (cw_draws w)" "dl_eventId d = se_id ev" "dl_status d = Pending" "dl_settledAt d = None"
  shows "advances D E w (after_commit key ev d w)"
proof -
  let ?w = "after_commit key ev d w"
  have st: "ig_deliveries (cw_self ?w) = kv_put (dl_id d) d (ig_deliveries (cw_self w))"
    "ig_keys (cw_self ?w) = kv_put key (se_id ev, dl_id d) (ig_keys (cw_self w))"
    "ig_events (cw_self ?w) = kv_put (se_id ev) ev (ig_events (cw_self w))"
    "ig_replies (cw_self ?w) = ig_replies (cw_self w)" "cw_draws ?w = Suc (cw_draws w)" "posted_ids ?w = posted_ids w"
    by (simp_all add: after_commit_def posted_ids_def)
  show ?thesis unfolding advances_def
  proof (intro impI conjI)
    assume wf: "channel_wf D E w"
    note none = channel_wf_fresh [OF wf assms(1,2)]
    have more: "x \<in> f ` {..<cw_draws w} \<Longrightarrow> x \<in> f ` {..<Suc (cw_draws w)}" for x :: jstr and f by auto
    have new: "f (cw_draws w) \<in> f ` {..<Suc (cw_draws w)}" for f :: "nat \<Rightarrow> jstr" by auto
    have ds: "deliveries_wf D (cw_draws ?w) (cw_self ?w)"
      unfolding deliveries_wf_def
    proof (intro conjI allI impI)
      show "kv_ok (ig_deliveries (cw_self ?w))" using wf by (simp add: st channel_wf_def deliveries_wf_def)
      fix i d0 assume d0: "kv_get (ig_deliveries (cw_self ?w)) i = Some d0"
      have old: "dl_id d0 = i \<and> i \<in> D ` {..<cw_draws w} \<and> dl_status d0 \<noteq> Dead \<and>
          (\<exists>ev. kv_get (ig_events (cw_self w)) (dl_eventId d0) = Some ev \<and> kv_get (ig_keys (cw_self w)) (ev_eventKey ev) = Some (dl_eventId d0, i))"
        if "i \<noteq> dl_id d" using that d0 wf by (simp add: st store_simps channel_wf_def deliveries_wf_def)
      show "dl_id d0 = i" using old d0 by (cases "i = dl_id d") (auto simp: st store_simps)
      show "i \<in> D ` {..<cw_draws ?w}" using old more new assms(6) by (cases "i = dl_id d") (auto simp: st)
      show "dl_status d0 \<noteq> Dead" using old d0 assms(8) by (cases "i = dl_id d") (auto simp: st store_simps)
      show "\<exists>ev. kv_get (ig_events (cw_self ?w)) (dl_eventId d0) = Some ev \<and>
          kv_get (ig_keys (cw_self ?w)) (ev_eventKey ev) = Some (dl_eventId d0, i)"
      proof (cases "i = dl_id d")
        case True
        then have "d0 = d" using d0 by (simp add: st store_simps)
        then show ?thesis unfolding st True using assms(4,7) by (simp add: store_simps)
      next
        case False then show ?thesis using old none assms(3,5) unfolding st store_simps by (metis option.distinct(1))
      qed
    qed
    have ks: "keys_wf (cw_self ?w)" unfolding keys_wf_def
    proof (intro conjI allI impI)
      show "kv_ok (ig_keys (cw_self ?w))" using wf by (simp add: st channel_wf_def keys_wf_def)
      fix k e i assume "kv_get (ig_keys (cw_self ?w)) k = Some (e, i)"
      then show "\<exists>ev d. kv_get (ig_events (cw_self ?w)) e = Some ev \<and> ev_eventKey ev = k \<and>
          kv_get (ig_deliveries (cw_self ?w)) i = Some d \<and> dl_eventId d = e"
        using wf none assms(4-7) unfolding channel_wf_def keys_wf_def st store_simps
        by (metis (no_types, lifting) option.distinct(1) option.inject prod.inject)
    qed
    have es: "events_wf E (cw_draws ?w) (cw_self ?w)"
      using wf more new [of E] assms(5) unfolding channel_wf_def events_wf_def st by (auto simp: store_simps)
    have rs: "replies_wf (cw_self ?w)"
      using wf unfolding channel_wf_def replies_wf_def st by (auto simp: store_simps)
    show "channel_wf D E ?w" using ds ks es rs wf by (auto simp: channel_wf_def st unposted_def)
    have "ledger_of ?w = (ledger_of w)\<lparr>el_accepted := (el_accepted (ledger_of w))(key \<mapsto> dl_id d),
        el_phase := (el_phase (ledger_of w))(dl_id d \<mapsto> Owed)\<rparr>"
      using assms(9) by (auto simp: ledger_of_def st store_simps fun_upd_def phase_of_def)
    then show "ledger_step\<^sup>*\<^sup>* (ledger_of w) (ledger_of ?w)"
      using none assms(3,6) ledger_step.accept [of "ledger_of w" key "dl_id d"] by (simp add: ledger_of_def)
    show "letters_kept (cw_self w) (cw_self ?w)"
      unfolding letters_kept_def st using none assms(5,6) by (auto simp: store_simps map_le_def)
  qed
qed

end
