(* ===== verification/Channel_Progress.thy ===== *)
theory Channel_Progress
  imports Channel_Ledger
begin

text \<open>
  Every operation of a channel keeps \<open>advances\<close>. Operations that only read, schedule or call others
  leave the records alone; those that write a delivery or a reply do it on the record they read, and
  the work of the connector in between leaves the replies as they are (\<open>replies_kept\<close>).
\<close>

named_theorems adv_rules \<open>operations that keep the invariant and advance the ledger\<close>

lemmas [adv_rules] = adv.keeps_rules

lemma untouchedD: "keeps untouched m \<Longrightarrow> m w = (w', r) \<Longrightarrow> untouched w w'"
  by (metis fst_conv keeps_def)

lemma untouched_at: "keeps untouched m \<Longrightarrow> advances D E w (fst (m w))"
  by (simp add: keeps_def untouched_advances)

lemma advancesI: "(channel_wf D E w \<Longrightarrow> advances D E w w') \<Longrightarrow> advances D E w w'"
  by (auto simp: advances_def)

lemma advancesD:
  assumes "advances D E w w'" "channel_wf D E w"
  shows "channel_wf D E w'" "ledger_step\<^sup>*\<^sup>* (ledger_of w) (ledger_of w')" "letters_kept (cw_self w) (cw_self w')"
  using assms by (simp_all add: advances_def)

text \<open>The record that is stored for a delivery read before.\<close>

definition held :: "delivery_record \<Rightarrow> channel_world \<Rightarrow> bool" where
  "held d w \<longleftrightarrow> (\<exists>d1. kv_get (ig_deliveries (cw_self w)) (dl_id d) = Some d1 \<and> same_letter d d1)"

lemma held_untouched: "untouched w w' \<Longrightarrow> held d w' \<longleftrightarrow> held d w"
  by (simp add: held_def untouched_def)

lemma held_advances: "advances D E w w' \<Longrightarrow> channel_wf D E w \<Longrightarrow> held d w \<Longrightarrow> held d w'"
  using same_letter_trans by (fastforce simp: advances_def held_def letters_kept_def)

lemma channel_wf_key: "channel_wf D E w \<Longrightarrow> kv_get (ig_deliveries (cw_self w)) i = Some d \<Longrightarrow> dl_id d = i \<and> dl_status d \<noteq> Dead"
  by (simp add: channel_wf_def deliveries_wf_def)

lemma held_found: "channel_wf D E w \<Longrightarrow> kv_get (ig_deliveries (cw_self w)) i = Some d \<Longrightarrow> held d w"
  by (auto simp: held_def dest: channel_wf_key)

lemma held_listed: "channel_wf D E w \<Longrightarrow> (k, d) \<in> set (ig_deliveries (cw_self w)) \<Longrightarrow> held d w"
  by (metis channel_wf_def deliveries_wf_def held_found kv_ok_mem_iff)

text \<open>Writing a delivery on the record that was just read, or settling it.\<close>

lemma put_read_delivery:
  assumes "kv_get (ig_deliveries (cw_self w)) i = Some d" "same_letter d d'" "dl_status d' \<noteq> Dead"
  shows "advances D E w (fst (put_delivery d' w))"
proof (rule advancesI)
  assume "channel_wf D E w"
  then have "dl_id d' = i" using assms by (auto simp: same_letter_def dest: channel_wf_key)
  then show "advances D E w (fst (put_delivery d' w))" using put_delivery_advances assms by metis
qed

lemma put_settled_delivery: "held d w \<Longrightarrow> advances D E w (fst (put_delivery (settled env d) w))"
  unfolding held_def by (auto simp: settled_def same_letter_def intro!: put_delivery_advances)

lemma settle_advances: "held d w \<Longrightarrow> advances D E w (fst (settle env org d w))"
  unfolding settle_def
  by (intro adv.then_at put_settled_delivery untouched_at frame_rules) simp_all

lemma armRedelivery_letter: "armRedelivery now d = Inr a \<Longrightarrow> same_letter d a \<and> dl_status a = dl_status d \<and> dl_id a = dl_id d"
  by (auto simp: armRedelivery_def rbind_def same_letter_def split: sum.splits)

lemma close_dispatch_advances:
  assumes "kv_get (ig_deliveries (cw_self w)) (dl_id d) = Some d0" "same_letter d0 d" "dl_status d \<noteq> Dead"
  shows "advances D E w (fst (close_dispatch env d w))"
proof (cases "armRedelivery (ch_now env) d")
  case (Inr armed)
  then have a: "same_letter d0 armed" "dl_status armed \<noteq> Dead" "dl_id armed = dl_id d"
    using armRedelivery_letter [of _ d armed] assms by (auto intro: same_letter_trans)
  have "advances D E w (fst (then_op (put_delivery armed) (then_op (emit (DeliveryWrite armed)) (schedule_next_attempt env armed)) w))"
    by (intro adv.then_at put_delivery_advances [OF _ a(1,2)] untouched_at frame_rules) (simp_all add: a assms(1))
  then show ?thesis by (simp add: close_dispatch_def run_reads Inr)
qed (simp add: close_dispatch_def run_reads adv.refl)

lemma attempt_delivery_result:
  "attempt_delivery env meta event d w = (w', Inr d') \<Longrightarrow> dl_status d \<noteq> Dead \<Longrightarrow>
     same_letter d d' \<and> dl_status d' \<noteq> Dead \<and> dl_id d' = dl_id d"
  unfolding attempt_delivery_def
  by (auto elim!: try_op_cases then_op_cases simp: op_simps attempted_def same_letter_def split: if_splits)

lemma dispatchDelivery_advances [adv_rules]: "keeps (advances D E) (dispatchDelivery env ident)"
proof (rule adv.keepsI, rule advancesI)
  fix w assume wf: "channel_wf D E w"
  have "advances D E w (fst (bind_op (attempt_delivery env meta event d) (close_dispatch env) w))"
    if "kv_get (ig_deliveries (cw_self w)) ident = Some d" for d meta event
  proof (rule adv.bind_at, rule untouched_at [OF keeps_attempt])
    fix d' w1 assume a: "attempt_delivery env meta event d w = (w1, Inr d')"
    moreover have "dl_id d = ident" "dl_status d \<noteq> Dead" using channel_wf_key [OF wf that] by simp_all
    ultimately have "same_letter d d'" "dl_status d' \<noteq> Dead" "dl_id d' = ident" using attempt_delivery_result by blast+
    moreover have "kv_get (ig_deliveries (cw_self w1)) ident = Some d"
      using untouchedD [OF keeps_attempt a] that by (simp add: untouched_def)
    ultimately show "advances D E w1 (fst (close_dispatch env d' w1))" using close_dispatch_advances by blast
  qed
  then show "advances D E w (fst (dispatchDelivery env ident w))"
    by (auto simp: dispatchDelivery_def run_reads op_simps adv.refl split: option.splits)
qed

section \<open>Ingesting and settling\<close>

lemma commit_event_cases:
  obtains (seen) p where "kv_get (ig_keys (cw_self w)) (ev_eventKey event) = Some p"
    "commit_event env meta event w = (w, Inr (Repeated (fst p) (snd p)))"
  | (fresh) ev d where "kv_get (ig_keys (cw_self w)) (ev_eventKey event) = None"
    "commit_event env meta event w = (after_commit (ev_eventKey event) ev d w, Inr (Accepted (se_id ev) (dl_id d)))"
    "ev_eventKey ev = ev_eventKey event" "se_id ev = ch_eventId env (cw_draws w)" "dl_id d = ch_dlvId env (cw_draws w)"
    "dl_eventId d = se_id ev" "dl_status d = Pending" "dl_settledAt d = None" "dl_targetAddr d = im_targetAddr meta"
    "ev_conversationId ev = ev_conversationId event" "ev_content ev = ev_content event" "dl_nextAttemptAt d = None" "dl_attempts d = 0"
    "dl_readAt d = None" "dl_injectedVia d = None"
proof (cases "kv_get (ig_keys (cw_self w)) (ev_eventKey event)")
  case None
  let ?ev = "\<lparr>ev_eventKey = ev_eventKey event, ev_conversationId = ev_conversationId event,
       ev_user = ev_user event, ev_trigger = ev_trigger event, ev_content = ev_content event,
       ev_meta = ev_meta event, ev_attachments = ev_attachments event,
       se_id = ch_eventId env (cw_draws w), se_integrationId = im_id meta, se_receivedAt = ch_now env\<rparr>"
  let ?d = "\<lparr>dl_id = ch_dlvId env (cw_draws w), dl_eventId = ch_eventId env (cw_draws w), dl_targetAddr = im_targetAddr meta,
       dl_status = Pending, dl_attempts = 0, dl_createdAt = ch_now env, dl_lastDispatchAt = None, dl_nextAttemptAt = None,
       dl_readAt = None, dl_injectedAt = None, dl_injectedVia = None, dl_injections = None,
       dl_settledAt = None, dl_lastError = None\<rparr>"
  have "commit_event env meta event w = (after_commit (ev_eventKey event) ?ev ?d w, Inr (Accepted (se_id ?ev) (dl_id ?d)))"
    by (simp add: commit_event_def None run_reads draw_ids_def bind_op_def Let_def op_simps after_commit_def then_op_def)
  then show ?thesis by (intro fresh [OF None, of ?ev ?d]) simp_all
qed (auto simp: commit_event_def run_reads op_simps intro!: seen)

lemma commit_event_advances [adv_rules]:
  assumes "channel_fit D E env"
  shows "keeps (advances D E) (commit_event env meta event)"
proof (rule adv.keepsI)
  fix w show "advances D E w (fst (commit_event env meta event w))"
  proof (cases rule: commit_event_cases [of w event env meta])
    case (fresh ev d)
    then show ?thesis using after_commit_advances [of D E w _ ev d] assms by (simp add: channel_fit_def)
  qed (simp add: adv.refl)
qed

lemma keeps_token [frame_rules]: "keeps untouched (take_ingest_token env meta)"
  by (auto simp: take_ingest_token_def keeps_def untouched_def op_simps split: prod.splits)

lemma ingestEvent_advances [adv_rules]:
  assumes "channel_fit D E env"
  shows "keeps (advances D E) (ingestEvent env event)"
  unfolding ingestEvent_def using assms
  by (auto split: option.splits ingest_result.splits
      intro!: adv_rules keeps_untouched_advances [OF keeps_token] keeps_untouched_advances [OF keeps_emit]
        keeps_untouched_advances [OF keeps_requires(1)] keeps_untouched_advances [OF keeps_requires(2)]
        keeps_untouched_advances [OF keeps_requires(3)])

lemma finishHandled_advances: "held d w \<Longrightarrow> advances D E w (fst (finishHandled env d org w))"
  by (auto simp: finishHandled_def op_simps adv.refl intro!: adv.then_at settle_advances)

lemma markHandled_advances [adv_rules]: "keeps (advances D E) (markHandled env ident caller)"
  by (rule adv.keepsI, rule advancesI)
     (auto simp: markHandled_def run_reads run_owner op_simps adv.refl split: option.splits sum.splits
        intro!: finishHandled_advances dest: held_found)

lemma operatorMarkHandled_advances [adv_rules]: "keeps (advances D E) (operatorMarkHandled env ident)"
  by (rule adv.keepsI, rule advancesI)
     (auto simp: operatorMarkHandled_def run_reads op_simps adv.refl split: option.splits
        intro!: finishHandled_advances dest: held_found)

lemma settle_if_of_advances: "held d w \<Longrightarrow> advances D E w (fst (settle_if_of env org c d w))"
  by (auto simp: settle_if_of_def when_op_def run_reads op_simps adv.refl split: option.splits intro!: settle_advances)

lemma each_advances:
  assumes "\<And>d w. P d w \<Longrightarrow> advances D E w (fst (f d w))"
    and "\<And>d w w'. advances D E w w' \<Longrightarrow> channel_wf D E w \<Longrightarrow> P d w \<Longrightarrow> P d w'"
    and "channel_wf D E w" "\<And>d. d \<in> set ds \<Longrightarrow> P d w"
  shows "advances D E w (fst (each_op f ds w))"
  using assms(3,4)
proof (induction ds arbitrary: w)
  case (Cons d ds)
  have one: "advances D E w (fst (f d w))" using assms(1) Cons.prems by simp
  show ?case unfolding each_op.simps
  proof (rule adv.then_at, rule one)
    fix a s1 assume "f d w = (s1, Inr a)"
    then have "advances D E w s1" using one by simp
    then show "advances D E s1 (fst (each_op f ds s1))"
      using Cons.IH Cons.prems assms(2) advancesD(1) by (metis list.set_intros(2))
  qed
qed (simp add: op_simps adv.refl)

lemma settleConversation_advances [adv_rules]: "keeps (advances D E) (settleConversation env c)"
proof (rule adv.keepsI, rule advancesI)
  fix w assume wf: "channel_wf D E w"
  have "advances D E w (fst (each_op (settle_if_of env org c) (map snd (ig_deliveries (cw_self w))) w))" for org
    by (rule each_advances [where P = held, OF _ _ wf]) (auto intro: settle_if_of_advances held_advances held_listed [OF wf])
  then show "advances D E w (fst (settleConversation env c w))"
    by (auto simp: settleConversation_def run_reads adv.refl split: option.splits)
qed

lemma recordInjection_advances [adv_rules]: "keeps (advances D E) (recordInjection env ident target via)"
proof (rule adv.keepsI)
  fix w
  have "advances D E w (fst (then_op (put_delivery d') (emit (DeliveryWrite d')) w))"
    if "kv_get (ig_deliveries (cw_self w)) ident = Some d" "same_letter d d'" "dl_status d' \<noteq> Dead" for d d'
    by (intro adv.then_at put_read_delivery [OF that] untouched_at frame_rules) simp
  then show "advances D E w (fst (recordInjection env ident target via w))"
    by (auto simp: recordInjection_def run_reads op_simps adv.refl Let_def same_letter_def split: option.splits sum.splits)
qed

section \<open>The connector at work\<close>

lemma connector_act_advances [adv_rules]:
  assumes "channel_fit D E env"
  shows "keeps (advances D E) (connector_act env act)"
  unfolding connector_act_def using assms
  by (cases act) (auto intro!: adv_rules keeps_untouched_advances [OF keeps_status] keeps_untouched_advances [OF keeps_scheduleAt])

lemma run_callback_advances [adv_rules]: "channel_fit D E env \<Longrightarrow> keeps (advances D E) (run_callback env call)"
  unfolding run_callback_def by (intro adv_rules) simp_all

lemma run_hook_advances [adv_rules]: "channel_fit D E env \<Longrightarrow> keeps (advances D E) (run_hook env hook config)"
  unfolding run_hook_def by (auto split: option.splits intro: adv_rules)

text \<open>It never touches a reply.\<close>

definition replies_kept :: "channel_world \<Rightarrow> channel_world \<Rightarrow> bool" where
  "replies_kept w w' \<longleftrightarrow> ig_replies (cw_self w') = ig_replies (cw_self w) \<and> posted_ids w' = posted_ids w"

interpretation rk: step_relation replies_kept
  by unfold_locales (auto simp: replies_kept_def)

lemma keeps_untouched_rk: "keeps untouched m \<Longrightarrow> keeps replies_kept m"
  by (auto simp: keeps_def untouched_def replies_kept_def)

lemma put_delivery_rk: "keeps replies_kept (put_delivery d)"
  by (auto simp: put_delivery_def keeps_def replies_kept_def op_simps)

lemma commit_event_rk: "keeps replies_kept (commit_event env meta event)"
proof (rule rk.keepsI)
  fix w show "replies_kept w (fst (commit_event env meta event w))"
    by (cases rule: commit_event_cases [of w event env meta]) (simp_all add: replies_kept_def after_commit_def posted_ids_def)
qed

named_theorems rk_rules \<open>operations that leave the replies alone\<close>

lemmas [rk_rules] = rk.keeps_rules put_delivery_rk commit_event_rk
lemmas rk_frame [rk_rules] = keeps_untouched_rk [OF keeps_token] keeps_untouched_rk [OF keeps_requires(1)]
  keeps_untouched_rk [OF keeps_requires(2)] keeps_untouched_rk [OF keeps_requires(3)] keeps_untouched_rk [OF keeps_attempt]
  keeps_untouched_rk [OF keeps_next_attempt] keeps_untouched_rk [OF keeps_cancelHostQueue] keeps_untouched_rk [OF keeps_status]
  keeps_untouched_rk [OF keeps_scheduleAt] keeps_untouched_rk [OF keeps_connectorFor] keeps_untouched_rk [OF keeps_openConfig]

lemma emit_rk [rk_rules]: "(\<And>r. e \<noteq> ReplyPosted r) \<Longrightarrow> keeps replies_kept (emit e)"
  by (rule keeps_untouched_rk [OF keeps_emit])

lemma dispatchDelivery_rk [rk_rules]: "keeps replies_kept (dispatchDelivery env ident)"
  unfolding dispatchDelivery_def close_dispatch_def by (auto intro!: rk_rules)

lemma settle_rk [rk_rules]: "keeps replies_kept (settle env org d)"
  unfolding settle_def by (auto intro!: rk_rules)

lemma connector_act_rk [rk_rules]: "keeps replies_kept (connector_act env act)"
  unfolding connector_act_def ingestEvent_def settleConversation_def settle_if_of_def
  by (cases act) (auto split: option.splits ingest_result.splits intro!: rk_rules)

lemma run_callback_rk [rk_rules]: "keeps replies_kept (run_callback env call)"
  unfolding run_callback_def by (intro rk_rules)

section \<open>Reading and replying\<close>

lemma scheduleDelivery_advances:
  assumes "kv_get (ig_deliveries (cw_self w)) i = Some d0" "same_letter d0 d" "dl_status d \<noteq> Dead"
  shows "advances D E w (fst (scheduleDelivery env d w))"
proof (cases "armRedelivery (ch_now env) d")
  case (Inr armed)
  then have a: "same_letter d0 armed" "dl_status armed \<noteq> Dead"
    using armRedelivery_letter [of _ d armed] assms by (auto intro: same_letter_trans)
  have "advances D E w (fst (then_op (put_delivery armed) (then_op (schedule_next_attempt env armed) (return_op armed)) w))"
    by (intro adv.then_at put_read_delivery [OF assms(1) a] untouched_at frame_rules)
  then show ?thesis by (simp add: scheduleDelivery_def run_reads Inr)
qed (simp add: scheduleDelivery_def run_reads adv.refl)

lemma put_delivery_run: "put_delivery d w = (w', Inr u) \<Longrightarrow> kv_get (ig_deliveries (cw_self w')) (dl_id d) = Some d"
  by (auto simp: put_delivery_def op_simps store_simps)

lemma record_read_advances:
  assumes "kv_get (ig_deliveries (cw_self w)) i = Some d" "dl_status d \<noteq> Dead"
  shows "advances D E w (fst (record_read env d w))"
proof -
  let ?d = "d\<lparr>dl_readAt := Some (ch_now env), dl_status := Read\<rparr>"
  have "advances D E w (fst (then_op (put_delivery ?d) (then_op (emit (DeliveryWrite ?d)) (scheduleDelivery env ?d)) w))"
  proof (rule adv.then_at)
    fix u w1 assume w1: "put_delivery ?d w = (w1, Inr u)"
    show "advances D E w1 (fst (then_op (emit (DeliveryWrite ?d)) (scheduleDelivery env ?d) w1))"
    proof (rule adv.then_at)
      fix u' w2 assume w2: "emit (DeliveryWrite ?d) w1 = (w2, Inr u')"
      have "kv_get (ig_deliveries (cw_self w2)) (dl_id ?d) = Some ?d"
        using put_delivery_run [OF w1] untouchedD [OF keeps_emit w2] by (simp add: untouched_def)
      then show "advances D E w2 (fst (scheduleDelivery env ?d w2))" by (rule scheduleDelivery_advances) simp_all
    qed (auto intro: untouched_at keeps_emit)
  qed (rule put_read_delivery [OF assms(1)], simp_all add: same_letter_def)
  then show ?thesis by (simp add: record_read_def op_simps adv.refl Let_def)
qed

lemma bind_record_read:
  assumes "channel_wf D E w" "kv_get (ig_deliveries (cw_self w)) i = Some d" "\<And>d'. keeps untouched (f d')"
  shows "advances D E w (fst (bind_op (record_read env d) f w))"
  by (rule adv.bind_at, rule record_read_advances [OF assms(2)])
     (use channel_wf_key [OF assms(1,2)] untouched_at [OF assms(3)] in auto)

lemma readMessage_advances [adv_rules]: "keeps (advances D E) (readMessage env ident caller)"
  by (rule adv.keepsI, rule advancesI)
     (auto simp: readMessage_def run_reads run_owner adv.refl split: option.splits sum.splits
        intro!: bind_record_read frame_rules)

lemma readMessageV2_advances [adv_rules]: "keeps (advances D E) (readMessageV2 env ident caller)"
  unfolding readMessageV2_def
  by (intro adv_rules keeps_untouched_advances) (auto simp: Let_def intro!: frame_rules)

lemma postRecordedReply_run:
  "postRecordedReply env meta event d r w =
     (case ch_connectors env (im_connector meta) of None \<Rightarrow> (w, Inl (js ''unknown connector: '' @ im_connector meta))
      | Some connector \<Rightarrow>
     (case ch_open env (im_configEnc meta) of Inl e \<Rightarrow> (w, Inl e)
      | Inr config \<Rightarrow>
     (case run_callback env (cn_postReply connector config (request_of event d r)) w of
        (w1, Inl e) \<Rightarrow> (w1\<lparr>cw_out := cw_out w1 @ [ReplyRefused (request_of event d r) e]\<rparr>, Inl e)
      | (w1, Inr _) \<Rightarrow> then_op (emit (ReplyWrite (posted env r))) (then_op (emit (DeliveryWrite (settled env d)))
            (cancelHostQueue env (settled env d) (im_org meta)))
          (after_post (request_of event d r) (posted env r) (settled env d) w1))))"
  unfolding postRecordedReply_def run_reads Let_def
  by (auto simp: then_op_def bind_op_def try_op_def run_simps run_emit put_reply_def put_delivery_def run_self_op after_post_def
      posted_def settled_def split: option.splits sum.splits prod.splits)

lemma cancelHostQueue_returns: "\<exists>w'. cancelHostQueue env d org w = (w', Inr ())"
  unfolding cancelHostQueue_def
  by (cases "bind_op (lift_op (thrown (parseAddress (dl_targetAddr d)))) (\<lambda>a.
       case a of
         AgentAddress name host organization address \<Rightarrow> cancel_at_hub env (hub_name org host) (dl_id d)
       | RoomAddress room organization address \<Rightarrow> cancel_at_room env (room_name org room) (dl_id d)) w")
     (auto simp: try_op_def op_simps split: sum.splits)

lemma unposted_rk: "replies_kept w w' \<Longrightarrow> unposted (cw_self w') i \<longleftrightarrow> unposted (cw_self w) i"
  by (simp add: replies_kept_def unposted_def)

text \<open>Posting a reply that is not posted yet: either it throws, and the replies are as before, or it is out.\<close>

lemma postRecordedReply_cases:
  assumes "postRecordedReply env meta event d r w = (w', res)" "channel_fit D E env" "held d w" "channel_wf D E w"
    "rp_deliveryId r = dl_id d" "unposted (cw_self w) (dl_id d)"
  obtains (threw) e where "res = Inl e" "replies_kept w w'" "advances D E w w'"
  | (sent) "res = Inr ()" "advances D E w w'" "\<not> unposted (cw_self w') (dl_id d)"
      "\<And>i. i \<noteq> dl_id d \<Longrightarrow> kv_get (ig_replies (cw_self w')) i = kv_get (ig_replies (cw_self w)) i"
      "posted_ids w' = posted_ids w @ [dl_id d]"
proof (cases "\<exists>connector config. ch_connectors env (im_connector meta) = Some connector \<and> ch_open env (im_configEnc meta) = Inr config")
  case False
  then have "w' = w \<and> (\<exists>e. res = Inl e)"
    using assms(1) unfolding postRecordedReply_run by (auto split: option.splits sum.splits)
  then show thesis using threw adv.refl rk.refl by blast
next
  case True
  then obtain connector config where c: "ch_connectors env (im_connector meta) = Some connector" "ch_open env (im_configEnc meta) = Inr config"
    by blast
  let ?req = "request_of event d r" and ?call = "cn_postReply connector config (request_of event d r)"
  obtain w1 res1 where w1: "run_callback env ?call w = (w1, res1)" by fastforce
  have a1: "advances D E w w1" and k1: "replies_kept w w1"
    using run_callback_advances [OF assms(2)] run_callback_rk w1 by (metis fst_conv keeps_def)+
  have h1: "held d w1" using held_advances [OF a1 assms(4,3)] .
  show thesis
  proof (cases res1)
    case (Inl e)
    have "replies_kept w1 w' \<and> untouched w1 w'" "res = Inl e"
      using assms(1) unfolding postRecordedReply_run c by (auto simp: w1 Inl replies_kept_def untouched_def posted_ids_emit)
    then show thesis using threw a1 k1 adv.trans rk.trans untouched_advances by metis
  next
    case (Inr u)
    let ?w2 = "after_post ?req (posted env r) (settled env d) w1"
    obtain d1 where d1: "kv_get (ig_deliveries (cw_self w1)) (dl_id d) = Some d1" "same_letter d d1"
      using h1 by (auto simp: held_def)
    have a2: "advances D E w1 ?w2"
      by (rule after_post_advances [where d = d1])
        (use d1 assms(2,5,6) unposted_rk [OF k1] in
          \<open>auto simp: settled_def posted_def request_of_def same_letter_def some_time_def channel_fit_def\<close>)
    let ?rest = "then_op (emit (ReplyWrite (posted env r))) (then_op (emit (DeliveryWrite (settled env d)))
            (cancelHostQueue env (settled env d) (im_org meta)))"
    have w': "(w', res) = ?rest ?w2" using assms(1) unfolding postRecordedReply_run c by (simp add: w1 Inr)
    have "keeps untouched ?rest" by (intro frame_rules) simp_all
    then have u: "untouched ?w2 w'" using w' by (metis fst_conv keeps_def)
    have "res = Inr ()" using w' cancelHostQueue_returns by (simp add: op_simps then_op_def bind_op_def run_emit) (metis snd_conv)
    moreover have "advances D E w w'" using a1 a2 untouched_advances [OF u] adv.trans by blast
    moreover have "ig_replies (cw_self w') = kv_put (dl_id d) (posted env r) (ig_replies (cw_self w))"
      "posted_ids w' = posted_ids w @ [dl_id d]"
      using u k1 assms(5) by (simp_all add: untouched_def after_post_def replies_kept_def posted_def posted_ids_def
          List.map_filter_def request_of_def)
    ultimately show thesis using sent assms(2)
      by (simp add: store_simps unposted_def posted_def some_time_def channel_fit_def)
  qed
qed

lemma run_canReply: "then_op (canReply env meta event) m w =
    (case snd (canReply env meta event w) of Inl e \<Rightarrow> (w, Inl e) | Inr _ \<Rightarrow> m w)"
proof -
  have "fst (canReply env meta event w) = w"
    unfolding canReply_def by (auto simp: run_reads run_simps split: option.splits sum.splits)
  then show ?thesis by (cases "canReply env meta event w") (auto simp: op_defs split: sum.splits)
qed

text \<open>A new reply is stored and its delivery marked.\<close>

definition after_open :: "reply_record \<Rightarrow> delivery_record \<Rightarrow> channel_world \<Rightarrow> channel_world" where
  "after_open r d w = fst (put_delivery d (fst (put_reply r w)))\<lparr>cw_out := cw_out w @ [ReplyWrite r, DeliveryWrite d]\<rparr>"

lemma run_open: "then_op (put_reply r) (then_op (put_delivery d) (then_op (emit (ReplyWrite r)) (then_op (emit (DeliveryWrite d))
    (return_op x)))) w = (after_open r d w, Inr x)"
  by (simp add: then_op_def bind_op_def run_simps run_emit put_reply_def put_delivery_def run_self_op after_open_def)

lemma after_open_untouched: "untouched (fst (put_delivery d (fst (put_reply r w)))) (after_open r d w)"
  by (simp add: after_open_def untouched_def put_reply_def put_delivery_def run_self_op posted_ids_def List.map_filter_def)

lemma after_open_advances:
  assumes "kv_get (ig_deliveries (cw_self w)) (dl_id d') = Some d" "same_letter d d'" "dl_status d' \<noteq> Dead"
    "rp_deliveryId r = dl_id d'" "unposted (cw_self w) (dl_id d')"
  shows "advances D E w (after_open r d' w)"
proof -
  have "advances D E w (fst (put_reply r w))" by (rule put_reply_advances) (simp_all add: assms)
  moreover have "advances D E (fst (put_reply r w)) (fst (put_delivery d' (fst (put_reply r w))))"
    by (rule put_delivery_advances [OF _ assms(2,3)]) (simp add: put_reply_def run_self_op assms(1))
  ultimately show ?thesis using untouched_advances [OF after_open_untouched] adv.trans by blast
qed

lemma chatReply_open_cases:
  assumes "chatReply_open env inp w = (w', res)" "channel_wf D E w" "kv_get (ig_replies (cw_self w)) (ri_deliveryId inp) = None"
  obtains (threw) e where "res = Inl e" "w' = w"
  | (opened) meta event d reply where "res = Inr (meta, event, d, reply)" "advances D E w w'" "held d w'"
      "rp_deliveryId reply = dl_id d" "unposted (cw_self w') (dl_id d)" "w' = after_open reply d w"
      "rp_postedAt reply = None" "rp_nextAttemptAt reply = Some (ch_now env)" "ig_meta (cw_self w) = Some meta" "dl_id d = ri_deliveryId inp"
      "kv_get (ig_events (cw_self w)) (dl_eventId d) = Some event"
proof (cases res)
  case (Inl e)
  then have "w' = w" using assms(1) unfolding chatReply_open_def run_reads
    by (auto simp: run_reads run_owner run_canReply run_open run_simps Let_def split: option.splits sum.splits if_splits)
  then show thesis using Inl threw by blast
next
  case (Inr a)
  then obtain meta event d where d: "kv_get (ig_deliveries (cw_self w)) (ri_deliveryId inp) = Some d"
    and m: "ig_meta (cw_self w) = Some meta" "kv_get (ig_events (cw_self w)) (dl_eventId d) = Some event"
    and go: "let reply = \<lparr>rp_deliveryId = dl_id d, rp_conversationId = ev_conversationId event, rp_caller = ri_caller inp,
              rp_message = ri_message inp, rp_replyMode = truthy (ri_replyMode inp), rp_createdAt = ch_now env,
              rp_postedAt = None, rp_postError = None, rp_nextAttemptAt = Some (ch_now env)\<rparr>;
            d1 = d\<lparr>dl_status := Replied, dl_nextAttemptAt := None\<rparr>
        in w' = after_open reply d1 w \<and> res = Inr (meta, event, d1, reply)"
    using assms(1) unfolding chatReply_open_def run_reads
    by (auto simp: run_reads run_owner run_canReply run_open run_simps Let_def split: option.splits sum.splits if_splits)
  let ?d = "d\<lparr>dl_status := Replied, dl_nextAttemptAt := None\<rparr>"
  have i: "dl_id d = ri_deliveryId inp" using channel_wf_key [OF assms(2) d] by simp
  obtain reply where r: "w' = after_open reply ?d w" "res = Inr (meta, event, ?d, reply)" "rp_deliveryId reply = dl_id d" "rp_postedAt reply = None"
    "rp_nextAttemptAt reply = Some (ch_now env)"
    using go by (simp add: Let_def)
  have "advances D E w (after_open reply ?d w)"
    by (rule after_open_advances [where d = d]) (use i d r(3) assms(3) in \<open>simp_all add: same_letter_def unposted_def\<close>)
  then show thesis using r m i by (intro opened [of meta event ?d reply])
    (simp_all add: held_def unposted_def some_time_def after_open_def put_reply_def put_delivery_def run_self_op store_simps)
qed

lemma retry_put_advances:
  assumes "replies_kept w w'" "advances D E w w'" "channel_wf D E w" "held d w" "rp_deliveryId r = dl_id d" "unposted (cw_self w) (dl_id d)"
  shows "advances D E w' (fst (put_reply r w'))"
  using held_advances [OF assms(2,3,4)] unposted_rk [OF assms(1)] assms(5,6)
  by (intro put_reply_advances) (auto simp: held_def)

lemma chatReply_advances [adv_rules]:
  assumes fit: "channel_fit D E env"
  shows "keeps (advances D E) (chatReply env inp)"
proof (rule adv.keepsI, rule advancesI)
  fix w assume wf: "channel_wf D E w"
  show "advances D E w (fst (chatReply env inp w))"
  proof (cases "kv_get (ig_replies (cw_self w)) (ri_deliveryId inp)")
    case None
    have post: "advances D E w (fst (bind_op (chatReply_open env inp) (\<lambda>(meta, event, d, reply). chatReply_post env meta event d reply) w))"
    proof (rule adv.bind_at)
      show "advances D E w (fst (chatReply_open env inp w))"
        by (rule chatReply_open_cases [OF _ wf None, of env "fst (chatReply_open env inp w)" "snd (chatReply_open env inp w)"])
           (simp_all add: adv.refl)
      fix a w1 assume w1: "chatReply_open env inp w = (w1, Inr a)"
      from w1 wf None obtain meta event d reply where o: "a = (meta, event, d, reply)" "advances D E w w1" "held d w1"
        "rp_deliveryId reply = dl_id d" "unposted (cw_self w1) (dl_id d)"
        by (cases rule: chatReply_open_cases) auto
      have wf1: "channel_wf D E w1" using advancesD(1) [OF o(2) wf] .
      have "advances D E w1 (fst (chatReply_post env meta event d reply w1))"
        unfolding chatReply_post_def
      proof (rule adv.try_at)
        show "advances D E w1 (fst (then_op (postRecordedReply env meta event d reply)
         (return_op \<lparr>cr_handled = True, cr_duplicate = False, cr_message = rp_message reply, cr_postError = None\<rparr>) w1))"
          by (rule adv.then_at, rule postRecordedReply_cases [OF surjective_pairing fit o(3) wf1 o(4,5)])
             (simp_all add: run_simps adv.refl)
        fix e w2 assume w2: "then_op (postRecordedReply env meta event d reply)
         (return_op \<lparr>cr_handled = True, cr_duplicate = False, cr_message = rp_message reply, cr_postError = None\<rparr>) w1 = (w2, Inl e)"
        then have "postRecordedReply env meta event d reply w1 = (w2, Inl e)"
          by (auto elim: then_op_cases simp: run_simps)
        then have "replies_kept w1 w2 \<and> advances D E w1 w2"
          by (rule postRecordedReply_cases [OF _ fit o(3) wf1 o(4,5)]) auto
        then show "advances D E w2 (fst (then_op (put_reply (delayed env e reply))
         (then_op (scheduleAt env (ch_now env + REPLY_RETRY_MS))
         (then_op (emit (ReplyWrite (delayed env e reply)))
           (return_op \<lparr>cr_handled = False, cr_duplicate = False, cr_message = rp_message reply, cr_postError = Some e\<rparr>))) w2))"
          by (intro adv.then_at retry_put_advances [OF _ _ wf1 o(3) _ o(5)] untouched_at frame_rules) (simp_all add: delayed_def o(4))
      qed
      then show "advances D E w1 (fst ((case a of (meta, event, d, reply) \<Rightarrow> chatReply_post env meta event d reply) w1))"
        by (simp add: o(1))
    qed
    then show ?thesis by (simp add: chatReply_def run_reads None)
  qed (simp add: chatReply_def run_reads adv.refl run_simps)
qed

end
