(* ===== verification/Channel_Invariant.thy ===== *)
theory Channel_Invariant
  imports Channel_Progress
begin

text \<open>
  The operations of the object as a whole, the requests it serves and the worlds it reaches by them.
\<close>

section \<open>The alarm, polling and configuration\<close>

lemma retry_reply_advances:
  assumes "channel_fit D E env" "channel_wf D E w" "kv_get (ig_replies (cw_self w)) (rp_deliveryId r) = Some r"
  shows "advances D E w (fst (retry_reply env meta r w))"
    and "i \<noteq> rp_deliveryId r \<Longrightarrow> kv_get (ig_replies (cw_self (fst (retry_reply env meta r w)))) i = kv_get (ig_replies (cw_self w)) i"
proof -
  let ?go = "\<lambda>d event. try_op (postRecordedReply env meta event d r)
          (\<lambda>e. then_op (put_reply (delayed env e r)) (emit (ReplyWrite (delayed env e r))))"
  let ?w' = "fst (retry_reply env meta r w)"
  have "advances D E w ?w' \<and> (\<forall>i. i \<noteq> rp_deliveryId r \<longrightarrow> kv_get (ig_replies (cw_self ?w')) i = kv_get (ig_replies (cw_self w)) i)"
  proof (cases "\<exists>d event. retry_reply env meta r w = ?go d event w \<and> kv_get (ig_deliveries (cw_self w)) (rp_deliveryId r) = Some d \<and>
      \<not> some_time (rp_postedAt r)")
    case False
    then have "?w' = w" by (auto simp: retry_reply_def run_reads run_simps split: option.splits)
    then show ?thesis by (simp add: adv.refl)
  next
    case True
    then obtain d event where d: "retry_reply env meta r w = ?go d event w" "kv_get (ig_deliveries (cw_self w)) (rp_deliveryId r) = Some d"
      "\<not> some_time (rp_postedAt r)" by blast
    have id: "rp_deliveryId r = dl_id d" using channel_wf_key [OF assms(2) d(2)] by simp
    have un: "unposted (cw_self w) (dl_id d)" using d(3) assms(3) id by (simp add: unposted_def)
    have h: "held d w" using held_found [OF assms(2) d(2)] .
    obtain w1 res where w1: "postRecordedReply env meta event d r w = (w1, res)" by fastforce
    from w1 assms(1) h assms(2) id un show ?thesis
    proof (cases rule: postRecordedReply_cases)
      case (threw e)
      have "advances D E w1 (fst (then_op (put_reply (delayed env e r)) (emit (ReplyWrite (delayed env e r))) w1))"
        by (intro adv.then_at retry_put_advances [OF threw(2,3) assms(2) h _ un] untouched_at frame_rules) (simp_all add: delayed_def id)
      moreover have "kv_get (ig_replies (cw_self (fst (then_op (put_reply (delayed env e r)) (emit (ReplyWrite (delayed env e r))) w1)))) i
          = kv_get (ig_replies (cw_self w)) i" if "i \<noteq> rp_deliveryId r" for i
        using that threw(2) by (simp add: then_op_def bind_op_def put_reply_def run_self_op run_emit delayed_def store_simps replies_kept_def)
      ultimately show ?thesis unfolding d(1) using adv.trans [OF threw(3)] by (simp add: try_op_def w1 threw(1))
    next
      case sent
      then show ?thesis unfolding d(1) using id by (simp add: try_op_def w1)
    qed
  qed
  then show "advances D E w ?w'"
    and "i \<noteq> rp_deliveryId r \<Longrightarrow> kv_get (ig_replies (cw_self ?w')) i = kv_get (ig_replies (cw_self w)) i" by simp_all
qed

text \<open>Going through the replies, for any step relation a single retry keeps.\<close>

lemma retryReplies_by:
  assumes R: "step_relation R" and adv: "\<And>w w'. R w w' \<Longrightarrow> advances D E w w'" and fit: "channel_fit D E env"
    and one: "\<And>w r. channel_wf D E w \<Longrightarrow> kv_get (ig_replies (cw_self w)) (rp_deliveryId r) = Some r \<Longrightarrow>
      R w (fst (retry_reply env meta r w))"
    and wf: "channel_wf D E w"
  shows "R w (fst (retryReplies env meta w))"
proof -
  have each: "R w (fst (each_op (retry_reply env meta) rs w))"
    if "distinct (map rp_deliveryId rs)" "\<And>r. r \<in> set rs \<Longrightarrow> kv_get (ig_replies (cw_self w)) (rp_deliveryId r) = Some r" "channel_wf D E w" for rs w
    using that
  proof (induction rs arbitrary: w)
    case (Cons r rs)
    have step: "R w (fst (retry_reply env meta r w))" using one Cons.prems(2,3) by simp
    show ?case unfolding each_op.simps
    proof (rule step_relation.then_at [OF R], rule step)
      fix u s1 assume s1: "retry_reply env meta r w = (s1, Inr u)"
      have "kv_get (ig_replies (cw_self s1)) (rp_deliveryId x) = Some x" if "x \<in> set rs" for x
      proof -
        have "rp_deliveryId x \<noteq> rp_deliveryId r" using Cons.prems(1) that by (metis distinct.simps(2) image_eqI list.set_map list.simps(9))
        moreover have "kv_get (ig_replies (cw_self w)) (rp_deliveryId r) = Some r" "kv_get (ig_replies (cw_self w)) (rp_deliveryId x) = Some x"
          using Cons.prems(2) that by simp_all
        ultimately show ?thesis using retry_reply_advances(2) [OF fit Cons.prems(3)] s1 by (metis fst_conv)
      qed
      then show "R s1 (fst (each_op (retry_reply env meta) rs s1))"
        using Cons.IH [of s1] Cons.prems(1) advancesD(1) [OF adv [OF step] Cons.prems(3)] s1 by simp
    qed
  qed (simp add: run_simps step_relation.refl [OF R])
  have rs: "kv_ok (ig_replies (cw_self w))"
    "\<And>i r. (i, r) \<in> set (ig_replies (cw_self w)) \<Longrightarrow> rp_deliveryId r = i \<and> kv_get (ig_replies (cw_self w)) i = Some r"
    using wf by (simp_all add: channel_wf_def replies_wf_def kv_ok_mem_iff)
  have "map rp_deliveryId (map snd (ig_replies (cw_self w))) = map fst (ig_replies (cw_self w))" using rs(2) by auto
  then have "distinct (map rp_deliveryId (map snd (ig_replies (cw_self w))))" using kv_ok_distinct [OF rs(1)] by metis
  then have "R w (fst (each_op (retry_reply env meta) (map snd (ig_replies (cw_self w))) w))"
    by (rule each) (use rs(2) wf in auto)
  then show ?thesis by (simp add: retryReplies_def run_reads)
qed

lemma retryReplies_advances [adv_rules]:
  assumes "channel_fit D E env"
  shows "keeps (advances D E) (retryReplies env meta)"
  by (rule adv.keepsI, rule advancesI, rule retryReplies_by [OF adv.step_relation_axioms])
     (simp_all add: assms retry_reply_advances(1))

lemma dispatchDue_advances [adv_rules]: "keeps (advances D E) (dispatchDue env)"
  unfolding dispatchDue_def by (intro adv_rules)

lemma pollOnce_by:
  assumes R: "step_relation R" and status: "\<And>e s x. keeps R (setConnectorStatus e s x)"
    and call: "\<And>t (c :: (bool \<times> int option) callback). ch_now env \<le> t \<Longrightarrow> keeps R (run_callback (later t env) c)"
  shows "R w (fst (pollOnce env meta connector n p w))"
proof -
  have "R w (fst (setConnectorStatus e s x w'))" if "R w w'" for e s x w'
    using step_relation.trans [OF R that] status by (simp add: keeps_def)
  moreover have "R w (fst (run_callback (later (ch_now env + int took) env) c w))"
    for took :: nat and c :: "(bool \<times> int option) callback"
    using call by (simp add: keeps_def)
  ultimately show ?thesis
    by (auto simp: pollOnce_def poll_failed_def Let_def step_relation.refl [OF R] split: option.splits sum.splits prod.splits) (metis fst_conv)+
qed

lemma poll_cycles_by:
  assumes R: "step_relation R" and status: "\<And>e s x. keeps R (setConnectorStatus e s x)"
    and call: "\<And>t (c :: (bool \<times> int option) callback). t0 \<le> t \<Longrightarrow> keeps R (run_callback (later t env) c)"
    and "t0 \<le> t"
  shows "R w (fst (poll_cycles env meta connector windowEnd t n quiet p w)) \<and>
     t \<le> fst (snd (poll_cycles env meta connector windowEnd t n quiet p w))"
  using assms(4) call
proof (induction env meta connector windowEnd t n quiet p w rule: poll_cycles.induct)
  case (1 env meta connector windowEnd t n quiet p w)
  obtain w1 t1 act p1 where o: "pollOnce (later t env) meta connector n p w = (w1, t1, act, p1)" by (metis prod_cases4)
  have "keeps R (run_callback (later t' (later t env)) c)" if "t \<le> t'" for t' and c :: "(bool \<times> int option) callback"
    using 1(3) [of t' c] 1(2) that by (simp add: later_def)
  then have a: "R w w1"
    using pollOnce_by [OF R status, of "later t env" w meta connector n p] unfolding o by (simp add: later_def)
  have t: "t \<le> t1" using pollOnce_time [of "later t env" meta connector n p w] unfolding o by (simp add: later_def)
  define p2 where "p2 = (if act then p1\<lparr>po_lastActivityAt := t1\<rparr> else p1)"
  define iv where "iv = pollInterval p2 t1"
  define q where "q = (if act then 0 else quiet + 1)"
  have iv: "0 < iv" using pollInterval_pos [of p2 t1] by (simp add: iv_def)
  note step = poll_cycles.simps [of env meta connector windowEnd t n quiet p w]
  show ?case
  proof (cases "t < po_backoffUntil p")
    case True then show ?thesis by (simp add: step step_relation.refl [OF R])
  next
    case False
    show ?thesis
    proof (cases "POLL_QUIET_EXIT_CYCLES \<le> q \<or> POLL_BURST_MS < iv \<or> t1 < po_backoffUntil p2 \<or> windowEnd \<le> t1 + iv")
      case True
      then show ?thesis using False a t
        by (simp add: step o Let_def p2_def [symmetric] q_def [symmetric] iv_def [symmetric])
    next
      case stay: False
      have eq: "poll_cycles env meta connector windowEnd t n quiet p w = poll_cycles env meta connector windowEnd (t1 + iv) (n + 1) q p2 w1"
        using False stay by (simp add: step o Let_def p2_def [symmetric] q_def [symmetric] iv_def [symmetric])
      have "t0 \<le> t1 + iv" using 1(2) t iv by linarith
      note IH = 1(1) [OF False refl o [symmetric] refl refl p2_def q_def iv_def stay this 1(3)]
      show ?thesis unfolding eq using step_relation.trans [OF R a conjunct1 [OF IH]] conjunct2 [OF IH] t iv by simp
    qed
  qed
qed

lemma runPollWindow_by:
  assumes R: "step_relation R" and status: "\<And>e s x. keeps R (setConnectorStatus e s x)"
    and call: "\<And>t (c :: (bool \<times> int option) callback). ch_now env \<le> t \<Longrightarrow> keeps R (run_callback (later t env) c)"
    and rest: "\<And>e t. keeps R (scheduleAt e t)" "\<And>p. keeps R (self_op (\<lambda>st. st\<lparr>ig_poll := Some p\<rparr>))"
  shows "keeps R (runPollWindow env meta connector)"
proof (rule step_relation.keepsI [OF R])
  fix w
  obtain w1 t n p where c: "poll_cycles env meta connector (ch_now env + POLL_BURST_WINDOW_MS) (ch_now env) 0 0
      (pollState (cw_self w)) w = (w1, t, n, p)" by (metis prod_cases4)
  have "R w (fst (poll_cycles env meta connector (ch_now env + POLL_BURST_WINDOW_MS) (ch_now env) 0 0 (pollState (cw_self w)) w)) \<and>
      ch_now env \<le> fst (snd (poll_cycles env meta connector (ch_now env + POLL_BURST_WINDOW_MS) (ch_now env) 0 0 (pollState (cw_self w)) w))"
    by (rule poll_cycles_by [OF R status call order_refl])
  then have "R w w1" unfolding c by simp
  moreover have "keeps R (then_op (self_op (\<lambda>st. st\<lparr>ig_poll := Some p\<rparr>))
          (then_op (scheduleAt (later t env) (max (po_backoffUntil p) (t + pollInterval p t))) (return_op t)))"
    by (intro step_relation.keeps_then [OF R] step_relation.keeps_return [OF R] rest)
  ultimately show "R w (fst (runPollWindow env meta connector w))"
    unfolding runPollWindow_def c by (simp add: keeps_def step_relation.trans [OF R])
qed

lemma runPollWindow_advances [adv_rules]:
  assumes "channel_fit D E env"
  shows "keeps (advances D E) (runPollWindow env meta connector)"
  by (rule runPollWindow_by [OF adv.step_relation_axioms keeps_untouched_advances [OF keeps_status]],
      rule run_callback_advances, rule fit_later [OF assms])
    (use assms in \<open>auto simp: channel_fit_def intro!: keeps_untouched_advances frame_rules\<close>)

lemmas adv_frame = keeps_untouched_advances [OF keeps_status] keeps_untouched_advances [OF keeps_scheduleAt]
  keeps_untouched_advances [OF keeps_requires(1)] keeps_untouched_advances [OF keeps_requires(2)]
  keeps_untouched_advances [OF keeps_requires(3)] keeps_untouched_advances [OF keeps_connectorFor]
  keeps_untouched_advances [OF keeps_openConfig] keeps_untouched_advances [OF keeps_emit]
  keeps_untouched_advances [OF keeps_health(1)] keeps_untouched_advances [OF keeps_health(2)]
  keeps_untouched_advances [OF keeps_health(3)] keeps_untouched_advances [OF keeps_health(4)]
  keeps_untouched_advances [OF keeps_health(5)] keeps_untouched_advances [OF keeps_self]

lemma integration_alarm_advances [adv_rules]:
  "channel_fit D E env \<Longrightarrow> keeps (advances D E) (integration_alarm env)"
  unfolding integration_alarm_def by (auto split: option.splits intro!: adv_rules adv_frame)

lemma integration_configure_advances [adv_rules]:
  "channel_fit D E env \<Longrightarrow> keeps (advances D E) (integration_configure env inp)"
  unfolding integration_configure_def
  by (auto simp: Let_def split: option.splits prod.splits intro!: adv_rules adv_frame)

lemma integration_pause_advances [adv_rules]:
  "channel_fit D E env \<Longrightarrow> keeps (advances D E) (integration_pause env paused)"
  unfolding integration_pause_def by (auto intro!: adv_rules adv_frame)

lemma integration_requeue_advances [adv_rules]: "keeps (advances D E) (integration_requeue env ident)"
  by (rule adv.keepsI, rule advancesI)
     (auto simp: integration_requeue_def run_reads run_simps adv.refl split: option.splits dest: channel_wf_key)

lemma integration_webhook_advances [adv_rules]:
  "channel_fit D E env \<Longrightarrow> keeps (advances D E) (integration_webhook env request)"
  unfolding integration_webhook_def by (auto split: option.splits intro!: adv_rules adv_frame)

lemma attachment_fetch_advances [adv_rules]: "keeps (advances D E) (attachment_fetch env b i index)"
  unfolding attachment_fetch_def
  by (auto simp: Let_def split: option.splits prod.splits intro!: adv_rules adv_frame)


section \<open>Requests and reachable worlds\<close>

datatype channel_request =
  Configure configure_input
| Detail
| Ingest connector_event
| Webhook_call jstr
| ReadV1 jstr jstr
| ReadV2 jstr jstr
| Fetch bool "jstr option" "int option"
| Reply reply_input
| Injected jstr jstr jstr
| Handle jstr jstr
| OperatorHandle jstr
| SettleConversation jstr
| Pause bool
| Requeue jstr
| Alarm

definition done_op :: "'a channel_op \<Rightarrow> channel_world \<Rightarrow> channel_world" where
  "done_op m w = fst (m w)"

fun serve :: "channel_env \<Rightarrow> channel_request \<Rightarrow> channel_world \<Rightarrow> channel_world" where
  "serve env (Configure inp) = done_op (integration_configure env inp)"
| "serve env Detail = done_op (integration_detail_of env)"
| "serve env (Ingest event) = done_op (ingestEvent env event)"
| "serve env (Webhook_call request) = done_op (integration_webhook env request)"
| "serve env (ReadV1 ident caller) = done_op (readMessage env ident caller)"
| "serve env (ReadV2 ident caller) = done_op (readMessageV2 env ident caller)"
| "serve env (Fetch b ident index) = done_op (attachment_fetch env b ident index)"
| "serve env (Reply inp) = done_op (chatReply env inp)"
| "serve env (Injected ident target via) = done_op (recordInjection env ident target via)"
| "serve env (Handle ident caller) = done_op (markHandled env ident caller)"
| "serve env (OperatorHandle ident) = done_op (operatorMarkHandled env ident)"
| "serve env (SettleConversation conversation) = done_op (settleConversation env conversation)"
| "serve env (Pause paused) = done_op (integration_pause env paused)"
| "serve env (Requeue ident) = done_op (integration_requeue env ident)"
| "serve env Alarm = done_op (integration_alarm env)"

text \<open>Between requests the rooms and hubs go on, and the object may be evicted from memory.\<close>

inductive channel_reach :: "(nat \<Rightarrow> jstr) \<Rightarrow> (nat \<Rightarrow> jstr) \<Rightarrow> channel_world \<Rightarrow> bool" for D E where
  fresh: "cw_self w = new_integration \<Longrightarrow> cw_out w = [] \<Longrightarrow> channel_reach D E w"
| served: "channel_reach D E w \<Longrightarrow> channel_fit D E env \<Longrightarrow> channel_reach D E (serve env request w)"
| others: "channel_reach D E w \<Longrightarrow> channel_reach D E (w\<lparr>cw_rooms := others, cw_hubs := hs\<rparr>)"
| evicted: "channel_reach D E w \<Longrightarrow> channel_reach D E (w\<lparr>cw_self := (cw_self w)\<lparr>ig_lastStatus := None, ig_pollBudget := None\<rparr>\<rparr>)"

lemma serve_advances:
  assumes "channel_fit D E env"
  shows "advances D E w (serve env request w)"
  using assms by (cases request) (auto simp: done_op_def intro!: adv.keepsD adv_rules adv_frame)

lemma channel_reach_wf: "channel_reach D E w \<Longrightarrow> channel_wf D E w"
proof (induction rule: channel_reach.induct)
  case (fresh w)
  then show ?case
    by (simp add: channel_wf_def new_integration_def deliveries_wf_def keys_wf_def events_wf_def replies_wf_def posted_ids_def List.map_filter_def)
next
  case (served w env request) then show ?case using advancesD(1) [OF serve_advances] by blast
next
  case (others w rs hs)
  then show ?case by (auto simp: untouched_def intro: advancesD(1) [OF untouched_advances])
next
  case (evicted w)
  then show ?case by (auto simp: untouched_def intro: advancesD(1) [OF untouched_advances])
qed

lemma channel_reach_ledger_ok: "channel_reach D E w \<Longrightarrow> ledger_ok (ledger_of w)"
proof (induction rule: channel_reach.induct)
  case (fresh w)
  then have "ledger_of w = empty_ledger"
    by (simp add: ledger_of_def empty_ledger_def new_integration_def posted_ids_def List.map_filter_def)
  then show ?case by (simp add: empty_ledger_ok)
next
  case (served w env request)
  then show ?case using ledger_steps_ok advancesD(2) [OF serve_advances channel_reach_wf] by blast
next
  case (others w rs hs) then show ?case by (simp add: ledger_of_def)
next
  case (evicted w) then show ?case by (simp add: ledger_of_def)
qed

end
