(* ===== verification/Channel_Overlap.thy ===== *)
theory Channel_Overlap
  imports Channel_Invariant Hub_Schedule
begin

text \<open>
  Calls that overlap: while a channel waits for a connector or a hub another request can run, and the
  record written afterwards is the one read before.
\<close>

section \<open>A small channel\<close>

definition echo_connector :: connector where
  "echo_connector = \<lparr>cn_configFields = [], cn_mode = js ''webhook'', cn_start = None, cn_stop = None, cn_wake = None,
     cn_poll = None, cn_webhook = None, cn_canReply = None, cn_postReply = (\<lambda>_ _. ([], Inr ())), cn_fetchAttachment = None\<rparr>"

definition demo_id :: "nat \<Rightarrow> nat \<Rightarrow> jstr" where
  "demo_id c n = replicate (Suc n) (of_nat c)"

lemma inj_demo_id: "inj (demo_id c)"
proof (rule injI)
  fix m n assume "demo_id c m = demo_id c n"
  then have "length (demo_id c m) = length (demo_id c n)" by simp
  then show "m = n" by (simp add: demo_id_def)
qed

definition demo_room_env :: room_env where
  "demo_room_env = \<lparr>rv_db = empty_d1, rv_now = 5000, rv_txId = js ''tx_1'', rv_canAcceptMessage = (\<lambda>_. True),
     rv_unreachable = (\<lambda>_. None), rv_hub = demo_env 5\<rparr>"

definition demo_channel_env :: channel_env where
  "demo_channel_env = \<lparr>ch_now = 5000, ch_eventId = demo_id 101, ch_dlvId = demo_id 100, ch_room = demo_room_env,
     ch_connectors = (\<lambda>_. Some echo_connector), ch_open = (\<lambda>_. Inr []), ch_seal = (\<lambda>_. js ''sealed''),
     ch_sealClaims = (\<lambda>_. []), ch_sha = id, ch_canAccept = (\<lambda>_. True), ch_httpsURL = (\<lambda>_. True), ch_ping = (\<lambda>_. True)\<rparr>"

definition demo_configure :: configure_input where
  "demo_configure = \<lparr>gi_org = js ''org'', gi_id = js ''int_1'', gi_connector = js ''echo'', gi_name = js ''Echo'',
     gi_targetAddr = js ''bob@titan'', gi_config = [], gi_active = None, gi_createdAt = None\<rparr>"

definition demo_event :: connector_event where
  "demo_event = \<lparr>ev_eventKey = js ''k'', ev_conversationId = js ''c'', ev_user = None, ev_trigger = None, ev_content = js ''hi'',
     ev_meta = None, ev_attachments = None\<rparr>"

definition empty_world :: channel_world where
  "empty_world = \<lparr>cw_self = new_integration, cw_rooms = [], cw_hubs = [], cw_out = [], cw_draws = 0\<rparr>"

lemma demo_fit: "channel_fit (demo_id 100) (demo_id 101) demo_channel_env"
  by (simp add: channel_fit_def demo_channel_env_def inj_demo_id)

text \<open>The same channel with an event that waits to be answered.\<close>

definition open_channel :: channel_world where
  "open_channel = empty_world\<lparr>cw_draws := 1, cw_self := new_integration\<lparr>
     ig_meta := Some \<lparr>im_org = js ''org'', im_id = js ''int_1'', im_connector = js ''echo'', im_name = js ''Echo'',
       im_targetAddr = js ''bob@titan'', im_active = True, im_configEnc = js ''sealed'', im_createdAt = 4000\<rparr>,
     ig_keys := [(js ''k'', demo_id 101 0, demo_id 100 0)],
     ig_events := [(demo_id 101 0, \<lparr>ev_eventKey = js ''k'', ev_conversationId = js ''c'', ev_user = None, ev_trigger = None,
       ev_content = js ''hi'', ev_meta = None, ev_attachments = None, se_id = demo_id 101 0, se_integrationId = js ''int_1'',
       se_receivedAt = 4000\<rparr>)],
     ig_deliveries := [(demo_id 100 0, \<lparr>dl_id = demo_id 100 0, dl_eventId = demo_id 101 0, dl_targetAddr = js ''bob@titan'',
       dl_status = Pending, dl_attempts = 0, dl_createdAt = 4000, dl_lastDispatchAt = None, dl_nextAttemptAt = Some 304000,
       dl_readAt = None, dl_injectedAt = None, dl_injectedVia = None, dl_injections = None, dl_settledAt = None,
       dl_lastError = None\<rparr>)]\<rparr>\<rparr>"

definition demo_reply :: reply_input where
  "demo_reply = \<lparr>ri_deliveryId = demo_id 100 0, ri_conversationId = js ''c'', ri_caller = js ''bob@titan'', ri_message = js ''yes'',
     ri_replyMode = None\<rparr>"

lemma open_channel_wf: "channel_wf (demo_id 100) (demo_id 101) open_channel"
  by (auto simp: channel_wf_def deliveries_wf_def keys_wf_def events_wf_def replies_wf_def open_channel_def empty_world_def
      new_integration_def posted_ids_def List.map_filter_def kv_ok_def split: if_splits)

section \<open>An alarm during a reply\<close>

lemma dispatchDue_rk [rk_rules]: "keeps replies_kept (dispatchDue env)"
  unfolding dispatchDue_def by (intro rk_rules)

lemma run_hook_rk [rk_rules]: "keeps replies_kept (run_hook env hook config)"
  unfolding run_hook_def by (auto split: option.splits intro: rk_rules)

lemma postRecordedReply_posts:
  assumes "ch_connectors env (im_connector meta) = Some c" "ch_open env (im_configEnc meta) = Inr config"
    "cn_postReply c config (request_of event d r) = ([], Inr ())"
  obtains w' where "postRecordedReply env meta event d r w = (w', Inr ())" "posted_ids w' = posted_ids w @ [dl_id d]"
proof -
  let ?rest = "then_op (emit (ReplyWrite (posted env r))) (then_op (emit (DeliveryWrite (settled env d)))
            (cancelHostQueue env (settled env d) (im_org meta)))"
  let ?w = "after_post (request_of event d r) (posted env r) (settled env d) w"
  have "run_callback env ([], Inr ()) w = (w, Inr ())" by (simp add: run_callback_def then_op_def bind_op_def run_simps)
  then have run: "postRecordedReply env meta event d r w = ?rest ?w" by (simp add: postRecordedReply_run assms)
  have "keeps untouched ?rest" by (intro frame_rules) simp_all
  then have "posted_ids (fst (?rest ?w)) = posted_ids ?w" by (simp add: keeps_def untouched_def)
  moreover have "posted_ids ?w = posted_ids w @ [dl_id d]"
    by (simp add: after_post_def posted_ids_def List.map_filter_def request_of_def)
  moreover have "snd (?rest ?w) = Inr ()"
    using cancelHostQueue_returns by (simp add: then_op_def bind_op_def run_emit) (metis snd_conv)
  ultimately show thesis using that run by (metis prod.collapse)
qed

text \<open>A reply during whose call of the connector the alarm fires, with whatever outcome.\<close>

definition chatReply_overlapped :: "channel_env \<Rightarrow> reply_input \<Rightarrow> chat_reply_result channel_op" where
  "chatReply_overlapped env inp = bind_op (chatReply_open env inp) (\<lambda>(meta, event, d, reply).
     then_op (try_op (integration_alarm env) (\<lambda>e. return_op ())) (chatReply_post env meta event d reply))"

text \<open>
  C36: a reply can be sent twice. The reply is stored as due at once before the connector is called, so
  an alarm that fires while the call is under way takes it for one to retry, and both calls post it.
\<close>
theorem overlapping_alarm_sends_a_reply_twice:
  assumes "channel_wf D E w" and "ig_replies (cw_self w) = []"
    and "chatReply_open env inp w = (w1, Inr (meta, event, d, reply))" and "im_active meta"
    and "ch_connectors env (im_connector meta) = Some c" and "ch_open env (im_configEnc meta) = Inr config"
    and "\<And>r. cn_postReply c config r = ([], Inr ())" and "cn_poll c = None"
  shows "posted_ids (fst (chatReply_overlapped env inp w)) = posted_ids w @ [dl_id d, dl_id d]"
proof -
  note go = assms(5,6)
  have "kv_get (ig_replies (cw_self w)) (ri_deliveryId inp) = None" by (simp add: assms(2))
  with assms(3,1) have o: "w1 = after_open reply d w" "rp_deliveryId reply = dl_id d" "rp_postedAt reply = None"
    "rp_nextAttemptAt reply = Some (ch_now env)" "ig_meta (cw_self w) = Some meta"
    "kv_get (ig_events (cw_self w)) (dl_eventId d) = Some event"
    by (auto elim!: chatReply_open_cases)
  let ?w1 = "w1\<lparr>cw_self := (cw_self w1)\<lparr>ig_alarm := (ig_alarm (cw_self w1))\<lparr>ab_alarm := None\<rparr>\<rparr>\<rparr>"
  let ?rest = "then_op (dispatchDue env) (then_op (try_op (run_hook env (cn_wake c) config) (\<lambda>e. setConnectorStatus env InError (Some e)))
      (bind_op (return_op (ch_now env)) (\<lambda>t. then_op (reportHealth (later t env) meta config) (scheduleNext (later t env)))))"
  have w1: "ig_meta (cw_self w1) = Some meta" "ig_replies (cw_self w1) = [(dl_id d, reply)]"
    "kv_get (ig_deliveries (cw_self w1)) (dl_id d) = Some d" "kv_get (ig_events (cw_self w1)) (dl_eventId d) = Some event"
    "posted_ids ?w1 = posted_ids w"
    using o(2,5,6) assms(2)
    by (simp_all add: o(1) after_open_def put_reply_def put_delivery_def run_self_op store_simps posted_ids_def List.map_filter_def)
  have alarm: "integration_alarm env w1 = then_op (retryReplies env meta) ?rest ?w1"
    using w1(1) assms(4,5,6,8) by (simp add: integration_alarm_def then_op_def [of "self_op f" for f] bind_op_def [of "self_op f" for f]
        run_self_op run_reads)
  obtain w2 where w2: "postRecordedReply env meta event d reply ?w1 = (w2, Inr ())" "posted_ids w2 = posted_ids w @ [dl_id d]"
    using postRecordedReply_posts [OF go assms(7), of event d reply ?w1] w1(5) by metis
  have "retryReplies env meta ?w1 = (w2, Inr ())"
    using w1(2-4) o(2-4) w2(1)
    by (simp add: retryReplies_def run_reads retry_reply_def some_time_def then_op_def bind_op_def try_op_def run_simps)
      (simp add: requireDelivery_def requireEvent_def need_def op_defs)
  then have "integration_alarm env w1 = ?rest w2" by (simp add: alarm bind_run)
  moreover have "keeps replies_kept ?rest"
    by (intro rk_rules keeps_untouched_rk [OF keeps_health(3)] keeps_untouched_rk [OF keeps_health(4)])
  ultimately have "posted_ids (fst (integration_alarm env w1)) = posted_ids w @ [dl_id d]"
    using w2(2) by (simp add: keeps_def replies_kept_def)
  moreover obtain w3 where w3: "try_op (integration_alarm env) (\<lambda>e. return_op ()) w1 = (w3, Inr ())" "w3 = fst (integration_alarm env w1)"
    by (cases "integration_alarm env w1") (auto simp: try_op_def run_simps split: sum.splits)
  moreover obtain w4 where "postRecordedReply env meta event d reply w3 = (w4, Inr ())" "posted_ids w4 = posted_ids w3 @ [dl_id d]"
    using postRecordedReply_posts [OF go assms(7)] by metis
  ultimately show ?thesis
    by (simp add: chatReply_overlapped_def bind_op_def then_op_def assms(3) chatReply_post_def try_op_def run_simps)
qed

lemma overlapping_alarm_sends_a_reply_twice_witness:
  "posted_ids (fst (chatReply_overlapped demo_channel_env demo_reply open_channel)) = [demo_id 100 0, demo_id 100 0]"
proof -
  have none: "ig_replies (cw_self open_channel) = []" "posted_ids open_channel = []"
    by (simp_all add: open_channel_def empty_world_def new_integration_def posted_ids_def List.map_filter_def)
  have "\<not> isl (snd (chatReply_open demo_channel_env demo_reply open_channel))" by code_simp
  then obtain w1 a where w1: "chatReply_open demo_channel_env demo_reply open_channel = (w1, Inr a)"
    by (metis prod.collapse sum.collapse(2))
  obtain meta event d reply where a: "a = (meta, event, d, reply)"
    and m: "ig_meta (cw_self open_channel) = Some meta" "dl_id d = demo_id 100 0"
    by (rule chatReply_open_cases [OF w1 open_channel_wf]) (auto simp: none(1) demo_reply_def)
  note o = w1 [unfolded a]
  have act: "im_active meta" using m(1) by (auto simp: open_channel_def)
  show ?thesis
    using overlapping_alarm_sends_a_reply_twice [OF open_channel_wf none(1) o act, of echo_connector "[]"] none(2) m(2)
    by (simp add: demo_channel_env_def echo_connector_def)
qed


section \<open>A settlement during a dispatch\<close>

text \<open>An attempt changes nothing in the object itself, and always returns the record to store.\<close>

lemma send_to_target_self: "cw_self (fst (send_to_target env meta event d w)) = cw_self w"
  by (auto simp: send_to_target_def Let_def run_reads call_hub_def call_room_def bind_op_def run_simps
      split: sum.splits transit_address.splits prod.splits option.splits)

lemma attempt_delivery_self:
  obtains d' w' where "attempt_delivery env meta event d w = (w', Inr d')" "cw_self w' = cw_self w"
proof -
  have "cw_self (fst (attempt_delivery env meta event d w)) = cw_self w"
    using send_to_target_self [of env meta event d w]
    by (auto simp: attempt_delivery_def try_op_def then_op_def bind_op_def run_simps split: prod.splits sum.splits)
  moreover have "\<not> isl (snd (attempt_delivery env meta event d w))"
    by (auto simp: attempt_delivery_def try_op_def then_op_def bind_op_def run_simps split: prod.splits sum.splits)
  ultimately show thesis using that by (metis prod.collapse sum.collapse(2))
qed

lemma attempt_delivery_keeps:
  "attempt_delivery env meta event d w = (w', Inr d') \<Longrightarrow> dl_settledAt d' = dl_settledAt d \<and> dl_injectedVia d' = dl_injectedVia d \<and>
     dl_id d' = dl_id d"
  unfolding attempt_delivery_def by (auto elim!: try_op_cases then_op_cases simp: run_simps attempted_def)

lemma operatorMarkHandled_settles:
  assumes "operatorMarkHandled env i w = (w', Inr False)" "channel_wf D E w"
  shows "\<exists>d. kv_get (ig_deliveries (cw_self w')) i = Some d \<and> dl_settledAt d = Some (ch_now env) \<and> dl_status d = Handled"
proof -
  obtain meta :: integration_meta and d where m: "kv_get (ig_deliveries (cw_self w)) i = Some d" "settle env (im_org meta) d w = (w', Inr ())"
    using assms(1) unfolding operatorMarkHandled_def run_reads finishHandled_def
    by (auto simp: run_simps run_reads split: option.splits if_splits elim!: then_op_cases)
  let ?w1 = "fst (put_delivery (settled env d) w)"
  let ?rest = "then_op (emit (DeliveryWrite (settled env d))) (cancelHostQueue env (settled env d) (im_org meta))"
  have "settle env (im_org meta) d w = ?rest ?w1" by (simp add: settle_def bind_run put_delivery_def run_self_op)
  then have "fst (?rest ?w1) = w'" using m(2) by (metis fst_conv)
  moreover have "untouched ?w1 (fst (?rest ?w1))" by (rule same.keepsD, intro frame_rules) simp
  ultimately show ?thesis using channel_wf_key [OF assms(2) m(1)]
    by (simp add: untouched_def put_delivery_def run_self_op store_simps settled_def)
qed

text \<open>
  a settlement can be undone. A dispatch stores the record it read before it called the hub: when
  the delivery is settled while that call is under way, the record is unsettled afterwards and its next
  attempt is scheduled.
\<close>
theorem dispatch_in_flight_undoes_a_settlement:
  assumes "channel_wf D E w1" and "attempt_delivery env meta event d w = (w1, Inr d')"
    and "dl_settledAt d = None" and "dl_injectedVia d = None"
    and "operatorMarkHandled env' (dl_id d) w1 = (w2, Inr False)"
  shows "(\<exists>d2. kv_get (ig_deliveries (cw_self w2)) (dl_id d) = Some d2 \<and> dl_settledAt d2 = Some (ch_now env') \<and> dl_status d2 = Handled) \<and>
    (\<exists>d3. kv_get (ig_deliveries (cw_self (fst (close_dispatch env d' w2)))) (dl_id d) = Some d3 \<and> dl_settledAt d3 = None \<and>
       dl_nextAttemptAt d3 = Some (ch_now env + redeliveryDelay d'))"
proof
  show "\<exists>d2. kv_get (ig_deliveries (cw_self w2)) (dl_id d) = Some d2 \<and> dl_settledAt d2 = Some (ch_now env') \<and> dl_status d2 = Handled"
    using operatorMarkHandled_settles [OF assms(5,1)] .
  note d' = attempt_delivery_keeps [OF assms(2)]
  let ?a = "d'\<lparr>dl_nextAttemptAt := Some (ch_now env + redeliveryDelay d')\<rparr>"
  let ?w3 = "fst (put_delivery ?a w2)" and ?rest = "then_op (emit (DeliveryWrite ?a)) (schedule_next_attempt env ?a)"
  have "armRedelivery (ch_now env) d' = Inr ?a" using d' assms(4) by (simp add: armRedelivery_def sessionHeld_def)
  then have "close_dispatch env d' w2 = ?rest ?w3" by (simp add: close_dispatch_def run_reads bind_run put_delivery_def run_self_op)
  moreover have "untouched ?w3 (fst (?rest ?w3))" by (rule same.keepsD, intro frame_rules) simp
  ultimately have "kv_get (ig_deliveries (cw_self (fst (close_dispatch env d' w2)))) (dl_id d) = Some ?a"
    using d' by (simp add: untouched_def put_delivery_def run_self_op store_simps)
  then show "\<exists>d3. kv_get (ig_deliveries (cw_self (fst (close_dispatch env d' w2)))) (dl_id d) = Some d3 \<and> dl_settledAt d3 = None \<and>
       dl_nextAttemptAt d3 = Some (ch_now env + redeliveryDelay d')"
    using d' assms(3) by simp
qed

lemma settle_returns: "\<exists>w'. settle env org d w = (w', Inr ())"
  using cancelHostQueue_returns by (simp add: settle_def bind_run put_delivery_def run_self_op run_emit)

lemma dispatch_in_flight_undoes_a_settlement_witness:
  defines "d \<equiv> the (kv_get (ig_deliveries (cw_self open_channel)) (demo_id 100 0))"
  shows "\<exists>meta event w1 d' w2 d3. attempt_delivery demo_channel_env meta event d open_channel = (w1, Inr d') \<and>
     operatorMarkHandled demo_channel_env (demo_id 100 0) w1 = (w2, Inr False) \<and>
     kv_get (ig_deliveries (cw_self (fst (close_dispatch demo_channel_env d' w2)))) (demo_id 100 0) = Some d3 \<and> dl_settledAt d3 = None"
proof -
  have d: "kv_get (ig_deliveries (cw_self open_channel)) (demo_id 100 0) = Some d" "dl_settledAt d = None" "dl_injectedVia d = None"
    "dl_id d = demo_id 100 0" by (simp_all add: d_def open_channel_def)
  obtain meta where m: "ig_meta (cw_self open_channel) = Some meta" by (simp add: open_channel_def)
  obtain w1 d' where a: "attempt_delivery demo_channel_env meta undefined d open_channel = (w1, Inr d')" "cw_self w1 = cw_self open_channel"
    by (rule attempt_delivery_self)
  have wf: "channel_wf (demo_id 100) (demo_id 101) w1"
    using advancesD(1) [OF untouched_advances [OF untouchedD [OF keeps_attempt a(1)]] open_channel_wf] .
  obtain w2 where s: "settle demo_channel_env (im_org meta) d w1 = (w2, Inr ())" using settle_returns by blast
  have "operatorMarkHandled demo_channel_env (demo_id 100 0) w1 = (w2, Inr False)"
    by (simp add: operatorMarkHandled_def run_reads a(2) m d finishHandled_def s bind_run run_simps)
  then show ?thesis
    using dispatch_in_flight_undoes_a_settlement [OF wf a(1) d(2,3), of demo_channel_env w2] a(1) d(4) by metis
qed

end
