(* ===== verification/Channel_Schedule.thy ===== *)
theory Channel_Schedule
  imports Channel_Overlap
begin

text \<open>
  When a channel wakes up: the alarm it leaves behind, what a pause loses, the poll window, the
  redelivery delays; and who may act on a delivery.
\<close>

section \<open>The alarm\<close>

text \<open>The alarm comes in time for \<open>t\<close>, or the budget of the hour is spent.\<close>

definition alarm_covers :: "int \<Rightarrow> integration \<Rightarrow> bool" where
  "alarm_covers t st \<longleftrightarrow> (\<exists>a. ab_alarm (ig_alarm st) = Some a \<and> a \<le> t) \<or> alarmBudgetStatus (ig_alarm st) \<noteq> None"

lemma scheduleAt_covers:
  assumes "scheduleAt env t w = (w', Inr ())"
  shows "alarm_covers t (cw_self w')"
  using assms unfolding scheduleAt_def run_reads
  by (auto simp: alarm_covers_def run_simps run_self_op alarmBudgetStatus_def budgetedAlarm_def Let_def
      split: if_splits option.splits elim!: bind_op_cases)

lemma fold_opt_min:
  "x \<in> set ts \<or> (\<exists>a. acc = Some a \<and> a \<le> x) \<Longrightarrow> \<exists>m. fold (\<lambda>t acc. opt_min acc t) ts acc = Some m \<and> m \<le> x"
proof (induction ts arbitrary: acc)
  case (Cons t ts)
  then have "x \<in> set ts \<or> (\<exists>a. opt_min acc t = Some a \<and> a \<le> x)"
    by (auto simp: opt_min_def min_def split: option.splits)
  then show ?case using Cons.IH by simp
qed auto

lemma scheduleNext_covers:
  assumes "scheduleNext env w = (w', Inr ())" "t \<in> set (delivery_deadlines (cw_self w) @ reply_deadlines (cw_self w))"
  shows "alarm_covers t (cw_self w')"
proof -
  obtain m where m: "fold (\<lambda>t acc. opt_min acc t) (delivery_deadlines (cw_self w) @ reply_deadlines (cw_self w)) None = Some m" "m \<le> t"
    using fold_opt_min [of t "delivery_deadlines (cw_self w) @ reply_deadlines (cw_self w)" None] assms(2) by blast
  have covers: "alarm_covers t st" if "alarm_covers x st" "x \<le> m" for x st
    using that m(2) by (fastforce simp: alarm_covers_def)
  show ?thesis
    using assms(1) unfolding scheduleNext_def run_reads Let_def m(1)
    by (auto simp: run_reads run_simps bind_run opt_min_def dest!: scheduleAt_covers elim!: bind_op_cases
        split: option.splits if_splits sum.splits) (erule covers, simp)+
qed

lemma untouched_deadlines: "untouched w w' \<Longrightarrow>
    delivery_deadlines (cw_self w') = delivery_deadlines (cw_self w) \<and> reply_deadlines (cw_self w') = reply_deadlines (cw_self w)"
  by (simp add: untouched_def delivery_deadlines_def reply_deadlines_def)

text \<open>
  C16: no deadline is forgotten. After an alarm of an active channel that ran through, whatever
  connectors, hubs and rooms did in it, there is an alarm in time for the next attempt of every
  delivery that is owed and every reply that is not posted, unless the alarm budget of the hour is spent.
\<close>
theorem alarm_covers_every_deadline:
  assumes "integration_alarm env w = (w', Inr ())" and "ig_meta (cw_self w) = Some meta" and "im_active meta"
    and "t \<in> set (delivery_deadlines (cw_self w') @ reply_deadlines (cw_self w'))"
  shows "(\<exists>a. ab_alarm (ig_alarm (cw_self w')) = Some a \<and> a \<le> t) \<or> alarmBudgetStatus (ig_alarm (cw_self w')) \<noteq> None"
proof -
  obtain w1 n where n: "scheduleNext (later n env) w1 = (w', Inr ())"
    using assms(1-3) unfolding integration_alarm_def
    by (auto simp: run_reads run_self_op run_simps elim!: then_op_cases bind_op_cases split: option.splits sum.splits)
  have "untouched w1 w'" by (rule untouchedD [OF keeps_health(4) n])
  then have "t \<in> set (delivery_deadlines (cw_self w1) @ reply_deadlines (cw_self w1))"
    using assms(4) untouched_deadlines by metis
  from scheduleNext_covers [OF n this] show ?thesis by (simp add: alarm_covers_def)
qed

lemma alarm_covers_every_deadline_witness:
  "\<exists>w'. integration_alarm demo_channel_env open_channel = (w', Inr ()) \<and> delivery_deadlines (cw_self w') = [304000] \<and>
     ((\<exists>a. ab_alarm (ig_alarm (cw_self w')) = Some a \<and> a \<le> 304000) \<or> alarmBudgetStatus (ig_alarm (cw_self w')) \<noteq> None)"
proof -
  have "(\<lambda>(w', r). (isl r, delivery_deadlines (cw_self w'))) (integration_alarm demo_channel_env open_channel) = (False, [304000])"
    by code_simp
  then obtain w' where w': "integration_alarm demo_channel_env open_channel = (w', Inr ())" "delivery_deadlines (cw_self w') = [304000]"
    by (auto simp: isl_def split: prod.splits) (metis sum.exhaust old.unit.exhaust)
  obtain meta where "ig_meta (cw_self open_channel) = Some meta" "im_active meta" by (simp add: open_channel_def)
  from alarm_covers_every_deadline [OF w'(1) this, of 304000] w' show ?thesis by simp
qed

text \<open>
  a pause can strand what waits. An alarm that fires while the channel is paused is spent; when the
  channel is resumed only deliveries that are due now are dispatched, and nothing is scheduled for
  replies that wait to be retried or deliveries that are due later. For a connector that does not
  poll, without a health check, no alarm is left, and the deadlines are as before.
\<close>
theorem resume_strands_what_waits:
  fixes env env' :: channel_env
  assumes "ig_meta (cw_self w) = Some meta" and "\<not> im_active meta" and "ch_connectors env' (im_connector meta) = Some c"
    and "ch_open env' (im_configEnc meta) = Inr config" and "config_at config (js ''health_ping_url'') = None"
    and "cn_start c = None" and "cn_poll c = None" and "\<forall>(i, d) \<in> set (ig_deliveries (cw_self w)). \<not> due (ch_now env') d"
  defines "w1 \<equiv> serve env Alarm w"
  defines "w2 \<equiv> serve env' (Pause False) w1"
  shows "ab_alarm (ig_alarm (cw_self w2)) = None \<and> (\<exists>m. ig_meta (cw_self w2) = Some m \<and> im_active m) \<and>
    delivery_deadlines (cw_self w2) = delivery_deadlines (cw_self w) \<and> reply_deadlines (cw_self w2) = reply_deadlines (cw_self w)"
proof -
  have w1: "w1 = w\<lparr>cw_self := (cw_self w)\<lparr>ig_alarm := (ig_alarm (cw_self w))\<lparr>ab_alarm := None\<rparr>\<rparr>\<rparr>"
    using assms(1,2) by (simp add: w1_def done_op_def integration_alarm_def run_self_op run_reads run_simps
        then_op_def [of "self_op f" for f] bind_op_def [of "self_op f" for f])
  have idle: "each_op (\<lambda>d. when_op (due t d) (dispatchDelivery env' (dl_id d))) ds v = (v, Inr ())"
    if "\<forall>d \<in> set ds. \<not> due t d" for ds t v
    using that by (induction ds) (simp_all add: run_simps when_op_def bind_run)
  have nodue: "dispatchDue env' v = (v, Inr ())" if "ig_deliveries (cw_self v) = ig_deliveries (cw_self w)" for v
    unfolding dispatchDue_def run_reads by (rule idle) (use assms(8) that in auto)
  have "w2 = w1\<lparr>cw_self := (cw_self w1)\<lparr>ig_meta := Some (meta\<lparr>im_active := True\<rparr>)\<rparr>,
      cw_out := cw_out w1 @ [IntegrationStatusWrite (im_id meta) True]\<rparr>"
    using assms(1,3-7)
    by (simp add: w2_def done_op_def integration_pause_def run_reads w1 run_self_op bind_run run_hook_def run_simps nodue armPoll_def
        armHealth_def when_op_def run_emit del: js_simps)
  then show ?thesis by (simp add: w1 delivery_deadlines_def reply_deadlines_def)
qed

definition paused_channel :: channel_world where
  "paused_channel = open_channel\<lparr>cw_self := (cw_self open_channel)\<lparr>
     ig_meta := map_option (\<lambda>m. m\<lparr>im_active := False\<rparr>) (ig_meta (cw_self open_channel)),
     ig_replies := [(demo_id 100 0, \<lparr>rp_deliveryId = demo_id 100 0, rp_conversationId = js ''c'', rp_caller = js ''bob@titan'',
       rp_message = js ''yes'', rp_replyMode = None, rp_createdAt = 4500, rp_postedAt = None, rp_postError = Some (js ''down''),
       rp_nextAttemptAt = Some 64500\<rparr>)]\<rparr>\<rparr>"

lemma resume_strands_what_waits_witness:
  defines "w \<equiv> serve demo_channel_env (Pause False) (serve demo_channel_env Alarm paused_channel)"
  shows "ab_alarm (ig_alarm (cw_self w)) = None \<and> reply_deadlines (cw_self w) = [64500]"
proof -
  obtain m where m: "ig_meta (cw_self paused_channel) = Some m" "\<not> im_active m" "im_connector m = js ''echo''"
    by (simp add: paused_channel_def open_channel_def)
  have r: "reply_deadlines (cw_self paused_channel) = [64500]"
    by (simp add: reply_deadlines_def paused_channel_def some_time_def List.map_filter_def)
  have q: "\<forall>(i, d) \<in> set (ig_deliveries (cw_self paused_channel)). \<not> due (ch_now demo_channel_env) d"
    by (simp add: paused_channel_def open_channel_def due_def demo_channel_env_def)
  have c: "ch_connectors demo_channel_env (im_connector m) = Some echo_connector" "ch_open demo_channel_env (im_configEnc m) = Inr []"
    "config_at [] (js ''health_ping_url'') = None" "cn_start echo_connector = None" "cn_poll echo_connector = None"
    by (simp_all add: demo_channel_env_def echo_connector_def config_at_def truthy_def)
  show ?thesis
    using resume_strands_what_waits [OF m(1,2) c q, of demo_channel_env] unfolding r w_def by blast
qed


section \<open>Polling and redelivery\<close>

text \<open>The cycles of a window are at least a second apart and end before it does.\<close>

lemma poll_cycles_bound:
  "t < windowEnd \<Longrightarrow> poll_cycles env meta connector windowEnd t n quiet p w = (w', t', n', p') \<Longrightarrow>
     1000 * (int n' - int n - 1) < windowEnd - t \<and> n \<le> n' \<and> t \<le> t'"
proof (induction env meta connector windowEnd t n quiet p w rule: poll_cycles.induct)
  case (1 env meta connector windowEnd t n quiet p w)
  obtain w1 t1 act p1 where o: "pollOnce (later t env) meta connector n p w = (w1, t1, act, p1)" by (metis prod_cases4)
  have t: "t \<le> t1" using pollOnce_time [of "later t env" meta connector n p w] unfolding o by (simp add: later_def)
  define p2 where "p2 = (if act then p1\<lparr>po_lastActivityAt := t1\<rparr> else p1)"
  define iv where "iv = pollInterval p2 t1"
  define q where "q = (if act then 0 else quiet + 1)"
  have iv: "1000 \<le> iv" using pollInterval_pos [of p2 t1] by (simp add: iv_def)
  note step = poll_cycles.simps [of env meta connector windowEnd t n quiet p w]
  show ?case
  proof (cases "t < po_backoffUntil p")
    case True then show ?thesis using 1(2,3) by (simp add: step)
  next
    case False
    show ?thesis
    proof (cases "POLL_QUIET_EXIT_CYCLES \<le> q \<or> POLL_BURST_MS < iv \<or> t1 < po_backoffUntil p2 \<or> windowEnd \<le> t1 + iv")
      case True
      then show ?thesis using False t 1(2,3)
        by (simp add: step o Let_def p2_def [symmetric] q_def [symmetric] iv_def [symmetric])
    next
      case stay: False
      have eq: "poll_cycles env meta connector windowEnd t n quiet p w = poll_cycles env meta connector windowEnd (t1 + iv) (n + 1) q p2 w1"
        using False stay by (simp add: step o Let_def p2_def [symmetric] q_def [symmetric] iv_def [symmetric])
      have "t1 + iv < windowEnd" using stay by simp
      from 1(1) [OF False refl o [symmetric] refl refl p2_def q_def iv_def stay this] 1(3)
      have "1000 * (int n' - int (n + 1) - 1) < windowEnd - (t1 + iv) \<and> n + 1 \<le> n' \<and> t1 + iv \<le> t'" by (simp add: eq)
      then show ?thesis using t iv by auto
    qed
  qed
qed

text \<open>
  C32: a poll window ends. From any state of the connector, whatever each poll answers and however long
  it takes, a window of 30 seconds has at most 30 cycles, its cycles are at least a second apart, and
  the object then waits for the alarm again.
\<close>
theorem poll_window_ends:
  "case poll_cycles env meta connector (ch_now env + POLL_BURST_WINDOW_MS) (ch_now env) 0 0 p w of
     (w', t', cycles, p') \<Rightarrow> cycles \<le> 30 \<and> ch_now env \<le> t'"
proof -
  obtain w' t' n' p' where c: "poll_cycles env meta connector (ch_now env + POLL_BURST_WINDOW_MS) (ch_now env) 0 0 p w = (w', t', n', p')"
    by (metis prod_cases4)
  have "n' \<le> 30 \<and> ch_now env \<le> t'" using poll_cycles_bound [OF _ c] by (simp add: POLL_BURST_WINDOW_MS_def)
  then show ?thesis by (simp add: c)
qed

text \<open>
  redelivery backs off. The wait after an attempt is between 5 and 30 minutes, does not shrink with
  more attempts, is at least 20 minutes once the delivery was read, and is the full 30 minutes from the
  fourth attempt on.
\<close>
theorem redelivery_delay_bounds:
  "5 * 60 * 1000 \<le> redeliveryDelay d \<and> redeliveryDelay d \<le> 30 * 60 * 1000 \<and>
   redeliveryDelay d \<le> redeliveryDelay (d\<lparr>dl_attempts := Suc (dl_attempts d)\<rparr>) \<and>
   redeliveryDelay (d\<lparr>dl_readAt := Some 1\<rparr>) \<ge> 20 * 60 * 1000 \<and>
   redeliveryDelay (d\<lparr>dl_attempts := 4 + n\<rparr>) = 30 * 60 * 1000"
proof -
  note defs = BASE_REDELIVERY_MS_def MAX_REDELIVERY_MS_def READ_REDELIVERY_MULTIPLIER_def
  define k :: int where "k = (if some_time (dl_readAt d) then READ_REDELIVERY_MULTIPLIER else 1)"
  have k: "1 \<le> k" by (simp add: k_def defs)
  have delay: "redeliveryDelay (d\<lparr>dl_attempts := a\<rparr>) = min (300000 * k * 2 ^ (max 1 a - 1)) 1800000" for a
    by (simp add: redeliveryDelay_def Let_def k_def defs)
  have one: "1 * 1 \<le> m * 2 ^ a" if "1 \<le> m" for m :: int and a
    using that by (intro mult_mono) simp_all
  have d: "redeliveryDelay d = min (300000 * k * 2 ^ (max 1 (dl_attempts d) - 1)) 1800000" using delay [of "dl_attempts d"] by simp
  have "(2::int) ^ (max 1 (dl_attempts d) - 1) \<le> 2 ^ (max 1 (Suc (dl_attempts d)) - 1)" by (rule power_increasing) auto
  then have "redeliveryDelay d \<le> redeliveryDelay (d\<lparr>dl_attempts := Suc (dl_attempts d)\<rparr>)"
    unfolding d delay using k by (intro min.mono mult_left_mono) simp_all
  moreover have "5 * 60 * 1000 \<le> redeliveryDelay d" "redeliveryDelay d \<le> 30 * 60 * 1000"
    using one [OF k, of "max 1 (dl_attempts d) - 1"] k by (simp_all add: d)
  moreover have "20 * 60 * 1000 \<le> redeliveryDelay (d\<lparr>dl_readAt := Some 1\<rparr>)"
    using one [of 4 "max 1 (dl_attempts d) - 1"] by (simp add: redeliveryDelay_def Let_def defs some_time_def)
  moreover have "redeliveryDelay (d\<lparr>dl_attempts := 4 + n\<rparr>) = 30 * 60 * 1000"
  proof -
    have "300000 * 1 * (8 * 1) \<le> 300000 * k * (8 * 2 ^ n)" using k by (intro mult_mono) simp_all
    then show ?thesis by (simp add: delay power_add)
  qed
  ultimately show ?thesis by blast
qed


section \<open>Who may act on a delivery\<close>

definition acts_for :: "channel_env \<Rightarrow> channel_world \<Rightarrow> jstr \<Rightarrow> delivery_record \<Rightarrow> jstr \<Rightarrow> bool" where
  "acts_for env w org d caller \<longleftrightarrow> dl_targetAddr d = caller \<or>
     (\<exists>room o' a. parseAddress (dl_targetAddr d) = Inr (RoomAddress room o' a) \<and>
        rv_unreachable (ch_room env) (room_name org room) = None \<and>
        hasMember caller (room_at (cw_rooms w) (room_name org room)) = Inr True)"

lemma assertOwner_iff: "snd (assertOwner env d caller org w) = Inr () \<longleftrightarrow> acts_for env w org d caller"
  by (auto simp: assertOwner_def acts_for_def run_reads run_simps thrown_def Let_def bind_op_def
      split: sum.splits transit_address.splits option.splits)

text \<open>
  C20: only the target acts. Whoever is neither the target of a delivery nor a member of the room it
  targets cannot read it, mark it handled or open a reply to it: the call throws and changes nothing.
  A reply that is already recorded, though, is told to any caller who names the delivery.
\<close>
theorem only_the_target_acts:
  assumes "ig_meta (cw_self w) = Some meta" and "kv_get (ig_deliveries (cw_self w)) i = Some d"
    and "\<not> acts_for env w (im_org meta) d caller"
  shows "(\<exists>e. readMessage env i caller w = (w, Inl e)) \<and> (\<exists>e. readMessageV2 env i caller w = (w, Inl e)) \<and>
    (\<exists>e. markHandled env i caller w = (w, Inl e)) \<and>
    (\<forall>inp. ri_deliveryId inp = i \<and> ri_caller inp = caller \<longrightarrow>
       (case kv_get (ig_replies (cw_self w)) i of
          None \<Rightarrow> (\<exists>e. chatReply env inp w = (w, Inl e))
        | Some r \<Rightarrow> (\<exists>res. chatReply env inp w = (w, Inr res) \<and> cr_message res = rp_message r)))"
proof -
  obtain e where e: "snd (assertOwner env d caller (im_org meta) w) = Inl e"
    using assertOwner_iff [of env d caller "im_org meta" w] assms(3)
    by (cases "snd (assertOwner env d caller (im_org meta) w)") auto
  have rd: "readMessage env i caller w = (w, Inl e)"
    by (simp add: readMessage_def run_reads run_owner assms e)
  then have "readMessageV2 env i caller w = (w, Inl e)" by (simp add: readMessageV2_def bind_run)
  moreover have "markHandled env i caller w = (w, Inl e)"
    by (simp add: markHandled_def run_reads run_owner assms e)
  moreover have "\<exists>e'. chatReply env inp w = (w, Inl e')" if "ri_deliveryId inp = i" "ri_caller inp = caller"
      "kv_get (ig_replies (cw_self w)) i = None" for inp
  proof -
    have "\<exists>e'. chatReply_open env inp w = (w, Inl e')"
      by (cases "ch_canAccept env (im_org meta)") (simp_all add: chatReply_open_def run_reads run_owner assms that e run_simps)
    then show ?thesis by (auto simp: chatReply_def run_reads that bind_run)
  qed
  ultimately show ?thesis using rd
    by (auto simp: chatReply_def run_reads run_simps split: option.splits)
qed

lemma only_the_target_acts_witness:
  "\<exists>e. markHandled demo_channel_env (demo_id 100 0) (js ''eve@titan'') open_channel = (open_channel, Inl e)"
proof -
  obtain m d where m: "ig_meta (cw_self open_channel) = Some m" "kv_get (ig_deliveries (cw_self open_channel)) (demo_id 100 0) = Some d"
    "dl_targetAddr d = js ''bob@titan''" by (simp add: open_channel_def)
  have "(case parseAddress (js ''bob@titan'') of Inr (RoomAddress _ _ _) \<Rightarrow> False | _ \<Rightarrow> True)" by code_simp
  then have "\<not> acts_for demo_channel_env open_channel (im_org m) d (js ''eve@titan'')"
    unfolding acts_for_def m(3) by auto
  from only_the_target_acts [OF m(1,2) this] show ?thesis by blast
qed

end
