(* ===== verification/Channel_Properties.thy ===== *)
theory Channel_Properties
  imports Channel_Overlap
begin

text \<open>
  What a channel promises: the records stay whole, the object refines the ledger of its promises, a
  reply is sent once, a dead delivery does not exist; and where calls that overlap break these promises.
\<close>

section \<open>Accepting a new event\<close>

definition accepts :: "channel_env \<Rightarrow> connector_event \<Rightarrow> channel_world \<Rightarrow> bool" where
  "accepts env event w \<longleftrightarrow> (\<exists>meta. ig_meta (cw_self w) = Some meta \<and> im_active meta \<and> im_connector meta \<noteq> js ''ingest'' \<and>
     ch_canAccept env (im_org meta)) \<and> validatedAttachments (ev_attachments event) = Inr (ev_attachments event) \<and>
     kv_get (ig_keys (cw_self w)) (ev_eventKey event) = None"

lemma ingest_fresh_run:
  assumes "accepts env event w"
  obtains ev d where "ingestEvent env event w = then_op (dispatchDelivery env (dl_id d)) (return_op (Accepted (se_id ev) (dl_id d)))
      ((after_commit (ev_eventKey event) ev d w)\<lparr>cw_out := cw_out w @ [EventInsert (im_id (the (ig_meta (cw_self w)))) ev, DeliveryWrite d]\<rparr>)"
    "se_id ev = ch_eventId env (cw_draws w)" "dl_id d = ch_dlvId env (cw_draws w)" "dl_eventId d = se_id ev" "dl_settledAt d = None"
    "dl_status d = Pending" "dl_targetAddr d = im_targetAddr (the (ig_meta (cw_self w)))" "dl_attempts d = 0"
    "ev_content ev = ev_content event" "ev_conversationId ev = ev_conversationId event" "dl_readAt d = None" "dl_injectedVia d = None" "ev_eventKey ev = ev_eventKey event"
proof -
  obtain meta where m: "ig_meta (cw_self w) = Some meta" "im_active meta" "im_connector meta \<noteq> js ''ingest''" "ch_canAccept env (im_org meta)"
    using assms by (auto simp: accepts_def simp del: js_simps)
  have none: "kv_get (ig_keys (cw_self w)) (ev_eventKey event) = None" "validatedAttachments (ev_attachments event) = Inr (ev_attachments event)"
    using assms by (simp_all add: accepts_def)
  show thesis
  proof (cases rule: commit_event_cases [of w event env meta])
    case (fresh ev d)
    let ?w1 = "after_commit (ev_eventKey event) ev d w"
    have found: "kv_get (ig_events (cw_self ?w1)) (se_id ev) = Some ev" "kv_get (ig_deliveries (cw_self ?w1)) (dl_id d) = Some d"
      by (simp_all add: after_commit_def store_simps)
    have "ingestEvent env event w = then_op (dispatchDelivery env (dl_id d)) (return_op (Accepted (se_id ev) (dl_id d)))
      (?w1\<lparr>cw_out := cw_out w @ [EventInsert (im_id meta) ev, DeliveryWrite d]\<rparr>)"
      using m none found fresh(2)
      by (simp add: ingestEvent_def run_reads take_ingest_token_def run_simps bind_op_def [of "return_op True"]
          bind_op_def [of "commit_event env meta event"] then_op_def [of "emit x" for x] bind_op_def [of "emit x" for x] run_emit del: js_simps)
        (simp add: after_commit_def)
    then show thesis using fresh m(1) by (intro that [of d ev]) simp_all
  qed (simp add: none)
qed

lemma ingest_accepted:
  assumes wf: "channel_wf D E w" and fit: "channel_fit D E env" and acc: "accepts env event w"
  shows "kv_get (ig_keys (cw_self (fst (ingestEvent env event w)))) (ev_eventKey event) = Some (E (cw_draws w), D (cw_draws w)) \<and>
    (\<exists>d. kv_get (ig_deliveries (cw_self (fst (ingestEvent env event w)))) (D (cw_draws w)) = Some d)"
proof -
  let ?w' = "fst (ingestEvent env event w)"
  obtain ev d out where run: "ingestEvent env event w = then_op (dispatchDelivery env (dl_id d)) (return_op (Accepted (se_id ev) (dl_id d)))
      ((after_commit (ev_eventKey event) ev d w)\<lparr>cw_out := cw_out w @ out\<rparr>)"
    and i: "se_id ev = E (cw_draws w)" "dl_id d = D (cw_draws w)" "dl_eventId d = se_id ev" "dl_settledAt d = None" "dl_status d = Pending"
      "ev_eventKey ev = ev_eventKey event"
      "posted_ids ((after_commit (ev_eventKey event) ev d w)\<lparr>cw_out := cw_out w @ out\<rparr>) = posted_ids w"
  proof (rule ingest_fresh_run [OF acc])
    fix ev d
    assume r: "ingestEvent env event w = then_op (dispatchDelivery env (dl_id d)) (return_op (Accepted (se_id ev) (dl_id d)))
      ((after_commit (ev_eventKey event) ev d w)\<lparr>cw_out := cw_out w @ [EventInsert (im_id (the (ig_meta (cw_self w)))) ev, DeliveryWrite d]\<rparr>)"
      and f: "se_id ev = ch_eventId env (cw_draws w)" "dl_id d = ch_dlvId env (cw_draws w)" "dl_eventId d = se_id ev" "dl_settledAt d = None"
        "dl_status d = Pending" "ev_eventKey ev = ev_eventKey event"
    show thesis by (rule that [OF r]) (use f fit in \<open>simp_all add: channel_fit_def posted_ids_def List.map_filter_def after_commit_def\<close>)
  qed
  let ?w1 = "(after_commit (ev_eventKey event) ev d w)\<lparr>cw_out := cw_out w @ out\<rparr>"
  have "advances D E w (after_commit (ev_eventKey event) ev d w)"
    by (rule after_commit_advances) (use fit acc i in \<open>simp_all add: channel_fit_def accepts_def\<close>)
  moreover have "untouched (after_commit (ev_eventKey event) ev d w) ?w1"
    using i(7) by (simp add: untouched_def posted_ids_def after_commit_def)
  ultimately have wf1: "channel_wf D E ?w1" using wf advancesD(1) untouched_advances by metis
  have adv: "advances D E ?w1 ?w'" unfolding run by (rule adv.keepsD, intro adv_rules)
  note kept = advancesD(3) [OF adv wf1] and wf' = advancesD(1) [OF adv wf1]
  have "kv_get (ig_events (cw_self ?w1)) (se_id ev) = Some ev" "kv_get (ig_deliveries (cw_self ?w1)) (dl_id d) = Some d"
    by (simp_all add: after_commit_def store_simps)
  then obtain d' where e: "kv_get (ig_events (cw_self ?w')) (se_id ev) = Some ev"
    and d': "kv_get (ig_deliveries (cw_self ?w')) (dl_id d) = Some d'" "same_letter d d'"
    using kept unfolding letters_kept_def map_le_def by (metis domI)
  then have "kv_get (ig_keys (cw_self ?w')) (ev_eventKey ev) = Some (se_id ev, dl_id d)"
    using wf' i(3) unfolding channel_wf_def deliveries_wf_def same_letter_def by (metis option.inject)
  then show ?thesis using d' i by auto
qed

section \<open>A channel that was served\<close>

definition demo_configured :: channel_world where
  "demo_configured = serve demo_channel_env (Configure demo_configure) empty_world"

definition demo_channel :: channel_world where
  "demo_channel = serve demo_channel_env (Ingest demo_event) demo_configured"

lemma demo_channel_reach: "channel_reach (demo_id 100) (demo_id 101) demo_channel"
  unfolding demo_channel_def demo_configured_def
  by (intro channel_reach.served demo_fit channel_reach.fresh) (simp_all add: empty_world_def)

lemma demo_configured_eval:
  "(\<lambda>st. (map_option (\<lambda>m. (im_active m, im_connector m, im_org m, im_targetAddr m)) (ig_meta st), ig_keys st)) (cw_self demo_configured)
     = (Some (True, js ''echo'', js ''org'', js ''bob@titan''), [])"
  "cw_draws demo_configured = 0" "length (cw_hubs demo_configured) = 0"
proof -
  have "(\<lambda>w. (\<lambda>st. (map_option (\<lambda>m. (im_active m, im_connector m, im_org m, im_targetAddr m)) (ig_meta st), ig_keys st)) (cw_self w)
      = (Some (True, js ''echo'', js ''org'', js ''bob@titan''), []) \<and> cw_draws w = 0 \<and> length (cw_hubs w) = 0) demo_configured"
    unfolding demo_configured_def serve.simps done_op_def by code_simp
  then show "(\<lambda>st. (map_option (\<lambda>m. (im_active m, im_connector m, im_org m, im_targetAddr m)) (ig_meta st), ig_keys st)) (cw_self demo_configured)
      = (Some (True, js ''echo'', js ''org'', js ''bob@titan''), [])"
    "cw_draws demo_configured = 0" "length (cw_hubs demo_configured) = 0"
    by simp_all
qed

lemma demo_channel_has:
  obtains d where "kv_get (ig_deliveries (cw_self demo_channel)) (demo_id 100 0) = Some d"
    "kv_get (ig_keys (cw_self demo_channel)) (js ''k'') = Some (demo_id 101 0, demo_id 100 0)"
proof -
  have "accepts demo_channel_env demo_event demo_configured"
    using demo_configured_eval by (auto simp: accepts_def demo_event_def validatedAttachments_def demo_channel_env_def)
  moreover have "channel_reach (demo_id 100) (demo_id 101) demo_configured"
    unfolding demo_configured_def by (intro channel_reach.served demo_fit channel_reach.fresh) (simp_all add: empty_world_def)
  ultimately show thesis
    using ingest_accepted [OF channel_reach_wf demo_fit] that demo_configured_eval(2)
    by (fastforce simp: demo_channel_def done_op_def demo_event_def simp del: js_simps)
qed

section \<open>Promises\<close>

text \<open>
  C6: the object refines its ledger. Whatever requests it serves, with alarms, evictions and other
  work of the rooms and hubs between them, the ledger read off it was made from the empty one by
  accepting new event keys, finishing what is owed and sending replies once; and one request more
  makes only such moves again.
\<close>
theorem channel_refines_ledger:
  assumes "channel_reach D E w" and "channel_fit D E env"
  shows "ledger_step\<^sup>*\<^sup>* empty_ledger (ledger_of w) \<and>
    ledger_step\<^sup>*\<^sup>* (ledger_of w) (ledger_of (serve env request w))"
proof
  show "ledger_step\<^sup>*\<^sup>* empty_ledger (ledger_of w)" using assms(1)
  proof (induction rule: channel_reach.induct)
    case (fresh w)
    then have "ledger_of w = empty_ledger"
      by (simp add: ledger_of_def empty_ledger_def new_integration_def posted_ids_def List.map_filter_def)
    then show ?case by simp
  next
    case (served w env request)
    then show ?case using advancesD(2) [OF serve_advances channel_reach_wf] rtranclp_trans by metis
  qed (simp_all add: ledger_of_def)
  show "ledger_step\<^sup>*\<^sup>* (ledger_of w) (ledger_of (serve env request w))"
    using advancesD(2) [OF serve_advances [OF assms(2)] channel_reach_wf [OF assms(1)]] .
qed

lemma channel_refines_ledger_witness:
  "ledger_step\<^sup>*\<^sup>* empty_ledger (ledger_of demo_channel) \<and> el_accepted (ledger_of demo_channel) (js ''k'') = Some (demo_id 100 0)"
  using channel_refines_ledger [OF demo_channel_reach demo_fit] demo_channel_has by (auto simp: ledger_of_def)

text \<open>
  C15: the records of a channel are whole. In every world it reaches a delivery is stored under its own
  id with the event it delivers, the event's key leads back to just that delivery, every key leads to a
  delivery, a reply belongs to a delivery, and no delivery is dead.
\<close>
theorem channel_records_are_whole:
  assumes "channel_reach D E w"
  shows "(\<forall>i d. kv_get (ig_deliveries (cw_self w)) i = Some d \<longrightarrow> dl_id d = i \<and> dl_status d \<noteq> Dead \<and>
      (\<exists>ev. kv_get (ig_events (cw_self w)) (dl_eventId d) = Some ev \<and> se_id ev = dl_eventId d \<and>
        kv_get (ig_keys (cw_self w)) (ev_eventKey ev) = Some (dl_eventId d, i))) \<and>
    (\<forall>k e i. kv_get (ig_keys (cw_self w)) k = Some (e, i) \<longrightarrow> (\<exists>d. kv_get (ig_deliveries (cw_self w)) i = Some d \<and> dl_eventId d = e)) \<and>
    (\<forall>i r. kv_get (ig_replies (cw_self w)) i = Some r \<longrightarrow> rp_deliveryId r = i \<and> kv_get (ig_deliveries (cw_self w)) i \<noteq> None)"
proof -
  note wf = channel_reach_wf [OF assms, unfolded channel_wf_def deliveries_wf_def keys_wf_def events_wf_def replies_wf_def]
  show ?thesis using wf by (intro conjI allI impI) (blast | metis)+
qed

lemma channel_records_are_whole_witness:
  "\<exists>d ev. kv_get (ig_deliveries (cw_self demo_channel)) (demo_id 100 0) = Some d \<and>
     kv_get (ig_events (cw_self demo_channel)) (dl_eventId d) = Some ev"
  using channel_records_are_whole [OF demo_channel_reach] demo_channel_has by metis

text \<open>
  C17: a reply is sent once. In every world a channel reaches by requests that do not overlap, no two
  replies were posted for the same delivery, and a delivery with a posted reply is settled.
\<close>
theorem reply_is_sent_once:
  assumes "channel_reach D E w"
  shows "distinct (posted_ids w) \<and>
    (\<forall>i \<in> set (posted_ids w). \<exists>d. kv_get (ig_deliveries (cw_self w)) i = Some d \<and> dl_settledAt d \<noteq> None)"
  using channel_reach_ledger_ok [OF assms] by (fastforce simp: ledger_ok_def ledger_of_def phase_of_def split: if_splits)

text \<open>
  what was promised stays. An event key that was accepted leads to the same event and delivery
  after any further request; the event is unchanged, the delivery keeps its target and its time, and
  once settled it stays settled.
\<close>
theorem accepted_events_last:
  fixes request :: channel_request
  assumes "channel_reach D E w" and "channel_fit D E env"
    and "kv_get (ig_keys (cw_self w)) k = Some (e, i)" and "kv_get (ig_events (cw_self w)) e = Some ev"
    and "kv_get (ig_deliveries (cw_self w)) i = Some d"
  defines "st' \<equiv> cw_self (serve env request w)"
  shows "kv_get (ig_keys st') k = Some (e, i) \<and> kv_get (ig_events st') e = Some ev \<and>
    (\<exists>d'. kv_get (ig_deliveries st') i = Some d' \<and> dl_targetAddr d' = dl_targetAddr d \<and> dl_createdAt d' = dl_createdAt d \<and>
       (dl_settledAt d \<noteq> None \<longrightarrow> dl_settledAt d' \<noteq> None))"
proof -
  note wf = channel_reach_wf [OF assms(1)] and adv = serve_advances [OF assms(2), of w request]
  note wf' = advancesD(1) [OF adv wf]
  have "kv_get (ig_events st') e = Some ev" "\<exists>d'. kv_get (ig_deliveries st') i = Some d' \<and> same_letter d d'"
    using advancesD(3) [OF adv wf] assms(4,5) unfolding letters_kept_def st'_def map_le_def by (metis domI)+
  moreover have "ev_eventKey ev = k" "dl_eventId d = e"
    using wf assms(3-5) unfolding channel_wf_def keys_wf_def by (metis option.inject)+
  ultimately show ?thesis using wf' unfolding channel_wf_def deliveries_wf_def same_letter_def st'_def
    by (metis option.inject)
qed

text \<open>
  nothing can be requeued. A delivery of a channel is never dead, so the operator's requeue is
  always refused, and changes nothing.
\<close>
theorem requeue_is_always_refused:
  assumes "channel_reach D E w"
  shows "\<exists>e. integration_requeue env ident w = (w, Inl e)"
  using channel_wf_key [OF channel_reach_wf [OF assms]]
  by (auto simp: integration_requeue_def run_reads run_simps split: option.splits)

section \<open>Witnesses\<close>

lemma reply_is_sent_once_witness: "distinct (posted_ids (serve demo_channel_env (Reply demo_reply) demo_channel))"
  using reply_is_sent_once [OF channel_reach.served [OF demo_channel_reach demo_fit]] by blast

lemma accepted_events_last_witness:
  "kv_get (ig_keys (cw_self (serve demo_channel_env Alarm demo_channel))) (js ''k'') = Some (demo_id 101 0, demo_id 100 0)"
proof -
  obtain d where d: "kv_get (ig_deliveries (cw_self demo_channel)) (demo_id 100 0) = Some d"
    "kv_get (ig_keys (cw_self demo_channel)) (js ''k'') = Some (demo_id 101 0, demo_id 100 0)" by (rule demo_channel_has)
  moreover obtain ev where "kv_get (ig_events (cw_self demo_channel)) (demo_id 101 0) = Some ev"
    using channel_reach_wf [OF demo_channel_reach] d unfolding channel_wf_def keys_wf_def by blast
  ultimately show ?thesis using accepted_events_last [OF demo_channel_reach demo_fit] by blast
qed

lemma requeue_is_always_refused_witness: "\<exists>e. integration_requeue demo_channel_env (demo_id 100 0) demo_channel = (demo_channel, Inl e)"
  by (rule requeue_is_always_refused [OF demo_channel_reach])


end
