(* ===== verification/Channel_Quiet.thy ===== *)
theory Channel_Quiet
  imports Channel_Schedule Room_Properties
begin

text \<open>
  Channels and hubs together: what an event that is accepted becomes at the hub of its agent, and that
  nothing a channel does afterwards queues a settled delivery at any hub again.
\<close>

section \<open>Nothing new is pending\<close>

text \<open>No hub has more pending for the delivery \<open>i\<close> than before.\<close>

definition quiet_hubs :: "jstr \<Rightarrow> hub_store \<Rightarrow> hub_store \<Rightarrow> bool" where
  "quiet_hubs i hubs hubs' \<longleftrightarrow> (hubs_inv hubs \<longrightarrow> hubs_inv hubs' \<and>
     (\<forall>n k. marker_of_message i k \<longrightarrow> pending_delivery (hub_at hubs' n) k \<longrightarrow> pending_delivery (hub_at hubs n) k))"

definition quiet :: "jstr \<Rightarrow> channel_world \<Rightarrow> channel_world \<Rightarrow> bool" where
  "quiet i w w' \<longleftrightarrow> quiet_hubs i (cw_hubs w) (cw_hubs w')"

interpretation qh: step_relation "quiet_hubs i" for i
  by unfold_locales (auto simp: quiet_hubs_def)

interpretation quiet: step_relation "quiet i" for i
  by unfold_locales (auto simp: quiet_def quiet_hubs_def)

named_theorems quiet_rules \<open>operations after which no more is pending for a delivery\<close>

lemmas [quiet_rules] = quiet.keeps_rules

lemma quiet_same_hubs: "(\<And>w. cw_hubs (fst (m w)) = cw_hubs w) \<Longrightarrow> keeps (quiet i) m"
  by (simp add: keeps_def quiet_def quiet_hubs_def)

lemma quiet_self [quiet_rules]: "keeps (quiet i) (self_op f)"
  by (rule quiet_same_hubs) (simp add: run_self_op)

lemma quiet_emit [quiet_rules]: "keeps (quiet i) (emit e)"
  by (rule quiet_same_hubs) (simp add: run_emit)

lemma quiet_puts [quiet_rules]: "keeps (quiet i) (put_delivery d)" "keeps (quiet i) (put_reply r)"
  unfolding put_delivery_def put_reply_def by (rule quiet_self)+

lemma quiet_need [quiet_rules]: "keeps (quiet i) (need e f)"
  unfolding need_def by (intro quiet_rules) (auto split: option.splits intro: quiet_rules)

lemma quiet_readers [quiet_rules]: "keeps (quiet i) requireMeta" "keeps (quiet i) (requireEvent x)" "keeps (quiet i) (requireDelivery x)"
  by (simp_all add: requireMeta_def requireEvent_def requireDelivery_def quiet_need)

lemma quiet_config [quiet_rules]: "keeps (quiet i) (connectorFor env name)" "keeps (quiet i) (openConfig env meta)"
  unfolding connectorFor_def openConfig_def by (auto split: option.splits intro: quiet_rules)

lemma quiet_status [quiet_rules]: "keeps (quiet i) (setConnectorStatus env state why)"
  unfolding setConnectorStatus_def by (rule quiet_self)

lemma quiet_alarm [quiet_rules]: "keeps (quiet i) (scheduleAt env t)"
  unfolding scheduleAt_def alarmLimit_def by (auto simp: Let_def split: option.splits prod.splits intro!: quiet_rules)

lemma quiet_next [quiet_rules]: "keeps (quiet i) (schedule_next_attempt env d)" "keeps (quiet i) (scheduleNext env)"
    "keeps (quiet i) (armHealth env config)" "keeps (quiet i) (armPoll env connector)" "keeps (quiet i) (reportHealth env meta config)"
    "keeps (quiet i) (integration_detail_of env)"
  unfolding schedule_next_attempt_def scheduleNext_def armHealth_def armPoll_def reportHealth_def integration_detail_of_def
  by (auto simp: Let_def split: option.splits transit_address.splits prod.splits intro!: quiet_rules)

lemma quiet_token [quiet_rules]: "keeps (quiet i) (take_ingest_token env meta)"
  unfolding take_ingest_token_def by (auto intro: quiet_rules quiet_same_hubs split: prod.splits)

lemma quiet_commit [quiet_rules]: "keeps (quiet i) (commit_event env meta event)"
proof (rule quiet_same_hubs)
  fix w show "cw_hubs (fst (commit_event env meta event w)) = cw_hubs w"
    by (cases rule: commit_event_cases [of w event env meta]) (simp_all add: after_commit_def)
qed

section \<open>Cancelling and queueing\<close>

lemma quiet_hub_put:
  assumes "hub_inv (hub_at hubs n) \<Longrightarrow> hub_inv st'"
    and "\<And>k. hub_inv (hub_at hubs n) \<Longrightarrow> marker_of_message i k \<Longrightarrow> pending_delivery st' k \<Longrightarrow> pending_delivery (hub_at hubs n) k"
  shows "quiet_hubs i hubs (kv_put n st' hubs)"
  unfolding quiet_hubs_def
proof (intro impI conjI allI)
  assume ok: "hubs_inv hubs"
  show "hubs_inv (kv_put n st' hubs)" using hubs_inv_put [OF ok assms(1) [OF hub_at_inv [OF ok]]] .
  fix n' k assume "marker_of_message i k" "pending_delivery (hub_at (kv_put n st' hubs) n') k"
  then show "pending_delivery (hub_at hubs n') k"
    using assms(2) [OF hub_at_inv [OF ok]] by (cases "n' = n") (simp_all add: hub_at_put)
qed

lemma quiet_hub_cancel: "quiet_hubs i hubs (kv_put n (fst (cancelDelivery env m (hub_at hubs n))) hubs)"
  by (rule quiet_hub_put) (simp_all add: hub.ok_cancel hub.cancel_pending)

lemma quiet_hub_queue:
  assumes "call_queueDelivery env n inp hubs = (hubs', r)" and "\<not> marker_of_message i (input_key inp)"
  shows "quiet_hubs i hubs hubs'"
proof -
  have "hubs' = hubs \<or> hubs' = kv_put n (fst (submit_delivery (rv_hub env) inp (hub_at hubs n))) hubs"
    using assms(1) by (auto simp: call_queueDelivery_def submit_delivery_def Let_def split: option.splits prod.splits)
  moreover have "quiet_hubs i hubs (kv_put n (fst (submit_delivery (rv_hub env) inp (hub_at hubs n))) hubs)"
    by (rule quiet_hub_put) (use hub.submit_pending hub.ok_submit assms(2) in blast)+
  ultimately show ?thesis using qh.refl by metis
qed

lemma quiet_members:
  assumes "\<And>m s. R s (fst (f m s))" "step_relation R"
  shows "R s (fst (for_members f ms s))"
  using step_relation.refl [OF assms(2)] step_relation.trans [OF assms(2)] assms(1)
  by (induction ms arbitrary: s) (auto simp: Let_def split: prod.splits, (metis fst_conv)+)

lemma quiet_on_member:
  assumes "\<And>name host addr live s. R s (fst (call name host addr live s))" "step_relation R"
  shows "R s (fst (on_member env cfg m call s))"
  using assms(1) step_relation.refl [OF assms(2)]
  by (auto simp: on_member_def Let_def split: sum.splits transit_address.splits)

lemma quiet_room_cancel:
  assumes "cancelChannelDelivery env m (ro, hubs) = ((ro', hubs'), r)"
  shows "quiet_hubs i hubs hubs'"
proof (cases "requireConfig ro")
  case (Inr cfg)
  let ?f = "\<lambda>m'. on_member env cfg m' (\<lambda>name host addr live hs.
                 let h = hub_name (rb_org m') host in
                 case rv_unreachable env h of
                   Some e \<Rightarrow> (hs, Inl e)
                 | None \<Rightarrow> (kv_put h (fst (cancelDelivery (rv_hub env) m (hub_at hs h))) hs, Inr True))"
  have "quiet_hubs i hubs (fst (for_members ?f (members_of cfg ro) hubs))"
  proof (rule quiet_members [OF _ qh.step_relation_axioms])
    fix m' hs show "quiet_hubs i hs (fst (?f m' hs))"
      by (rule quiet_on_member [OF _ qh.step_relation_axioms]) (simp add: Let_def qh.refl quiet_hub_cancel split: option.splits)
  qed
  then show ?thesis using assms by (auto simp: cancelChannelDelivery_def Inr)
qed (use assms in \<open>simp add: cancelChannelDelivery_def qh.refl\<close>)

lemma quiet_cancel [quiet_rules]: "keeps (quiet i) (cancelHostQueue env d org)"
proof -
  have "keeps (quiet i) (cancel_at_hub env n m)" for n m
    unfolding keeps_def cancel_at_hub_def quiet_def by (simp add: qh.refl quiet_hub_cancel split: option.splits)
  moreover have "keeps (quiet i) (cancel_at_room env n m)" for n m
    unfolding keeps_def cancel_at_room_def quiet_def
    by (simp add: qh.refl Let_def split: option.splits prod.splits) (use quiet_room_cancel in blast)
  ultimately show ?thesis
    unfolding cancelHostQueue_def by (auto split: transit_address.splits intro!: quiet_rules)
qed

lemma quiet_call_hub:
  "\<not> marker_of_message i (input_key inp) \<Longrightarrow> keeps (quiet i) (call_hub env n inp)"
  unfolding keeps_def call_hub_def quiet_def by (auto split: prod.splits dest: quiet_hub_queue)

lemma quiet_room_queue:
  assumes "queueChannelDelivery env inp (ro, hubs) = ((ro', hubs'), r)" "\<And>a. \<not> marker_of_message i (marker_key (rd_deliveryId inp) a)"
  shows "quiet_hubs i hubs hubs'"
proof (cases "requireConfig ro")
  case (Inr cfg)
  let ?call = "\<lambda>m name host addr live hs.
                     case call_queueDelivery env (hub_name (rb_org m) host)
                            (channel_input cfg inp m name host addr live) hs of
                       (hs', Inl e) \<Rightarrow> (hs', Inl e)
                     | (hs', Inr st) \<Rightarrow> (hs', Inr (st \<noteq> NoRouteTo))"
  let ?f = "\<lambda>m. on_member env cfg m (?call m)"
  have "quiet_hubs i hubs (fst (for_members ?f (members_of cfg ro) hubs))"
  proof (rule quiet_members [OF _ qh.step_relation_axioms], rule quiet_on_member [OF _ qh.step_relation_axioms])
    fix m hs name host addr live
    obtain hs' res where q: "call_queueDelivery env (hub_name (rb_org m) host) (channel_input cfg inp m name host addr live) hs = (hs', res)"
      by fastforce
    have "quiet_hubs i hs hs'" by (rule quiet_hub_queue [OF q]) (simp add: channel_input_def input_key_def assms(2))
    then show "quiet_hubs i hs (fst (?call m name host addr live hs))" by (simp add: q split: sum.splits)
  qed
  then show ?thesis using assms(1) by (auto simp: queueChannelDelivery_def Inr Let_def qh.refl split: if_splits prod.splits)
qed (use assms(1) in \<open>simp add: queueChannelDelivery_def qh.refl\<close>)

lemma quiet_call_room:
  assumes "\<And>a. \<not> marker_of_message i (marker_key (rd_deliveryId inp) a)"
  shows "keeps (quiet i) (call_room env n inp)"
  unfolding keeps_def call_room_def quiet_def
  by (simp add: qh.refl Let_def split: option.splits prod.splits) (use quiet_room_queue [OF _ assms] in blast)


section \<open>Settled deliveries stay out\<close>

definition settled_in :: "jstr \<Rightarrow> channel_world \<Rightarrow> bool" where
  "settled_in i w \<longleftrightarrow> (\<exists>d. kv_get (ig_deliveries (cw_self w)) i = Some d \<and> dl_settledAt d \<noteq> None)"

text \<open>The ids of deliveries have no colon, so that the markers of two of them differ.\<close>

definition plain_ids :: "(nat \<Rightarrow> jstr) \<Rightarrow> bool" where
  "plain_ids D \<longleftrightarrow> (\<forall>n. COLON \<notin> set (D n))"

lemma marker_of_other:
  assumes "COLON \<notin> set i" "COLON \<notin> set m" "i \<noteq> m"
  shows "\<not> marker_of_message i (marker_key m a)"
proof
  assume "marker_of_message i (marker_key m a)"
  then have "i = m @ COLON # a \<or> (\<exists>rest. i @ COLON # rest = m @ COLON # a)"
    by (auto simp: marker_of_message_def marker_key_def starts_with_iff)
  then show False using assms append_sep_inj [OF assms(1,2)] by auto
qed

definition calm :: "(nat \<Rightarrow> jstr) \<Rightarrow> (nat \<Rightarrow> jstr) \<Rightarrow> jstr \<Rightarrow> channel_world \<Rightarrow> channel_world \<Rightarrow> bool" where
  "calm D E i w w' \<longleftrightarrow> advances D E w w' \<and> (channel_wf D E w \<longrightarrow> settled_in i w \<longrightarrow> quiet i w w')"

lemma settled_in_advances: "advances D E w w' \<Longrightarrow> channel_wf D E w \<Longrightarrow> settled_in i w \<Longrightarrow> settled_in i w'"
  by (fastforce simp: advances_def settled_in_def letters_kept_def same_letter_def)

interpretation calm: step_relation "calm D E i" for D E i
proof unfold_locales
  fix w w' w'' assume "calm D E i w w'" "calm D E i w' w''"
  then show "calm D E i w w''"
    unfolding calm_def using adv.trans quiet.trans settled_in_advances advancesD(1) by metis
qed (simp add: calm_def adv.refl quiet.refl)

named_theorems calm_rules \<open>operations that leave a settled delivery out of every hub\<close>

lemmas [calm_rules] = calm.keeps_rules

lemma calmI: "keeps (advances D E) m \<Longrightarrow> keeps (quiet i) m \<Longrightarrow> keeps (calm D E i) m"
  by (simp add: keeps_def calm_def)

lemma calm_quietI:
  assumes "keeps (advances D E) m" "\<And>w. channel_wf D E w \<Longrightarrow> settled_in i w \<Longrightarrow> quiet i w (fst (m w))"
  shows "keeps (calm D E i) m"
  using assms by (simp add: keeps_def calm_def)

lemma calm_untouched: "keeps untouched m \<Longrightarrow> keeps (quiet i) m \<Longrightarrow> keeps (calm D E i) m"
  by (intro calmI keeps_untouched_advances)

lemma quiet_attempt:
  assumes "\<And>a. \<not> marker_of_message i (marker_key (dl_id d) a)"
  shows "keeps (quiet i) (attempt_delivery env meta event d)"
  unfolding attempt_delivery_def send_to_target_def
  by (auto simp: Let_def input_key_def assms split: transit_address.splits
      intro!: quiet_rules quiet_call_hub quiet_call_room)

lemma quiet_close [quiet_rules]: "keeps (quiet i) (close_dispatch env d)"
  unfolding close_dispatch_def by (intro quiet_rules)

lemma dispatchDelivery_calm [calm_rules]:
  assumes "plain_ids D"
  shows "keeps (calm D E i) (dispatchDelivery env ident)"
proof (rule calm_quietI, rule dispatchDelivery_advances)
  fix w assume wf: "channel_wf D E w" and settled: "settled_in i w"
  have plain: "COLON \<notin> set x" if "kv_get (ig_deliveries (cw_self w)) x = Some d" for x d
  proof -
    have "x \<in> D ` {..<cw_draws w}" using wf that by (auto simp: channel_wf_def deliveries_wf_def)
    then show ?thesis using assms by (auto simp: plain_ids_def)
  qed
  have "quiet i w (fst (bind_op (attempt_delivery env meta event d) (close_dispatch env) w))"
    if d: "kv_get (ig_deliveries (cw_self w)) ident = Some d" "dl_settledAt d = None" for meta event d
  proof -
    have "dl_id d = ident" "ident \<noteq> i" using channel_wf_key [OF wf d(1)] settled d by (auto simp: settled_in_def)
    then have "\<not> marker_of_message i (marker_key (dl_id d) a)" for a
      using marker_of_other plain d(1) settled by (metis settled_in_def)
    then have "keeps (quiet i) (bind_op (attempt_delivery env meta event d) (close_dispatch env))"
      by (intro quiet_rules quiet_attempt)
    then show ?thesis by (simp add: keeps_def)
  qed
  then show "quiet i w (fst (dispatchDelivery env ident w))"
    by (auto simp: dispatchDelivery_def run_reads run_simps quiet.refl split: option.splits)
qed

lemma quiet_settle [quiet_rules]: "keeps (quiet i) (settle env org d)"
  unfolding settle_def by (intro quiet_rules)

lemma quiet_settling [quiet_rules]: "keeps (quiet i) (finishHandled env d org)" "keeps (quiet i) (settleConversation env c)"
    "keeps (quiet i) (assertOwner env d caller org)" "keeps (quiet i) (recordInjection env x target via)"
  unfolding finishHandled_def settleConversation_def settle_if_of_def assertOwner_def recordInjection_def
  by (auto simp: Let_def split: option.splits transit_address.splits intro!: quiet_rules)

lemma commit_event_calm [calm_rules]: "channel_fit D E env \<Longrightarrow> keeps (calm D E i) (commit_event env meta event)"
  by (intro calmI commit_event_advances quiet_rules)

lemmas calm_frame [calm_rules] = calm_untouched [OF keeps_token quiet_token] calm_untouched [OF keeps_requires(1) quiet_readers(1)]
  calm_untouched [OF keeps_requires(2) quiet_readers(2)] calm_untouched [OF keeps_requires(3) quiet_readers(3)]
  calm_untouched [OF keeps_status quiet_status] calm_untouched [OF keeps_scheduleAt quiet_alarm]
  calm_untouched [OF keeps_connectorFor quiet_config(1)] calm_untouched [OF keeps_openConfig quiet_config(2)]
  calm_untouched [OF keeps_health(1) quiet_next(3)] calm_untouched [OF keeps_health(2) quiet_next(4)]
  calm_untouched [OF keeps_health(3) quiet_next(5)] calm_untouched [OF keeps_health(4) quiet_next(2)]
  calm_untouched [OF keeps_health(5) quiet_next(6)] calm_untouched [OF keeps_emit quiet_emit] calm_untouched [OF keeps_self quiet_self]
  calmI [OF settleConversation_advances quiet_settling(2)]

lemma ingestEvent_calm [calm_rules]:
  "channel_fit D E env \<Longrightarrow> plain_ids D \<Longrightarrow> keeps (calm D E i) (ingestEvent env event)"
  unfolding ingestEvent_def by (auto split: option.splits ingest_result.splits intro!: calm_rules)

lemma connector_act_calm [calm_rules]:
  "channel_fit D E env \<Longrightarrow> plain_ids D \<Longrightarrow> keeps (calm D E i) (connector_act env act)"
  unfolding connector_act_def by (cases act) (auto intro!: calm_rules)

lemma run_callback_calm [calm_rules]:
  "channel_fit D E env \<Longrightarrow> plain_ids D \<Longrightarrow> keeps (calm D E i) (run_callback env call)"
  unfolding run_callback_def by (intro calm_rules)

lemma run_hook_calm [calm_rules]:
  "channel_fit D E env \<Longrightarrow> plain_ids D \<Longrightarrow> keeps (calm D E i) (run_hook env hook config)"
  unfolding run_hook_def by (auto split: option.splits intro: calm_rules)

lemma markHandled_calm [calm_rules]: "keeps (calm D E i) (markHandled env ident caller)" "keeps (calm D E i) (operatorMarkHandled env ident)"
  unfolding markHandled_def operatorMarkHandled_def
  by (intro calmI [OF markHandled_advances [unfolded markHandled_def]] calmI [OF operatorMarkHandled_advances [unfolded operatorMarkHandled_def]]
      quiet_rules)+

section \<open>Replies, polls, alarms\<close>

lemma postRecordedReply_quiet:
  assumes "channel_fit D E env" "plain_ids D" "channel_wf D E w" "settled_in i w"
  shows "quiet i w (fst (postRecordedReply env meta event d r w))"
proof -
  let ?rest = "then_op (emit (ReplyWrite (posted env r))) (then_op (emit (DeliveryWrite (settled env d)))
            (cancelHostQueue env (settled env d) (im_org meta)))"
  have post: "quiet i w (fst (run_callback env call w))" for call :: "unit callback"
    using calm.keepsD [OF run_callback_calm [OF assms(1,2), of i call], of w] assms(3,4) by (simp add: calm_def)
  have "quiet i v (fst (?rest (after_post req (posted env r) (settled env d) v)))" for v req
  proof (rule quiet.trans)
    show "quiet i v (after_post req (posted env r) (settled env d) v)" by (simp add: quiet_def after_post_def qh.refl)
    show "quiet i (after_post req (posted env r) (settled env d) v) (fst (?rest (after_post req (posted env r) (settled env d) v)))"
      by (rule quiet.keepsD) (intro quiet_rules)
  qed
  note rest = this
  have out: "quiet i v (v\<lparr>cw_out := x\<rparr>)" for v x by (simp add: quiet_def qh.refl)
  show ?thesis
  proof (cases "ch_connectors env (im_connector meta)")
    case (Some c)
    show ?thesis
    proof (cases "ch_open env (im_configEnc meta)")
      case (Inr config)
      obtain w1 res where w1: "run_callback env (cn_postReply c config (request_of event d r)) w = (w1, res)" by fastforce
      then have "quiet i w w1" using post by (metis fst_conv)
      then show ?thesis
        using quiet.trans rest out by (cases res) (auto simp: postRecordedReply_run Some Inr w1)
    qed (simp add: postRecordedReply_run Some quiet.refl)
  qed (simp add: postRecordedReply_run quiet.refl)
qed

lemma retry_reply_quiet:
  assumes "channel_fit D E env" "plain_ids D" "channel_wf D E w" "settled_in i w"
  shows "quiet i w (fst (retry_reply env meta r w))"
proof -
  have "quiet i w (fst (try_op (postRecordedReply env meta event d r)
          (\<lambda>e. then_op (put_reply (delayed env e r)) (emit (ReplyWrite (delayed env e r)))) w))" for event d
    by (rule quiet.try_at, rule postRecordedReply_quiet [OF assms], rule quiet.keepsD, intro quiet_rules)
  then show ?thesis by (auto simp: retry_reply_def run_reads run_simps quiet.refl split: option.splits)
qed

lemma retryReplies_calm [calm_rules]:
  assumes "channel_fit D E env" "plain_ids D"
  shows "keeps (calm D E i) (retryReplies env meta)"
proof (rule calm_quietI [OF retryReplies_advances [OF assms(1)]])
  fix w assume wf: "channel_wf D E w" and s: "settled_in i w"
  have "calm D E i w (fst (retryReplies env meta w))"
    by (rule retryReplies_by [OF calm.step_relation_axioms _ assms(1) _ wf])
      (simp_all add: calm_def retry_reply_advances(1) [OF assms(1)] retry_reply_quiet [OF assms])
  then show "quiet i w (fst (retryReplies env meta w))" using wf s by (simp add: calm_def)
qed

lemma chatReply_quiet:
  assumes fit: "channel_fit D E env" "plain_ids D" and wf: "channel_wf D E w" and s: "settled_in i w"
  shows "quiet i w (fst (chatReply env inp w))"
proof (cases "kv_get (ig_replies (cw_self w)) (ri_deliveryId inp)")
  case None
  have "quiet i w (fst (bind_op (chatReply_open env inp) (\<lambda>(meta, event, d, reply). chatReply_post env meta event d reply) w))"
  proof (rule quiet.bind_at)
    show "quiet i w (fst (chatReply_open env inp w))"
      by (rule chatReply_open_cases [OF _ wf None, of env "fst (chatReply_open env inp w)" "snd (chatReply_open env inp w)"])
         (simp_all add: quiet.refl, simp add: quiet_def after_open_def put_reply_def put_delivery_def run_self_op qh.refl)
    fix a w1 assume w1: "chatReply_open env inp w = (w1, Inr a)"
    then have adv: "advances D E w w1" using wf None by (cases rule: chatReply_open_cases) auto
    note s1 = settled_in_advances [OF adv wf s] and wf1 = advancesD(1) [OF adv wf]
    obtain meta event d reply where a: "a = (meta, event, d, reply)" by (metis prod_cases4)
    have "quiet i w1 (fst (chatReply_post env meta event d reply w1))"
      unfolding chatReply_post_def
      by (rule quiet.try_at, rule quiet.then_at, rule postRecordedReply_quiet [OF fit wf1 s1])
         (simp add: run_simps quiet.refl, rule quiet.keepsD, intro quiet_rules)
    then show "quiet i w1 (fst ((case a of (meta, event, d, reply) \<Rightarrow> chatReply_post env meta event d reply) w1))"
      by (simp add: a)
  qed
  then show ?thesis by (simp add: chatReply_def run_reads None)
qed (simp add: chatReply_def run_reads run_simps quiet.refl)

lemma chatReply_calm [calm_rules]:
  "channel_fit D E env \<Longrightarrow> plain_ids D \<Longrightarrow> keeps (calm D E i) (chatReply env inp)"
  by (rule calm_quietI [OF chatReply_advances]) (auto intro: chatReply_quiet)

lemma quiet_reading [quiet_rules]: "keeps (quiet i) (readMessage env ident caller)" "keeps (quiet i) (readMessageV2 env ident caller)"
    "keeps (quiet i) (attachment_fetch env b x index)"
  unfolding readMessageV2_def readMessage_def record_read_def scheduleDelivery_def attachment_fetch_def
  by (auto simp: Let_def split: option.splits prod.splits intro!: quiet_rules)

lemma dispatchDue_calm [calm_rules]: "plain_ids D \<Longrightarrow> keeps (calm D E i) (dispatchDue env)"
  unfolding dispatchDue_def by (intro calm_rules)

lemma runPollWindow_calm [calm_rules]:
  assumes "channel_fit D E env" "plain_ids D"
  shows "keeps (calm D E i) (runPollWindow env meta connector)"
  by (rule runPollWindow_by [OF calm.step_relation_axioms])
    (intro calm_rules fit_later assms, use assms(1) in \<open>simp add: channel_fit_def\<close>)+

lemma integration_alarm_calm [calm_rules]:
  "channel_fit D E env \<Longrightarrow> plain_ids D \<Longrightarrow> keeps (calm D E i) (integration_alarm env)"
  unfolding integration_alarm_def by (auto split: option.splits intro!: calm_rules)

lemma integration_configure_calm [calm_rules]:
  "channel_fit D E env \<Longrightarrow> plain_ids D \<Longrightarrow> keeps (calm D E i) (integration_configure env inp)"
  unfolding integration_configure_def by (auto simp: Let_def split: option.splits prod.splits intro!: calm_rules)

lemma integration_pause_calm [calm_rules]:
  "channel_fit D E env \<Longrightarrow> plain_ids D \<Longrightarrow> keeps (calm D E i) (integration_pause env paused)"
  unfolding integration_pause_def by (auto intro!: calm_rules)

lemma integration_webhook_calm [calm_rules]:
  "channel_fit D E env \<Longrightarrow> plain_ids D \<Longrightarrow> keeps (calm D E i) (integration_webhook env request)"
  unfolding integration_webhook_def by (auto split: option.splits intro!: calm_rules)

lemma integration_requeue_calm [calm_rules]: "keeps (calm D E i) (integration_requeue env ident)"
  by (rule calm_quietI [OF integration_requeue_advances])
     (auto simp: integration_requeue_def run_reads run_simps quiet.refl split: option.splits dest: channel_wf_key)

lemma serve_calm:
  assumes "channel_fit D E env" "plain_ids D"
  shows "calm D E i w (serve env request w)"
  using assms
  by (cases request)
    (auto simp: done_op_def intro!: calm.keepsD calm_rules calmI [OF readMessage_advances quiet_reading(1)]
      calmI [OF readMessageV2_advances quiet_reading(2)] calmI [OF attachment_fetch_advances quiet_reading(3)]
      calmI [OF recordInjection_advances quiet_settling(4)])

end
