(* ===== verification/Site.thy ===== *)
theory Site
  imports Channel Host_Roster Directory
begin

text \<open>
  \<^verbatim>\<open>src/do/host-hub.ts\<close>, the frames of a daemon and the admission of what it sends. A site is the
  database with every hub, room and channel object by its name, and the record of what each did
  outside; a call of another object runs to its end inside the operation. A hub's own calls of rooms
  and channels (\<open>RoomAcknowledge\<close>, \<open>ReportInjection\<close>) are made after the step that asked for them.
\<close>

section \<open>A site\<close>

text \<open>What a tool answers; its JSON text is \<open>JSON.stringify\<close> of the object the source builds from it.\<close>

datatype tool_result =
  TextResult jstr
| MessageResult jstr "message_attachment list"
| ReplyResult chat_reply_result
| InboxResult "inbox_entry list"
| SettledResult bool
| HandledResult bool
| AgentsResult "agent_listing list"
| RoomsResult "room_listing list"
| TranscriptResult room_detail
| CreatedResult room_row
| JoinedResult join_result
| LeftResult bool

datatype site_effect =
  HubDid jstr hub_effect
| RoomDid jstr room_effect
| ChannelDid jstr channel_effect
| RpcAnswered jstr jstr "jstr + tool_result"

record site =
  si_db :: d1
  si_hubs :: hub_store
  si_rooms :: room_store
  si_channels :: "(jstr, integration) store"
  si_draws :: nat
  si_out :: "site_effect list"

text \<open>
  What an operation reads outside the site: the clock, the random ids, the meter of a deployment,
  which objects a call does not reach, \<open>JSON.parse\<close> and \<open>Date.parse\<close>, and what the channels use.
\<close>

record site_env =
  sv_now :: int
  sv_txId :: jstr
  sv_canAccept :: "jstr \<Rightarrow> bool"
  sv_unreachable :: "jstr \<Rightarrow> jstr option"
  sv_send_error :: "queued_delivery \<Rightarrow> jstr option"
  sv_before :: "jstr \<Rightarrow> jstr \<Rightarrow> bool"
  sv_parse :: "jstr \<Rightarrow> json option"
  sv_date :: "jstr \<Rightarrow> int option"
  sv_channel :: channel_env

type_synonym 'a site_op = "(site, 'a) op"

definition hub_env_of :: "site_env \<Rightarrow> d1 \<Rightarrow> hub_env" where
  "hub_env_of env db = \<lparr>he_db = db, he_now = sv_now env, he_send_error = sv_send_error env,
     he_before = sv_before env\<rparr>"

definition room_env_of :: "site_env \<Rightarrow> d1 \<Rightarrow> room_env" where
  "room_env_of env db = \<lparr>rv_db = db, rv_now = sv_now env, rv_txId = sv_txId env,
     rv_canAcceptMessage = sv_canAccept env, rv_unreachable = sv_unreachable env, rv_hub = hub_env_of env db\<rparr>"

definition channel_env_of :: "site_env \<Rightarrow> d1 \<Rightarrow> channel_env" where
  "channel_env_of env db = (sv_channel env)\<lparr>ch_now := sv_now env, ch_room := room_env_of env db\<rparr>"

definition integration_name :: "jstr \<Rightarrow> jstr \<Rightarrow> jstr" where
  "integration_name org ident = js ''org:'' @ org @ js '':integration:'' @ ident"

definition channel_at :: "site \<Rightarrow> jstr \<Rightarrow> integration" where
  "channel_at s name = (case kv_get (si_channels s) name of None \<Rightarrow> new_integration | Some c \<Rightarrow> c)"

text \<open>An operation of a room, with the hubs it calls; of a channel, with the rooms and hubs it calls.\<close>

definition reached :: "site_env \<Rightarrow> jstr \<Rightarrow> 'a site_op \<Rightarrow> 'a site_op" where
  "reached env name m = (case sv_unreachable env name of Some e \<Rightarrow> throw_op e | None \<Rightarrow> m)"

definition on_room ::
  "site_env \<Rightarrow> jstr \<Rightarrow> (room_env \<Rightarrow> room \<times> hub_store \<Rightarrow> (room \<times> hub_store) \<times> room_effect list \<times> (jstr + 'a)) \<Rightarrow>
     'a site_op" where
  "on_room env name f s =
     (let ((ro, hubs), effs, r) = f (room_env_of env (si_db s)) (room_at (si_rooms s) name, si_hubs s)
      in (s\<lparr>si_rooms := kv_put name ro (si_rooms s), si_hubs := hubs,
            si_out := si_out s @ map (RoomDid name) effs\<rparr>, r))"

definition on_channel :: "site_env \<Rightarrow> jstr \<Rightarrow> (channel_env \<Rightarrow> 'a channel_op) \<Rightarrow> 'a site_op" where
  "on_channel env name f s =
     (let (w, r) = f (channel_env_of env (si_db s))
            \<lparr>cw_self = channel_at s name, cw_rooms = si_rooms s, cw_hubs = si_hubs s, cw_out = [],
             cw_draws = si_draws s\<rparr>
      in (s\<lparr>si_channels := kv_put name (cw_self w) (si_channels s), si_rooms := cw_rooms w,
            si_hubs := cw_hubs w, si_draws := cw_draws w,
            si_out := si_out s @ map (ChannelDid name) (cw_out w)\<rparr>, r))"

text \<open>What a hub reports to a room or a channel after an acknowledgement; a failure is logged and dropped.\<close>

definition reportInjection :: "site_env \<Rightarrow> jstr \<Rightarrow> jstr \<Rightarrow> jstr \<Rightarrow> jstr \<Rightarrow> unit site_op" where
  "reportInjection env org deliveryId targetAddr via =
     bind_op (read_op (\<lambda>s. integrationForDelivery (si_db s) org deliveryId)) (\<lambda>i.
     case truthy i of None \<Rightarrow> throw_op (js ''delivery not found'')
     | Some ident \<Rightarrow> reached env (integration_name org ident)
         (on_channel env (integration_name org ident) (\<lambda>ce. recordInjection ce deliveryId targetAddr via)))"

definition report :: "site_env \<Rightarrow> hub_effect \<Rightarrow> unit site_op" where
  "report env eff =
     (case eff of
        RoomAcknowledge org room addr sequence \<Rightarrow>
          try_op (reached env (room_name org room)
            (on_room env (room_name org room) (\<lambda>re (ro, hubs).
               let (ro', effs, r) = acknowledge re addr sequence ro in ((ro', hubs), effs, r))))
            (\<lambda>_. return_op ())
      | ReportInjection org deliveryId addr via \<Rightarrow>
          try_op (reportInjection env org deliveryId addr via) (\<lambda>_. return_op ())
      | _ \<Rightarrow> return_op ())"

definition on_hub ::
  "site_env \<Rightarrow> jstr \<Rightarrow> (hub_env \<Rightarrow> host_hub \<Rightarrow> host_hub \<times> hub_effect list \<times> 'a) \<Rightarrow> 'a site_op" where
  "on_hub env name f s =
     (let (st, effs, a) = f (hub_env_of env (si_db s)) (hub_at (si_hubs s) name)
      in then_op (each_op (report env) effs) (return_op a)
           (s\<lparr>si_hubs := kv_put name st (si_hubs s), si_out := si_out s @ map (HubDid name) effs\<rparr>))"

definition hub_read :: "jstr \<Rightarrow> (host_hub \<Rightarrow> 'a) \<Rightarrow> 'a site_op" where
  "hub_read name f = read_op (\<lambda>s. f (hub_at (si_hubs s) name))"

definition hub_tell :: "jstr \<Rightarrow> hub_effect list \<Rightarrow> unit site_op" where
  "hub_tell name effs = write_op (\<lambda>s. s\<lparr>si_out := si_out s @ map (HubDid name) effs\<rparr>)"


section \<open>Admission\<close>

text \<open>\<open>self\<close> is the name of the hub that runs the operation, \<open>identity\<close> the host the caller proved to be.\<close>

datatype send_outcome = Admitted | Refused send_nak_code

definition send_key :: "jstr \<Rightarrow> jstr" where "send_key ident = js ''s:'' @ ident"
definition send_rate_key :: "jstr \<Rightarrow> jstr" where "send_rate_key name = js ''rate:send:'' @ name"

definition put_send :: "site_env \<Rightarrow> jstr \<Rightarrow> jstr \<Rightarrow> send_state \<Rightarrow> unit site_op" where
  "put_send env self ident state =
     on_hub env self (\<lambda>_ st. (st\<lparr>hub_sends := kv_put (send_key ident) state (hub_sends st)\<rparr>, [], ()))"

definition rejectSend :: "site_env \<Rightarrow> jstr \<Rightarrow> jstr \<Rightarrow> send_nak_code \<Rightarrow> send_outcome site_op" where
  "rejectSend env self ident code =
     then_op (put_send env self ident (SendNakked code)) (return_op (Refused code))"

definition mirrorMessage ::
  "site_env \<Rightarrow> jstr \<Rightarrow> jstr option \<Rightarrow> jstr \<Rightarrow> send_frame \<Rightarrow> jstr \<Rightarrow> hub_effect list" where
  "mirrorMessage env org recipientOrg fromAddr frame targetAddr =
     [ArchiveDm (sf_id frame) org recipientOrg fromAddr targetAddr (sf_body frame) (sf_reply_to frame)
        (case sv_date env (sf_ts frame) of None \<Rightarrow> sv_now env | Some t \<Rightarrow> t) (sv_now env)]"

definition message_committed :: "site_env \<Rightarrow> host_identity \<Rightarrow> send_frame \<Rightarrow> hub_effect" where
  "message_committed env identity frame =
     Broadcast (MessageCommitted (sf_id frame) (sf_from frame) (sf_to frame)) (sv_now env) (Some (hi_org identity))"

text \<open>
  The organization an address names and what the sender is called there: its own organization under
  its own address, or a connected one under its qualified address. \<open>None\<close>: not connected.
\<close>

type_synonym route = "jstr \<times> jstr \<times> jstr option"

definition route_to ::
  "d1 \<Rightarrow> host_identity \<Rightarrow> jstr \<Rightarrow> jstr \<Rightarrow> jstr \<Rightarrow> jstr option \<Rightarrow> jstr + route option" where
  "route_to db identity name host addr organization =
     (case truthy organization of
        None \<Rightarrow> Inr (Some (hi_org identity, addr, None))
      | Some slug \<Rightarrow>
          (case resolveConnectedOrganization db (hi_org identity) slug of
             None \<Rightarrow> Inr None
           | Some c \<Rightarrow>
               rbind (thrown (formatAgentAddress name host (Some (co_sourceSlug c)))) (\<lambda>a.
                 Inr (Some (co_targetOrgId c, a, Some (co_connectionId c))))))"

definition post_nak :: "jstr \<Rightarrow> send_nak_code" where
  "post_nak message =
     (if message = js ''body_too_large'' then BodyTooLarge
      else if message = js ''plan_limit'' then PlanLimit else NotMember)"

definition room_has_member :: "site_env \<Rightarrow> jstr \<Rightarrow> jstr \<Rightarrow> bool site_op" where
  "room_has_member env name addr = reached env name
     (on_room env name (\<lambda>_ (ro, hubs). ((ro, hubs), [], hasMember addr ro)))"

definition admit_room ::
  "site_env \<Rightarrow> jstr \<Rightarrow> host_identity \<Rightarrow> send_frame \<Rightarrow> route option \<Rightarrow> jstr \<Rightarrow> send_outcome site_op" where
  "admit_room env self identity frame route room =
     (case route of
        None \<Rightarrow> rejectSend env self (sf_id frame) NoRoute
      | Some (roomOrg, memberAddress, _) \<Rightarrow>
          let name = room_name roomOrg room in
          bind_op (read_op (\<lambda>s. room_exists (si_db s) roomOrg room)) (\<lambda>roomExists.
          bind_op (if roomExists then room_has_member env name memberAddress else return_op False) (\<lambda>member.
          if \<not> member then rejectSend env self (sf_id frame) NotMember
          else bind_op (try_op
            (then_op (reached env name (on_room env name (\<lambda>re world.
                post re memberAddress (sf_body frame) (sf_reply_to frame) (Some (sf_id frame)) world)))
              (return_op None))
            (\<lambda>e. return_op (Some (post_nak e)))) (\<lambda>failed.
          case failed of
            Some code \<Rightarrow> rejectSend env self (sf_id frame) code
          | None \<Rightarrow>
              then_op (put_send env self (sf_id frame) SendAcked)
              (then_op (hub_tell self [message_committed env identity frame])
                (return_op Admitted))))))"

definition direct_input ::
  "host_identity \<Rightarrow> send_frame \<Rightarrow> route \<Rightarrow> jstr \<Rightarrow> jstr \<Rightarrow> jstr \<Rightarrow> queue_delivery_input" where
  "direct_input identity frame route name host addr =
     (let (targetOrg, envelopeFrom, connectionId) = route in
      \<lparr>qi_messageId = sf_id frame, qi_org = hi_org identity, qi_targetOrg = targetOrg, qi_targetHost = host,
       qi_agent = name, qi_targetAddr = addr,
       qi_envelope = renderEnvelope (DirectEnvelope
         \<lparr>de_from = envelopeFrom, de_id = sf_id frame, de_ts = sf_ts frame, de_body = sf_body frame,
          de_replyTo = sf_reply_to frame, de_replyTarget = None\<rparr>),
       qi_render = None, qi_enqueuedAt = None, qi_roomName = None, qi_roomSeq = None, qi_redelivery = False,
       qi_connectionId = truthy connectionId\<rparr>)"

definition admit_direct ::
  "site_env \<Rightarrow> jstr \<Rightarrow> host_identity \<Rightarrow> send_frame \<Rightarrow> route option \<Rightarrow> jstr \<Rightarrow> jstr \<Rightarrow> jstr \<Rightarrow> send_outcome site_op" where
  "admit_direct env self identity frame route name host addr =
     (case route of
        None \<Rightarrow> rejectSend env self (sf_id frame) NoRoute
      | Some (targetOrg, envelopeFrom, connectionId) \<Rightarrow>
          bind_op (read_op (\<lambda>s. host_live (si_db s) targetOrg host)) (\<lambda>live.
          if \<not> live then rejectSend env self (sf_id frame) NoRoute
          else bind_op (reached env (hub_name targetOrg host) (on_hub env (hub_name targetOrg host)
              (\<lambda>he. queueDelivery he (direct_input identity frame (targetOrg, envelopeFrom, connectionId) name host addr))))
            (\<lambda>queued.
          if queued = NoRouteTo then rejectSend env self (sf_id frame) NoRoute
          else then_op (put_send env self (sf_id frame) SendAcked)
            (then_op (hub_tell self
                (mirrorMessage env (hi_org identity) (if targetOrg = hi_org identity then None else Some targetOrg)
                   envelopeFrom frame addr @ [message_committed env identity frame]))
              (return_op Admitted)))))"

definition consume_send :: "site_env \<Rightarrow> jstr \<Rightarrow> jstr \<Rightarrow> bool site_op" where
  "consume_send env self name = on_hub env self (\<lambda>he st.
     let (rates, allowed) = consumeStoredToken (hub_rates st) (send_rate_key name) 10 10 (he_now he)
     in (st\<lparr>hub_rates := rates\<rparr>, [], allowed))"

text \<open>The part of \<open>admitSend\<close> after the addresses are parsed, and the whole.\<close>

definition admit_parsed ::
  "site_env \<Rightarrow> jstr \<Rightarrow> host_identity \<Rightarrow> send_frame \<Rightarrow> bool \<Rightarrow> transit_address \<Rightarrow> transit_address \<Rightarrow> send_outcome site_op" where
  "admit_parsed env self identity frame verifyRoster from' target =
     (case from' of
        RoomAddress _ _ _ \<Rightarrow> rejectSend env self (sf_id frame) NoRoute
      | AgentAddress name host organization addr \<Rightarrow>
          bind_op (hub_read self (\<lambda>st. hasAgent st name)) (\<lambda>known.
          if organization \<noteq> None \<or> host \<noteq> hi_slug identity \<or> (verifyRoster \<and> \<not> known)
          then rejectSend env self (sf_id frame) NoRoute
          else bind_op (consume_send env self name) (\<lambda>allowed.
            if \<not> allowed then rejectSend env self (sf_id frame) RateLimited
            else if MAX_MESSAGE_BYTES < utf8_length (sf_body frame)
              then rejectSend env self (sf_id frame) BodyTooLarge
            else if \<not> sv_canAccept env (hi_org identity)
              then rejectSend env self (sf_id frame) PlanLimit
            else bind_op (bind_op (read_op (\<lambda>s. route_to (si_db s) identity name host addr (addr_organization target)))
                lift_op) (\<lambda>route.
              case target of
                RoomAddress room _ _ \<Rightarrow> admit_room env self identity frame route room
              | AgentAddress name' host' _ addr' \<Rightarrow> admit_direct env self identity frame route name' host' addr'))))"

definition parse_nak :: "address_error \<Rightarrow> send_nak_code" where
  "parse_nak e = (if err_code e = Reserved_name then ReservedName else NoRoute)"

definition admitSend :: "site_env \<Rightarrow> jstr \<Rightarrow> host_identity \<Rightarrow> send_frame \<Rightarrow> bool \<Rightarrow> send_outcome site_op" where
  "admitSend env self identity frame verifyRoster =
     bind_op (hub_read self (\<lambda>st. kv_get (hub_sends st) (send_key (sf_id frame)))) (\<lambda>prior.
     case prior of
       Some SendAcked \<Rightarrow> return_op Admitted
     | Some (SendNakked code) \<Rightarrow> return_op (Refused code)
     | _ \<Rightarrow> then_op (put_send env self (sf_id frame) SendProcessing)
         (case rbind (parseAddress (sf_from frame)) (\<lambda>f. rbind (parseAddress (sf_to frame)) (\<lambda>t. Inr (f, t))) of
            Inl e \<Rightarrow> rejectSend env self (sf_id frame) (parse_nak e)
          | Inr (from', target) \<Rightarrow> admit_parsed env self identity frame verifyRoster from' target))"

definition submitSend :: "site_env \<Rightarrow> jstr \<Rightarrow> host_identity \<Rightarrow> send_frame \<Rightarrow> send_outcome site_op" where
  "submitSend env self identity frame = admitSend env self identity frame False"

definition handleSend :: "site_env \<Rightarrow> jstr \<Rightarrow> host_identity \<Rightarrow> send_frame \<Rightarrow> unit site_op" where
  "handleSend env self identity frame =
     bind_op (admitSend env self identity frame True) (\<lambda>outcome.
       hub_tell self [Frame (case outcome of
          Admitted \<Rightarrow> SendAck (sf_id frame) | Refused code \<Rightarrow> SendNak (sf_id frame) code)])"


section \<open>The frames of a daemon\<close>

definition wire_code_text :: "wire_code \<Rightarrow> jstr" where
  "wire_code_text c = (case c of FrameTooLarge \<Rightarrow> js ''frame_too_large'' | InvalidJson \<Rightarrow> js ''invalid_json''
     | InvalidFrame \<Rightarrow> js ''invalid_frame'')"

definition close_socket :: "nat \<Rightarrow> jstr \<Rightarrow> hub_env \<Rightarrow> host_hub \<Rightarrow> host_hub \<times> hub_effect list \<times> unit" where
  "close_socket code reason he st = (st\<lparr>hub_socket := None\<rparr>, [CloseSocket code reason], ())"

text \<open>
  The token of a frame: the bucket of the connection, which is kept with its attachment. An allowed
  frame also tells the database that the host was seen.
\<close>

definition take_frame :: "site_env \<Rightarrow> jstr \<Rightarrow> daemon_attachment \<Rightarrow> (bool \<times> daemon_attachment) site_op" where
  "take_frame env self a = on_hub env self (\<lambda>he st.
     let (rate, allowed) = consumeToken (da_frameRate a) 50 100 (he_now he);
         a1 = a\<lparr>da_frameRate := rate\<rparr>
     in (st\<lparr>hub_socket := Some a1\<rparr>,
         if allowed then [HostSeen (he_now he) (hi_hostId (da_identity a)) (hi_org (da_identity a))] else [],
         (allowed, a1)))"

definition handleRoster :: "site_env \<Rightarrow> jstr \<Rightarrow> host_identity \<Rightarrow> roster_agent list \<Rightarrow> nat option \<Rightarrow> unit site_op" where
  "handleRoster env self identity agents dead =
     then_op (on_hub env self (\<lambda>he st. let (st', effs) = applyRoster he identity agents st in (st', effs, ())))
       (on_hub env self (\<lambda>he st.
          (case dead of None \<Rightarrow> st | Some n \<Rightarrow> st\<lparr>hub_spooledDead := Some n\<rparr>, [], ())))"

end
