(* ===== verification/Site_Tools.thy ===== *)
theory Site_Tools
  imports Site
begin

text \<open>
  \<^verbatim>\<open>src/do/host-hub.ts\<close>, the tools: \<open>invokeRpc\<close>, which the daemon's socket and the MCP endpoint share,
  what each tool asks of its caller, and \<open>webSocketMessage\<close>, which hands the frames out.
\<close>

section \<open>Parameters and callers\<close>

definition text_param :: "json_object \<Rightarrow> string \<Rightarrow> jstr option" where
  "text_param params key = (case map_of params (js key) of Some (JStr s) \<Rightarrow> Some s | _ \<Rightarrow> None)"

definition needed :: "jstr option \<Rightarrow> string \<Rightarrow> jstr site_op" where
  "needed v message = (case v of None \<Rightarrow> throw_op (js message) | Some s \<Rightarrow> return_op s)"

text \<open>An agent of this host, by its bare address; \<open>admits\<close> is the further test of its name.\<close>

definition own_agent ::
  "host_identity \<Rightarrow> string \<Rightarrow> (jstr \<Rightarrow> bool site_op) \<Rightarrow> jstr \<Rightarrow> (jstr \<times> jstr) site_op" where
  "own_agent identity refusal admits address =
     bind_op (lift_op (thrown (parseAddress address))) (\<lambda>caller.
     case caller of
       AgentAddress name host organization addr \<Rightarrow>
         if organization \<noteq> None \<or> host \<noteq> hi_slug identity then throw_op (js refusal)
         else bind_op (admits name) (\<lambda>ok. if ok then return_op (name, addr) else throw_op (js refusal))
     | RoomAddress _ _ _ \<Rightarrow> throw_op (js refusal))"

definition on_roster :: "jstr \<Rightarrow> bool \<Rightarrow> jstr \<Rightarrow> bool site_op" where
  "on_roster self verifyRoster name =
     (if verifyRoster then hub_read self (\<lambda>st. hasAgent st name) else return_op True)"

definition rpcCaller :: "jstr \<Rightarrow> host_identity \<Rightarrow> json_object \<Rightarrow> bool \<Rightarrow> jstr site_op" where
  "rpcCaller self identity params verifyRoster =
     bind_op (needed (text_param params ''caller'') ''caller is required'') (\<lambda>c.
     bind_op (own_agent identity ''invalid rpc caller'' (on_roster self verifyRoster) c) (\<lambda>(name, addr). return_op addr))"

definition can_hold :: "site_env \<Rightarrow> jstr \<Rightarrow> host_identity \<Rightarrow> jstr \<Rightarrow> bool site_op" where
  "can_hold env self identity name = read_op (\<lambda>s. canReceive (hub_env_of env (si_db s))
     (hub_at (si_hubs s) self) name (hi_org identity) (hi_slug identity))"

definition rpcInboxCaller :: "site_env \<Rightarrow> jstr \<Rightarrow> host_identity \<Rightarrow> json_object \<Rightarrow> jstr site_op" where
  "rpcInboxCaller env self identity params =
     bind_op (needed (text_param params ''caller'') ''caller is required'') (\<lambda>c.
     bind_op (own_agent identity ''invalid rpc caller'' (can_hold env self identity) c) (\<lambda>(name, addr). return_op name))"

text \<open>The channel object that holds a delivery of the organization, and a call of it.\<close>

definition integration_of :: "jstr \<Rightarrow> jstr \<Rightarrow> jstr site_op" where
  "integration_of org deliveryId =
     bind_op (read_op (\<lambda>s. truthy (integrationForDelivery (si_db s) org deliveryId)))
       (\<lambda>i. needed i ''delivery not found'')"

definition call_integration ::
  "site_env \<Rightarrow> jstr \<Rightarrow> jstr \<Rightarrow> (channel_env \<Rightarrow> 'a channel_op) \<Rightarrow> 'a site_op" where
  "call_integration env org deliveryId f =
     bind_op (integration_of org deliveryId) (\<lambda>i.
       reached env (integration_name org i) (on_channel env (integration_name org i) f))"

definition failure_message :: "service_failure \<Rightarrow> jstr" where
  "failure_message f = (case f of ServiceError _ m \<Rightarrow> m | Uncaught m \<Rightarrow> m)"

definition lift_service :: "service_failure + 'a \<Rightarrow> 'a site_op" where
  "lift_service r = lift_op (case r of Inl f \<Rightarrow> Inl (failure_message f) | Inr a \<Rightarrow> Inr a)"


section \<open>The tools\<close>

text \<open>\<open>as_v2\<close> is the method \<open>read_message_v2\<close>, which also gives the attachments.\<close>

definition archived_message :: "d1 \<Rightarrow> jstr \<Rightarrow> jstr \<Rightarrow> message_row option" where
  "archived_message db org ident =
     find (\<lambda>m. ms_id m = ident \<and> (ms_orgId m = org \<or> ms_recipientOrgId m = Some org)) (messages db)"

definition tool_read_message ::
  "site_env \<Rightarrow> jstr \<Rightarrow> host_identity \<Rightarrow> bool \<Rightarrow> json_object \<Rightarrow> bool \<Rightarrow> tool_result site_op" where
  "tool_read_message env self identity as_v2 params verifyRoster =
     bind_op (needed (text_param params ''id'') ''id is required'') (\<lambda>ident.
     if is_dlv ident then
       bind_op (rpcCaller self identity params verifyRoster) (\<lambda>caller.
         if as_v2 then bind_op (call_integration env (hi_org identity) ident (\<lambda>ce. readMessageV2 ce ident caller))
           (\<lambda>(t, ats). return_op (MessageResult t ats))
         else bind_op (call_integration env (hi_org identity) ident (\<lambda>ce. readMessage ce ident caller))
           (\<lambda>t. return_op (TextResult t)))
     else
       bind_op (read_op (\<lambda>s. archived_message (si_db s) (hi_org identity) ident)) (\<lambda>row.
       case row of None \<Rightarrow> throw_op (js ''message not found'')
       | Some m \<Rightarrow>
           let t = renderFull \<lparr>fe_id = ms_id m, fe_conversationId = ms_id m, fe_user = Some (ms_fromAddr m),
                 fe_connector = js ''transit'', fe_status = js ''injected'', fe_firstRead = False,
                 fe_settled = True, fe_body = ms_body m, fe_instructions = None\<rparr>
           in return_op (if as_v2 then MessageResult t [] else TextResult t)))"

definition tool_chat_reply ::
  "site_env \<Rightarrow> jstr \<Rightarrow> host_identity \<Rightarrow> json_object \<Rightarrow> bool \<Rightarrow> tool_result site_op" where
  "tool_chat_reply env self identity params verifyRoster =
     (case (text_param params ''delivery_id'', text_param params ''conversation_id'', text_param params ''message'') of
        (Some deliveryId, Some conversationId, Some message) \<Rightarrow>
          bind_op (rpcCaller self identity params verifyRoster) (\<lambda>caller.
          let mode = (case text_param params ''reply_mode'' of None \<Rightarrow> None
                | Some m \<Rightarrow> if m = js ''root'' \<or> m = js ''thread'' then Some m else None) in
          bind_op (call_integration env (hi_org identity) deliveryId (\<lambda>ce. chatReply ce
            \<lparr>ri_deliveryId = deliveryId, ri_conversationId = conversationId, ri_caller = caller,
             ri_message = message, ri_replyMode = mode\<rparr>)) (\<lambda>r. return_op (ReplyResult r)))
      | _ \<Rightarrow> throw_op (js ''delivery_id, conversation_id, and message are required''))"

definition tool_read_inbox :: "site_env \<Rightarrow> jstr \<Rightarrow> host_identity \<Rightarrow> json_object \<Rightarrow> tool_result site_op" where
  "tool_read_inbox env self identity params =
     bind_op (rpcInboxCaller env self identity params) (\<lambda>name.
       hub_read self (\<lambda>st. InboxResult (readInbox name st)))"

definition tool_mark_handled ::
  "site_env \<Rightarrow> jstr \<Rightarrow> host_identity \<Rightarrow> json_object \<Rightarrow> bool \<Rightarrow> tool_result site_op" where
  "tool_mark_handled env self identity params verifyRoster =
     bind_op (needed (text_param params ''delivery_id'') ''delivery_id is required'') (\<lambda>deliveryId.
     if is_tx deliveryId then
       bind_op (rpcInboxCaller env self identity params) (\<lambda>name.
       bind_op (on_hub env self (\<lambda>he. settleInbox he name deliveryId)) (\<lambda>settled. return_op (SettledResult settled)))
     else
       bind_op (rpcCaller self identity params verifyRoster) (\<lambda>caller.
       bind_op (call_integration env (hi_org identity) deliveryId (\<lambda>ce. markHandled ce deliveryId caller))
         (\<lambda>duplicate. return_op (HandledResult duplicate))))"

definition tool_list_agents :: "site_env \<Rightarrow> host_identity \<Rightarrow> json_object \<Rightarrow> tool_result site_op" where
  "tool_list_agents env identity params =
     bind_op (bind_op (read_op (\<lambda>s. listAgents (sv_before env) (si_db s) (hi_org identity)
         (text_param params ''host'') (text_param params ''organization''))) lift_service)
       (\<lambda>l. return_op (AgentsResult l))"

definition tool_list_rooms :: "site_env \<Rightarrow> host_identity \<Rightarrow> json_object \<Rightarrow> tool_result site_op" where
  "tool_list_rooms env identity params =
     bind_op (bind_op (read_op (\<lambda>s. listRooms (si_db s) (hi_org identity)
         (text_param params ''organization'') None (sv_now env))) lift_service)
       (\<lambda>l. return_op (RoomsResult l))"

text \<open>The room object a tool means and what the caller is called in it.\<close>

definition room_route ::
  "host_identity \<Rightarrow> jstr \<Rightarrow> jstr \<Rightarrow> jstr \<Rightarrow> transit_address \<Rightarrow> (jstr \<times> jstr \<times> jstr \<times> member_input option) site_op" where
  "room_route identity name host addr target =
     (case truthy (addr_organization target) of
        None \<Rightarrow> return_op (hi_org identity, addr_room target, addr, None)
      | Some slug \<Rightarrow>
          bind_op (read_op (\<lambda>s. resolveConnectedOrganization (si_db s) (hi_org identity) slug)) (\<lambda>connected.
          case connected of None \<Rightarrow> throw_op (js ''organization is not connected'')
          | Some c \<Rightarrow>
              bind_op (lift_op (thrown (formatAgentAddress name host (Some (co_sourceSlug c))))) (\<lambda>memberAddress.
              return_op (co_targetOrgId c, addr_room target, memberAddress,
                Some \<lparr>mi_org = hi_org identity, mi_orgSlug = co_sourceSlug c, mi_connectionId = co_connectionId c\<rparr>))))"

text \<open>A limit given as a number counts whole messages.\<close>

definition limit_param :: "json_object \<Rightarrow> int" where
  "limit_param params =
     (case map_of params (js ''limit'') of
        Some (JNum q) \<Rightarrow> \<lfloor>q\<rfloor> | Some (JInfinite positive) \<Rightarrow> (if positive then 500 else 1) | _ \<Rightarrow> 200)"

definition tool_read_room :: "site_env \<Rightarrow> jstr \<Rightarrow> host_identity \<Rightarrow> json_object \<Rightarrow> tool_result site_op" where
  "tool_read_room env self identity params =
     bind_op (needed (text_param params ''room'') ''room is required'') (\<lambda>room.
     bind_op (rpcInboxCaller env self identity params) (\<lambda>name.
     bind_op (lift_op (thrown (parseRoomTarget room))) (\<lambda>target.
     bind_op (lift_op (thrown (formatAgentAddress name (hi_slug identity) None))) (\<lambda>addr.
     bind_op (room_route identity name (hi_slug identity) addr target) (\<lambda>(roomOrg, room', memberAddress, _).
     let key = room_name roomOrg room' in
     bind_op (room_has_member env key memberAddress) (\<lambda>member.
     if \<not> member then throw_op (js ''not a member of this room'')
     else bind_op (reached env key (on_room env key (\<lambda>re (ro, hubs). ((ro, hubs), [], detail re (limit_param params) ro))))
       (\<lambda>d. return_op (TranscriptResult d))))))))"

definition room_caller :: "jstr \<Rightarrow> host_identity \<Rightarrow> json_object \<Rightarrow> bool \<Rightarrow> (transit_address \<times> jstr \<times> jstr) site_op" where
  "room_caller self identity params verifyRoster =
     (case (text_param params ''room'', text_param params ''address'') of
        (Some room, Some address) \<Rightarrow>
          bind_op (lift_op (thrown (parseRoomTarget room))) (\<lambda>target.
          bind_op (own_agent identity ''invalid room caller'' (on_roster self verifyRoster) address) (\<lambda>(name, addr).
            return_op (target, name, addr)))
      | _ \<Rightarrow> throw_op (js ''room and address are required''))"

definition policy_param :: "json_object \<Rightarrow> room_policy option" where
  "policy_param params =
     (case map_of params (js ''policy'') of
        None \<Rightarrow> Some Open | Some JNull \<Rightarrow> Some Open
      | Some (JStr p) \<Rightarrow> if p = js ''open'' then Some Open else if p = js ''invite'' then Some Invite else None
      | Some _ \<Rightarrow> None)"

definition create_at :: "site_env \<Rightarrow> jstr \<Rightarrow> jstr \<Rightarrow> room_policy \<Rightarrow> jstr option \<Rightarrow> room_row option site_op" where
  "create_at env org room policy creator s =
     (let ((db, rms), effs, r) = createRoom (room_env_of env (si_db s)) org room policy creator (si_db s, si_rooms s)
      in (s\<lparr>si_db := db, si_rooms := rms, si_out := si_out s @ map (RoomDid (room_name org room)) effs\<rparr>, r))"

definition tool_create_room ::
  "site_env \<Rightarrow> jstr \<Rightarrow> host_identity \<Rightarrow> json_object \<Rightarrow> bool \<Rightarrow> tool_result site_op" where
  "tool_create_room env self identity params verifyRoster =
     bind_op (room_caller self identity params verifyRoster) (\<lambda>(target, name, addr).
     if truthy (addr_organization target) \<noteq> None then throw_op (js ''cannot create a room in another organization'')
     else (case policy_param params of
         None \<Rightarrow> throw_op (js ''room policy must be open or invite'')
       | Some policy \<Rightarrow>
           bind_op (create_at env (hi_org identity) (addr_room target) policy (Some addr)) (\<lambda>created.
           case created of None \<Rightarrow> throw_op (js ''room_exists'') | Some row \<Rightarrow> return_op (CreatedResult row))))"

definition tool_join_room ::
  "site_env \<Rightarrow> jstr \<Rightarrow> host_identity \<Rightarrow> json_object \<Rightarrow> bool \<Rightarrow> tool_result site_op" where
  "tool_join_room env self identity params verifyRoster =
     bind_op (room_caller self identity params verifyRoster) (\<lambda>(target, name, addr).
     bind_op (room_route identity name (hi_slug identity) addr target) (\<lambda>(roomOrg, room, memberAddress, member).
     bind_op (reached env (room_name roomOrg room) (on_room env (room_name roomOrg room) (\<lambda>re (ro, hubs).
         let (ro', effs, r) = join re memberAddress ByAgent member ro in ((ro', hubs), effs, r)))) (\<lambda>joined.
     case snd joined of Some e \<Rightarrow> throw_op (join_error_text e) | None \<Rightarrow> return_op (JoinedResult joined))))"

definition tool_leave_room ::
  "site_env \<Rightarrow> jstr \<Rightarrow> host_identity \<Rightarrow> json_object \<Rightarrow> bool \<Rightarrow> tool_result site_op" where
  "tool_leave_room env self identity params verifyRoster =
     bind_op (room_caller self identity params verifyRoster) (\<lambda>(target, name, addr).
     bind_op (room_route identity name (hi_slug identity) addr target) (\<lambda>(roomOrg, room, memberAddress, _).
     bind_op (reached env (room_name roomOrg room) (on_room env (room_name roomOrg room) (\<lambda>re (ro, hubs).
         let (ro', effs, r) = leave re memberAddress ro in ((ro', hubs), effs, r)))) (\<lambda>gone.
     return_op (LeftResult gone))))"

definition invokeRpc ::
  "site_env \<Rightarrow> jstr \<Rightarrow> host_identity \<Rightarrow> jstr \<Rightarrow> json_object \<Rightarrow> bool \<Rightarrow> tool_result site_op" where
  "invokeRpc env self identity method params verifyRoster =
     (if method = js ''read_message'' then tool_read_message env self identity False params verifyRoster
      else if method = js ''read_message_v2'' then tool_read_message env self identity True params verifyRoster
      else if method = js ''chat_reply'' then tool_chat_reply env self identity params verifyRoster
      else if method = js ''read_inbox'' then tool_read_inbox env self identity params
      else if method = js ''mark_handled'' then tool_mark_handled env self identity params verifyRoster
      else if method = js ''list_agents'' then tool_list_agents env identity params
      else if method = js ''list_rooms'' then tool_list_rooms env identity params
      else if method = js ''read_room'' then tool_read_room env self identity params
      else if method = js ''create_room'' then tool_create_room env self identity params verifyRoster
      else if method = js ''join_room'' then tool_join_room env self identity params verifyRoster
      else if method = js ''leave_room'' then tool_leave_room env self identity params verifyRoster
      else throw_op (js ''unknown rpc method''))"


section \<open>Who calls the tools\<close>

definition callRpc ::
  "site_env \<Rightarrow> jstr \<Rightarrow> host_identity \<Rightarrow> jstr \<Rightarrow> json_object \<Rightarrow> (jstr + tool_result) site_op" where
  "callRpc env self identity method params =
     try_op (bind_op (invokeRpc env self identity method params False) (\<lambda>r. return_op (Inr r)))
       (\<lambda>e. return_op (Inl e))"

definition handleRpc ::
  "site_env \<Rightarrow> jstr \<Rightarrow> host_identity \<Rightarrow> jstr \<Rightarrow> jstr \<Rightarrow> json_object \<Rightarrow> unit site_op" where
  "handleRpc env self identity rid method params =
     bind_op (try_op (bind_op (invokeRpc env self identity method params True) (\<lambda>r. return_op (Inr r)))
       (\<lambda>e. return_op (Inl e))) (\<lambda>answer. write_op (\<lambda>s. s\<lparr>si_out := si_out s @ [RpcAnswered self rid answer]\<rparr>))"

definition dispatch_frame :: "site_env \<Rightarrow> jstr \<Rightarrow> daemon_attachment \<Rightarrow> daemon_frame \<Rightarrow> unit site_op" where
  "dispatch_frame env self a frame =
     (let identity = da_identity a in
      case frame of
        Hello ver host \<Rightarrow> on_hub env self (\<lambda>he st. let (st', effs) = handleHello he a ver host st in (st', effs, ()))
      | _ \<Rightarrow>
          if \<not> da_ready a then
            then_op (hub_tell self [Frame (HelloErr (js ''hello_required''))])
              (on_hub env self (close_socket 4002 (js ''hello required'')))
          else (case frame of
              Roster agents dead \<Rightarrow> handleRoster env self identity agents dead
            | Send f \<Rightarrow> handleSend env self identity f
            | DeliverAck ident agent via \<Rightarrow>
                on_hub env self (\<lambda>he st. let (st', effs) = handleDeliveryAck he ident agent via st in (st', effs, ()))
            | DeliverNak ident code retryable agent \<Rightarrow>
                on_hub env self (\<lambda>he st. let (st', effs) = handleDeliveryNak he ident code retryable agent st
                  in (st', effs, ()))
            | Rpc rid method params \<Rightarrow> handleRpc env self identity rid method params
            | _ \<Rightarrow> return_op ()))"

text \<open>A message on the daemon's socket; \<open>None\<close> is a binary one.\<close>

definition webSocketMessage :: "site_env \<Rightarrow> jstr \<Rightarrow> jstr option \<Rightarrow> unit site_op" where
  "webSocketMessage env self raw =
     bind_op (hub_read self hub_socket) (\<lambda>attachment.
     case attachment of None \<Rightarrow> return_op ()
     | Some a \<Rightarrow>
         (case raw of None \<Rightarrow> on_hub env self (close_socket 1003 (js ''text frames required''))
          | Some text' \<Rightarrow>
              bind_op (take_frame env self a) (\<lambda>(allowed, a1).
              if \<not> allowed then on_hub env self (close_socket 4008 (js ''rate_limited''))
              else (case decodeDaemonFrame (sv_parse env) text' of
                  Inl e \<Rightarrow> on_hub env self
                    (close_socket (if we_code e = FrameTooLarge then 1009 else 4002) (wire_code_text (we_code e)))
                | Inr None \<Rightarrow> return_op ()
                | Inr (Some frame) \<Rightarrow> dispatch_frame env self a1 frame))))"

end
