(* ===== verification/Site_Steps.thy ===== *)
theory Site_Steps
  imports Site_Tools Channel_Quiet
begin

text \<open>
  What a relation between the states of hubs must satisfy for every operation of a site to keep it. The
  locale \<open>hub_relation\<close> asks for the two operations that rooms and channels call at hubs and carries
  them through rooms, channels and the site; the operations of a hub itself are asked for where they are used.
\<close>

named_theorems step_rules \<open>operations that keep a relation of hubs\<close>

definition hubs_step :: "(jstr \<Rightarrow> host_hub \<Rightarrow> host_hub \<Rightarrow> bool) \<Rightarrow> hub_store \<Rightarrow> hub_store \<Rightarrow> bool" where
  "hubs_step H hubs hubs' \<longleftrightarrow> (\<forall>n. H n (hub_at hubs n) (hub_at hubs' n))"

definition channel_step :: "(jstr \<Rightarrow> host_hub \<Rightarrow> host_hub \<Rightarrow> bool) \<Rightarrow> channel_world \<Rightarrow> channel_world \<Rightarrow> bool" where
  "channel_step H w w' \<longleftrightarrow> hubs_step H (cw_hubs w) (cw_hubs w')"

definition site_step :: "(jstr \<Rightarrow> host_hub \<Rightarrow> host_hub \<Rightarrow> bool) \<Rightarrow> site \<Rightarrow> site \<Rightarrow> bool" where
  "site_step H s s' \<longleftrightarrow> hubs_step H (si_hubs s) (si_hubs s')"

locale hub_relation =
  fixes H :: "jstr \<Rightarrow> host_hub \<Rightarrow> host_hub \<Rightarrow> bool"
  assumes hub_refl: "H n st st"
    and hub_trans: "H n st st1 \<Longrightarrow> H n st1 st2 \<Longrightarrow> H n st st2"
    and queue_step: "H n st (fst (queueDelivery he inp st))"
    and cancel_step: "H n st (fst (cancelDelivery he m st))"
begin

lemma hubs_relation: "step_relation (hubs_step H)"
  by unfold_locales (auto simp: hubs_step_def hub_refl intro: hub_trans)

lemma channel_relation: "step_relation (channel_step H)"
  by unfold_locales (auto simp: channel_step_def hubs_step_def hub_refl intro: hub_trans)

lemma site_relation: "step_relation (site_step H)"
  by unfold_locales (auto simp: site_step_def hubs_step_def hub_refl intro: hub_trans)

lemmas hubs_refl = step_relation.refl [OF hubs_relation]
lemmas hubs_trans = step_relation.trans [OF hubs_relation]
lemmas channel_keeps = step_relation.keeps_rules [OF channel_relation]
lemmas site_keeps = step_relation.keeps_rules [OF site_relation]

lemma put_step: "H n (hub_at hubs n) st \<Longrightarrow> hubs_step H hubs (kv_put n st hubs)"
  by (simp add: hubs_step_def hub_at_put hub_refl)

section \<open>Rooms\<close>

lemma call_queue: "hubs_step H hubs (fst (call_queueDelivery re n inp hubs))"
  using queue_step [of n "hub_at hubs n" "rv_hub re" inp]
  by (auto simp: call_queueDelivery_def Let_def hubs_refl split_def intro: put_step split: option.splits)

lemma deliver_to_step: "hubs_step H hubs (fst (deliver_to re fc m hubs))"
proof -
  have "hubs_step H hubs hubs'" if "call_queueDelivery re n inp hubs = (hubs', r)" for n inp hubs' r
    using call_queue [of hubs re n inp] that by simp
  then show ?thesis
    by (auto simp: deliver_to_def Let_def hubs_refl
        split: sum.splits transit_address.splits prod.splits queue_status.splits)
qed

lemma fan_out_step: "hubs_step H hubs (fst (fan_out re fc ms hubs))"
proof (induction ms arbitrary: hubs)
  case (Cons m ms)
  have "hubs_step H hubs (fst (deliver_to re fc m hubs))" by (rule deliver_to_step)
  from hubs_trans [OF this Cons.IH] show ?case by (simp add: split_def Let_def)
qed (simp add: hubs_refl)

lemma post_step: "hubs_step H (snd world) (snd (fst (post re from' body replyTo messageId world)))"
  using fan_out_step
  by (auto simp: post_def commit_and_fan_def Let_def hubs_refl split_def split: sum.splits option.splits)

lemma room_cancel_step: "hubs_step H hubs (snd (fst (cancelChannelDelivery re m (ro, hubs))))"
proof (cases "requireConfig ro")
  case (Inr cfg)
  let ?f = "\<lambda>m'. on_member re cfg m' (\<lambda>name host addr live hs.
                 let h = hub_name (rb_org m') host in
                 case rv_unreachable re h of
                   Some e \<Rightarrow> (hs, Inl e)
                 | None \<Rightarrow> (kv_put h (fst (cancelDelivery (rv_hub re) m (hub_at hs h))) hs, Inr True))"
  have "hubs_step H hubs (fst (for_members ?f (members_of cfg ro) hubs))"
  proof (rule quiet_members [OF _ hubs_relation])
    fix m' hs show "hubs_step H hs (fst (?f m' hs))"
      by (rule quiet_on_member [OF _ hubs_relation])
        (simp add: Let_def hubs_refl put_step cancel_step split: option.splits)
  qed
  then show ?thesis by (simp add: cancelChannelDelivery_def Inr split_def)
qed (simp add: cancelChannelDelivery_def hubs_refl)

lemma room_queue_step: "hubs_step H hubs (snd (fst (queueChannelDelivery re inp (ro, hubs))))"
proof (cases "requireConfig ro")
  case (Inr cfg)
  let ?call = "\<lambda>m name host addr live hs.
                     case call_queueDelivery re (hub_name (rb_org m) host)
                            (channel_input cfg inp m name host addr live) hs of
                       (hs', Inl e) \<Rightarrow> (hs', Inl e)
                     | (hs', Inr st) \<Rightarrow> (hs', Inr (st \<noteq> NoRouteTo))"
  let ?f = "\<lambda>m. on_member re cfg m (?call m)"
  have "hubs_step H hubs (fst (for_members ?f (members_of cfg ro) hubs))"
  proof (rule quiet_members [OF _ hubs_relation], rule quiet_on_member [OF _ hubs_relation])
    fix m hs name host addr live
    have "fst (?call m name host addr live hs) =
        fst (call_queueDelivery re (hub_name (rb_org m) host) (channel_input cfg inp m name host addr live) hs)"
      by (simp add: split_def split: sum.splits)
    then show "hubs_step H hs (fst (?call m name host addr live hs))" by (simp add: call_queue)
  qed
  then show ?thesis by (auto simp: queueChannelDelivery_def Inr Let_def hubs_refl split: prod.splits)
qed (simp add: queueChannelDelivery_def hubs_refl)


section \<open>Channels\<close>

lemma channel_same_hubs: "(\<And>w. cw_hubs (fst (m w)) = cw_hubs w) \<Longrightarrow> keeps (channel_step H) m"
  by (simp add: keeps_def channel_step_def hubs_refl)

lemma channel_self: "keeps (channel_step H) (self_op f)" "keeps (channel_step H) (emit e)"
    "keeps (channel_step H) (put_delivery d)" "keeps (channel_step H) (put_reply r)"
    "keeps (channel_step H) (setConnectorStatus env state why)" "keeps (channel_step H) (draw_ids env)"
  by (rule channel_same_hubs, simp add: run_self_op run_emit put_delivery_def put_reply_def setConnectorStatus_def draw_ids_def)+

lemma channel_need: "keeps (channel_step H) (need e f)"
  unfolding need_def by (intro channel_keeps) (auto split: option.splits intro: channel_keeps)

lemma channel_readers: "keeps (channel_step H) requireMeta" "keeps (channel_step H) (requireEvent x)"
    "keeps (channel_step H) (requireDelivery x)"
  by (simp_all add: requireMeta_def requireEvent_def requireDelivery_def channel_need)

lemmas channel_basic = channel_keeps channel_self channel_readers

lemma channel_config: "keeps (channel_step H) (connectorFor env name)" "keeps (channel_step H) (openConfig env meta)"
  unfolding connectorFor_def openConfig_def by (auto split: option.splits intro: channel_basic)

lemma channel_alarms: "keeps (channel_step H) (scheduleAt env t)"
  unfolding scheduleAt_def alarmLimit_def
  by (auto simp: Let_def split: option.splits prod.splits intro!: channel_basic channel_config)

lemma channel_next: "keeps (channel_step H) (schedule_next_attempt env d)" "keeps (channel_step H) (scheduleNext env)"
    "keeps (channel_step H) (armHealth env config)" "keeps (channel_step H) (armPoll env connector)"
    "keeps (channel_step H) (reportHealth env meta config)" "keeps (channel_step H) (integration_detail_of env)"
    "keeps (channel_step H) (scheduleDelivery env d)"
  unfolding schedule_next_attempt_def scheduleNext_def armHealth_def armPoll_def reportHealth_def
    integration_detail_of_def scheduleDelivery_def
  by (auto simp: Let_def split: option.splits transit_address.splits prod.splits
      intro!: channel_basic channel_config channel_alarms)

lemma channel_token: "keeps (channel_step H) (take_ingest_token env meta)"
  unfolding take_ingest_token_def by (auto intro: channel_basic channel_same_hubs split: prod.splits)

lemma channel_calls: "keeps (channel_step H) (call_hub env n inp)" "keeps (channel_step H) (call_room env n cinp)"
    "keeps (channel_step H) (cancel_at_hub env n m)" "keeps (channel_step H) (cancel_at_room env n m)"
  unfolding keeps_def call_hub_def call_room_def cancel_at_hub_def cancel_at_room_def channel_step_def
  using call_queue room_queue_step room_cancel_step
  by (auto simp: hubs_refl split_def Let_def put_step cancel_step split: option.splits)

lemmas channel_tools = channel_basic channel_config channel_alarms channel_next channel_token channel_calls

lemma channel_owner: "keeps (channel_step H) (assertOwner env d caller org)"
    "keeps (channel_step H) (cancelHostQueue env d org)"
  unfolding assertOwner_def cancelHostQueue_def
  by (auto simp: Let_def split: transit_address.splits option.splits intro!: channel_tools)

lemma channel_dispatch: "keeps (channel_step H) (dispatchDelivery env ident)"
  unfolding dispatchDelivery_def attempt_delivery_def send_to_target_def close_dispatch_def
  by (auto simp: Let_def split: transit_address.splits intro!: channel_tools)

lemma channel_settling: "keeps (channel_step H) (settle env org d)" "keeps (channel_step H) (finishHandled env d org)"
    "keeps (channel_step H) (settleConversation env c)" "keeps (channel_step H) (recordInjection env x target via)"
  unfolding finishHandled_def settleConversation_def settle_if_of_def recordInjection_def settle_def
  by (auto simp: Let_def split: option.splits intro!: channel_tools channel_owner)

lemma channel_ingest: "keeps (channel_step H) (ingestEvent env event)"
  unfolding ingestEvent_def commit_event_def
  by (auto simp: Let_def split: option.splits ingest_result.splits prod.splits intro!: channel_tools channel_dispatch)

lemma channel_callback: "keeps (channel_step H) (run_callback env call)" "keeps (channel_step H) (run_hook env hook config)"
proof -
  have act: "keeps (channel_step H) (connector_act env act)" for act
    unfolding connector_act_def by (cases act) (auto intro!: channel_tools channel_ingest channel_settling)
  show callback: "keeps (channel_step H) (run_callback env call)" for call :: "'r callback"
    unfolding run_callback_def by (intro channel_keeps act)
  show "keeps (channel_step H) (run_hook env hook config)"
    unfolding run_hook_def by (auto split: option.splits intro: channel_keeps callback)
qed

lemmas channel_parts = channel_tools channel_owner channel_dispatch channel_settling channel_ingest channel_callback

lemma channel_marking: "keeps (channel_step H) (markHandled env ident caller)"
    "keeps (channel_step H) (operatorMarkHandled env ident)"
  unfolding markHandled_def operatorMarkHandled_def by (intro channel_parts)+

lemma channel_reading: "keeps (channel_step H) (readMessage env ident caller)"
    "keeps (channel_step H) (readMessageV2 env ident caller)" "keeps (channel_step H) (attachment_fetch env b x index)"
  unfolding readMessageV2_def readMessage_def record_read_def attachment_fetch_def
  by (auto simp: Let_def split: option.splits prod.splits intro!: channel_parts)


lemma channel_replies: "keeps (channel_step H) (postRecordedReply env meta event d r)"
    "keeps (channel_step H) (chatReply env inp)" "keeps (channel_step H) (retryReplies env meta)"
proof -
  show post: "keeps (channel_step H) (postRecordedReply env meta event d r)" for meta event d r
    unfolding postRecordedReply_def
    by (auto simp: Let_def split: option.splits prod.splits intro!: channel_parts)
  show "keeps (channel_step H) (chatReply env inp)"
    unfolding chatReply_def chatReply_open_def chatReply_post_def canReply_def
    by (auto simp: Let_def split: option.splits prod.splits intro!: channel_parts post)
  show "keeps (channel_step H) (retryReplies env meta)"
    unfolding retryReplies_def retry_reply_def
    by (auto simp: Let_def split: option.splits prod.splits intro!: channel_parts post)
qed

lemma channel_due: "keeps (channel_step H) (dispatchDue env)"
  unfolding dispatchDue_def by (intro channel_parts)

lemma channel_poll: "keeps (channel_step H) (runPollWindow env meta connector)"
  by (rule runPollWindow_by [OF channel_relation]) (intro channel_parts)+

lemmas channel_all = channel_parts channel_marking channel_reading channel_replies channel_due channel_poll

lemma channel_requests: "keeps (channel_step H) (integration_alarm env)" "keeps (channel_step H) (integration_pause env paused)"
    "keeps (channel_step H) (integration_webhook env request)" "keeps (channel_step H) (integration_requeue env ident)"
    "keeps (channel_step H) (integration_configure env cinp)"
  unfolding integration_alarm_def integration_pause_def integration_webhook_def integration_requeue_def
    integration_configure_def
  by (auto simp: Let_def split: option.splits prod.splits intro!: channel_all)

lemma channel_serve: "channel_step H w (serve env request w)"
  by (cases request)
    (auto simp: done_op_def intro!: step_relation.keepsD [OF channel_relation] channel_all channel_requests)


section \<open>The site\<close>

lemma site_same: "(\<And>s. si_hubs (fst (m s)) = si_hubs s) \<Longrightarrow> keeps (site_step H) m"
  by (simp add: keeps_def site_step_def hubs_refl)

lemma site_reached: "keeps (site_step H) m \<Longrightarrow> keeps (site_step H) (reached env name m)"
  unfolding reached_def by (auto split: option.splits intro: site_keeps)

lemma site_room:
  assumes "\<And>re ro hubs. hubs_step H hubs (snd (fst (f re (ro, hubs))))"
  shows "keeps (site_step H) (on_room env name f)"
  using assms by (simp add: keeps_def on_room_def site_step_def split_def Let_def)

lemma site_room_alone:
  assumes "\<And>re ro hubs. snd (fst (f re (ro, hubs))) = hubs"
  shows "keeps (site_step H) (on_room env name f)"
  by (rule site_room) (simp add: assms hubs_refl)

lemma site_channel:
  assumes "\<And>ce. keeps (channel_step H) (f ce)"
  shows "keeps (site_step H) (on_channel env name f)"
  unfolding keeps_def
proof
  fix s
  let ?w = "\<lparr>cw_self = channel_at s name, cw_rooms = si_rooms s, cw_hubs = si_hubs s, cw_out = [],
             cw_draws = si_draws s\<rparr>"
  have "channel_step H ?w (fst (f (channel_env_of env (si_db s)) ?w))"
    using assms by (rule step_relation.keepsD [OF channel_relation])
  then show "site_step H s (fst (on_channel env name f s))"
    by (simp add: on_channel_def site_step_def channel_step_def split_def Let_def)
qed

lemma site_report: "keeps (site_step H) (report env eff)"
  unfolding report_def reportInjection_def
  by (cases eff) (auto split: option.splits
      intro!: site_keeps site_reached site_room_alone site_channel channel_settling simp: split_def Let_def)

lemma site_hub:
  assumes "\<And>he st. H name st (fst (f he st))"
  shows "keeps (site_step H) (on_hub env name f)"
  unfolding keeps_def
proof
  fix s :: site
  obtain st effs a where f: "f (hub_env_of env (si_db s)) (hub_at (si_hubs s) name) = (st, effs, a)"
    by (metis prod_cases3)
  let ?s1 = "s\<lparr>si_hubs := kv_put name st (si_hubs s), si_out := si_out s @ map (HubDid name) effs\<rparr>"
  have "site_step H s ?s1"
    using assms [of "hub_at (si_hubs s) name" "hub_env_of env (si_db s)"] f by (simp add: site_step_def put_step)
  moreover have "site_step H ?s1 (fst (then_op (each_op (report env) effs) (return_op a) ?s1))"
    by (rule step_relation.keepsD [OF site_relation]) (intro site_keeps site_report)
  ultimately show "site_step H s (fst (on_hub env name f s))"
    unfolding on_hub_def f by (simp add: step_relation.trans [OF site_relation])
qed

lemma site_reading: "keeps (site_step H) (hub_read name f)" "keeps (site_step H) (hub_tell name effs)"
    "keeps (site_step H) (create_at env org room policy creator)"
  unfolding hub_read_def hub_tell_def
  by (auto intro!: site_keeps site_same simp: create_at_def op_simps split_def Let_def)

lemma site_member: "keeps (site_step H) (room_has_member env name addr)"
  unfolding room_has_member_def by (rule site_reached, rule site_room_alone) simp

lemma site_queue: "keeps (site_step H) (on_hub env name (\<lambda>he. queueDelivery he inp))"
  by (rule site_hub) (rule queue_step)

lemma site_post: "keeps (site_step H) (on_room env name (\<lambda>re world. post re from' body replyTo messageId world))"
  by (rule site_room) (use post_step in fastforce)

lemmas site_parts = site_keeps site_reached site_reading site_member site_queue site_post

lemma site_admit:
  assumes send: "\<And>state. keeps (site_step H) (put_send env self (sf_id frame) state)"
    and rate: "\<And>name. keeps (site_step H) (consume_send env self name)"
  shows "keeps (site_step H) (admitSend env self identity frame verifyRoster)"
proof -
  have reject: "keeps (site_step H) (rejectSend env self (sf_id frame) code)" for code
    unfolding rejectSend_def by (intro site_keeps send)
  note parts = site_parts reject send rate
  have direct: "keeps (site_step H) (admit_direct env self identity frame route name host addr)" for route name host addr
    unfolding admit_direct_def by (auto split: option.splits prod.splits intro!: parts)
  have room: "keeps (site_step H) (admit_room env self identity frame route r)" for route r
    unfolding admit_room_def by (auto simp: Let_def split: option.splits prod.splits intro!: parts)
  show ?thesis
    unfolding admitSend_def admit_parsed_def
    by (auto split: option.splits send_state.splits sum.splits transit_address.splits intro!: parts direct room)
qed

lemma site_caller: "keeps (site_step H) (needed v m)" "keeps (site_step H) (on_roster self verify name)"
    "keeps (site_step H) (can_hold env self identity name)" "keeps (site_step H) (integration_of org i)"
    "keeps (site_step H) (lift_service r)" "keeps (site_step H) (room_route identity name host addr target)"
  unfolding needed_def on_roster_def can_hold_def integration_of_def lift_service_def room_route_def
  by (auto simp: needed_def split: option.splits intro!: site_parts)

lemma site_agent:
  assumes "\<And>name. keeps (site_step H) (admits name)"
  shows "keeps (site_step H) (own_agent identity refusal admits address)"
  unfolding own_agent_def by (auto split: transit_address.splits intro!: site_parts assms)

lemma site_callers: "keeps (site_step H) (rpcCaller self identity params verify)"
    "keeps (site_step H) (rpcInboxCaller env self identity params)"
    "keeps (site_step H) (room_caller self identity params verify)"
  unfolding rpcCaller_def rpcInboxCaller_def room_caller_def
  by (auto split: option.splits intro!: site_parts site_caller site_agent)

lemma site_integration:
  "(\<And>ce. keeps (channel_step H) (f ce)) \<Longrightarrow> keeps (site_step H) (call_integration env org i f)"
  unfolding call_integration_def by (intro site_parts site_caller site_channel) simp

lemmas site_tools = site_parts site_caller site_callers site_integration channel_all

lemma site_invoke:
  assumes "\<And>he a m st. H self st (fst (settleInbox he a m st))"
  shows "keeps (site_step H) (invokeRpc env self identity method params verifyRoster)"
proof -
  have settle: "keeps (site_step H) (on_hub env self (\<lambda>he. settleInbox he a m))" for a m
    by (rule site_hub) (rule assms)
  have 1: "keeps (site_step H) (tool_read_message env self identity v params verifyRoster)" for v
    unfolding tool_read_message_def
    by (auto simp: Let_def split: option.splits prod.splits intro!: site_tools)
  have 2: "keeps (site_step H) (tool_chat_reply env self identity params verifyRoster)"
    unfolding tool_chat_reply_def by (auto simp: Let_def split: option.splits intro!: site_tools)
  have 3: "keeps (site_step H) (tool_mark_handled env self identity params verifyRoster)"
    unfolding tool_mark_handled_def by (auto intro!: site_tools settle)
  have 4: "keeps (site_step H) (tool_read_inbox env self identity params)"
      "keeps (site_step H) (tool_list_agents env identity params)"
      "keeps (site_step H) (tool_list_rooms env identity params)"
    unfolding tool_read_inbox_def tool_list_agents_def tool_list_rooms_def by (intro site_tools)+
  have 5: "keeps (site_step H) (tool_read_room env self identity params)"
    unfolding tool_read_room_def
    by (auto simp: Let_def split: prod.splits intro!: site_tools site_room_alone)
  have 6: "keeps (site_step H) (tool_create_room env self identity params verifyRoster)"
    unfolding tool_create_room_def by (auto split: option.splits prod.splits intro!: site_tools)
  have 7: "keeps (site_step H) (tool_join_room env self identity params verifyRoster)"
      "keeps (site_step H) (tool_leave_room env self identity params verifyRoster)"
    unfolding tool_join_room_def tool_leave_room_def
    by (auto simp: split_def Let_def split: option.splits intro!: site_tools site_room_alone)
  show ?thesis
    unfolding invokeRpc_def by (simp add: 1 2 3 4 5 6 7 site_keeps)
qed

end

end
