(* ===== verification/Site_Requests.thy ===== *)
theory Site_Requests
  imports Site_Steps
begin

text \<open>
  The requests a site serves, one after the other: frames of daemons, calls of hubs, sends and tools of
  the MCP endpoint, posts to rooms, and what channels are asked. What no request changes: a settled answer to
  a send, and the books of every hub.
\<close>

section \<open>Requests\<close>

datatype site_request =
  DaemonMessage jstr "jstr option"
| HubRequest jstr hub_op
| SubmitSend jstr host_identity send_frame
| CallTool jstr host_identity jstr json_object
| PostToRoom jstr jstr jstr "jstr option" "jstr option"
| AskChannel jstr channel_request

fun serve_site :: "site_env \<Rightarrow> site_request \<Rightarrow> site \<Rightarrow> site" where
  "serve_site env (DaemonMessage self raw) s = fst (webSocketMessage env self raw s)"
| "serve_site env (HubRequest name op') s =
     fst (on_hub env name (\<lambda>he st. let (st', effs) = run_op he op' st in (st', effs, ())) s)"
| "serve_site env (SubmitSend self identity frame) s = fst (submitSend env self identity frame s)"
| "serve_site env (CallTool self identity method params) s = fst (callRpc env self identity method params s)"
| "serve_site env (PostToRoom name from' body replyTo messageId) s =
     fst (on_room env name (\<lambda>re world. post re from' body replyTo messageId world) s)"
| "serve_site env (AskChannel name request) s =
     fst (on_channel env name (\<lambda>ce w. (serve ce request w, Inr ())) s)"

text \<open>A publish that renames an agent can break the books of its hub; every other request is admitted.\<close>

definition roster_published :: "site_env \<Rightarrow> jstr option \<Rightarrow> roster_agent list option" where
  "roster_published env raw =
     (case raw of None \<Rightarrow> None
      | Some text' \<Rightarrow> (case decodeDaemonFrame (sv_parse env) text' of Inr (Some (Roster agents _)) \<Rightarrow> Some agents | _ \<Rightarrow> None))"

fun request_ok :: "site_env \<Rightarrow> site_request \<Rightarrow> site \<Rightarrow> bool" where
  "request_ok env (DaemonMessage self raw) s =
     (case roster_published env raw of None \<Rightarrow> True | Some agents \<Rightarrow> renames_nobody agents (hub_at (si_hubs s) self))"
| "request_ok env (HubRequest name op') s = op_ok op' (hub_at (si_hubs s) name)"
| "request_ok env _ s = True"

fun serve_sites :: "(site_env \<times> site_request) list \<Rightarrow> site \<Rightarrow> site" where
  "serve_sites [] s = s"
| "serve_sites ((env, request) # rest) s = serve_sites rest (serve_site env request s)"

fun requests_ok :: "(site_env \<times> site_request) list \<Rightarrow> site \<Rightarrow> bool" where
  "requests_ok [] s = True"
| "requests_ok ((env, request) # rest) s = (request_ok env request s \<and> requests_ok rest (serve_site env request s))"

section \<open>Steps of a hub without reports\<close>

fun reports :: "hub_effect \<Rightarrow> bool" where
  "reports (RoomAcknowledge _ _ _ _) = True"
| "reports (ReportInjection _ _ _ _) = True"
| "reports _ = False"

lemma report_silent: "\<not> reports eff \<Longrightarrow> report env eff s = (s, Inr ())"
  by (cases eff) (simp_all add: report_def op_simps)

lemma each_report_silent: "list_all (\<lambda>e. \<not> reports e) effs \<Longrightarrow> each_op (report env) effs s = (s, Inr ())"
  by (induction effs) (simp_all add: op_simps report_silent)

lemma on_hub_run:
  assumes "f (hub_env_of env (si_db s)) (hub_at (si_hubs s) name) = (st, effs, a)" "list_all (\<lambda>e. \<not> reports e) effs"
  shows "on_hub env name f s =
    (s\<lparr>si_hubs := kv_put name st (si_hubs s), si_out := si_out s @ map (HubDid name) effs\<rparr>, Inr a)"
  by (simp add: on_hub_def assms each_report_silent op_simps)

definition told :: "jstr \<Rightarrow> host_hub \<Rightarrow> hub_effect list \<Rightarrow> site \<Rightarrow> site" where
  "told name st effs s = s\<lparr>si_hubs := kv_put name st (si_hubs s), si_out := si_out s @ map (HubDid name) effs\<rparr>"

lemma told_hub [simp]: "hub_at (si_hubs (told name st effs s)) n = (if n = name then st else hub_at (si_hubs s) n)"
  "si_db (told name st effs s) = si_db s" "si_rooms (told name st effs s) = si_rooms s"
  by (simp_all add: told_def hub_at_put)

lemma run_put_send:
  "put_send env self ident state s = (told self ((hub_at (si_hubs s) self)\<lparr>hub_sends :=
     kv_put (send_key ident) state (hub_sends (hub_at (si_hubs s) self))\<rparr>) [] s, Inr ())"
  unfolding put_send_def by (subst on_hub_run [of _ env s self _ "[]" "()"]) (simp_all add: told_def)

lemma run_take_frame:
  "take_frame env self a s =
     (let (rate, allowed) = consumeToken (da_frameRate a) 50 100 (sv_now env); a1 = a\<lparr>da_frameRate := rate\<rparr>
      in (told self ((hub_at (si_hubs s) self)\<lparr>hub_socket := Some a1\<rparr>)
           (if allowed then [HostSeen (sv_now env) (hi_hostId (da_identity a)) (hi_org (da_identity a))] else []) s,
          Inr (allowed, a1)))"
  unfolding take_frame_def
  by (simp add: on_hub_def told_def split_def Let_def hub_env_of_def op_simps report_silent)

section \<open>What a request keeps\<close>

text \<open>
  The steps a hub takes for a site beyond those of \<open>hub_op\<close>; \<open>careful\<close> says whether the relation is kept
  by requests that rename nobody only.
\<close>

locale site_hub_relation = hub_relation +
  fixes careful :: bool
  assumes op_step: "(careful \<longrightarrow> op_ok op' st) \<Longrightarrow> H n st (fst (run_op he op' st))"
    and rates_step: "H n st (st\<lparr>hub_rates := r\<rparr>)"
    and socket_step: "H n st (st\<lparr>hub_socket := c\<rparr>)"
    and spool_step: "H n st (st\<lparr>hub_spooledDead := d\<rparr>)"
begin

lemma ack_step: "H n st (fst (handleDeliveryAck he m a v st))"
  using op_step [of "OpAck m a v" st n he] by simp

lemma nak_step: "H n st (fst (handleDeliveryNak he m c b a st))"
  using op_step [of "OpNak m c b a" st n he] by simp

lemma hello_step: "H n st (fst (handleHello he a v h st))"
  using op_step [of "OpHello a v h" st n he] by simp

lemma settle_step: "H n st (fst (settleInbox he a m st))"
  using op_step [of "OpSettle a m" st n he] by (simp add: split_def Let_def)

lemma site_rates: "keeps (site_step H) (consume_send env self name)"
  unfolding consume_send_def by (rule site_hub) (simp add: split_def Let_def rates_step)

lemma site_close: "keeps (site_step H) (on_hub env self (close_socket code reason))"
  by (rule site_hub) (simp add: close_socket_def socket_step)

lemma site_roster:
  assumes "careful \<longrightarrow> renames_nobody agents (hub_at (si_hubs s) self)"
  shows "site_step H s (fst (handleRoster env self identity agents dead s))"
  unfolding handleRoster_def
proof (rule step_relation.then_at [OF site_relation])
  let ?he = "hub_env_of env (si_db s)" and ?st = "hub_at (si_hubs s) self"
  let ?f = "\<lambda>he st. let (st', effs) = applyRoster he identity agents st in (st', effs, ())"
  obtain st effs where f: "applyRoster ?he identity agents ?st = (st, effs)" by fastforce
  let ?s1 = "told self st effs s"
  have "H self ?st st" using op_step [of "OpRoster identity agents" ?st self ?he] assms f by simp
  then have "site_step H s ?s1" by (simp add: site_step_def told_def put_step)
  moreover have "site_step H ?s1 (fst (then_op (each_op (report env) effs) (return_op ()) ?s1))"
    by (rule step_relation.keepsD [OF site_relation]) (intro site_keeps site_report)
  ultimately show "site_step H s (fst (on_hub env self ?f s))"
    unfolding on_hub_def f by (simp add: told_def step_relation.trans [OF site_relation])
next
  fix s1 show "site_step H s1 (fst (on_hub env self
      (\<lambda>he st. (case dead of None \<Rightarrow> st | Some n \<Rightarrow> st\<lparr>hub_spooledDead := Some n\<rparr>, [], ())) s1))"
    by (rule step_relation.keepsD [OF site_relation], rule site_hub) (auto simp: hub_refl spool_step split: option.splits)
qed

lemma site_handle_send:
  "keeps (site_step H) (admitSend env self identity frame True) \<Longrightarrow> keeps (site_step H) (handleSend env self identity frame)"
  unfolding handleSend_def by (intro site_parts)

lemma site_rpc: "keeps (site_step H) (handleRpc env self identity rid method params)"
    "keeps (site_step H) (callRpc env self identity method params)"
  unfolding handleRpc_def callRpc_def
  by (intro site_keeps site_invoke settle_step site_same, simp add: op_simps)+

lemma site_frame:
  assumes send: "\<And>f. keeps (site_step H) (admitSend env self (da_identity a) f True)"
    and roster: "\<And>agents dead. frame = Roster agents dead \<Longrightarrow> careful \<longrightarrow> renames_nobody agents (hub_at (si_hubs s) self)"
  shows "site_step H s (fst (dispatch_frame env self a frame s))"
proof (cases "\<exists>agents dead. frame = Roster agents dead \<and> da_ready a")
  case True
  then show ?thesis using roster site_roster by (auto simp: dispatch_frame_def Let_def)
next
  case False
  have "keeps (site_step H) (dispatch_frame env self a frame)"
    unfolding dispatch_frame_def Let_def using False
    by (cases frame) (auto simp: split_def hello_step ack_step nak_step
        intro!: site_parts site_close site_hub site_handle_send send site_rpc)
  then show ?thesis by (rule step_relation.keepsD [OF site_relation])
qed

lemma site_message:
  assumes send: "\<And>identity f. keeps (site_step H) (admitSend env self identity f True)"
    and roster: "careful \<longrightarrow> request_ok env (DaemonMessage self raw) s"
  shows "site_step H s (fst (webSocketMessage env self raw s))"
proof (cases "hub_socket (hub_at (si_hubs s) self)")
  case None
  then show ?thesis
    by (simp add: webSocketMessage_def hub_read_def op_simps bind_op_def step_relation.refl [OF site_relation])
next
  case a: (Some a)
  show ?thesis
  proof (cases raw)
    case None
    then show ?thesis using a step_relation.keepsD [OF site_relation site_close]
      by (simp add: webSocketMessage_def hub_read_def op_simps bind_op_def)
  next
    case (Some text')
    obtain allowed a1 s1 where t: "take_frame env self a s = (s1, Inr (allowed, a1))"
        "hub_roster (hub_at (si_hubs s1) self) = hub_roster (hub_at (si_hubs s) self)" "site_step H s s1"
      by (auto simp: run_take_frame split_def Let_def site_step_def told_def put_step socket_step hub_at_put)
    have rest: "site_step H s1 (fst ((if \<not> allowed then on_hub env self (close_socket 4008 (js ''rate_limited''))
         else (case decodeDaemonFrame (sv_parse env) text' of
                  Inl e \<Rightarrow> on_hub env self
                    (close_socket (if we_code e = FrameTooLarge then 1009 else 4002) (wire_code_text (we_code e)))
                | Inr None \<Rightarrow> return_op ()
                | Inr (Some frame) \<Rightarrow> dispatch_frame env self a1 frame)) s1))"
    proof (cases "allowed \<and> (\<exists>frame. decodeDaemonFrame (sv_parse env) text' = Inr (Some frame))")
      case True
      then obtain frame where f: "allowed" "decodeDaemonFrame (sv_parse env) text' = Inr (Some frame)" by blast
      have "site_step H s1 (fst (dispatch_frame env self a1 frame s1))"
      proof (rule site_frame)
        fix agents dead assume "frame = Roster agents dead"
        then show "careful \<longrightarrow> renames_nobody agents (hub_at (si_hubs s1) self)"
          using roster f t(2) Some by (simp add: roster_published_def renames_nobody_def)
      qed (rule send)
      then show ?thesis by (simp add: f)
    next
      case False
      then show ?thesis using step_relation.keepsD [OF site_relation site_close]
        by (auto simp: op_simps step_relation.refl [OF site_relation] simp del: js_simps split: sum.splits option.splits)
    qed
    show ?thesis
      unfolding webSocketMessage_def hub_read_def
      using a Some t rest by (simp add: op_simps bind_op_def step_relation.trans [OF site_relation, OF t(3)])
  qed
qed


lemma site_serve:
  assumes send: "\<And>self identity f verify. keeps (site_step H) (admitSend env self identity f verify)"
    and ok: "careful \<longrightarrow> request_ok env request s"
  shows "site_step H s (serve_site env request s)"
proof (cases request)
  case (DaemonMessage self raw)
  then show ?thesis using site_message [OF send, of self raw s] ok by simp
next
  case (HubRequest name op')
  obtain st effs where r: "run_op (hub_env_of env (si_db s)) op' (hub_at (si_hubs s) name) = (st, effs)" by fastforce
  have "H name (hub_at (si_hubs s) name) st"
    using op_step [of op' "hub_at (si_hubs s) name" name "hub_env_of env (si_db s)"] ok HubRequest r by simp
  then have "site_step H s (told name st effs s)"
    by (simp add: site_step_def told_def put_step)
  moreover have "site_step H (told name st effs s)
      (fst (then_op (each_op (report env) effs) (return_op ()) (told name st effs s)))"
    by (rule step_relation.keepsD [OF site_relation]) (intro site_keeps site_report)
  ultimately show ?thesis
    by (simp add: HubRequest on_hub_def r told_def step_relation.trans [OF site_relation])
next
  case (SubmitSend self identity frame)
  then show ?thesis using step_relation.keepsD [OF site_relation send] by (simp add: submitSend_def)
next
  case (CallTool self identity tool params)
  then show ?thesis using step_relation.keepsD [OF site_relation site_rpc(2)] by simp
next
  case (PostToRoom name from' body replyTo messageId)
  then show ?thesis using step_relation.keepsD [OF site_relation site_post] by simp
next
  case (AskChannel name request')
  have "keeps (site_step H) (on_channel env name (\<lambda>ce w. (serve ce request' w, Inr () :: jstr + unit)))"
    by (rule site_channel) (simp add: keeps_def channel_serve)
  then show ?thesis using step_relation.keepsD [OF site_relation] by (simp add: AskChannel)
qed

lemma site_serves:
  assumes send: "\<And>env self identity f verify. keeps (site_step H) (admitSend env self identity f verify)"
    and "careful \<longrightarrow> requests_ok rs s"
  shows "site_step H s (serve_sites rs s)"
  using assms(2)
proof (induction rs s rule: serve_sites.induct)
  case (2 env request rest s)
  then show ?case using site_serve [OF send, of env request s] step_relation.trans [OF site_relation] by auto
qed (simp add: step_relation.refl [OF site_relation])

end

end
