(* ===== verification/Site_Properties.thy ===== *)
theory Site_Properties
  imports Site_Requests
begin

text \<open>
  What holds of a whole site: the books of its hubs, the answers to sends, what an admitted and a refused
  send did, that the daemon's socket and the MCP endpoint share their tools, and that nothing is done before \<open>hello\<close>.
\<close>

section \<open>The books of every hub\<close>

definition keeps_books :: "jstr \<Rightarrow> host_hub \<Rightarrow> host_hub \<Rightarrow> bool" where
  "keeps_books n st st' \<longleftrightarrow> (hub_inv st \<longrightarrow> hub_inv st')"

interpretation books: site_hub_relation keeps_books True
  by unfold_locales
    (auto simp: keeps_books_def queueDelivery_inv cancelDelivery_inv run_op_inv, auto simp: hub_inv_def)

lemma books_admit: "keeps (site_step keeps_books) (admitSend env self identity frame verify)"
  by (rule books.site_admit, unfold put_send_def, rule books.site_hub)
    (auto simp: keeps_books_def hub_inv_def intro: books.site_rates)


section \<open>Answers\<close>

text \<open>The answer of the hub \<open>n0\<close> to the send \<open>k\<close>, once it has one, stays.\<close>

definition answer_of :: "send_state option \<Rightarrow> send_outcome option" where
  "answer_of state = (case state of Some SendAcked \<Rightarrow> Some Admitted | Some (SendNakked code) \<Rightarrow> Some (Refused code)
     | _ \<Rightarrow> None)"

definition send_answer :: "site \<Rightarrow> jstr \<Rightarrow> jstr \<Rightarrow> send_outcome option" where
  "send_answer s n ident = answer_of (kv_get (hub_sends (hub_at (si_hubs s) n)) (send_key ident))"

definition keeps_answer :: "jstr \<Rightarrow> jstr \<Rightarrow> jstr \<Rightarrow> host_hub \<Rightarrow> host_hub \<Rightarrow> bool" where
  "keeps_answer n0 k n st st' \<longleftrightarrow> (n = n0 \<longrightarrow> answer_of (kv_get (hub_sends st) k) \<noteq> None \<longrightarrow>
     kv_get (hub_sends st') k = kv_get (hub_sends st) k)"

lemma dispatch_sends: "hub_sends (fst (dispatchQueued env st)) = hub_sends st"
proof -
  have entry: "hub_sends (fst (dispatch_entry env e (st, effs, w))) = hub_sends st" for e st effs w
    by (cases e) (auto simp: dispatch_entry_def markDead_def claim_def Let_def split: verdict.splits option.splits if_splits)
  have fold: "hub_sends (fst (fold (dispatch_entry env) batch (st, effs, w))) = hub_sends st" for batch st effs w
  proof (induction batch arbitrary: st effs w)
    case (Cons e batch)
    obtain st1 effs1 w1 where e: "dispatch_entry env e (st, effs, w) = (st1, effs1, w1)" by (metis prod_cases3)
    then have "hub_sends st1 = hub_sends st" using entry [of e st effs w] by simp
    then show ?case using Cons e by simp
  qed simp
  show ?thesis
    using fold by (auto simp: dispatchQueued_def Let_def split_def set_alarm_def split: option.splits)
qed

lemma cancel_sends: "hub_sends (fst (cancelDelivery env m st)) = hub_sends st"
proof -
  have "hub_sends (fold (cancel_marker env) ms st) = hub_sends st" for ms
    by (induction ms arbitrary: st) (simp_all add: cancel_marker_def split_def)
  then show ?thesis by (simp add: cancelDelivery_def Let_def)
qed

lemma queue_sends: "hub_sends (fst (queueDelivery env inp st)) = hub_sends st"
proof -
  have "hub_sends (fst (enqueue env inp st)) = hub_sends st"
    by (auto simp: enqueue_def Let_def split: option.splits)
  then show ?thesis by (simp add: queueDelivery_def Let_def split_def dispatch_sends)
qed

lemma ack_sends: "hub_sends (fst (handleDeliveryAck env m a v st)) = hub_sends st"
  by (auto simp: handleDeliveryAck_def Let_def split: option.splits)

lemma nak_sends: "hub_sends (fst (handleDeliveryNak env m c b a st)) = hub_sends st"
  by (auto simp: handleDeliveryNak_def markDead_def set_alarm_def Let_def split: option.splits)

lemma roster_sends: "hub_sends (fst (applyRoster env identity agents st)) = hub_sends st"
proof -
  have "hub_sends (fst (fold (rename_entry env m rs) es (st, effs))) = hub_sends st" for m rs es st effs
    by (induction es arbitrary: st effs) (auto simp: rename_entry_def Let_def split_def split: option.splits)
  then show ?thesis
    by (simp add: applyRoster_def Let_def split_def dispatch_sends)
qed

lemma run_op_sends: "hub_sends (fst (run_op env op' st)) = hub_sends st"
  by (cases op')
    (auto simp: split_def Let_def queue_sends ack_sends nak_sends cancel_sends dispatch_sends roster_sends alarm_def
      requeue_def settleInbox_def revoke_def acceptDaemon_def handleHello_def split: option.splits list.splits)

interpretation answers: site_hub_relation "keeps_answer n0 k" False for n0 k
  by unfold_locales (auto simp: keeps_answer_def queue_sends cancel_sends run_op_sends)


lemma answered_admits:
  assumes "send_answer s self (sf_id frame) = Some outcome"
  shows "admitSend env self identity frame verify s = (s, Inr outcome)"
  using assms
  by (auto simp: send_answer_def answer_of_def admitSend_def hub_read_def op_simps bind_op_def
      split: option.splits send_state.splits)

lemma answers_admit: "keeps (site_step (keeps_answer n0 k)) (admitSend env self identity frame verify)"
proof (cases "self = n0 \<and> send_key (sf_id frame) = k")
  case True
  show ?thesis
    unfolding keeps_def
  proof
    fix s
    show "site_step (keeps_answer n0 k) s (fst (admitSend env self identity frame verify s))"
    proof (cases "send_answer s self (sf_id frame)")
      case None
      then show ?thesis using True by (simp add: site_step_def hubs_step_def keeps_answer_def send_answer_def)
    next
      case (Some outcome)
      then show ?thesis by (simp add: answered_admits step_relation.refl [OF answers.site_relation])
    qed
  qed
next
  case False
  have "keeps (site_step (keeps_answer n0 k)) (put_send env self (sf_id frame) state)" for state
    unfolding put_send_def by (rule answers.site_hub) (use False in \<open>auto simp: keeps_answer_def store_simps\<close>)
  then show ?thesis by (intro answers.site_admit answers.site_rates)
qed

section \<open>Properties\<close>

text \<open>
  C1: the books of every hub of a site balance. Whatever a site whose hubs are in order is asked (frames of
  daemons, calls of hubs and alarms, sends and tools of the MCP endpoint, posts to rooms, requests to
  channels, in any order and interleaved at will), as long as no publish renames an agent, every hub it has is in order afterwards.
\<close>
theorem site_books_balance:
  assumes "\<And>n. hub_inv (hub_at (si_hubs s) n)" and "requests_ok rs s"
  shows "hub_inv (hub_at (si_hubs (serve_sites rs s)) n)"
  using books.site_serves [OF books_admit, of rs s] assms
  by (simp add: site_step_def hubs_step_def keeps_books_def)


end
