(* ===== verification/Channel_Settled.thy ===== *)
theory Channel_Settled
  imports Site_Properties
begin

text \<open>
  Settling is withdrawing: every way in which a channel settles a delivery takes its queued copies back
  from the hub of its agent. \<open>over\<close> relates worlds of which the later has nothing pending for the
  delivery \<open>i\<close>, if it is settled there, whenever that was so in the earlier; it is a step relation, so the
  requests of a channel keep it by the rules, and the leaves are the writes that settle.
\<close>

section \<open>Withdrawn when settled\<close>

definition withdrawn :: "jstr \<Rightarrow> jstr \<Rightarrow> jstr \<Rightarrow> channel_world \<Rightarrow> bool" where
  "withdrawn org hst i w \<longleftrightarrow> hubs_inv (cw_hubs w) \<and> map_option im_org (ig_meta (cw_self w)) = Some org \<and>
     (\<forall>d name o' a k. kv_get (ig_deliveries (cw_self w)) i = Some d \<longrightarrow> dl_settledAt d \<noteq> None \<longrightarrow>
        parseAddress (dl_targetAddr d) = Inr (AgentAddress name hst o' a) \<longrightarrow> marker_of_message i k \<longrightarrow>
        \<not> pending_delivery (hub_at (cw_hubs w) (hub_name org hst)) k)"

definition over :: "(nat \<Rightarrow> jstr) \<Rightarrow> (nat \<Rightarrow> jstr) \<Rightarrow> jstr \<Rightarrow> jstr \<Rightarrow> jstr \<Rightarrow> channel_world \<Rightarrow> channel_world \<Rightarrow> bool" where
  "over D E org hst i w w' \<longleftrightarrow> advances D E w w' \<and>
     (channel_wf D E w \<longrightarrow> withdrawn org hst i w \<longrightarrow> withdrawn org hst i w')"

interpretation over: step_relation "over D E org hst i" for D E org hst i
proof unfold_locales
  fix w w' w'' assume "over D E org hst i w w'" "over D E org hst i w' w''"
  then show "over D E org hst i w w''" unfolding over_def using adv.trans advancesD(1) by metis
qed (simp add: over_def adv.refl)

lemma overI:
  "advances D E w w' \<Longrightarrow> (channel_wf D E w \<Longrightarrow> withdrawn org hst i w \<Longrightarrow> withdrawn org hst i w') \<Longrightarrow> over D E org hst i w w'"
  by (simp add: over_def)

lemma over_wfI: "(channel_wf D E w \<Longrightarrow> over D E org hst i w w') \<Longrightarrow> over D E org hst i w w'"
  by (auto simp: over_def advances_def)

lemma over_advances: "over D E org hst i w w' \<Longrightarrow> advances D E w w'"
  by (simp add: over_def)

lemma keeps_over_advances: "keeps (over D E org hst i) m \<Longrightarrow> keeps (advances D E) m"
  by (simp add: keeps_def over_def)

text \<open>Steps that settle nothing and leave the organization as it is.\<close>

definition still :: "jstr \<Rightarrow> channel_world \<Rightarrow> channel_world \<Rightarrow> bool" where
  "still i w w' \<longleftrightarrow> map_option im_org (ig_meta (cw_self w')) = map_option im_org (ig_meta (cw_self w)) \<and>
     (settled_in i w' \<longrightarrow> settled_in i w)"

interpretation still: step_relation "still i" for i
  by unfold_locales (simp_all add: still_def)

lemma over_still_at:
  assumes "calm D E i w w'" "channel_step keeps_books w w'" "still i w w'"
  shows "over D E org hst i w w'"
proof (rule overI)
  show "advances D E w w'" using assms(1) by (simp add: calm_def)
  assume wf: "channel_wf D E w" and ok: "withdrawn org hst i w"
  have "hubs_inv (cw_hubs w')"
    using ok assms(2) by (simp add: withdrawn_def hubs_inv_def channel_step_def hubs_step_def keeps_books_def)
  moreover have "\<not> pending_delivery (hub_at (cw_hubs w') (hub_name org hst)) k"
    if d': "kv_get (ig_deliveries (cw_self w')) i = Some d'" "dl_settledAt d' \<noteq> None"
      "parseAddress (dl_targetAddr d') = Inr (AgentAddress name hst o' a)" "marker_of_message i k" for d' name o' a k
  proof -
    obtain d where d: "kv_get (ig_deliveries (cw_self w)) i = Some d" "dl_settledAt d \<noteq> None"
      using d'(1,2) assms(3) unfolding still_def settled_in_def by blast
    then have s: "settled_in i w" unfolding settled_in_def by blast
    have "dl_targetAddr d' = dl_targetAddr d"
      using advancesD(3) [OF \<open>advances D E w w'\<close> wf] d(1) d'(1) by (fastforce simp: letters_kept_def same_letter_def)
    then have "\<not> pending_delivery (hub_at (cw_hubs w) (hub_name org hst)) k" using ok d d'(3,4) by (simp add: withdrawn_def)
    moreover have "quiet i w w'" using assms(1) wf s by (simp add: calm_def)
    ultimately show ?thesis using ok d'(4) by (auto simp: quiet_def quiet_hubs_def withdrawn_def)
  qed
  ultimately show "withdrawn org hst i w'" using ok assms(3) by (auto simp: withdrawn_def still_def)
qed

lemma over_still:
  "keeps (calm D E i) m \<Longrightarrow> keeps (channel_step keeps_books) m \<Longrightarrow> keeps (still i) m \<Longrightarrow> keeps (over D E org hst i) m"
  unfolding keeps_def by (blast intro: over_still_at)

section \<open>Steps that settle nothing\<close>

named_theorems still_rules \<open>operations that settle nothing\<close>

lemmas [still_rules] = still.keeps_rules

lemma still_same: "(\<And>w. cw_self (fst (m w)) = cw_self w) \<Longrightarrow> keeps (still i) m"
  by (simp add: keeps_def still_def settled_in_def)

lemma still_self:
  assumes "\<And>st. map_option im_org (ig_meta (f st)) = map_option im_org (ig_meta st)" "\<And>st. ig_deliveries (f st) = ig_deliveries st"
  shows "keeps (still i) (self_op f)"
  using assms by (simp add: keeps_def still_def settled_in_def run_self_op)

lemma still_emit [still_rules]: "keeps (still i) (emit e)"
  by (rule still_same) (simp add: run_emit)

lemma still_need [still_rules]: "keeps (still i) requireMeta" "keeps (still i) (requireEvent x)" "keeps (still i) (requireDelivery x)"
  unfolding requireMeta_def requireEvent_def requireDelivery_def need_def by (auto split: option.splits intro!: still_rules)

lemma still_config [still_rules]: "keeps (still i) (connectorFor env name)" "keeps (still i) (openConfig env meta)"
  unfolding connectorFor_def openConfig_def by (auto split: option.splits intro: still_rules)

lemma still_status [still_rules]: "keeps (still i) (setConnectorStatus env state why)"
  unfolding setConnectorStatus_def by (rule still_self) (simp_all add: Let_def)

lemma still_alarm [still_rules]: "keeps (still i) (scheduleAt env t)"
  unfolding scheduleAt_def alarmLimit_def by (auto simp: Let_def split: option.splits prod.splits intro!: still_rules still_self)

lemma still_next [still_rules]: "keeps (still i) (schedule_next_attempt env d)" "keeps (still i) (scheduleNext env)"
    "keeps (still i) (armHealth env config)" "keeps (still i) (armPoll env connector)" "keeps (still i) (reportHealth env meta config)"
    "keeps (still i) (integration_detail_of env)"
  unfolding schedule_next_attempt_def scheduleNext_def armHealth_def armPoll_def reportHealth_def integration_detail_of_def
  by (auto simp: Let_def split: option.splits transit_address.splits prod.splits intro!: still_rules still_self)

lemma still_token [still_rules]: "keeps (still i) (take_ingest_token env meta)"
  by (auto simp: take_ingest_token_def keeps_def still_def settled_in_def run_simps split: prod.splits)

lemma still_put:
  "dl_settledAt d = None \<or> settled_in (dl_id d) w \<Longrightarrow> still i w (fst (put_delivery d w))"
  by (auto simp: still_def settled_in_def put_delivery_def run_self_op store_simps split: if_splits)

lemma still_put_reply [still_rules]: "keeps (still i) (put_reply r)"
  unfolding put_reply_def by (rule still_self) simp_all

lemma still_calls [still_rules]: "keeps (still i) (call_hub env n inp)" "keeps (still i) (call_room env n cinp)"
    "keeps (still i) (cancel_at_hub env n m)" "keeps (still i) (cancel_at_room env n m)"
  by (rule still_same, simp add: call_hub_def call_room_def cancel_at_hub_def cancel_at_room_def Let_def split: option.splits prod.splits)+

lemma still_cancel [still_rules]: "keeps (still i) (cancelHostQueue env d org)"
  unfolding cancelHostQueue_def by (auto split: transit_address.splits intro!: still_rules)

lemma still_owner [still_rules]: "keeps (still i) (assertOwner env d caller org)"
  by (rule still_same) (simp add: assertOwner_reads)

lemma still_attempt [still_rules]: "keeps (still i) (attempt_delivery env meta event d)"
  unfolding attempt_delivery_def send_to_target_def by (auto simp: Let_def split: transit_address.splits intro!: still_rules)

lemma still_commit [still_rules]: "keeps (still i) (commit_event env meta event)"
proof (rule still.keepsI)
  fix w show "still i w (fst (commit_event env meta event w))"
    by (cases rule: commit_event_cases [of w event env meta])
      (auto simp: still_def settled_in_def after_commit_def store_simps split: if_splits)
qed


lemma still_armed: "armRedelivery now d = Inr a \<Longrightarrow> dl_id a = dl_id d \<and> dl_settledAt a = dl_settledAt d"
  by (auto simp: armRedelivery_def rbind_def split: sum.splits)

lemma still_put_then:
  assumes "dl_settledAt d = None \<or> settled_in (dl_id d) w" "keeps (still i) m"
  shows "still i w (fst (then_op (put_delivery d) m w))"
  by (rule still.then_at, rule still_put [OF assms(1)], rule still.keepsD [OF assms(2)])

lemma still_arming:
  assumes "dl_settledAt d = None \<or> settled_in (dl_id d) w"
  shows "still i w (fst (close_dispatch env d w))" "still i w (fst (scheduleDelivery env d w))"
  unfolding close_dispatch_def scheduleDelivery_def run_reads
  by (cases "armRedelivery (ch_now env) d"; simp add: still.refl; intro still_put_then still_rules;
      use assms in \<open>simp add: still_armed\<close>)+

lemma attempt_settledAt: "attempt_delivery env meta event d w = (w', Inr d') \<Longrightarrow> dl_settledAt d' = dl_settledAt d"
  unfolding attempt_delivery_def by (auto elim!: try_op_cases then_op_cases simp: op_simps attempted_def)

lemma still_dispatch [still_rules]: "keeps (still i) (dispatchDelivery env ident)"
proof (rule still.keepsI)
  fix w
  have "still i w (fst (bind_op (attempt_delivery env meta event d) (close_dispatch env) w))" if "dl_settledAt d = None" for meta event d
    by (rule still.bind_at, rule still.keepsD [OF still_attempt], rule still_arming) (simp add: attempt_settledAt that)
  then show "still i w (fst (dispatchDelivery env ident w))"
    by (auto simp: dispatchDelivery_def run_reads run_simps still.refl split: option.splits)
qed

lemma still_ingest [still_rules]: "keeps (still i) (ingestEvent env event)"
  unfolding ingestEvent_def by (auto split: option.splits ingest_result.splits intro!: still_rules)

lemma still_due [still_rules]: "keeps (still i) (dispatchDue env)"
  unfolding dispatchDue_def by (intro still_rules)


section \<open>Settling withdraws\<close>

named_theorems over_rules \<open>operations that withdraw what they settle\<close>

lemmas [over_rules] = over.keeps_rules

lemma over_emit [over_rules]: "(\<And>r. e \<noteq> ReplyPosted r) \<Longrightarrow> keeps (over D E org hst i) (emit e)"
  by (intro over_still still_rules calm_rules books.channel_tools)

lemma over_tools [over_rules]: "keeps (over D E org hst i) requireMeta"
    "keeps (over D E org hst i) (requireEvent x)" "keeps (over D E org hst i) (requireDelivery x)"
    "keeps (over D E org hst i) (connectorFor env name)" "keeps (over D E org hst i) (openConfig env meta)"
    "keeps (over D E org hst i) (setConnectorStatus env state why)" "keeps (over D E org hst i) (scheduleAt env t)"
    "keeps (over D E org hst i) (armHealth env config)" "keeps (over D E org hst i) (armPoll env connector)"
    "keeps (over D E org hst i) (reportHealth env meta config)" "keeps (over D E org hst i) (scheduleNext env)"
    "keeps (over D E org hst i) (integration_detail_of env)"
  by (intro over_still still_rules calm_rules books.channel_tools)+

lemma over_dispatch [over_rules]: "plain_ids D \<Longrightarrow> keeps (over D E org hst i) (dispatchDelivery env ident)"
    "plain_ids D \<Longrightarrow> keeps (over D E org hst i) (dispatchDue env)"
  by (intro over_still still_rules calm_rules books.channel_dispatch books.channel_due; assumption)+

lemma over_ingest [over_rules]:
  "channel_fit D E env \<Longrightarrow> plain_ids D \<Longrightarrow> keeps (over D E org hst i) (ingestEvent env event)"
  by (intro over_still still_ingest ingestEvent_calm books.channel_ingest)

text \<open>What comes after the organization is read may rely on it.\<close>

lemma over_meta:
  assumes "keeps (advances D E) (bind_op requireMeta f)" "\<And>m. im_org m = org \<Longrightarrow> keeps (over D E org hst i) (f m)"
  shows "keeps (over D E org hst i) (bind_op requireMeta f)"
proof (rule over.keepsI, rule overI)
  fix w
  show "advances D E w (fst (bind_op requireMeta f w))" using assms(1) by (simp add: keeps_def)
  assume wf: "channel_wf D E w" and ok: "withdrawn org hst i w"
  then obtain m where m: "ig_meta (cw_self w) = Some m" "im_org m = org" by (auto simp: withdrawn_def)
  have "over D E org hst i w (fst (f m w))" using over.keepsD [OF assms(2) [OF m(2)]] .
  then show "withdrawn org hst i (fst (bind_op requireMeta f w))" using wf ok by (simp add: run_reads m over_def)
qed

text \<open>Taking back the copies at the agent's hub: what is settled there is withdrawn.\<close>

abbreviation hub_up :: "jstr \<Rightarrow> jstr \<Rightarrow> channel_env \<Rightarrow> bool" where
  "hub_up org hst env \<equiv> rv_unreachable (ch_room env) (hub_name org hst) = None"

lemma cancel_drains:
  assumes "hubs_inv (cw_hubs w)" "parseAddress (dl_targetAddr d) = Inr (AgentAddress name hst o' a)"
    and "hub_up org hst env" "marker_of_message (dl_id d) k"
  shows "\<not> pending_delivery (hub_at (cw_hubs (fst (cancelHostQueue env d org w))) (hub_name org hst)) k"
proof -
  have "cw_hubs (fst (cancelHostQueue env d org w)) =
      kv_put (hub_name org hst) (fst (cancelDelivery (rv_hub (ch_room env)) (dl_id d) (hub_at (cw_hubs w) (hub_name org hst)))) (cw_hubs w)"
    using assms(2,3)
    by (simp add: cancelHostQueue_def run_reads thrown_def cancel_at_hub_def try_op_def bind_op_def lift_op_def)
  then show ?thesis using hub.cancel_pending [OF hub_at_inv [OF assms(1)]] assms(4) by (simp add: hub_at_put)
qed

text \<open>
  After a world \<open>w\<close> that owes the withdrawal of the delivery just settled and of nothing else, the
  cancellation pays.
\<close>

lemma withdrawn_by_cancel:
  assumes "hubs_inv (cw_hubs w)" "map_option im_org (ig_meta (cw_self w)) = Some org" "hub_up org hst env"
    and "kv_get (ig_deliveries (cw_self w)) (dl_id d) = Some d" "i \<noteq> dl_id d \<Longrightarrow> withdrawn org hst i w"
  shows "withdrawn org hst i (fst (cancelHostQueue env d org w))" (is "withdrawn org hst i ?w")
proof -
  have same: "cw_self ?w = cw_self w"
    by (auto simp: cancelHostQueue_def run_reads run_simps try_op_def cancel_at_hub_def cancel_at_room_def Let_def
        split: sum.splits transit_address.splits option.splits prod.splits)
  have inv: "hubs_inv (cw_hubs ?w)"
    using step_relation.keepsD [OF books.channel_relation books.channel_owner(2), of w env d org] assms(1)
    by (simp add: hubs_inv_def channel_step_def hubs_step_def keeps_books_def)
  show ?thesis
  proof (cases "i = dl_id d")
    case True
    then show ?thesis using assms inv cancel_drains [OF assms(1) _ assms(3)] unfolding withdrawn_def same by auto
  next
    case False
    have "quiet i w ?w" by (rule quiet.keepsD [OF quiet_cancel])
    with assms(1,5) [OF] False show ?thesis
      unfolding withdrawn_def same using inv assms(2) by (simp add: quiet_def quiet_hubs_def) blast
  qed
qed


text \<open>A world that differs from a withdrawn one in the record of another delivery.\<close>

lemma withdrawn_elsewhere:
  assumes "withdrawn org hst i w" "cw_hubs w' = cw_hubs w" "ig_meta (cw_self w') = ig_meta (cw_self w)"
    and "kv_get (ig_deliveries (cw_self w')) i = kv_get (ig_deliveries (cw_self w)) i"
  shows "withdrawn org hst i w'"
  using assms by (simp add: withdrawn_def)

lemma over_settle:
  assumes "held d w" "hub_up org hst env"
  shows "over D E org hst i w (fst (settle env org d w))"
proof (rule overI [OF settle_advances [OF assms(1)]])
  assume ok: "withdrawn org hst i w"
  let ?d = "settled env d"
  let ?w = "fst (emit (DeliveryWrite ?d) (fst (put_delivery ?d w)))"
  have run: "settle env org d w = cancelHostQueue env ?d org ?w"
    by (simp add: settle_def then_op_def bind_op_def put_delivery_def run_self_op run_emit)
  have w: "cw_hubs ?w = cw_hubs w" "ig_meta (cw_self ?w) = ig_meta (cw_self w)"
      "ig_deliveries (cw_self ?w) = kv_put (dl_id ?d) ?d (ig_deliveries (cw_self w))"
    by (simp_all add: put_delivery_def run_self_op run_emit)
  show "withdrawn org hst i (fst (settle env org d w))"
    unfolding run
  proof (rule withdrawn_by_cancel)
    show "i \<noteq> dl_id ?d \<Longrightarrow> withdrawn org hst i ?w" by (rule withdrawn_elsewhere [OF ok]) (simp_all add: w store_simps)
  qed (use ok assms(2) in \<open>simp_all add: w withdrawn_def store_simps\<close>)
qed

lemma over_finish: "held d w \<Longrightarrow> hub_up org hst env \<Longrightarrow> over D E org hst i w (fst (finishHandled env d org w))"
  by (auto simp: finishHandled_def run_simps over.refl intro!: over.then_at over_settle)

lemma over_mark [over_rules]:
  assumes "hub_up org hst env"
  shows "keeps (over D E org hst i) (markHandled env ident caller)" "keeps (over D E org hst i) (operatorMarkHandled env ident)"
proof -
  have owned: "keeps (over D E org hst i) (bind_op (requireDelivery ident) (\<lambda>d. then_op (assertOwner env d caller org) (finishHandled env d org)))"
    and own: "keeps (over D E org hst i) (bind_op (requireDelivery ident) (\<lambda>d. finishHandled env d org))" for caller
    by (rule over.keepsI, rule over_wfI,
        auto simp: run_reads run_owner run_simps over.refl split: option.splits sum.splits
          intro!: over_finish [OF _ assms] dest: held_found)+
  show "keeps (over D E org hst i) (markHandled env ident caller)"
    unfolding markHandled_def
    by (rule over_meta [OF markHandled_advances [unfolded markHandled_def]]) (simp add: owned)
  show "keeps (over D E org hst i) (operatorMarkHandled env ident)"
    unfolding operatorMarkHandled_def
    by (rule over_meta [OF operatorMarkHandled_advances [unfolded operatorMarkHandled_def]]) (simp add: own)
qed


text \<open>One delivery after the other: a delivery that was read before is still the one stored.\<close>

lemma over_each:
  assumes "\<And>d w. held d w \<Longrightarrow> over D E org hst i w (fst (f d w))" and "channel_wf D E w" "\<And>d. d \<in> set ds \<Longrightarrow> held d w"
  shows "over D E org hst i w (fst (each_op f ds w))"
  using assms(2,3)
proof (induction ds arbitrary: w)
  case (Cons d ds)
  have one: "over D E org hst i w (fst (f d w))" using assms(1) Cons.prems by simp
  show ?case unfolding each_op.simps
  proof (rule over.then_at, rule one)
    fix a s1 assume "f d w = (s1, Inr a)"
    then have a: "advances D E w s1" using over_advances [OF one] by simp
    show "over D E org hst i s1 (fst (each_op f ds s1))"
      by (rule Cons.IH) (use advancesD(1) [OF a] held_advances [OF a] Cons.prems in simp_all)
  qed
qed (simp add: run_simps over.refl)

lemma over_conversation [over_rules]:
  assumes "hub_up org hst env"
  shows "keeps (over D E org hst i) (settleConversation env c)"
  unfolding settleConversation_def
proof (rule over_meta [OF settleConversation_advances [unfolded settleConversation_def]])
  fix meta :: integration_meta assume m: "im_org meta = org"
  show "keeps (over D E org hst i)
     (bind_op (read_op (\<lambda>w. map snd (ig_deliveries (cw_self w)))) (each_op (settle_if_of env (im_org meta) c)))"
  proof (rule over.keepsI, rule over_wfI)
    fix w assume wf: "channel_wf D E w"
    have "over D E org hst i w (fst (each_op (settle_if_of env org c) (map snd (ig_deliveries (cw_self w))) w))"
      by (rule over_each [OF _ wf])
        (auto simp: settle_if_of_def when_op_def run_reads run_simps over.refl split: option.splits
          intro: over_settle [OF _ assms] held_listed [OF wf])
    then show "over D E org hst i w (fst (bind_op (read_op (\<lambda>w. map snd (ig_deliveries (cw_self w))))
        (each_op (settle_if_of env (im_org meta) c)) w))" by (simp add: run_reads m)
  qed
qed

section \<open>The connector at work\<close>

lemma over_act [over_rules]:
  assumes "channel_fit D E env" "plain_ids D" "hub_up org hst env"
  shows "keeps (over D E org hst i) (connector_act env act)"
  unfolding connector_act_def by (cases act) (auto intro!: over_rules assms)

lemma over_callback [over_rules]:
  assumes "channel_fit D E env" "plain_ids D" "hub_up org hst env"
  shows "keeps (over D E org hst i) (run_callback env call)" "keeps (over D E org hst i) (run_hook env hook config)"
proof -
  show c: "keeps (over D E org hst i) (run_callback env call)" for call :: "'r callback"
    unfolding run_callback_def by (intro over_rules assms)
  show "keeps (over D E org hst i) (run_hook env hook config)"
    unfolding run_hook_def by (auto split: option.splits intro: over_rules c)
qed


section \<open>Reading and replying\<close>

lemma still_read:
  assumes "kv_get (ig_deliveries (cw_self w)) i' = Some d" "dl_id d = i'"
  shows "still i w (fst (record_read env d w))"
proof -
  let ?d = "d\<lparr>dl_readAt := Some (ch_now env), dl_status := Read\<rparr>"
  have old: "dl_settledAt d = None \<or> settled_in (dl_id d) w" using assms by (auto simp: settled_in_def)
  have "still i w (fst (then_op (put_delivery ?d) (then_op (emit (DeliveryWrite ?d)) (scheduleDelivery env ?d)) w))"
  proof (rule still.then_at)
    show "still i w (fst (put_delivery ?d w))" using old by (intro still_put) simp
    fix u w1 assume "put_delivery ?d w = (w1, Inr u)"
    then have w1: "dl_settledAt ?d = None \<or> settled_in (dl_id ?d) w1"
      using old by (auto simp: put_delivery_def run_self_op settled_in_def store_simps)
    show "still i w1 (fst (then_op (emit (DeliveryWrite ?d)) (scheduleDelivery env ?d) w1))"
    proof (rule still.then_at, rule still.keepsD [OF still_emit], rule still_arming)
      fix u w2 assume "emit (DeliveryWrite ?d) w1 = (w2, Inr u)"
      then show "dl_settledAt ?d = None \<or> settled_in (dl_id ?d) w2" using w1 by (auto simp: run_emit settled_in_def)
    qed
  qed
  then show ?thesis by (simp add: record_read_def Let_def run_simps still.refl)
qed

lemma over_read [over_rules]: "keeps (over D E org hst i) (readMessage env ident caller)"
    "keeps (over D E org hst i) (readMessageV2 env ident caller)" "keeps (over D E org hst i) (attachment_fetch env b x index)"
    "keeps (over D E org hst i) (recordInjection env ident target via)"
proof -
  have st: "still i w (fst (readMessage env ident caller w))" if "channel_wf D E w" for w
    using that
    by (auto simp: readMessage_def run_reads run_owner run_simps still.refl Let_def split: option.splits sum.splits
        intro!: still.bind_at [OF still_read] dest: channel_wf_key)
  show read: "keeps (over D E org hst i) (readMessage env ident caller)"
    by (rule over.keepsI, rule over_wfI, rule over_still_at)
      (simp_all add: st calm.keepsD [OF calmI [OF readMessage_advances quiet_reading(1)]]
        step_relation.keepsD [OF books.channel_relation books.channel_reading(1)])
  have owner: "keeps (over D E org hst i) (assertOwner env d caller o')" for d o'
    by (rule over_still [OF calm_untouched [OF keeps_assertOwner quiet_settling(3)] books.channel_owner(1) still_owner])
  show "keeps (over D E org hst i) (readMessageV2 env ident caller)"
    unfolding readMessageV2_def Let_def by (intro over_rules read owner)
  show "keeps (over D E org hst i) (attachment_fetch env b x index)"
    unfolding attachment_fetch_def by (auto simp: Let_def split: option.splits prod.splits intro!: over_rules)
  have "still i w (fst (recordInjection env ident target via w))" if "channel_wf D E w" for w
    by (auto simp: recordInjection_def run_reads run_simps Let_def still.refl split: option.splits sum.splits
        intro!: still_put_then still_rules)
  then show "keeps (over D E org hst i) (recordInjection env ident target via)"
    by - (rule over.keepsI, rule over_wfI, rule over_still_at,
      simp_all add: calm.keepsD [OF calmI [OF recordInjection_advances quiet_settling(4)]]
        step_relation.keepsD [OF books.channel_relation books.channel_settling(4)])
qed


lemma over_post:
  assumes "channel_fit D E env" "plain_ids D" "hub_up org hst env" "im_org meta = org"
    and "channel_wf D E w" "held d w" "rp_deliveryId r = dl_id d" "unposted (cw_self w) (dl_id d)"
  shows "over D E org hst i w (fst (postRecordedReply env meta event d r w))"
proof (rule overI)
  show "advances D E w (fst (postRecordedReply env meta event d r w))"
    by (rule postRecordedReply_cases [OF surjective_pairing assms(1,6,5,7,8)])
  assume ok: "withdrawn org hst i w"
  let ?d = "settled env d"
  let ?rest = "then_op (emit (ReplyWrite (posted env r))) (then_op (emit (DeliveryWrite ?d))
            (cancelHostQueue env ?d (im_org meta)))"
  have call: "withdrawn org hst i w1" if "run_callback env call w = (w1, res)" for call :: "unit callback" and w1 res
    using over.keepsD [OF over_callback(1) [OF assms(1-3)], where s = w and call1 = call] that ok assms(5) by (simp add: over_def)
  have pay: "withdrawn org hst i (fst (?rest (after_post req (posted env r) ?d w1)))" if w1: "withdrawn org hst i w1" for req w1
  proof -
    let ?w = "fst (then_op (emit (ReplyWrite (posted env r))) (emit (DeliveryWrite ?d)) (after_post req (posted env r) ?d w1))"
    have run: "?rest (after_post req (posted env r) ?d w1) = cancelHostQueue env ?d org ?w"
      by (simp add: assms(4) then_op_def bind_op_def run_emit)
    have w: "cw_hubs ?w = cw_hubs w1" "ig_meta (cw_self ?w) = ig_meta (cw_self w1)"
        "ig_deliveries (cw_self ?w) = kv_put (dl_id ?d) ?d (ig_deliveries (cw_self w1))"
      by (simp_all add: then_op_def bind_op_def run_emit after_post_def)
    show ?thesis unfolding run
    proof (rule withdrawn_by_cancel)
      show "i \<noteq> dl_id ?d \<Longrightarrow> withdrawn org hst i ?w" by (rule withdrawn_elsewhere [OF w1]) (simp_all add: w store_simps)
    qed (use w1 assms(3) in \<open>simp_all add: w withdrawn_def store_simps\<close>)
  qed
  have out: "withdrawn org hst i (v\<lparr>cw_out := x\<rparr>)" if "withdrawn org hst i v" for v x using that by (simp add: withdrawn_def)
  show "withdrawn org hst i (fst (postRecordedReply env meta event d r w))"
  proof (cases "ch_connectors env (im_connector meta)")
    case (Some c)
    show ?thesis
    proof (cases "ch_open env (im_configEnc meta)")
      case (Inr config)
      obtain w1 res where w1: "run_callback env (cn_postReply c config (request_of event d r)) w = (w1, res)" by fastforce
      have "withdrawn org hst i w1" by (rule call [OF w1])
      then show ?thesis using pay out by (cases res) (simp_all add: postRecordedReply_run Some Inr w1)
    qed (simp add: postRecordedReply_run Some ok)
  qed (simp add: postRecordedReply_run ok)
qed


lemma over_put_reply: "advances D E w (fst (put_reply r w)) \<Longrightarrow> over D E org hst i w (fst (put_reply r w))"
  by (rule overI) (simp_all add: withdrawn_def put_reply_def run_self_op)

text \<open>What is stored when the post failed, and what follows.\<close>

lemma over_failed:
  assumes "postRecordedReply env meta event d r w = (w2, Inl e)" "channel_fit D E env" "channel_wf D E w" "held d w"
    and "rp_deliveryId r = dl_id d" "unposted (cw_self w) (dl_id d)" "keeps (over D E org hst i) rest"
  shows "over D E org hst i w2 (fst (then_op (put_reply (delayed env e r)) rest w2))"
proof (rule over.then_at [OF over_put_reply over.keepsD [OF assms(7)]])
  have "replies_kept w w2 \<and> advances D E w w2"
    by (rule postRecordedReply_cases [OF assms(1,2,4,3,5,6)]) auto
  then show "advances D E w2 (fst (put_reply (delayed env e r) w2))"
    by (intro retry_put_advances [OF _ _ assms(3,4) _ assms(6)]) (simp_all add: delayed_def assms(5))
qed

lemma over_retries [over_rules]:
  assumes "channel_fit D E env" "plain_ids D" "hub_up org hst env" "im_org meta = org"
  shows "keeps (over D E org hst i) (retryReplies env meta)"
proof (rule over.keepsI, rule over_wfI)
  fix w assume wf: "channel_wf D E w"
  show "over D E org hst i w (fst (retryReplies env meta w))"
  proof (rule retryReplies_by [OF over.step_relation_axioms over_advances assms(1) _ wf])
    fix w r assume w: "channel_wf D E w" "kv_get (ig_replies (cw_self w)) (rp_deliveryId r) = Some r"
    have "over D E org hst i w (fst (try_op (postRecordedReply env meta event d r)
        (\<lambda>e. then_op (put_reply (delayed env e r)) (emit (ReplyWrite (delayed env e r)))) w))"
      if d: "kv_get (ig_deliveries (cw_self w)) (rp_deliveryId r) = Some d" "\<not> some_time (rp_postedAt r)" for d event
    proof -
      have id: "rp_deliveryId r = dl_id d" using channel_wf_key [OF w(1) d(1)] by simp
      have un: "unposted (cw_self w) (dl_id d)" using d(2) w(2) id by (simp add: unposted_def)
      show ?thesis
        by (rule over.try_at, rule over_post [OF assms w(1) held_found [OF w(1) d(1)] id un],
            rule over_failed [OF _ assms(1) w(1) held_found [OF w(1) d(1)] id un], assumption, rule over_emit) simp
    qed
    then show "over D E org hst i w (fst (retry_reply env meta r w))"
      by (auto simp: retry_reply_def run_reads run_simps over.refl split: option.splits)
  qed
qed

lemma over_open:
  assumes "chatReply_open env inp w = (w1, Inr (meta, event, d, r))" "channel_wf D E w"
    and "kv_get (ig_replies (cw_self w)) (ri_deliveryId inp) = None"
  shows "over D E org hst i w w1"
proof (rule overI)
  obtain d0 where d0: "kv_get (ig_deliveries (cw_self w)) (ri_deliveryId inp) = Some d0"
      "d = d0\<lparr>dl_status := Replied, dl_nextAttemptAt := None\<rparr>" "w1 = after_open r d w"
    using assms(1) unfolding chatReply_open_def run_reads
    by (auto simp: run_reads run_owner run_canReply run_open run_simps Let_def split: option.splits sum.splits if_splits)
  show "advances D E w w1" using assms by (cases rule: chatReply_open_cases) auto
  have "dl_id d0 = ri_deliveryId inp" using channel_wf_key [OF assms(2) d0(1)] by simp
  moreover have "cw_hubs w1 = cw_hubs w" "ig_meta (cw_self w1) = ig_meta (cw_self w)"
      "ig_deliveries (cw_self w1) = kv_put (dl_id d) d (ig_deliveries (cw_self w))"
    by (simp_all add: d0(3) after_open_def put_delivery_def put_reply_def run_self_op)
  moreover assume "withdrawn org hst i w"
  ultimately show "withdrawn org hst i w1"
    using d0(1) unfolding withdrawn_def by (cases "i = ri_deliveryId inp") (simp_all add: d0(2) store_simps)
qed

lemma over_reply [over_rules]:
  assumes "channel_fit D E env" "plain_ids D" "hub_up org hst env"
  shows "keeps (over D E org hst i) (chatReply env inp)"
proof (rule over.keepsI, rule overI)
  fix w
  show "advances D E w (fst (chatReply env inp w))" using chatReply_advances [OF assms(1)] by (simp add: keeps_def)
  assume wf: "channel_wf D E w" and ok: "withdrawn org hst i w"
  show "withdrawn org hst i (fst (chatReply env inp w))"
  proof (cases "kv_get (ig_replies (cw_self w)) (ri_deliveryId inp)")
    case None
    obtain w1 res where w1: "chatReply_open env inp w = (w1, res)" by fastforce
    from w1 wf None show ?thesis
    proof (cases rule: chatReply_open_cases)
      case (threw e)
      then show ?thesis using ok by (simp add: chatReply_def run_reads None bind_run w1)
    next
      case (opened meta event d r)
      have org: "im_org meta = org" using ok opened(9) by (simp add: withdrawn_def)
      have first: "over D E org hst i w w1" using over_open [OF _ wf None] w1 opened(1) by blast
      have wf1: "channel_wf D E w1" using advancesD(1) [OF opened(2) wf] .
      have "over D E org hst i w1 (fst (chatReply_post env meta event d r w1))"
        unfolding chatReply_post_def
      proof (rule over.try_at)
        show "over D E org hst i w1 (fst (then_op (postRecordedReply env meta event d r)
           (return_op \<lparr>cr_handled = True, cr_duplicate = False, cr_message = rp_message r, cr_postError = None\<rparr>) w1))"
          by (rule over.then_at, rule over_post [OF assms org wf1 opened(3,4,5)]) (simp add: run_simps over.refl)
        fix e w2 assume "then_op (postRecordedReply env meta event d r)
           (return_op \<lparr>cr_handled = True, cr_duplicate = False, cr_message = rp_message r, cr_postError = None\<rparr>) w1 = (w2, Inl e)"
        then have "postRecordedReply env meta event d r w1 = (w2, Inl e)" by (auto elim: then_op_cases simp: run_simps)
        then show "over D E org hst i w2 (fst (then_op (put_reply (delayed env e r))
           (then_op (scheduleAt env (ch_now env + REPLY_RETRY_MS)) (then_op (emit (ReplyWrite (delayed env e r)))
             (return_op \<lparr>cr_handled = False, cr_duplicate = False, cr_message = rp_message r, cr_postError = Some e\<rparr>))) w2))"
          by (rule over_failed [OF _ assms(1) wf1 opened(3,4,5)]) (intro over_rules, simp)
      qed
      then have "withdrawn org hst i (fst (chatReply_post env meta event d r w1))"
        using first wf wf1 ok by (simp add: over_def)
      then show ?thesis by (simp add: chatReply_def run_reads None bind_run w1 opened(1))
    qed
  qed (simp add: chatReply_def run_reads run_simps ok)
qed


section \<open>Requests\<close>

lemma over_self:
  assumes "\<And>st. ig_meta (f st) = ig_meta st" "\<And>st. ig_deliveries (f st) = ig_deliveries st \<and> ig_replies (f st) = ig_replies st \<and>
    ig_events (f st) = ig_events st \<and> ig_keys (f st) = ig_keys st"
  shows "keeps (over D E org hst i) (self_op f)"
  by (intro over_still still_self calm_frame books.channel_self) (simp_all add: assms)

lemma over_set_meta:
  assumes "\<And>st. map_option im_org (ig_meta (f st)) = Some org" "\<And>st. ig_deliveries (f st) = ig_deliveries st \<and> ig_replies (f st) = ig_replies st \<and>
    ig_events (f st) = ig_events st \<and> ig_keys (f st) = ig_keys st"
  shows "keeps (over D E org hst i) (self_op f)"
proof (rule over.keepsI, rule overI)
  show "advances D E w (fst (self_op f w))" for w
    by (rule adv.keepsD, rule keeps_untouched_advances, rule keeps_self) (rule assms(2))
qed (simp add: withdrawn_def run_self_op assms)

lemma over_read_meta:
  assumes "keeps (advances D E) (bind_op (read_op (\<lambda>w. ig_meta (cw_self w))) f)" "\<And>m. im_org m = org \<Longrightarrow> keeps (over D E org hst i) (f (Some m))"
  shows "keeps (over D E org hst i) (bind_op (read_op (\<lambda>w. ig_meta (cw_self w))) f)"
proof (rule over.keepsI, rule overI)
  fix w
  show "advances D E w (fst (bind_op (read_op (\<lambda>w. ig_meta (cw_self w))) f w))" using assms(1) by (simp add: keeps_def)
  assume wf: "channel_wf D E w" and ok: "withdrawn org hst i w"
  then obtain m where m: "ig_meta (cw_self w) = Some m" "im_org m = org" by (auto simp: withdrawn_def)
  have "over D E org hst i w (fst (f (Some m) w))" using over.keepsD [OF assms(2) [OF m(2)]] .
  then show "withdrawn org hst i (fst (bind_op (read_op (\<lambda>w. ig_meta (cw_self w))) f w))" using wf ok by (simp add: run_reads m over_def)
qed

lemma over_poll [over_rules]:
  assumes "channel_fit D E env" "plain_ids D" "hub_up org hst env"
  shows "keeps (over D E org hst i) (runPollWindow env meta connector)"
proof (rule runPollWindow_by [OF over.step_relation_axioms])
  fix t and c :: "(bool \<times> int option) callback" assume "ch_now env \<le> t"
  then show "keeps (over D E org hst i) (run_callback (later t env) c)"
    using assms by (intro over_callback fit_later) (simp_all add: channel_fit_def later_def)
qed (intro over_rules over_self; simp)+

lemma over_alarm [over_rules]:
  assumes "channel_fit D E env" "plain_ids D" "hub_up org hst env"
  shows "keeps (over D E org hst i) (integration_alarm env)"
  unfolding integration_alarm_def
proof (rule over.keeps_then, (rule over_self; simp), rule over_read_meta)
  show "keeps (over D E org hst i)
      (case Some m of None \<Rightarrow> return_op ()
        | Some meta \<Rightarrow>
            if \<not> im_active meta then return_op ()
            else bind_op (connectorFor env (im_connector meta)) (\<lambda>connector.
              bind_op (openConfig env meta) (\<lambda>config.
              then_op (retryReplies env meta) (then_op (dispatchDue env)
              (then_op (try_op (run_hook env (cn_wake connector) config)
                  (\<lambda>e. setConnectorStatus env InError (Some e)))
              (bind_op (if cn_poll connector = None then return_op (ch_now env) else runPollWindow env meta connector) (\<lambda>t.
              then_op (reportHealth (later t env) meta config) (scheduleNext (later t env)))))))))"
    if "im_org m = org" for m
    using that assms by (auto intro!: over_rules)
qed (use assms(1) in \<open>auto split: option.splits intro!: adv_rules adv_frame\<close>)

lemma over_pause [over_rules]:
  assumes "channel_fit D E env" "plain_ids D" "hub_up org hst env"
  shows "keeps (over D E org hst i) (integration_pause env paused)"
  unfolding integration_pause_def
  by (rule over_meta [OF integration_pause_advances [OF assms(1), unfolded integration_pause_def]])
    (use assms in \<open>auto intro!: over_rules over_set_meta\<close>)

lemma over_configure [over_rules]:
  assumes "channel_fit D E env" "plain_ids D" "hub_up org hst env"
  shows "keeps (over D E org hst i) (integration_configure env inp)"
  unfolding integration_configure_def
proof (rule over.keeps_bind [OF over_tools(4)], rule over_read_meta, goal_cases)
  case (1 connector)
  then show ?case using assms(1) by (auto simp: Let_def split: option.splits prod.splits intro!: adv_rules adv_frame)
next
  case (2 connector m)
  then show ?case using assms by (auto simp: Let_def split: option.splits prod.splits intro!: over_rules over_set_meta)
qed

lemma over_webhook [over_rules]:
  "channel_fit D E env \<Longrightarrow> plain_ids D \<Longrightarrow> hub_up org hst env \<Longrightarrow> keeps (over D E org hst i) (integration_webhook env request)"
  unfolding integration_webhook_def by (auto split: option.splits intro!: over_rules)

lemma over_requeue [over_rules]: "keeps (over D E org hst i) (integration_requeue env ident)"
  by (rule over.keepsI, rule over_wfI)
     (auto simp: integration_requeue_def run_reads run_simps over.refl split: option.splits dest: channel_wf_key)

lemma serve_over:
  assumes "channel_fit D E env" "plain_ids D" "hub_up org hst env"
  shows "over D E org hst i w (serve env request w)"
  using assms by (cases request) (auto simp: done_op_def intro!: over.keepsD over_rules)

end
