(* ===== verification/Channel_Delivery.thy ===== *)
theory Channel_Delivery
  imports Channel_Properties Channel_Settled
begin

text \<open>
  From the event to the agent: what an accepted event becomes at the hub of its target, and that a
  settled delivery is over at every hub.
\<close>

section \<open>Settled deliveries are over\<close>

fun serve_all :: "(channel_env \<times> channel_request) list \<Rightarrow> channel_world \<Rightarrow> channel_world" where
  "serve_all [] w = w"
| "serve_all ((env, request) # rest) w = serve_all rest (serve env request w)"

lemma serve_all_calm:
  assumes "\<And>env request. (env, request) \<in> set rs \<Longrightarrow> channel_fit D E env" "plain_ids D"
  shows "calm D E i w (serve_all rs w)"
  using assms(1)
proof (induction rs arbitrary: w)
  case (Cons r rs)
  obtain env request where r: "r = (env, request)" by (cases r)
  have "calm D E i w (serve env request w)" by (rule serve_calm) (use Cons.prems r assms(2) in auto)
  moreover have "calm D E i (serve env request w) (serve_all rs (serve env request w))"
    by (rule Cons.IH) (use Cons.prems in auto)
  ultimately show ?case unfolding r serve_all.simps by (rule calm.trans)
qed (simp add: calm.refl)

text \<open>
  C10: a settled delivery is over. When a request of any kind settles a delivery to an agent whose hub
  answers, be it by a mark, a posted reply, a retry on the alarm or a connector that settles the
  conversation, nothing is pending for it at the agent's hub when the request is done; and whatever the
  channel is asked afterwards, alarms, connectors and new events included, it stays settled and never
  becomes pending there again.
\<close>
theorem settled_delivery_is_over:
  assumes "channel_reach D E w" and "plain_ids D" and "hubs_inv (cw_hubs w)"
    and "ig_meta (cw_self w) = Some meta" and "\<forall>d. kv_get (ig_deliveries (cw_self w)) i = Some d \<longrightarrow> dl_settledAt d = None"
    and "channel_fit D E env" and "rv_unreachable (ch_room env) (hub_name (im_org meta) host) = None"
    and "kv_get (ig_deliveries (cw_self (serve env request w))) i = Some d" and "dl_settledAt d \<noteq> None"
    and "parseAddress (dl_targetAddr d) = Inr (AgentAddress name host o' a)"
    and "\<forall>(env', request') \<in> set rs. channel_fit D E env'" and "marker_of_message i k"
  shows "\<not> pending_delivery (hub_at (cw_hubs (serve env request w)) (hub_name (im_org meta) host)) k \<and>
    \<not> pending_delivery (hub_at (cw_hubs (serve_all rs (serve env request w))) (hub_name (im_org meta) host)) k \<and>
    (\<exists>d'. kv_get (ig_deliveries (cw_self (serve_all rs (serve env request w)))) i = Some d' \<and> dl_settledAt d' \<noteq> None)"
proof -
  let ?w1 = "serve env request w"
  note wf = channel_reach_wf [OF assms(1)]
  note wf1 = advancesD(1) [OF serve_advances [OF assms(6)] wf]
  have "withdrawn (im_org meta) host i w" using assms(3-5) by (simp add: withdrawn_def)
  then have one: "withdrawn (im_org meta) host i ?w1"
    using serve_over [OF assms(6,2,7), of i w request] wf by (simp add: over_def)
  then have inv: "hubs_inv (cw_hubs ?w1)" and now: "\<not> pending_delivery (hub_at (cw_hubs ?w1) (hub_name (im_org meta) host)) k"
    using assms(8-10,12) by (simp_all add: withdrawn_def)
  have s: "settled_in i ?w1" using assms(8,9) by (auto simp: settled_in_def)
  have c: "calm D E i ?w1 (serve_all rs ?w1)" by (rule serve_all_calm) (use assms(2,11) in auto)
  then have "settled_in i (serve_all rs ?w1)" using settled_in_advances wf1 s by (auto simp: calm_def)
  moreover have "\<not> pending_delivery (hub_at (cw_hubs (serve_all rs ?w1)) (hub_name (im_org meta) host)) k"
    using c wf1 s inv now assms(12) by (auto simp: calm_def quiet_def quiet_hubs_def)
  ultimately show ?thesis using now by (auto simp: settled_in_def)
qed


section \<open>An event reaches its agent\<close>

definition hubs_same :: "channel_world \<Rightarrow> channel_world \<Rightarrow> bool" where
  "hubs_same w w' \<longleftrightarrow> cw_hubs w' = cw_hubs w \<and> ig_meta (cw_self w') = ig_meta (cw_self w)"

interpretation hs: step_relation hubs_same
  by unfold_locales (simp_all add: hubs_same_def)

lemma hubs_same_self: "(\<And>st. ig_meta (f st) = ig_meta st) \<Longrightarrow> keeps hubs_same (self_op f)"
  by (simp add: keeps_def hubs_same_def run_self_op)

lemma hubs_same_rules:
  "keeps hubs_same (emit e)" "keeps hubs_same (connectorFor env name)"
  "keeps hubs_same (scheduleAt env t)" "keeps hubs_same (schedule_next_attempt env d)"
proof -
  show "keeps hubs_same (emit e)" by (simp add: keeps_def hubs_same_def run_emit)
  show c: "keeps hubs_same (connectorFor env name)" for env name
    unfolding connectorFor_def by (auto split: option.splits intro: hs.keeps_rules)
  show a: "keeps hubs_same (scheduleAt env t)" for env t
    unfolding scheduleAt_def alarmLimit_def by (auto simp: Let_def split: option.splits prod.splits intro!: hs.keeps_rules hubs_same_self c)
  show "keeps hubs_same (schedule_next_attempt env d)"
    unfolding schedule_next_attempt_def by (auto split: option.splits intro: hs.keeps_rules a)
qed

lemma close_dispatch_stores:
  fixes env :: channel_env and w :: channel_world
  assumes "dl_injectedVia d = None"
  defines "w' \<equiv> fst (close_dispatch env d w)"
  shows "kv_get (ig_deliveries (cw_self w')) (dl_id d) = Some (d\<lparr>dl_nextAttemptAt := Some (ch_now env + redeliveryDelay d)\<rparr>) \<and> cw_hubs w' = cw_hubs w \<and>
    ig_meta (cw_self w') = ig_meta (cw_self w) \<and> ig_events (cw_self w') = ig_events (cw_self w) \<and>
    ig_keys (cw_self w') = ig_keys (cw_self w)"
proof -
  let ?a = "d\<lparr>dl_nextAttemptAt := Some (ch_now env + redeliveryDelay d)\<rparr>"
  let ?w = "fst (put_delivery ?a w)" and ?rest = "then_op (emit (DeliveryWrite ?a)) (schedule_next_attempt env ?a)"
  have "armRedelivery (ch_now env) d = Inr ?a" by (simp add: armRedelivery_def sessionHeld_def assms(1))
  then have "close_dispatch env d w = ?rest ?w" by (simp add: close_dispatch_def run_reads bind_run put_delivery_def run_self_op)
  moreover have "untouched ?w (fst (?rest ?w))" by (rule same.keepsD, intro frame_rules) simp
  moreover have "hubs_same ?w (fst (?rest ?w))" by (rule hs.keepsD, intro hs.keeps_rules hubs_same_rules)
  ultimately show ?thesis
    by (simp add: w'_def untouched_def hubs_same_def put_delivery_def run_self_op store_simps)
qed

text \<open>The entry that a hub holds for a new message: its content, and the marker that points at it.\<close>

definition holds_entry :: "host_hub \<Rightarrow> jstr \<Rightarrow> jstr \<Rightarrow> jstr \<Rightarrow> jstr \<Rightarrow> channel_envelope \<Rightarrow> bool" where
  "holds_entry st ident name addr envelope render \<longleftrightarrow> (\<exists>key item mk. kv_get (hub_queue st) key = Some item \<and>
     qd_messageId item = ident \<and> qd_agent item = name \<and> qd_targetAddr item = addr \<and> qd_envelope item = envelope \<and>
     qd_render item = Some render \<and> kv_get (hub_markers st) (marker_key ident name) = Some mk \<and>
     dm_status mk = MarkQueued \<and> dm_queueKey mk = Some key)"

lemma queue_new:
  assumes inv: "hub_inv st" and can: "canReceive env st (qi_agent inp) (qi_targetOrg inp) (qi_targetHost inp)"
    and new: "kv_get (hub_markers st) (marker_key (qi_messageId inp) (qi_agent inp)) = None"
    and inp: "qi_connectionId inp = None" "qi_enqueuedAt inp = None" "qi_render inp = Some render"
  shows "holds_entry (fst (queueDelivery env inp st)) (qi_messageId inp) (qi_agent inp) (qi_targetAddr inp) (qi_envelope inp) render"
proof -
  let ?mkey = "marker_key (qi_messageId inp) (qi_agent inp)" and ?key = "queue_key (qi_agent inp) (hub_seq st + 1)"
  obtain st1 status where e: "enqueue env inp st = (st1, status)" by fastforce
  have q1: "status = Queued" using e new by (simp add: enqueue_def Let_def)
  have inv1: "hub_inv st1" using enqueue_inv [OF inv, of env inp] e by simp
  obtain item where i: "kv_get (hub_queue st1) ?key = Some item" "qd_messageId item = qi_messageId inp" "qd_agent item = qi_agent inp"
      "qd_targetAddr item = qi_targetAddr inp" "qd_envelope item = qi_envelope inp" "qd_render item = Some render"
      "qd_attempts item = 0" "qd_enqueuedAt item = he_now env" "qd_connectionId item = None"
    using e new inp by (auto simp: enqueue_def Let_def store_simps)
  obtain mk where mk: "kv_get (hub_markers st1) ?mkey = Some mk" "dm_status mk = MarkQueued" "dm_queueKey mk = Some ?key"
    using e new by (auto simp: enqueue_def Let_def store_simps)
  have live: "dispatch_verdict env st1 item \<noteq> Expired err" for err
    using i(7-9) by (simp add: dispatch_verdict_def Let_def MAX_DELIVERY_ATTEMPTS_def DELIVERY_TTL_MS_def)
  let ?fin = "fst (dispatchQueued env st1)" and ?batch = "take QUEUE_BATCH_SIZE (hub_queue st1)"
  have fin: "fst (queueDelivery env inp st) = ?fin" by (simp add: queueDelivery_def can e q1 split_def Let_def)
  have in_batch: "i' = item" if "map_of ?batch ?key = Some i'" for i'
    using batch_entries(2) [OF inv1] map_of_SomeD [OF that] i(1) by fastforce
  have "\<exists>item'. kv_get (hub_queue ?fin) ?key = Some item' \<and> qd_messageId item' = qd_messageId item \<and> qd_agent item' = qd_agent item \<and>
      qd_targetAddr item' = qd_targetAddr item \<and> qd_envelope item' = qd_envelope item \<and> qd_render item' = qd_render item"
    using dispatchQueued_closed(1) [OF inv1, of env ?key] live i(1) in_batch
    by (cases "map_of ?batch ?key"; cases "dispatch_verdict env st1 item") (auto simp: entry_result_def)
  moreover have "kv_get (hub_markers ?fin) ?mkey = Some mk"
  proof (cases "map_of (rev (expired_markers env st1 ?batch)) ?mkey")
    case (Some mk')
    from map_of_rev_SomeD [OF Some] obtain key' item' err where k': "(key', item') \<in> set ?batch"
        "dispatch_verdict env st1 item' = Expired err" "?mkey = marker_key (qd_messageId item') (qd_agent item')"
      by (rule expired_markers_mem)
    then have g: "kv_get (hub_queue st1) key' = Some item'" using batch_entries(2) [OF inv1] by blast
    have "?key = key'" by (rule entry_by_marker [OF inv1 [unfolded hub_inv_def] i(1) g]) (simp add: i k'(3) [symmetric])
    then show ?thesis using g i(1) k'(2) live by simp
  qed (simp add: dispatchQueued_closed(2) [OF inv1] mk(1))
  ultimately show ?thesis unfolding holds_entry_def fin using i mk by metis
qed


lemma attempt_at_hub:
  fixes meta :: integration_meta and event :: stored_event and d :: delivery_record
  assumes "parseAddress (dl_targetAddr d) = Inr (AgentAddress name host o' a)" "rv_unreachable (ch_room env) (hub_name (im_org meta) host) = None"
    and "hubs_inv (cw_hubs w)"
  defines "hub \<equiv> hub_name (im_org meta) host" and "render \<equiv> channel_render meta event d"
  assumes "kv_get (hub_markers (hub_at (cw_hubs w) hub)) (marker_key (dl_id d) name) = None"
  shows "\<exists>w'. attempt_delivery env meta event d w = (w',
      Inr (if canReceive (rv_hub (ch_room env)) (hub_at (cw_hubs w) hub) name (im_org meta) host
           then attempted env d else d\<lparr>dl_lastError := Some (js ''no_route'')\<rparr>)) \<and>
    cw_self w' = cw_self w \<and>
    (if canReceive (rv_hub (ch_room env)) (hub_at (cw_hubs w) hub) name (im_org meta) host
     then holds_entry (hub_at (cw_hubs w') hub) (dl_id d) name a (renderEnvelope (ChannelEnvelope render)) render
     else hub_at (cw_hubs w') hub = hub_at (cw_hubs w) hub)"
proof -
  let ?inp = "\<lparr>qi_messageId = dl_id d, qi_org = im_org meta, qi_targetOrg = im_org meta, qi_targetHost = host,
               qi_agent = name, qi_targetAddr = a, qi_envelope = renderEnvelope (ChannelEnvelope render),
               qi_render = Some render,
               qi_enqueuedAt = None, qi_roomName = None, qi_roomSeq = None, qi_redelivery = (0 < dl_attempts d),
               qi_connectionId = None\<rparr>"
  let ?env = "rv_hub (ch_room env)" and ?st = "hub_at (cw_hubs w) hub"
  obtain st' effs status where q: "queueDelivery ?env ?inp ?st = (st', effs, status)" by (metis prod_cases3)
  have status: "status = NoRouteTo \<longleftrightarrow> \<not> canReceive ?env ?st name (im_org meta) host" "status = NoRouteTo \<Longrightarrow> st' = ?st"
    using q by (auto simp: queueDelivery_def Let_def enqueue_def split: if_splits prod.splits)
  let ?w' = "w\<lparr>cw_hubs := kv_put hub st' (cw_hubs w)\<rparr>"
  have run: "attempt_delivery env meta event d w = (?w', Inr (if status = NoRouteTo then d\<lparr>dl_lastError := Some (js ''no_route'')\<rparr> else attempted env d))"
    using assms(1,2) q
    by (simp add: attempt_delivery_def send_to_target_def run_reads thrown_def call_hub_def call_queueDelivery_def Let_def
        then_op_def bind_op_def [of "call_hub env n inp" for n inp] bind_op_def try_op_def run_simps hub_def [symmetric] render_def [symmetric])
  have "holds_entry st' (dl_id d) name a (renderEnvelope (ChannelEnvelope render)) render" if "status \<noteq> NoRouteTo"
    using queue_new [OF hub_at_inv [OF assms(3)], of ?env hub ?inp render] that q status(1) assms(6) by simp
  then show ?thesis using run status by (auto simp: hub_at_put)
qed

lemma dispatch_at_hub:
  fixes env :: channel_env and v :: channel_world and meta :: integration_meta and ev :: stored_event and d :: delivery_record
  assumes "ig_meta (cw_self v) = Some meta" "im_active meta" "kv_get (ig_deliveries (cw_self v)) (dl_id d) = Some d"
    "kv_get (ig_events (cw_self v)) (dl_eventId d) = Some ev" "dl_settledAt d = None" "dl_status d \<noteq> Dead" "dl_injectedVia d = None"
    "parseAddress (dl_targetAddr d) = Inr (AgentAddress name host o' a)" "rv_unreachable (ch_room env) (hub_name (im_org meta) host) = None"
    "hubs_inv (cw_hubs v)"
  defines "w' \<equiv> fst (dispatchDelivery env (dl_id d) v)" and "hub \<equiv> hub_name (im_org meta) host"
    and "ready \<equiv> canReceive (rv_hub (ch_room env)) (hub_at (cw_hubs v) (hub_name (im_org meta) host)) name (im_org meta) host"
    and "render \<equiv> channel_render meta ev d"
  defines "d' \<equiv> (if ready then attempted env d else d\<lparr>dl_lastError := Some (js ''no_route'')\<rparr>)"
  assumes "kv_get (hub_markers (hub_at (cw_hubs v) hub)) (marker_key (dl_id d) name) = None"
  shows "kv_get (ig_deliveries (cw_self w')) (dl_id d) = Some (d'\<lparr>dl_nextAttemptAt := Some (ch_now env + redeliveryDelay d')\<rparr>)"
    and "ready \<Longrightarrow> holds_entry (hub_at (cw_hubs w') hub) (dl_id d) name a (renderEnvelope (ChannelEnvelope render)) render"
    and "\<not> ready \<Longrightarrow> hub_at (cw_hubs w') hub = hub_at (cw_hubs v) hub"
    and "ig_meta (cw_self w') = Some meta" and "ig_events (cw_self w') = ig_events (cw_self v)" and "ig_keys (cw_self w') = ig_keys (cw_self v)"
proof -
  obtain w2 where att: "attempt_delivery env meta ev d v = (w2, Inr d')"
    and h: "if ready then holds_entry (hub_at (cw_hubs w2) hub) (dl_id d) name a (renderEnvelope (ChannelEnvelope render)) render
      else hub_at (cw_hubs w2) hub = hub_at (cw_hubs v) hub"
    and self: "cw_self w2 = cw_self v"
    using attempt_at_hub [OF assms(8,9,10), of ev] assms(16) unfolding d'_def ready_def hub_def render_def by blast
  have d': "dl_injectedVia d' = None" "dl_id d' = dl_id d" using assms(7) by (simp_all add: d'_def attempted_def)
  have "dispatchDelivery env (dl_id d) v = close_dispatch env d' w2"
    using assms(2,5,6) by (simp add: dispatchDelivery_def run_reads assms(1,3,4) att bind_run)
  then have w': "w' = fst (close_dispatch env d' w2)" by (simp add: w'_def)
  note st = close_dispatch_stores [OF d'(1), of env w2, folded w', unfolded d'(2)]
  show "kv_get (ig_deliveries (cw_self w')) (dl_id d) = Some (d'\<lparr>dl_nextAttemptAt := Some (ch_now env + redeliveryDelay d')\<rparr>)"
    using st by blast
  show "ready \<Longrightarrow> holds_entry (hub_at (cw_hubs w') hub) (dl_id d) name a (renderEnvelope (ChannelEnvelope render)) render"
    and "\<not> ready \<Longrightarrow> hub_at (cw_hubs w') hub = hub_at (cw_hubs v) hub" using st h by simp_all
  show "ig_meta (cw_self w') = Some meta" "ig_events (cw_self w') = ig_events (cw_self v)" "ig_keys (cw_self w') = ig_keys (cw_self v)"
    using st self assms(1) by simp_all
qed

lemma first_delay: "dl_attempts d \<le> 1 \<Longrightarrow> dl_readAt d = None \<Longrightarrow> redeliveryDelay d = 300000"
  by (simp add: redeliveryDelay_def some_time_def BASE_REDELIVERY_MS_def MAX_REDELIVERY_MS_def max_def)


text \<open>
  A channel takes an event: it is configured and active, the plan allows it, the attachments are valid, the
  event's key is new, and a connector of the kind \<open>ingest\<close> has a token left, 5 a second and 20 at once.
\<close>

definition takes_event :: "channel_env \<Rightarrow> connector_event \<Rightarrow> integration_meta \<Rightarrow> channel_world \<Rightarrow> bool" where
  "takes_event env event meta w \<longleftrightarrow> ig_meta (cw_self w) = Some meta \<and> im_active meta \<and> ch_canAccept env (im_org meta) \<and>
     (im_connector meta = js ''ingest'' \<longrightarrow>
        snd (consumeStoredToken (ig_rates (cw_self w)) (js ''rate:ingest'') 5 20 (ch_now env))) \<and>
     validatedAttachments (ev_attachments event) = Inr (ev_attachments event) \<and>
     kv_get (ig_keys (cw_self w)) (ev_eventKey event) = None"

definition stored_form :: "channel_env \<Rightarrow> connector_event \<Rightarrow> integration_meta \<Rightarrow> jstr \<Rightarrow> stored_event" where
  "stored_form env event meta ident =
     \<lparr>ev_eventKey = ev_eventKey event, ev_conversationId = ev_conversationId event, ev_user = ev_user event,
      ev_trigger = ev_trigger event, ev_content = ev_content event, ev_meta = ev_meta event,
      ev_attachments = ev_attachments event, se_id = ident, se_integrationId = im_id meta, se_receivedAt = ch_now env\<rparr>"

lemma takes_event_run:
  fixes env :: channel_env and w :: channel_world and event :: connector_event and meta :: integration_meta
  assumes "takes_event env event meta w"
  defines "ev \<equiv> stored_form env event meta (ch_eventId env (cw_draws w))"
  obtains v d where "ingestEvent env event w = then_op (dispatchDelivery env (dl_id d)) (return_op (Accepted (se_id ev) (dl_id d))) v"
    "ig_meta (cw_self v) = Some meta" "cw_hubs v = cw_hubs w" "kv_get (ig_events (cw_self v)) (se_id ev) = Some ev"
    "kv_get (ig_deliveries (cw_self v)) (dl_id d) = Some d" "kv_get (ig_keys (cw_self v)) (ev_eventKey event) = Some (se_id ev, dl_id d)"
    "dl_id d = ch_dlvId env (cw_draws w)" "dl_eventId d = se_id ev" "dl_settledAt d = None" "dl_status d = Pending"
    "dl_targetAddr d = im_targetAddr meta" "dl_attempts d = 0" "dl_readAt d = None" "dl_injectedVia d = None"
proof -
  have none: "kv_get (ig_keys (cw_self w)) (ev_eventKey event) = None" "validatedAttachments (ev_attachments event) = Inr (ev_attachments event)"
    and m: "ig_meta (cw_self w) = Some meta" "im_active meta" "ch_canAccept env (im_org meta)"
    using assms(1) by (simp_all add: takes_event_def)
  have "\<exists>w0. take_ingest_token env meta w = (w0, Inr True) \<and> ig_keys (cw_self w0) = ig_keys (cw_self w) \<and>
      ig_meta (cw_self w0) = ig_meta (cw_self w) \<and> cw_hubs w0 = cw_hubs w \<and> cw_draws w0 = cw_draws w"
    using assms(1) unfolding takes_event_def take_ingest_token_def
    by (cases "im_connector meta = js ''ingest''") (simp_all add: run_simps split_def Let_def del: js_simps)
  then obtain w0 where t: "take_ingest_token env meta w = (w0, Inr True)" "ig_keys (cw_self w0) = ig_keys (cw_self w)"
      "ig_meta (cw_self w0) = ig_meta (cw_self w)" "cw_hubs w0 = cw_hubs w" "cw_draws w0 = cw_draws w" by blast
  let ?d = "\<lparr>dl_id = ch_dlvId env (cw_draws w), dl_eventId = se_id ev, dl_targetAddr = im_targetAddr meta,
       dl_status = Pending, dl_attempts = 0, dl_createdAt = ch_now env, dl_lastDispatchAt = None, dl_nextAttemptAt = None,
       dl_readAt = None, dl_injectedAt = None, dl_injectedVia = None, dl_injections = None,
       dl_settledAt = None, dl_lastError = None\<rparr>"
  let ?w1 = "after_commit (ev_eventKey event) ev ?d w0"
  let ?v = "?w1\<lparr>cw_out := cw_out w0 @ [EventInsert (im_id meta) ev, DeliveryWrite ?d]\<rparr>"
  have found: "kv_get (ig_events (cw_self ?w1)) (se_id ev) = Some ev" "kv_get (ig_deliveries (cw_self ?w1)) (dl_id ?d) = Some ?d"
    by (simp_all add: after_commit_def store_simps)
  have commit: "commit_event env meta event w0 = (?w1, Inr (Accepted (se_id ev) (dl_id ?d)))"
    by (simp add: commit_event_def t none run_reads draw_ids_def bind_op_def Let_def run_simps run_self_op after_commit_def then_op_def
        ev_def stored_form_def)
  have "ingestEvent env event w = then_op (dispatchDelivery env (dl_id ?d)) (return_op (Accepted (se_id ev) (dl_id ?d))) ?v"
    using m none found commit
    by (simp add: ingestEvent_def run_reads t(2)
        bind_run(1) [where m = "take_ingest_token env meta" and s = w, OF t(1)]
        bind_run(1) [where m = "commit_event env meta event" and s = w0, OF commit] then_op_def [of "emit x" for x]
        bind_op_def [of "emit x" for x] run_emit) (simp add: after_commit_def)
  then show thesis
    by (rule that) (simp_all add: after_commit_def store_simps t m)
qed

text \<open>
  C12: an event reaches its agent. When a channel takes a new event, from a connector of any kind, for an
  agent whose hub answers, the event is stored as it came, under a new id and its key, with a delivery whose next
  attempt is five minutes later. If the hub can deliver to the agent, the delivery is dispatched and the hub holds
  a queue entry for the agent with the rendering of exactly this event; otherwise the delivery stays
  pending with the error and the hub is as before. The delivery's id is taken to be new to the hub.
\<close>
theorem event_reaches_its_agent:
  fixes env :: channel_env and w :: channel_world and event :: connector_event and meta :: integration_meta
  assumes "takes_event env event meta w" and "hubs_inv (cw_hubs w)"
    and "parseAddress (im_targetAddr meta) = Inr (AgentAddress name host o' a)"
    and "rv_unreachable (ch_room env) (hub_name (im_org meta) host) = None"
  defines "w' \<equiv> fst (ingestEvent env event w)" and "hub \<equiv> hub_name (im_org meta) host"
    and "ident \<equiv> ch_dlvId env (cw_draws w)" and "eventId \<equiv> ch_eventId env (cw_draws w)"
    and "render \<equiv> \<lparr>ce_from = im_connector meta, ce_id = ch_dlvId env (cw_draws w), ce_ts = toISOString (ch_now env), ce_body = ev_content event,
      ce_conversationId = ev_conversationId event, ce_connector = im_connector meta, ce_user = ev_user event,
      ce_trigger = ev_trigger event, ce_redelivery = Some 0, ce_read = False\<rparr>"
  assumes "kv_get (hub_markers (hub_at (cw_hubs w) hub)) (marker_key ident name) = None"
  shows "kv_get (ig_events (cw_self w')) eventId = Some
      \<lparr>ev_eventKey = ev_eventKey event, ev_conversationId = ev_conversationId event, ev_user = ev_user event,
       ev_trigger = ev_trigger event, ev_content = ev_content event, ev_meta = ev_meta event,
       ev_attachments = ev_attachments event, se_id = eventId, se_integrationId = im_id meta, se_receivedAt = ch_now env\<rparr> \<and>
    kv_get (ig_keys (cw_self w')) (ev_eventKey event) = Some (eventId, ident) \<and>
    (\<exists>d. kv_get (ig_deliveries (cw_self w')) ident = Some d \<and> dl_eventId d = eventId \<and> dl_targetAddr d = im_targetAddr meta \<and>
      dl_nextAttemptAt d = Some (ch_now env + 300000) \<and>
      (if canReceive (rv_hub (ch_room env)) (hub_at (cw_hubs w) hub) name (im_org meta) host
       then dl_status d = Dispatched \<and> dl_attempts d = 1 \<and> dl_lastError d = None \<and>
         (\<exists>key item mk. kv_get (hub_queue (hub_at (cw_hubs w') hub)) key = Some item \<and> qd_messageId item = ident \<and>
           qd_agent item = name \<and> qd_targetAddr item = a \<and> qd_envelope item = renderEnvelope (ChannelEnvelope render) \<and>
           qd_render item = Some render \<and> kv_get (hub_markers (hub_at (cw_hubs w') hub)) (marker_key ident name) = Some mk \<and>
           dm_status mk = MarkQueued \<and> dm_queueKey mk = Some key)
       else dl_status d = Pending \<and> dl_attempts d = 0 \<and> dl_lastError d = Some (js ''no_route'') \<and>
         hub_at (cw_hubs w') hub = hub_at (cw_hubs w) hub))"
proof (rule takes_event_run [OF assms(1)])
  fix v d
  let ?ev = "stored_form env event meta (ch_eventId env (cw_draws w))"
  assume run: "ingestEvent env event w = then_op (dispatchDelivery env (dl_id d)) (return_op (Accepted (se_id ?ev) (dl_id d))) v"
    and v: "ig_meta (cw_self v) = Some meta" "cw_hubs v = cw_hubs w" "kv_get (ig_events (cw_self v)) (se_id ?ev) = Some ?ev"
      "kv_get (ig_deliveries (cw_self v)) (dl_id d) = Some d" "kv_get (ig_keys (cw_self v)) (ev_eventKey event) = Some (se_id ?ev, dl_id d)"
    and d: "dl_id d = ch_dlvId env (cw_draws w)" "dl_eventId d = se_id ?ev" "dl_settledAt d = None" "dl_status d = Pending"
      "dl_targetAddr d = im_targetAddr meta" "dl_attempts d = 0" "dl_readAt d = None" "dl_injectedVia d = None"
  have act: "im_active meta" using assms(1) by (simp add: takes_event_def)
  have w': "w' = fst (dispatchDelivery env (dl_id d) v)"
    unfolding w'_def run by (simp add: then_op_def bind_op_def run_simps split: prod.splits sum.splits)
  have p: "parseAddress (dl_targetAddr d) = Inr (AgentAddress name host o' a)" "dl_status d \<noteq> Dead" using assms(3) d(4,5) by simp_all
  have ev: "kv_get (ig_events (cw_self v)) (dl_eventId d) = Some ?ev" using v(3) d(2) by simp
  have new: "kv_get (hub_markers (hub_at (cw_hubs w) hub)) (marker_key (dl_id d) name) = None" using assms(10) by (simp add: d(1) ident_def)
  have render: "channel_render meta ?ev d = render" by (simp add: channel_render_def render_def stored_form_def d)
  note st = dispatch_at_hub [OF v(1) act v(4) ev d(3) p(2) d(8) p(1) assms(4), unfolded v(2), OF assms(2),
      folded w' hub_def, OF new, unfolded render holds_entry_def]
  have se: "se_id ?ev = eventId" by (simp add: stored_form_def eventId_def)
  have id: "dl_id d = ident" by (simp add: d(1) ident_def)
  have e: "kv_get (ig_events (cw_self w')) eventId = Some ?ev" "kv_get (ig_keys (cw_self w')) (ev_eventKey event) = Some (eventId, ident)"
    using st(5,6) v(3,5) se id by simp_all
  let ?ready = "canReceive (rv_hub (ch_room env)) (hub_at (cw_hubs w) hub) name (im_org meta) host"
  have "\<exists>d. kv_get (ig_deliveries (cw_self w')) ident = Some d \<and> dl_eventId d = eventId \<and> dl_targetAddr d = im_targetAddr meta \<and>
      dl_nextAttemptAt d = Some (ch_now env + 300000) \<and>
      (if canReceive (rv_hub (ch_room env)) (hub_at (cw_hubs w) hub) name (im_org meta) host
       then dl_status d = Dispatched \<and> dl_attempts d = 1 \<and> dl_lastError d = None
       else dl_status d = Pending \<and> dl_attempts d = 0 \<and> dl_lastError d = Some (js ''no_route''))"
    using st(1) unfolding id by (intro exI conjI) (auto simp: attempted_def some_time_def d se first_delay)
  then obtain d' where d': "kv_get (ig_deliveries (cw_self w')) ident = Some d'" "dl_eventId d' = eventId" "dl_targetAddr d' = im_targetAddr meta"
      "dl_nextAttemptAt d' = Some (ch_now env + 300000)"
      "if ?ready then dl_status d' = Dispatched \<and> dl_attempts d' = 1 \<and> dl_lastError d' = None
       else dl_status d' = Pending \<and> dl_attempts d' = 0 \<and> dl_lastError d' = Some (js ''no_route'')"
    by blast
  show ?thesis
  proof (intro conjI exI [of _ d'])
    show "kv_get (ig_events (cw_self w')) eventId = Some
      \<lparr>ev_eventKey = ev_eventKey event, ev_conversationId = ev_conversationId event, ev_user = ev_user event,
       ev_trigger = ev_trigger event, ev_content = ev_content event, ev_meta = ev_meta event,
       ev_attachments = ev_attachments event, se_id = eventId, se_integrationId = im_id meta, se_receivedAt = ch_now env\<rparr>"
      using e(1) by (simp add: stored_form_def eventId_def)
  qed (use e(2) d' st(2,3) id in \<open>simp_all del: js_simps\<close>)
qed



section \<open>Witnesses\<close>

lemma demo_target: "parseAddress (js ''bob@titan'') = Inr (AgentAddress (js ''bob'') (js ''titan'') None (js ''bob@titan''))"
  by code_simp

lemma demo_meta:
  obtains meta where "ig_meta (cw_self demo_configured) = Some meta" "im_org meta = js ''org''" "im_targetAddr meta = js ''bob@titan''"
  using demo_configured_eval(1) by (auto simp del: js_simps)

lemma demo_up: "rv_unreachable (ch_room demo_channel_env) x = None"
  by (simp add: demo_channel_env_def demo_room_env_def)

lemma demo_takes:
  assumes "ig_meta (cw_self demo_configured) = Some meta" "cw_self w = cw_self demo_configured"
  shows "takes_event demo_channel_env demo_event meta w"
  using demo_configured_eval assms
  by (auto simp: takes_event_def demo_event_def validatedAttachments_def demo_channel_env_def)

lemma demo_channel_open:
  obtains d where "kv_get (ig_deliveries (cw_self demo_channel)) (demo_id 100 0) = Some d" "dl_settledAt d = None"
    "dl_targetAddr d = js ''bob@titan''" "ig_meta (cw_self demo_channel) = ig_meta (cw_self demo_configured)"
proof -
  obtain meta where m: "ig_meta (cw_self demo_configured) = Some meta" "im_org meta = js ''org''" "im_targetAddr meta = js ''bob@titan''"
    by (rule demo_meta)
  note takes = demo_takes [OF m(1) refl]
  then have act: "im_active meta" by (simp add: takes_event_def)
  have hubs: "cw_hubs demo_configured = []" using demo_configured_eval(3) by simp
  have inv: "hubs_inv (cw_hubs demo_configured)" by (simp add: hubs hubs_inv_empty)
  show thesis
  proof (rule takes_event_run [OF takes])
    fix v d
    let ?ev = "stored_form demo_channel_env demo_event meta (ch_eventId demo_channel_env (cw_draws demo_configured))"
    assume run: "ingestEvent demo_channel_env demo_event demo_configured =
        then_op (dispatchDelivery demo_channel_env (dl_id d)) (return_op (Accepted (se_id ?ev) (dl_id d))) v"
      and v: "ig_meta (cw_self v) = Some meta" "cw_hubs v = cw_hubs demo_configured" "kv_get (ig_events (cw_self v)) (se_id ?ev) = Some ?ev"
        "kv_get (ig_deliveries (cw_self v)) (dl_id d) = Some d"
      and d: "dl_id d = ch_dlvId demo_channel_env (cw_draws demo_configured)" "dl_eventId d = se_id ?ev" "dl_settledAt d = None"
        "dl_status d = Pending" "dl_targetAddr d = im_targetAddr meta" "dl_injectedVia d = None"
    have i: "dl_id d = demo_id 100 0" using d(1) by (simp add: demo_configured_eval(2)) (simp add: demo_channel_env_def)
    have c: "demo_channel = fst (dispatchDelivery demo_channel_env (dl_id d) v)"
      unfolding demo_channel_def serve.simps done_op_def run
      by (simp add: then_op_def bind_op_def run_simps split: prod.splits sum.splits)
    have t: "parseAddress (dl_targetAddr d) = Inr (AgentAddress (js ''bob'') (js ''titan'') None (js ''bob@titan''))" "dl_status d \<noteq> Dead"
      using d(4,5) by (simp_all add: m(3) demo_target del: js_simps)
    have ev: "kv_get (ig_events (cw_self v)) (dl_eventId d) = Some ?ev" using v(3) d(2) by simp
    have new: "kv_get (hub_markers (hub_at [] n)) k = None" for n k by (simp add: hub_at_def new_hub_def)
    note st = dispatch_at_hub [OF v(1) act v(4) ev d(3) t(2) d(6) t(1) demo_up, unfolded v(2), OF inv, folded c, unfolded hubs, OF new]
    show thesis
      by (rule that [OF st(1) [unfolded i]]) (use d(3,5) st(4) m(1,3) in \<open>simp_all add: attempted_def del: js_simps\<close>)
  qed
qed

lemma event_reaches_its_agent_witness:
  defines "w \<equiv> demo_configured\<lparr>cw_hubs := [(hub_name (js ''org'') (js ''titan''), demo_hub)]\<rparr>"
  shows "\<exists>key item. kv_get (hub_queue (hub_at (cw_hubs (fst (ingestEvent demo_channel_env demo_event w)))
       (hub_name (js ''org'') (js ''titan'')))) key = Some item \<and>
     qd_messageId item = demo_id 100 0 \<and> qd_agent item = js ''bob'' \<and> map_option ce_body (qd_render item) = Some (js ''hi'')"
proof -
  obtain meta where m: "ig_meta (cw_self demo_configured) = Some meta" "im_org meta = js ''org''" "im_targetAddr meta = js ''bob@titan''"
    by (rule demo_meta)
  have takes: "takes_event demo_channel_env demo_event meta w" by (rule demo_takes [OF m(1)]) (simp add: w_def)
  have inv: "hubs_inv (cw_hubs w)" by (simp add: w_def hubs_inv_single demo_hub_inv)
  have t: "parseAddress (im_targetAddr meta) = Inr (AgentAddress (js ''bob'') (js ''titan'') None (js ''bob@titan''))"
    by (simp only: m(3) demo_target)
  have ready: "canReceive (rv_hub (ch_room demo_channel_env)) demo_hub (js ''bob'') (js ''org'') (js ''titan'')" by code_simp
  have at': "hub_at (cw_hubs w) (hub_name (js ''org'') (js ''titan'')) = demo_hub" by (simp add: w_def hub_at_def)
  have ident: "ch_dlvId demo_channel_env (cw_draws w) = demo_id 100 0"
    by (simp add: w_def demo_configured_eval(2)) (simp add: demo_channel_env_def)
  have new: "kv_get (hub_markers (hub_at (cw_hubs w) (hub_name (im_org meta) (js ''titan''))))
      (marker_key (ch_dlvId demo_channel_env (cw_draws w)) (js ''bob'')) = None"
    unfolding m(2) at' ident by code_simp
  from event_reaches_its_agent [OF takes inv t demo_up new, THEN conjunct2, THEN conjunct2]
  have "\<exists>key item render. kv_get (hub_queue (hub_at (cw_hubs (fst (ingestEvent demo_channel_env demo_event w)))
       (hub_name (js ''org'') (js ''titan'')))) key = Some item \<and>
     qd_messageId item = demo_id 100 0 \<and> qd_agent item = js ''bob'' \<and> qd_render item = Some render \<and>
     ce_body render = ev_content demo_event"
    unfolding m(2) at' ident if_P [OF ready] by (elim exE conjE) (intro exI conjI, assumption+, simp)
  then show ?thesis by (auto simp: demo_event_def simp del: js_simps)
qed

lemma plain_demo_ids: "plain_ids (demo_id 100)"
  by (simp add: plain_ids_def demo_id_def)

lemma settled_delivery_is_over_witness:
  defines "w \<equiv> demo_channel\<lparr>cw_rooms := [], cw_hubs := [(hub_name (js ''org'') (js ''titan''), demo_hub)]\<rparr>"
  shows "\<not> pending_delivery (hub_at (cw_hubs (serve_all [(demo_channel_env, Alarm)] (fst (operatorMarkHandled demo_channel_env (demo_id 100 0) w))))
     (hub_name (js ''org'') (js ''titan''))) (marker_key (demo_id 100 0) (js ''bob''))"
proof -
  obtain d where d: "kv_get (ig_deliveries (cw_self demo_channel)) (demo_id 100 0) = Some d" "dl_settledAt d = None"
    "dl_targetAddr d = js ''bob@titan''" "ig_meta (cw_self demo_channel) = ig_meta (cw_self demo_configured)" by (rule demo_channel_open)
  obtain meta where m: "ig_meta (cw_self demo_configured) = Some meta" "im_org meta = js ''org''" by (rule demo_meta)
  have reach: "channel_reach (demo_id 100) (demo_id 101) w" unfolding w_def by (rule channel_reach.others [OF demo_channel_reach])
  have w: "ig_meta (cw_self w) = Some meta" "kv_get (ig_deliveries (cw_self w)) (demo_id 100 0) = Some d" "hubs_inv (cw_hubs w)"
    using d m by (simp_all add: w_def hubs_inv_single demo_hub_inv)
  obtain w1 where s: "settle demo_channel_env (im_org meta) d w = (w1, Inr ())" using settle_returns by blast
  have run: "operatorMarkHandled demo_channel_env (demo_id 100 0) w = (w1, Inr False)"
    by (simp add: operatorMarkHandled_def run_reads w(1,2) d(2) finishHandled_def s bind_run run_simps)
  have t: "parseAddress (dl_targetAddr d) = Inr (AgentAddress (js ''bob'') (js ''titan'') None (js ''bob@titan''))"
    by (simp only: d(3) demo_target)
  have fits: "\<forall>(env', request) \<in> set [(demo_channel_env, Alarm)]. channel_fit (demo_id 100) (demo_id 101) env'" by (simp add: demo_fit)
  have served: "serve demo_channel_env (OperatorHandle (demo_id 100 0)) w = w1" by (simp add: done_op_def run)
  have "\<exists>d1. kv_get (ig_deliveries (cw_self w1)) (demo_id 100 0) = Some d1 \<and> dl_settledAt d1 \<noteq> None \<and> dl_targetAddr d1 = dl_targetAddr d"
  proof -
    have "advances (demo_id 100) (demo_id 101) w w1"
      using serve_advances [OF demo_fit, of w "OperatorHandle (demo_id 100 0)"] by (simp only: served)
    then obtain d1 where "kv_get (ig_deliveries (cw_self w1)) (demo_id 100 0) = Some d1" "same_letter d d1"
      using advancesD(3) [OF _ channel_reach_wf [OF reach]] w(2) unfolding letters_kept_def by blast
    moreover have "\<exists>d2. kv_get (ig_deliveries (cw_self w1)) (demo_id 100 0) = Some d2 \<and> dl_settledAt d2 = Some (ch_now demo_channel_env)"
      using operatorMarkHandled_settles [OF run channel_reach_wf [OF reach]] by blast
    ultimately show ?thesis by (auto simp: same_letter_def)
  qed
  then obtain d1 where d1: "kv_get (ig_deliveries (cw_self (serve demo_channel_env (OperatorHandle (demo_id 100 0)) w))) (demo_id 100 0) = Some d1"
    "dl_settledAt d1 \<noteq> None" "dl_targetAddr d1 = dl_targetAddr d" unfolding served by blast
  have open_before: "\<forall>d. kv_get (ig_deliveries (cw_self w)) (demo_id 100 0) = Some d \<longrightarrow> dl_settledAt d = None" using w(2) d(2) by simp
  have t1: "parseAddress (dl_targetAddr d1) = Inr (AgentAddress (js ''bob'') (js ''titan'') None (js ''bob@titan''))"
    by (simp only: d1(3) t)
  from settled_delivery_is_over [OF reach plain_demo_ids w(3,1) open_before demo_fit demo_up d1(1,2) t1 fits marker_key_matches]
  show ?thesis unfolding served run m(2) fst_conv by blast
qed

end
