(* ===== verification/Site_Sends.thy ===== *)
theory Site_Sends
  imports Site_Properties
begin

text \<open>
  What an admitted and a refused send did: where the mail of an admitted one is and who it is from, and that
  a send that was not admitted reached nobody.
\<close>

section \<open>Running an admission\<close>

lemma run_steps:
  "bind_op (read_op x) k s = k (x s) s"
  "bind_op (lift_op r) q s = (case r of Inl e \<Rightarrow> (s, Inl e) | Inr a \<Rightarrow> q a s)"
  "bind_op (\<lambda>s. lift_op (g s) s) q s = (case g s of Inl e \<Rightarrow> (s, Inl e) | Inr a \<Rightarrow> q a s)"
  by (simp_all add: op_defs split: sum.splits)

lemma rejected [simp]: "snd (rejectSend env self ident code s) = Inr (Refused code)"
  by (simp add: rejectSend_def run_put_send op_simps then_op_def bind_op_def)

lemma not_rejected [simp]: "rejectSend env self ident code s \<noteq> (s', Inr Admitted)"
  using rejected [of env self ident code s] by (metis send_outcome.distinct(1) snd_conv sum.inject(2))

lemma run_consume_send:
  "consume_send env self name s =
     (let (rates, allowed) = consumeStoredToken (hub_rates (hub_at (si_hubs s) self)) (send_rate_key name) 10 10 (sv_now env)
      in (told self ((hub_at (si_hubs s) self)\<lparr>hub_rates := rates\<rparr>) [] s, Inr allowed))"
  by (simp add: consume_send_def on_hub_def told_def split_def Let_def hub_env_of_def op_simps)

lemma admit_parsed_cases:
  assumes "admit_parsed env self identity frame verify from' target s = (s', Inr Admitted)"
  obtains name addr rates route where "from' = AgentAddress name (hi_slug identity) None addr"
    "verify \<longrightarrow> hasAgent (hub_at (si_hubs s) self) name"
    "snd (consumeStoredToken (hub_rates (hub_at (si_hubs s) self)) (send_rate_key name) 10 10 (sv_now env))"
    "utf8_length (sf_body frame) \<le> MAX_MESSAGE_BYTES" "sv_canAccept env (hi_org identity)"
    "route_to (si_db s) identity name (hi_slug identity) addr (addr_organization target) = Inr route"
    "(case target of RoomAddress room _ _ \<Rightarrow> admit_room env self identity frame route room
      | AgentAddress name' host' _ addr' \<Rightarrow> admit_direct env self identity frame route name' host' addr')
       (told self ((hub_at (si_hubs s) self)\<lparr>hub_rates := rates\<rparr>) [] s) = (s', Inr Admitted)"
proof (cases from')
  case (AgentAddress name host organization addr)
  obtain rates allowed where c: "consumeStoredToken (hub_rates (hub_at (si_hubs s) self)) (send_rate_key name) 10 10 (sv_now env) = (rates, allowed)"
    by fastforce
  note run = assms [unfolded admit_parsed_def AgentAddress transit_address.case hub_read_def run_steps]
  have own: "organization = None" "host = hi_slug identity" "verify \<longrightarrow> hasAgent (hub_at (si_hubs s) self) name"
    using run by (auto split: if_splits)
  have "allowed" "\<not> MAX_MESSAGE_BYTES < utf8_length (sf_body frame)" "sv_canAccept env (hi_org identity)"
    using run own c by (auto simp: bind_op_def [of "consume_send env self name"] run_consume_send split: if_splits)
  moreover obtain route where r: "route_to (si_db s) identity name host addr (addr_organization target) = Inr route"
    using run own c calculation
    by (cases "route_to (si_db s) identity name host addr (addr_organization target)")
      (auto simp: bind_op_def [of "consume_send env self name"] run_consume_send bind_op_assoc run_steps)
  moreover have "(case target of RoomAddress room _ _ \<Rightarrow> admit_room env self identity frame route room
      | AgentAddress name' host' _ addr' \<Rightarrow> admit_direct env self identity frame route name' host' addr')
       (told self ((hub_at (si_hubs s) self)\<lparr>hub_rates := rates\<rparr>) [] s) = (s', Inr Admitted)"
    using run own c calculation
    by (auto simp: bind_op_def [of "consume_send env self name"] run_consume_send bind_op_assoc run_steps)
  ultimately show thesis using own c by (intro that [of name addr route rates]) (simp_all add: AgentAddress)
qed (use assms in \<open>simp add: admit_parsed_def\<close>)

lemma admitSend_cases:
  assumes "admitSend env self identity frame verify s = (s', Inr Admitted)" "send_answer s self (sf_id frame) = None"
  obtains from' target where "parseAddress (sf_from frame) = Inr from'" "parseAddress (sf_to frame) = Inr target"
    "admit_parsed env self identity frame verify from' target (told self ((hub_at (si_hubs s) self)\<lparr>hub_sends :=
       kv_put (send_key (sf_id frame)) SendProcessing (hub_sends (hub_at (si_hubs s) self))\<rparr>) [] s) = (s', Inr Admitted)"
proof -
  let ?prior = "kv_get (hub_sends (hub_at (si_hubs s) self)) (send_key (sf_id frame))"
  have p: "?prior = None \<or> ?prior = Some SendProcessing"
    using assms(2) by (auto simp: send_answer_def answer_of_def split: option.splits send_state.splits)
  then have "then_op (put_send env self (sf_id frame) SendProcessing)
         (case rbind (parseAddress (sf_from frame)) (\<lambda>f. rbind (parseAddress (sf_to frame)) (\<lambda>t. Inr (f, t))) of
            Inl e \<Rightarrow> rejectSend env self (sf_id frame) (parse_nak e)
          | Inr (from', target) \<Rightarrow> admit_parsed env self identity frame verify from' target) s = (s', Inr Admitted)"
    using assms(1) unfolding admitSend_def hub_read_def run_steps by auto
  then show thesis
    using that by (cases "parseAddress (sf_from frame)"; cases "parseAddress (sf_to frame)")
      (auto simp: then_op_def bind_op_def run_put_send)
qed



section \<open>Mail\<close>

text \<open>Two states of a hub with the same queue and the same markers.\<close>

definition same_mail :: "jstr \<Rightarrow> host_hub \<Rightarrow> host_hub \<Rightarrow> bool" where
  "same_mail n st st' \<longleftrightarrow> hub_queue st' = hub_queue st \<and> hub_markers st' = hub_markers st"

interpretation mail: step_relation "site_step same_mail"
  by unfold_locales (auto simp: site_step_def hubs_step_def same_mail_def)

lemma mail_told: "same_mail self (hub_at (si_hubs s) self) st \<Longrightarrow> site_step same_mail s (told self st effs s)"
  by (simp add: site_step_def hubs_step_def same_mail_def)

lemma mail_put_send: "keeps (site_step same_mail) (put_send env self ident state)"
  by (simp add: keeps_def run_put_send mail_told same_mail_def)

lemma mail_tell: "keeps (site_step same_mail) (hub_tell n effs)"
  by (simp add: keeps_def hub_tell_def op_simps site_step_def hubs_step_def same_mail_def)

lemma mail_reject: "keeps (site_step same_mail) (rejectSend env self ident code)"
  unfolding rejectSend_def by (intro mail.keeps_rules mail_put_send)

lemma dispatch_silent: "list_all (\<lambda>e. \<not> reports e) (snd (dispatchQueued env st))"
proof -
  have entry: "list_all (\<lambda>e. \<not> reports e) effs \<Longrightarrow>
      list_all (\<lambda>e. \<not> reports e) (fst (snd (dispatch_entry env x (st, effs, w))))" for x st effs w
    by (cases x) (auto simp: dispatch_entry_def markDead_def send_effects_def Let_def
        split: verdict.splits option.splits if_splits)
  have fold: "list_all (\<lambda>e. \<not> reports e) effs \<Longrightarrow>
      list_all (\<lambda>e. \<not> reports e) (fst (snd (fold (dispatch_entry env) batch (st, effs, w))))" for batch st effs w
  proof (induction batch arbitrary: st effs w)
    case (Cons x batch)
    obtain st1 effs1 w1 where x: "dispatch_entry env x (st, effs, w) = (st1, effs1, w1)" by (metis prod_cases3)
    then have "list_all (\<lambda>e. \<not> reports e) effs1" using entry [OF Cons.prems, of x st w] by simp
    then show ?case using Cons.IH x by simp
  qed simp
  show ?thesis using fold [of "[]"] by (simp add: dispatchQueued_def Let_def split_def)
qed

lemma queue_silent: "list_all (\<lambda>e. \<not> reports e) (fst (snd (queueDelivery env inp st)))"
  by (simp add: queueDelivery_def Let_def split_def dispatch_silent)

lemma run_queue:
  assumes "queueDelivery (hub_env_of env (si_db s)) inp (hub_at (si_hubs s) name) = (st, effs, took)"
  shows "on_hub env name (\<lambda>he. queueDelivery he inp) s = (told name st effs s, Inr took)"
  using queue_silent [of "hub_env_of env (si_db s)" inp "hub_at (si_hubs s) name"]
  by (simp add: assms on_hub_def told_def each_report_silent op_simps)

lemma finish_admitted:
  "then_op (put_send env self ident SendAcked) (then_op (hub_tell self effs) (return_op Admitted)) s =
     (fst (hub_tell self effs (fst (put_send env self ident SendAcked s))), Inr Admitted)"
  by (simp add: then_op_def bind_op_def run_put_send hub_tell_def op_simps)

lemma mail_finish: "site_step same_mail s (fst (hub_tell self effs (fst (put_send env self ident SendAcked s))))"
  using mail.trans [OF mail.keepsD [OF mail_put_send] mail.keepsD [OF mail_tell]] .

lemma direct_cases:
  obtains (nowhere) "snd (admit_direct env self identity frame route name host addr s) \<noteq> Inr Admitted"
      "site_step same_mail s (fst (admit_direct env self identity frame route name host addr s))"
  | (queued) targetOrg sender conn st effs took where "route = Some (targetOrg, sender, conn)"
      "host_live (si_db s) targetOrg host" "sv_unreachable env (hub_name targetOrg host) = None"
      "queueDelivery (hub_env_of env (si_db s)) (direct_input identity frame (targetOrg, sender, conn) name host addr)
         (hub_at (si_hubs s) (hub_name targetOrg host)) = (st, effs, took)" "took \<noteq> NoRouteTo"
      "snd (admit_direct env self identity frame route name host addr s) = Inr Admitted"
      "site_step same_mail (told (hub_name targetOrg host) st effs s)
         (fst (admit_direct env self identity frame route name host addr s))"
proof (cases route)
  case None
  then show thesis using mail.keepsD [OF mail_reject] by (intro nowhere) (simp_all add: admit_direct_def)
next
  case (Some r)
  obtain targetOrg sender conn where r: "route = Some (targetOrg, sender, conn)" using Some by (metis prod_cases3)
  let ?n = "hub_name targetOrg host" and ?inp = "direct_input identity frame (targetOrg, sender, conn) name host addr"
  show thesis
  proof (cases "host_live (si_db s) targetOrg host \<and> sv_unreachable env ?n = None")
    case False
    then show thesis using mail.keepsD [OF mail_reject]
      by (intro nowhere)
        (auto simp: admit_direct_def r run_steps reached_def bind_op_def [of "throw_op _"] op_simps mail.refl split: option.splits)
  next
    case True
    obtain st effs took where q: "queueDelivery (hub_env_of env (si_db s)) ?inp (hub_at (si_hubs s) ?n) = (st, effs, took)"
      by (metis prod_cases3)
    have run: "admit_direct env self identity frame route name host addr s =
      (if took = NoRouteTo then rejectSend env self (sf_id frame) NoRoute
       else then_op (put_send env self (sf_id frame) SendAcked)
            (then_op (hub_tell self
                (mirrorMessage env (hi_org identity) (if targetOrg = hi_org identity then None else Some targetOrg)
                   sender frame addr @ [message_committed env identity frame]))
              (return_op Admitted))) (told ?n st effs s)"
      using True by (simp add: admit_direct_def r run_steps reached_def bind_op_def [of "on_hub _ _ _"] run_queue [OF q])
    show thesis
    proof (cases "took = NoRouteTo")
      case nr: True
      then have "st = hub_at (si_hubs s) ?n"
        using q by (auto simp: queueDelivery_def Let_def enqueue_def split: if_splits prod.splits option.splits)
      then have "site_step same_mail s (told ?n st effs s)" by (intro mail_told) (simp add: same_mail_def)
      from mail.trans [OF this mail.keepsD [OF mail_reject]] show thesis
        by (intro nowhere) (simp_all add: run nr)
    next
      case False
      then have "snd (admit_direct env self identity frame route name host addr s) = Inr Admitted"
          "site_step same_mail (told ?n st effs s) (fst (admit_direct env self identity frame route name host addr s))"
        by (simp_all add: run finish_admitted mail_finish)
      with False True show thesis by (intro queued [OF r _ _ q]) simp_all
    qed
  qed
qed


section \<open>Rooms\<close>

lemma post_refused: "snd (snd (post re from' body replyTo m (ro, hubs))) = Inl e \<Longrightarrow>
    snd (fst (post re from' body replyTo m (ro, hubs))) = hubs"
  by (auto simp: post_def commit_and_fan_def Let_def split_def split: sum.splits option.splits if_splits)

lemma mail_has_member: "keeps (site_step same_mail) (room_has_member env name addr)"
  by (auto simp: room_has_member_def reached_def keeps_def on_room_def op_simps site_step_def hubs_step_def same_mail_def
      split: option.splits)

lemma room_cases:
  obtains (nowhere) "snd (admit_room env self identity frame route room s) \<noteq> Inr Admitted"
      "site_step same_mail s (fst (admit_room env self identity frame route room s))"
  | (posted) "snd (admit_room env self identity frame route room s) = Inr Admitted"
proof (cases route)
  case None
  then show thesis using mail.keepsD [OF mail_reject] by (intro nowhere) (simp_all add: admit_room_def)
next
  case (Some r)
  obtain org addr conn where r: "route = Some (org, addr, conn)" using Some by (metis prod_cases3)
  let ?n = "room_name org room"
  let ?post = "reached env ?n (on_room env ?n (\<lambda>re world.
      post re addr (sf_body frame) (sf_reply_to frame) (Some (sf_id frame)) world))"
  define after where "after = (\<lambda>failed. case failed of
            Some code \<Rightarrow> rejectSend env self (sf_id frame) code
          | None \<Rightarrow>
              then_op (put_send env self (sf_id frame) SendAcked)
              (then_op (hub_tell self [message_committed env identity frame])
                (return_op Admitted)))"
  have unposted: "site_step same_mail v v'" if "?post v = (v', Inl e)" for v v' e
    using that post_refused [of "room_env_of env (si_db v)" addr "sf_body frame" "sf_reply_to frame" "Some (sf_id frame)"
        "room_at (si_rooms v) ?n" "si_hubs v" e]
    by (auto simp: reached_def on_room_def op_simps site_step_def hubs_step_def same_mail_def split_def Let_def
        split: option.splits)
  have finish: "snd (bind_op (try_op (then_op ?post (return_op None)) (\<lambda>e. return_op (Some (post_nak e)))) after v) = Inr Admitted \<or>
      site_step same_mail v (fst (bind_op (try_op (then_op ?post (return_op None)) (\<lambda>e. return_op (Some (post_nak e)))) after v))" for v
  proof (cases "?post v")
    case (Pair v' res)
    show ?thesis
    proof (cases res)
      case (Inl e)
      have "site_step same_mail v (fst (rejectSend env self (sf_id frame) (post_nak e) v'))"
        using mail.trans [OF unposted mail.keepsD [OF mail_reject]] Pair Inl by blast
      then show ?thesis by (simp add: Pair Inl op_defs after_def)
    next
      case (Inr x)
      then have "bind_op (try_op (then_op ?post (return_op None)) (\<lambda>e. return_op (Some (post_nak e)))) after v = after None v'"
        by (simp add: Pair op_defs)
      then show ?thesis by (simp add: after_def finish_admitted)
    qed
  qed
  have member: "snd (bind_op (room_has_member env ?n addr) (\<lambda>member. if \<not> member then rejectSend env self (sf_id frame) NotMember
      else bind_op (try_op (then_op ?post (return_op None)) (\<lambda>e. return_op (Some (post_nak e)))) after) s) = Inr Admitted \<or>
    site_step same_mail s (fst (bind_op (room_has_member env ?n addr) (\<lambda>member. if \<not> member then rejectSend env self (sf_id frame) NotMember
      else bind_op (try_op (then_op ?post (return_op None)) (\<lambda>e. return_op (Some (post_nak e)))) after) s))"
  proof (cases "room_has_member env ?n addr s")
    case (Pair v res)
    have v: "site_step same_mail s v" using mail.keepsD [OF mail_has_member, of s env ?n addr] Pair by simp
    show ?thesis
    proof (cases res)
      case (Inr ok)
      then show ?thesis
        using Pair v finish [of v] mail.trans [OF v] mail.keepsD [OF mail_reject] by (auto simp: bind_op_def [of "room_has_member _ _ _"])
    qed (use Pair v in \<open>simp add: bind_op_def\<close>)
  qed
  have "admit_room env self identity frame route room s =
      (if room_exists (si_db s) org room
       then bind_op (room_has_member env ?n addr) (\<lambda>member. if \<not> member then rejectSend env self (sf_id frame) NotMember
         else bind_op (try_op (then_op ?post (return_op None)) (\<lambda>e. return_op (Some (post_nak e)))) after) s
       else rejectSend env self (sf_id frame) NotMember s)"
    unfolding after_def by (simp add: admit_room_def r Let_def run_steps bind_op_def [of "return_op _"] op_simps)
  then show thesis
    using that member mail.keepsD [OF mail_reject, of s env self "sf_id frame" NotMember]
    by (cases "room_exists (si_db s) org room") auto
qed

lemma mail_consume: "keeps (site_step same_mail) (consume_send env self name)"
  by (simp add: keeps_def run_consume_send Let_def split_def mail_told same_mail_def)

lemma unadmitted_parsed:
  "snd (admit_parsed env self identity frame verify from' target s) = Inr Admitted \<or>
   site_step same_mail s (fst (admit_parsed env self identity frame verify from' target s))"
proof (cases from')
  case (AgentAddress name host organization addr)
  obtain s1 allowed where c: "consume_send env self name s = (s1, Inr allowed)"
    by (simp add: run_consume_send Let_def split_def)
  have s1: "site_step same_mail s s1" using mail.keepsD [OF mail_consume, of s env self name] c by simp
  let ?route = "route_to (si_db s1) identity name host addr (addr_organization target)"
  let ?rest = "\<lambda>route. case target of RoomAddress room _ _ \<Rightarrow> admit_room env self identity frame route room
      | AgentAddress name' host' _ addr' \<Rightarrow> admit_direct env self identity frame route name' host' addr'"
  have rest: "snd (?rest route s1) = Inr Admitted \<or> site_step same_mail s1 (fst (?rest route s1))" for route
  proof (cases target)
    case (AgentAddress name' host' o' addr')
    show ?thesis unfolding AgentAddress transit_address.case
      by (rule direct_cases [of env self identity frame route name' host' addr' s1]) blast+
  next
    case (RoomAddress room o' addr')
    show ?thesis unfolding RoomAddress transit_address.case
      by (rule room_cases [of env self identity frame route room s1]) blast+
  qed
  have run: "admit_parsed env self identity frame verify from' target s =
      (if organization \<noteq> None \<or> host \<noteq> hi_slug identity \<or> (verify \<and> \<not> hasAgent (hub_at (si_hubs s) self) name)
       then rejectSend env self (sf_id frame) NoRoute s
       else if \<not> allowed then rejectSend env self (sf_id frame) RateLimited s1
       else if MAX_MESSAGE_BYTES < utf8_length (sf_body frame) then rejectSend env self (sf_id frame) BodyTooLarge s1
       else if \<not> sv_canAccept env (hi_org identity) then rejectSend env self (sf_id frame) PlanLimit s1
       else (case ?route of Inl e \<Rightarrow> (s1, Inl e) | Inr route \<Rightarrow> ?rest route s1))"
    by (simp add: admit_parsed_def AgentAddress hub_read_def run_steps bind_op_def [of "consume_send env self name"] c bind_op_assoc
        split: sum.splits)
  have refusals: "site_step same_mail s (fst (rejectSend env self (sf_id frame) code s1))"
      "site_step same_mail s (fst (rejectSend env self (sf_id frame) code s))" for code
    using mail.keepsD [OF mail_reject] mail.trans [OF s1] by blast+
  show ?thesis
  proof (cases ?route)
    case (Inl e)
    show ?thesis unfolding run Inl sum.case using refusals s1 by auto
  next
    case (Inr route)
    show ?thesis unfolding run Inr sum.case using refusals rest [of route] mail.trans [OF s1] by auto
  qed
qed (use mail.keepsD [OF mail_reject] in \<open>simp add: admit_parsed_def\<close>)

lemma unadmitted:
  "snd (admitSend env self identity frame verify s) = Inr Admitted \<or>
   site_step same_mail s (fst (admitSend env self identity frame verify s))"
proof (cases "send_answer s self (sf_id frame)")
  case (Some outcome)
  then show ?thesis by (simp add: answered_admits mail.refl)
next
  case None
  let ?prior = "kv_get (hub_sends (hub_at (si_hubs s) self)) (send_key (sf_id frame))"
  have p: "?prior = None \<or> ?prior = Some SendProcessing"
    using None by (auto simp: send_answer_def answer_of_def split: option.splits send_state.splits)
  obtain s1 where s1: "put_send env self (sf_id frame) SendProcessing s = (s1, Inr ())" "site_step same_mail s s1"
    using mail.keepsD [OF mail_put_send, of s env self "sf_id frame" SendProcessing] by (auto simp: run_put_send)
  let ?addresses = "rbind (parseAddress (sf_from frame)) (\<lambda>f. rbind (parseAddress (sf_to frame)) (\<lambda>t. Inr (f, t)))"
  have run: "admitSend env self identity frame verify s =
     (case ?addresses of Inl e \<Rightarrow> rejectSend env self (sf_id frame) (parse_nak e) s1
      | Inr (from', target) \<Rightarrow> admit_parsed env self identity frame verify from' target s1)"
    using p by (auto simp: admitSend_def hub_read_def run_steps then_op_def bind_op_def [of "put_send _ _ _ _"] s1
        split: sum.splits)
  show ?thesis
  proof (cases ?addresses)
    case (Inl e)
    then show ?thesis unfolding run using mail.trans [OF s1(2)] mail.keepsD [OF mail_reject] by simp
  next
    case (Inr a)
    then show ?thesis
      unfolding run using unadmitted_parsed [of env self identity frame verify "fst a" "snd a" s1] mail.trans [OF s1(2)]
      by (auto simp: split_def)
  qed
qed


section \<open>Sends that are admitted\<close>

lemma queue_taken:
  "canReceive he st (qi_agent inp) (qi_targetOrg inp) (qi_targetHost inp) \<Longrightarrow> snd (snd (queueDelivery he inp st)) \<noteq> NoRouteTo"
  by (auto simp: queueDelivery_def enqueue_def Let_def split: prod.splits)

lemma canReceive_frame:
  "canReceive he (st\<lparr>hub_sends := a, hub_rates := b\<rparr>) = canReceive he st"
  "canReceive he (st\<lparr>hub_sends := a\<rparr>) = canReceive he st" "canReceive he (st\<lparr>hub_rates := b\<rparr>) = canReceive he st"
  by (simp_all add: fun_eq_iff canReceive_def hasAgent_def departedAt_def)

lemma direct_admits:
  assumes "host_live (si_db s) targetOrg host" "sv_unreachable env (hub_name targetOrg host) = None"
    and "canReceive (hub_env_of env (si_db s)) (hub_at (si_hubs s) (hub_name targetOrg host)) name targetOrg host"
  shows "snd (admit_direct env self identity frame (Some (targetOrg, sender, conn)) name host addr s) = Inr Admitted"
proof -
  let ?n = "hub_name targetOrg host" and ?inp = "direct_input identity frame (targetOrg, sender, conn) name host addr"
  obtain st effs took where q: "queueDelivery (hub_env_of env (si_db s)) ?inp (hub_at (si_hubs s) ?n) = (st, effs, took)"
    by (metis prod_cases3)
  have "took \<noteq> NoRouteTo"
    using queue_taken [of "hub_env_of env (si_db s)" "hub_at (si_hubs s) ?n" ?inp] assms(3) q by (simp add: direct_input_def)
  then show ?thesis
    using assms(1,2) by (simp add: admit_direct_def run_steps reached_def bind_op_def [of "on_hub _ _ _"] run_queue [OF q] finish_admitted)
qed

lemma send_admits:
  assumes "send_answer s self (sf_id frame) = None"
    and "parseAddress (sf_from frame) = Inr (AgentAddress name (hi_slug identity) None addr)"
    and "verify \<longrightarrow> hasAgent (hub_at (si_hubs s) self) name"
    and "snd (consumeStoredToken (hub_rates (hub_at (si_hubs s) self)) (send_rate_key name) 10 10 (sv_now env))"
    and "utf8_length (sf_body frame) \<le> MAX_MESSAGE_BYTES" "sv_canAccept env (hi_org identity)"
    and "parseAddress (sf_to frame) = Inr (AgentAddress name' host' organization' addr')"
    and "route_to (si_db s) identity name (hi_slug identity) addr organization' = Inr (Some (targetOrg, sender, conn))"
    and "host_live (si_db s) targetOrg host'" "sv_unreachable env (hub_name targetOrg host') = None"
    and "canReceive (hub_env_of env (si_db s)) (hub_at (si_hubs s) (hub_name targetOrg host')) name' targetOrg host'"
  shows "snd (admitSend env self identity frame verify s) = Inr Admitted"
proof -
  let ?prior = "kv_get (hub_sends (hub_at (si_hubs s) self)) (send_key (sf_id frame))"
  have p: "?prior = None \<or> ?prior = Some SendProcessing"
    using assms(1) by (auto simp: send_answer_def answer_of_def split: option.splits send_state.splits)
  define s1 where "s1 = told self ((hub_at (si_hubs s) self)\<lparr>hub_sends :=
       kv_put (send_key (sf_id frame)) SendProcessing (hub_sends (hub_at (si_hubs s) self))\<rparr>) [] s"
  obtain rates where c: "consumeStoredToken (hub_rates (hub_at (si_hubs s1) self)) (send_rate_key name) 10 10 (sv_now env) = (rates, True)"
    using assms(4) by (cases "consumeStoredToken (hub_rates (hub_at (si_hubs s) self)) (send_rate_key name) 10 10 (sv_now env)")
      (simp add: s1_def)
  define s2 where "s2 = told self ((hub_at (si_hubs s1) self)\<lparr>hub_rates := rates\<rparr>) [] s1"
  have db: "si_db s1 = si_db s" "si_db s2 = si_db s" by (simp_all add: s1_def s2_def)
  have "admitSend env self identity frame verify s =
      admit_parsed env self identity frame verify (AgentAddress name (hi_slug identity) None addr)
        (AgentAddress name' host' organization' addr') s1"
    using p by (auto simp: admitSend_def hub_read_def run_steps then_op_def bind_op_def [of "put_send _ _ _ _"] run_put_send
        assms(2,7) s1_def)
  also have "\<dots> = admit_direct env self identity frame (Some (targetOrg, sender, conn)) name' host' addr' s2"
  proof -
    have "hasAgent (hub_at (si_hubs s1) self) name = hasAgent (hub_at (si_hubs s) self) name"
      by (simp add: s1_def hasAgent_def)
    then show ?thesis
      using assms(3,5,6,8) db c
      by (auto simp: admit_parsed_def hub_read_def run_steps bind_op_def [of "consume_send _ _ _"] run_consume_send
          bind_op_assoc s2_def)
  qed
  also have "snd \<dots> = Inr Admitted"
    by (rule direct_admits) (use assms(9,10,11) db in \<open>auto simp: s1_def s2_def canReceive_frame\<close>)
  finally show ?thesis .
qed

lemma admitted_direct_cases:
  assumes "admitSend env self identity frame verify s = (s', Inr Admitted)" "send_answer s self (sf_id frame) = None"
    and "parseAddress (sf_to frame) = Inr (AgentAddress name' host' organization' addr')"
  obtains name addr targetOrg sender conn s2 st effs took where
    "parseAddress (sf_from frame) = Inr (AgentAddress name (hi_slug identity) None addr)"
    "verify \<longrightarrow> hasAgent (hub_at (si_hubs s) self) name"
    "snd (consumeStoredToken (hub_rates (hub_at (si_hubs s) self)) (send_rate_key name) 10 10 (sv_now env))"
    "utf8_length (sf_body frame) \<le> MAX_MESSAGE_BYTES" "sv_canAccept env (hi_org identity)"
    "route_to (si_db s) identity name (hi_slug identity) addr organization' = Inr (Some (targetOrg, sender, conn))"
    "host_live (si_db s) targetOrg host'" "sv_unreachable env (hub_name targetOrg host') = None"
    "canReceive (hub_env_of env (si_db s)) (hub_at (si_hubs s) (hub_name targetOrg host')) name' targetOrg host'"
    "\<And>n. \<exists>sends rates. hub_at (si_hubs s2) n = (hub_at (si_hubs s) n)\<lparr>hub_sends := sends, hub_rates := rates\<rparr>"
    "queueDelivery (hub_env_of env (si_db s)) (direct_input identity frame (targetOrg, sender, conn) name' host' addr')
       (hub_at (si_hubs s2) (hub_name targetOrg host')) = (st, effs, took)" "took \<noteq> NoRouteTo"
    "site_step same_mail (told (hub_name targetOrg host') st effs s2) s'"
proof -
  define s1 where "s1 = told self ((hub_at (si_hubs s) self)\<lparr>hub_sends :=
       kv_put (send_key (sf_id frame)) SendProcessing (hub_sends (hub_at (si_hubs s) self))\<rparr>) [] s"
  obtain from' target where a: "parseAddress (sf_from frame) = Inr from'" "parseAddress (sf_to frame) = Inr target"
    "admit_parsed env self identity frame verify from' target s1 = (s', Inr Admitted)"
    using assms(1,2) unfolding s1_def by (rule admitSend_cases)
  have target: "target = AgentAddress name' host' organization' addr'" using a(2) assms(3) by simp
  obtain name addr rates route where b: "from' = AgentAddress name (hi_slug identity) None addr"
    "verify \<longrightarrow> hasAgent (hub_at (si_hubs s1) self) name"
    "snd (consumeStoredToken (hub_rates (hub_at (si_hubs s1) self)) (send_rate_key name) 10 10 (sv_now env))"
    "utf8_length (sf_body frame) \<le> MAX_MESSAGE_BYTES" "sv_canAccept env (hi_org identity)"
    "route_to (si_db s1) identity name (hi_slug identity) addr organization' = Inr route"
    "admit_direct env self identity frame route name' host' addr'
       (told self ((hub_at (si_hubs s1) self)\<lparr>hub_rates := rates\<rparr>) [] s1) = (s', Inr Admitted)"
    using a(3) unfolding target by (rule admit_parsed_cases) simp
  define s2 where "s2 = told self ((hub_at (si_hubs s1) self)\<lparr>hub_rates := rates\<rparr>) [] s1"
  have db: "si_db s2 = si_db s" "si_db s1 = si_db s" by (simp_all add: s2_def s1_def)
  have hub: "\<exists>sends rates. hub_at (si_hubs s2) n = (hub_at (si_hubs s) n)\<lparr>hub_sends := sends, hub_rates := rates\<rparr>" for n
  proof (cases "n = self")
    case False
    show ?thesis
      by (rule exI [of _ "hub_sends (hub_at (si_hubs s) n)"], rule exI [of _ "hub_rates (hub_at (si_hubs s) n)"])
        (simp add: s2_def s1_def False)
  qed (auto simp: s2_def s1_def)
  show thesis
  proof (cases rule: direct_cases [of env self identity frame route name' host' addr' s2])
    case nowhere
    then show ?thesis using b(7) by (simp add: s2_def)
  next
    case (queued targetOrg sender conn st effs took)
    let ?n = "hub_name targetOrg host'"
    have "canReceive (hub_env_of env (si_db s2)) (hub_at (si_hubs s2) ?n) name' targetOrg host'"
      using queued(4,5) by (auto simp: queueDelivery_def direct_input_def split: if_splits)
    then have can: "canReceive (hub_env_of env (si_db s)) (hub_at (si_hubs s) ?n) name' targetOrg host'"
      using hub [of ?n] db by (auto simp: canReceive_frame)
    have s': "site_step same_mail (told ?n st effs s2) s'" using queued(7) b(7) by (simp add: s2_def)
    show ?thesis
      by (rule that [OF _ _ _ b(4,5) _ _ queued(3) can hub _ queued(5) s'])
        (use a(1) b queued db in \<open>simp_all add: s1_def hasAgent_def\<close>)
  qed
qed

section \<open>Properties\<close>

text \<open>
  C22: a send that is not admitted, because it is refused or because an object it needs is out of reach,
  reaches nobody. The queue and the markers of every hub are as they were.
\<close>
theorem unadmitted_send_reaches_nobody:
  assumes "snd (admitSend env self identity frame verify s) \<noteq> Inr Admitted"
  shows "hub_queue (hub_at (si_hubs (fst (admitSend env self identity frame verify s))) n) = hub_queue (hub_at (si_hubs s) n) \<and>
    hub_markers (hub_at (si_hubs (fst (admitSend env self identity frame verify s))) n) = hub_markers (hub_at (si_hubs s) n)"
  using unadmitted [of env self identity frame verify s] assms
  by (simp add: site_step_def hubs_step_def same_mail_def)

text \<open>
  C3: what the acknowledgement of a direct message means. Its sender is an agent of the host that sent
  it (on the roster, when a daemon sent it); the organization it names is the sender's own or has an active connection with it, and
  the sender is named accordingly; the live host's hub, and no other hub, took exactly this delivery, once per message id and agent.
\<close>
theorem admitted_direct_send_arrives:
  assumes "admitSend env self identity frame verify s = (s', Inr Admitted)" and "send_answer s self (sf_id frame) = None"
    and "parseAddress (sf_to frame) = Inr (AgentAddress name' host' organization' addr')"
    and "\<And>n. hub_inv (hub_at (si_hubs s) n)"
  shows "\<exists>name addr targetOrg sender conn sends rates.
    parseAddress (sf_from frame) = Inr (AgentAddress name (hi_slug identity) None addr) \<and>
    (verify \<longrightarrow> hasAgent (hub_at (si_hubs s) self) name) \<and> utf8_length (sf_body frame) \<le> MAX_MESSAGE_BYTES \<and>
    route_to (si_db s) identity name (hi_slug identity) addr organization' = Inr (Some (targetOrg, sender, conn)) \<and>
    host_live (si_db s) targetOrg host' \<and>
    same_mail (hub_name targetOrg host')
      (fst (queueDelivery (hub_env_of env (si_db s)) (direct_input identity frame (targetOrg, sender, conn) name' host' addr')
        ((hub_at (si_hubs s) (hub_name targetOrg host'))\<lparr>hub_sends := sends, hub_rates := rates\<rparr>)))
      (hub_at (si_hubs s') (hub_name targetOrg host')) \<and>
    known_delivery (hub_at (si_hubs s') (hub_name targetOrg host')) (marker_key (sf_id frame) name') \<and>
    (\<forall>n. n \<noteq> hub_name targetOrg host' \<longrightarrow> same_mail n (hub_at (si_hubs s) n) (hub_at (si_hubs s') n))"
proof -
  obtain name addr targetOrg sender conn s2 st effs took where c:
    "parseAddress (sf_from frame) = Inr (AgentAddress name (hi_slug identity) None addr)"
    "verify \<longrightarrow> hasAgent (hub_at (si_hubs s) self) name" "utf8_length (sf_body frame) \<le> MAX_MESSAGE_BYTES"
    "route_to (si_db s) identity name (hi_slug identity) addr organization' = Inr (Some (targetOrg, sender, conn))"
    "host_live (si_db s) targetOrg host'"
    and hub: "\<And>n. \<exists>sends rates. hub_at (si_hubs s2) n = (hub_at (si_hubs s) n)\<lparr>hub_sends := sends, hub_rates := rates\<rparr>"
    and q: "queueDelivery (hub_env_of env (si_db s)) (direct_input identity frame (targetOrg, sender, conn) name' host' addr')
         (hub_at (si_hubs s2) (hub_name targetOrg host')) = (st, effs, took)" "took \<noteq> NoRouteTo"
    and s': "site_step same_mail (told (hub_name targetOrg host') st effs s2) s'"
    using assms(1-3) by (rule admitted_direct_cases) blast
  let ?n = "hub_name targetOrg host'" and ?inp = "direct_input identity frame (targetOrg, sender, conn) name' host' addr'"
  obtain sends rates where n: "hub_at (si_hubs s2) ?n = (hub_at (si_hubs s) ?n)\<lparr>hub_sends := sends, hub_rates := rates\<rparr>"
    using hub by blast
  have st: "same_mail ?n st (hub_at (si_hubs s') ?n)"
    using s' by (metis hubs_step_def site_step_def told_hub(1))
  have "hub_inv (hub_at (si_hubs s2) ?n)" using assms(4) [of ?n] n by (simp add: hub_inv_def)
  then have "known_delivery st (marker_key (sf_id frame) name')"
    using queueDelivery_known(2) [of "hub_at (si_hubs s2) ?n" "hub_env_of env (si_db s)" ?inp] q
    by (simp add: direct_input_def input_key_def)
  then have known: "known_delivery (hub_at (si_hubs s') ?n) (marker_key (sf_id frame) name')"
    using st by (simp add: same_mail_def known_delivery_def delivery_status_of_def)
  have others: "same_mail n (hub_at (si_hubs s) n) (hub_at (si_hubs s') n)" if "n \<noteq> ?n" for n
  proof -
    have "same_mail n (hub_at (si_hubs s2) n) (hub_at (si_hubs s') n)"
      using s' that unfolding site_step_def hubs_step_def by (metis told_hub(1))
    then show ?thesis using hub [of n] by (auto simp: same_mail_def)
  qed
  have mail: "same_mail ?n (fst (queueDelivery (hub_env_of env (si_db s)) ?inp
      ((hub_at (si_hubs s) ?n)\<lparr>hub_sends := sends, hub_rates := rates\<rparr>))) (hub_at (si_hubs s') ?n)"
    using q(1) st n by simp
  show ?thesis
    by (rule exI [of _ name], rule exI [of _ addr], rule exI [of _ targetOrg], rule exI [of _ sender],
        rule exI [of _ conn], rule exI [of _ sends], rule exI [of _ rates])
      (use c mail known others in simp)
qed

text \<open>
  C21: which direct messages are admitted. A message that has no answer yet is admitted exactly when its sender is an
  agent of the host that sent it (on the roster, when a daemon sent it), has a token left, the message is of a permitted size and
  within the plan, and the organization it names is reachable from the sender's with a live and reachable host that can
  receive for the agent.
\<close>
theorem direct_send_is_admitted_iff:
  assumes "send_answer s self (sf_id frame) = None"
    and "parseAddress (sf_to frame) = Inr (AgentAddress name' host' organization' addr')"
  shows "snd (admitSend env self identity frame verify s) = Inr Admitted \<longleftrightarrow>
    (\<exists>name addr targetOrg sender conn.
      parseAddress (sf_from frame) = Inr (AgentAddress name (hi_slug identity) None addr) \<and>
      (verify \<longrightarrow> hasAgent (hub_at (si_hubs s) self) name) \<and>
      snd (consumeStoredToken (hub_rates (hub_at (si_hubs s) self)) (send_rate_key name) 10 10 (sv_now env)) \<and>
      utf8_length (sf_body frame) \<le> MAX_MESSAGE_BYTES \<and> sv_canAccept env (hi_org identity) \<and>
      route_to (si_db s) identity name (hi_slug identity) addr organization' = Inr (Some (targetOrg, sender, conn)) \<and>
      host_live (si_db s) targetOrg host' \<and> sv_unreachable env (hub_name targetOrg host') = None \<and>
      canReceive (hub_env_of env (si_db s)) (hub_at (si_hubs s) (hub_name targetOrg host')) name' targetOrg host')"
    (is "?admitted \<longleftrightarrow> ?in_order")
proof
  assume ?in_order
  then show ?admitted using assms by (blast intro: send_admits)
next
  assume ?admitted
  then obtain s' where "admitSend env self identity frame verify s = (s', Inr Admitted)" by (metis prod.collapse)
  then show ?in_order using assms by (rule admitted_direct_cases) blast
qed

end
