(* ===== verification/Site_Access.thy ===== *)
theory Site_Access
  imports Site_Sends
begin

text \<open>
  Who may do what: the daemon's socket and the MCP endpoint share their tools, a daemon that has not said
  \<open>hello\<close> does nothing, and what a tool that settles an inbox entry touches. A demonstration site shows that the hypotheses can hold.
\<close>

section \<open>A demonstration\<close>

definition demo_site_host :: host_row where
  "demo_site_host = \<lparr>h_id = js ''hst_1'', h_orgId = js ''org'', h_slug = js ''titan'', h_tokenHash = [],
     h_tokenIssuedAt = 0, h_daemonVer = [], h_lastSeenAt = None, h_revokedAt = None\<rparr>"

definition demo_site_env :: site_env where
  "demo_site_env = \<lparr>sv_now = 5000, sv_txId = js ''tx_9'', sv_canAccept = (\<lambda>_. True), sv_unreachable = (\<lambda>_. None),
     sv_send_error = (\<lambda>_. None), sv_before = (<), sv_parse = (\<lambda>_. None), sv_date = (\<lambda>_. None),
     sv_channel = demo_channel_env\<rparr>"

definition demo_site :: site where
  "demo_site = \<lparr>si_db = empty_d1\<lparr>hosts := [demo_site_host]\<rparr>,
     si_hubs = [(hub_name (js ''org'') (js ''titan''), demo_hub)], si_rooms = [], si_channels = [], si_draws = 0, si_out = []\<rparr>"

definition demo_self :: jstr where "demo_self = hub_name (js ''org'') (js ''titan'')"

definition demo_frame :: send_frame where
  "demo_frame = \<lparr>sf_id = js ''tx_2'', sf_from = js ''bob@titan'', sf_to = js ''bob@titan'', sf_body = js ''hi'',
     sf_reply_to = None, sf_ts = js ''t''\<rparr>"

definition demo_stray :: send_frame where
  "demo_stray = demo_frame\<lparr>sf_from := js ''x y''\<rparr>"

lemma demo_parses: "parseAddress (js ''bob@titan'') = Inr (AgentAddress (js ''bob'') (js ''titan'') None (js ''bob@titan''))"
  "\<exists>e. parseAddress (js ''x y'') = Inl e"
  by (code_simp, rule exI, code_simp)

lemma demo_site_hub: "hub_at (si_hubs demo_site) demo_self = demo_hub" "hub_at (si_hubs demo_site) n = (if n = demo_self then demo_hub else new_hub)"
  by (simp_all add: demo_site_def demo_self_def hub_at_def)

lemma demo_hub_bits: "hasAgent demo_hub (js ''bob'') \<and> hub_sends demo_hub = [] \<and> hub_rates demo_hub = []"
  by code_simp

lemma fresh_bucket: "snd (consumeStoredToken [] k 10 10 now)"
  by (simp add: consumeStoredToken_def consumeToken_def Let_def)

lemma demo_admitted: "snd (admitSend demo_site_env demo_self demo_host demo_frame True demo_site) = Inr Admitted"
proof (rule send_admits)
  show "send_answer demo_site demo_self (sf_id demo_frame) = None"
    by (simp add: send_answer_def demo_site_hub demo_hub_bits answer_of_def)
  show "parseAddress (sf_from demo_frame) = Inr (AgentAddress (js ''bob'') (hi_slug demo_host) None (js ''bob@titan''))"
    using demo_parses(1) by (simp add: demo_frame_def demo_host_def del: js_simps)
  show "parseAddress (sf_to demo_frame) = Inr (AgentAddress (js ''bob'') (js ''titan'') None (js ''bob@titan''))"
    using demo_parses(1) by (simp add: demo_frame_def del: js_simps)
  show "True \<longrightarrow> hasAgent (hub_at (si_hubs demo_site) demo_self) (js ''bob'')" by (simp add: demo_site_hub demo_hub_bits del: js_simps)
  show "snd (consumeStoredToken (hub_rates (hub_at (si_hubs demo_site) demo_self)) (send_rate_key (js ''bob'')) 10 10 (sv_now demo_site_env))"
    by (simp only: demo_site_hub(1) demo_hub_bits fresh_bucket)
  show "utf8_length (sf_body demo_frame) \<le> MAX_MESSAGE_BYTES"
    using utf8_length_le [of "sf_body demo_frame"] by (simp add: demo_frame_def MAX_MESSAGE_BYTES_def)
  show "sv_canAccept demo_site_env (hi_org demo_host)" by (simp add: demo_site_env_def)
  show "route_to (si_db demo_site) demo_host (js ''bob'') (hi_slug demo_host) (js ''bob@titan'') None
      = Inr (Some (js ''org'', js ''bob@titan'', None))"
    by (simp add: route_to_def demo_host_def truthy_def)
  show "host_live (si_db demo_site) (js ''org'') (js ''titan'')"
    by (simp add: host_live_def demo_site_def demo_site_host_def is_null_def)
  show "sv_unreachable demo_site_env (hub_name (js ''org'') (js ''titan'')) = None" by (simp add: demo_site_env_def)
  show "canReceive (hub_env_of demo_site_env (si_db demo_site)) (hub_at (si_hubs demo_site) (hub_name (js ''org'') (js ''titan'')))
      (js ''bob'') (js ''org'') (js ''titan'')"
    using demo_site_hub(1) demo_hub_bits by (simp add: canReceive_def demo_self_def del: js_simps)
qed


lemma demo_site_inv: "hub_inv (hub_at (si_hubs demo_site) n)"
  by (simp add: demo_site_hub(2) demo_hub_inv new_hub_inv)

lemma demo_unanswered: "send_answer demo_site demo_self (sf_id demo_frame) = None"
    "parseAddress (sf_to demo_frame) = Inr (AgentAddress (js ''bob'') (js ''titan'') None (js ''bob@titan''))"
  using demo_parses(1) by (simp_all add: send_answer_def demo_site_hub demo_hub_bits answer_of_def demo_frame_def del: js_simps)

lemma direct_send_is_admitted_iff_witness:
  "\<exists>targetOrg. host_live (si_db demo_site) targetOrg (js ''titan'') \<and>
     canReceive (hub_env_of demo_site_env (si_db demo_site)) (hub_at (si_hubs demo_site) (hub_name targetOrg (js ''titan'')))
       (js ''bob'') targetOrg (js ''titan'')"
  using demo_admitted unfolding direct_send_is_admitted_iff [OF demo_unanswered] by blast

lemma admitted_direct_send_arrives_witness:
  "known_delivery (hub_at (si_hubs (fst (admitSend demo_site_env demo_self demo_host demo_frame True demo_site)))
     (hub_name (js ''org'') (js ''titan''))) (marker_key (js ''tx_2'') (js ''bob''))"
proof -
  obtain s' where s': "admitSend demo_site_env demo_self demo_host demo_frame True demo_site = (s', Inr Admitted)"
    using demo_admitted by (metis prod.collapse)
  obtain targetOrg name addr sender conn where
      "route_to (si_db demo_site) demo_host name (hi_slug demo_host) addr None = Inr (Some (targetOrg, sender, conn))"
      "known_delivery (hub_at (si_hubs s') (hub_name targetOrg (js ''titan''))) (marker_key (sf_id demo_frame) (js ''bob''))"
    using admitted_direct_send_arrives [OF s' demo_unanswered demo_site_inv] by blast
  moreover have "targetOrg = js ''org''" using calculation(1) by (simp add: route_to_def demo_host_def del: js_simps)
  ultimately show ?thesis unfolding s' fst_conv by (simp add: demo_frame_def del: js_simps)
qed

lemma unadmitted_send_reaches_nobody_witness:
  "hub_queue (hub_at (si_hubs (fst (admitSend demo_site_env demo_self demo_host demo_stray True demo_site))) demo_self) =
     hub_queue demo_hub"
proof -
  obtain e where "parseAddress (sf_from demo_stray) = Inl e"
    using demo_parses(2) by (auto simp: demo_stray_def simp del: js_simps)
  moreover have "kv_get (hub_sends (hub_at (si_hubs demo_site) demo_self)) (send_key (sf_id demo_stray)) = None"
    by (simp add: demo_site_hub demo_hub_bits)
  ultimately have "snd (admitSend demo_site_env demo_self demo_host demo_stray True demo_site) \<noteq> Inr Admitted"
    by (simp add: admitSend_def hub_read_def run_steps then_op_def bind_op_def [of "put_send _ _ _ _"] run_put_send)
  from unadmitted_send_reaches_nobody [OF this, of demo_self] show ?thesis by (simp add: demo_site_hub)
qed

lemma site_books_balance_witness:
  "hub_inv (hub_at (si_hubs (serve_sites [(demo_site_env, SubmitSend demo_self demo_host demo_frame),
     (demo_site_env, HubRequest demo_self OpAlarm)] demo_site)) demo_self)"
  by (rule site_books_balance) (simp_all add: demo_site_inv)


section \<open>Tools\<close>

definition refused_with :: "jstr \<Rightarrow> (site, 'a) op \<Rightarrow> (site, 'a) op \<Rightarrow> bool" where
  "refused_with e m m' \<longleftrightarrow> (\<forall>s. m s = m' s \<or> m s = (s, Inl e))"

lemma refused_refl: "refused_with e m m"
  by (simp add: refused_with_def)

lemma refused_bind: "refused_with e m m' \<Longrightarrow> refused_with e (bind_op m f) (bind_op m' f)"
  unfolding refused_with_def
proof
  fix s assume "\<forall>s. m s = m' s \<or> m s = (s, Inl e)"
  then have "m s = m' s \<or> m s = (s, Inl e)" ..
  then show "bind_op m f s = bind_op m' f s \<or> bind_op m f s = (s, Inl e)" by (auto simp: bind_op_def)
qed

lemma refused_after: "(\<And>a. refused_with e (f a) (f' a)) \<Longrightarrow> (\<And>s. fst (m s) = s) \<Longrightarrow>
    refused_with e (bind_op m f) (bind_op m f')"
  unfolding refused_with_def bind_op_def by (auto split: prod.splits sum.splits) (metis fst_conv)+

lemma refused_agent:
  "refused_with (js refusal) (own_agent identity refusal (on_roster self True) address)
     (own_agent identity refusal (on_roster self False) address)"
  unfolding refused_with_def own_agent_def on_roster_def hub_read_def
  by (auto simp: run_steps op_simps bind_op_def [of "return_op _"] split: sum.splits transit_address.splits)


lemma needed_keeps: "fst (needed v m s) = s"
  by (simp add: needed_def op_simps split: option.splits)

lemma refused_callers:
  "refused_with (js ''invalid rpc caller'') (rpcCaller self identity params True) (rpcCaller self identity params False)"
  "refused_with (js ''invalid room caller'') (room_caller self identity params True) (room_caller self identity params False)"
proof -
  have lifted: "fst (lift_op r s) = s" for r :: "jstr + 'x" and s :: site by (simp add: op_simps)
  show "refused_with (js ''invalid rpc caller'') (rpcCaller self identity params True) (rpcCaller self identity params False)"
    unfolding rpcCaller_def by (intro refused_after refused_bind refused_agent needed_keeps)
  show "refused_with (js ''invalid room caller'') (room_caller self identity params True) (room_caller self identity params False)"
    unfolding room_caller_def
    by (auto split: option.splits intro!: refused_refl refused_after refused_bind refused_agent lifted simp del: js_simps)
qed

text \<open>Either refusal, through the choice of the tool by its name.\<close>

definition roster_refuses :: "(site, 'a) op \<Rightarrow> (site, 'a) op \<Rightarrow> bool" where
  "roster_refuses m m' \<longleftrightarrow> refused_with (js ''invalid rpc caller'') m m' \<or> refused_with (js ''invalid room caller'') m m'"

lemma roster_refuses_rules:
  "refused_with (js ''invalid rpc caller'') m m' \<Longrightarrow> roster_refuses m m'"
  "refused_with (js ''invalid room caller'') m m' \<Longrightarrow> roster_refuses m m'"
  "roster_refuses m m"
  "roster_refuses m1 m1' \<Longrightarrow> roster_refuses m2 m2' \<Longrightarrow> roster_refuses (if b then m1 else m2) (if b then m1' else m2')"
  by (simp_all add: roster_refuses_def refused_refl del: js_simps)

lemma roster_refuses_tools:
  "roster_refuses (tool_read_message env self identity v params True) (tool_read_message env self identity v params False)"
  "roster_refuses (tool_chat_reply env self identity params True) (tool_chat_reply env self identity params False)"
  "roster_refuses (tool_mark_handled env self identity params True) (tool_mark_handled env self identity params False)"
  "roster_refuses (tool_create_room env self identity params True) (tool_create_room env self identity params False)"
  "roster_refuses (tool_join_room env self identity params True) (tool_join_room env self identity params False)"
  "roster_refuses (tool_leave_room env self identity params True) (tool_leave_room env self identity params False)"
proof -
  note rules = refused_refl refused_bind refused_callers
  show "roster_refuses (tool_read_message env self identity v params True) (tool_read_message env self identity v params False)"
    unfolding tool_read_message_def
    by (rule roster_refuses_rules, rule refused_after) (auto intro: rules simp: needed_keeps simp del: js_simps)
  show "roster_refuses (tool_chat_reply env self identity params True) (tool_chat_reply env self identity params False)"
    unfolding tool_chat_reply_def by (rule roster_refuses_rules) (auto split: option.splits intro: rules simp del: js_simps)
  show "roster_refuses (tool_mark_handled env self identity params True) (tool_mark_handled env self identity params False)"
    unfolding tool_mark_handled_def
    by (rule roster_refuses_rules, rule refused_after) (auto intro: rules simp: needed_keeps simp del: js_simps)
  show "roster_refuses (tool_create_room env self identity params True) (tool_create_room env self identity params False)"
      "roster_refuses (tool_join_room env self identity params True) (tool_join_room env self identity params False)"
      "roster_refuses (tool_leave_room env self identity params True) (tool_leave_room env self identity params False)"
    unfolding tool_create_room_def tool_join_room_def tool_leave_room_def
    by (rule roster_refuses_rules(2), intro rules)+
qed

text \<open>
  C23: a tool means the same over the socket and over the MCP endpoint. The socket's check of the roster only ever
  turns a call into a refusal that changes nothing; when it does not refuse, the call does and answers exactly what
  the endpoint's does.
\<close>
theorem socket_and_endpoint_agree:
  "invokeRpc env self identity method params True s = invokeRpc env self identity method params False s \<or>
   invokeRpc env self identity method params True s = (s, Inl (js ''invalid rpc caller'')) \<or>
   invokeRpc env self identity method params True s = (s, Inl (js ''invalid room caller''))"
proof -
  have "roster_refuses (invokeRpc env self identity method params True) (invokeRpc env self identity method params False)"
    unfolding invokeRpc_def by (intro roster_refuses_rules(3,4) roster_refuses_tools)
  then show ?thesis unfolding roster_refuses_def refused_with_def by blast
qed

section \<open>Before hello\<close>

text \<open>
  C24: nothing is done for a daemon before its \<open>hello\<close>. Until the connection is ready every message but a
  \<open>hello\<close> leaves the mail, the roster and the answered sends of every hub as they were, and one that asks for something closes the connection.
\<close>
theorem nothing_before_hello:
  assumes "hub_socket (hub_at (si_hubs s) self) = Some a" "\<not> da_ready a"
    and "\<And>ver host. decodeDaemonFrame (sv_parse env) text' \<noteq> Inr (Some (Hello ver host))"
  defines "s' \<equiv> fst (webSocketMessage env self (Some text') s)"
  shows "hub_queue (hub_at (si_hubs s') n) = hub_queue (hub_at (si_hubs s) n) \<and>
    hub_markers (hub_at (si_hubs s') n) = hub_markers (hub_at (si_hubs s) n) \<and>
    hub_roster (hub_at (si_hubs s') n) = hub_roster (hub_at (si_hubs s) n) \<and>
    hub_sends (hub_at (si_hubs s') n) = hub_sends (hub_at (si_hubs s) n) \<and>
    (hub_socket (hub_at (si_hubs s') self) = None \<or> decodeDaemonFrame (sv_parse env) text' = Inr None)"
proof -
  obtain rate allowed where c: "consumeToken (da_frameRate a) 50 100 (sv_now env) = (rate, allowed)" by fastforce
  let ?a1 = "a\<lparr>da_frameRate := rate\<rparr>"
  obtain effs where t: "take_frame env self a s = (told self ((hub_at (si_hubs s) self)\<lparr>hub_socket := Some ?a1\<rparr>) effs s, Inr (allowed, ?a1))"
    by (rule that [of "if allowed then [HostSeen (sv_now env) (hi_hostId (da_identity a)) (hi_org (da_identity a))] else []"])
      (simp add: run_take_frame c Let_def)
  have close: "on_hub env self (close_socket code reason) v =
      (told self ((hub_at (si_hubs v) self)\<lparr>hub_socket := None\<rparr>) [CloseSocket code reason] v, Inr ())" for code reason v
    by (simp add: on_hub_def close_socket_def told_def op_simps report_silent)
  have frame: "dispatch_frame env self ?a1 f v = then_op (hub_tell self [Frame (HelloErr (js ''hello_required''))])
              (on_hub env self (close_socket 4002 (js ''hello required''))) v"
    if "decodeDaemonFrame (sv_parse env) text' = Inr (Some f)" for f v
    using that assms(2,3) by (cases f) (simp_all add: dispatch_frame_def)
  show ?thesis
    unfolding s'_def
    by (cases "decodeDaemonFrame (sv_parse env) text'")
      (auto simp: webSocketMessage_def hub_read_def run_steps assms(1) bind_op_def [of "take_frame _ _ _"] t close frame
        then_op_def bind_op_def [of "hub_tell _ _"] hub_tell_def op_simps hub_at_put told_def split: option.splits)
qed


lemma nothing_before_hello_witness:
  "hub_socket (hub_at (si_hubs (fst (webSocketMessage demo_site_env demo_self (Some (js ''x''))
     (told demo_self (demo_hub\<lparr>hub_socket := Some demo_attachment\<rparr>) [] demo_site)))) demo_self) = None"
proof -
  have d: "isl (decodeDaemonFrame (sv_parse demo_site_env) (js ''x''))"
    by (simp add: decodeDaemonFrame_def parseJsonFrame_def demo_site_env_def)
  let ?s = "told demo_self (demo_hub\<lparr>hub_socket := Some demo_attachment\<rparr>) [] demo_site"
  have a: "hub_socket (hub_at (si_hubs ?s) demo_self) = Some demo_attachment" by simp
  have b: "\<not> da_ready demo_attachment" by (simp add: demo_attachment_def)
  have c: "decodeDaemonFrame (sv_parse demo_site_env) (js ''x'') \<noteq> Inr f" for f using d by (metis isl_def sum.distinct(1))
  show ?thesis using nothing_before_hello [OF a b c] c by blast
qed

end
