(* ===== verification/Encoding.thy ===== *)
theory Encoding
  imports Js_Text
begin

text \<open>
  Bytes as text: \<open>btoa\<close>, \<open>atob\<close> and the variant for URLs of \<^verbatim>\<open>src/lib/transit/jwt.ts\<close>, and the
  hexadecimal digits of \<^verbatim>\<open>src/lib/transit/crypto.ts\<close>. A byte string is a list of 8-bit words; the binary
  strings between \<open>btoa\<close> and the arrays hold one unit for each byte.
\<close>

type_synonym bytes = "8 word list"

section \<open>The alphabet\<close>

definition b64_unit :: "nat \<Rightarrow> unit16" where
  "b64_unit n =
     (if n < 26 then of_nat (65 + n) else if n < 52 then of_nat (71 + n)
      else if n < 62 then of_nat (n - 4) else if n = 62 then 43 else 47)"

definition b64_value :: "unit16 \<Rightarrow> nat option" where
  "b64_value c =
     (if is_upper c then Some (unat c - 65) else if is_lower c then Some (unat c - 71)
      else if is_digit c then Some (unat c + 4)
      else if c = 43 then Some 62 else if c = 47 then Some 63 else None)"

text \<open>Units compare as their codes.\<close>

lemma unit_code: "m < 65536 \<Longrightarrow> unat (of_nat m :: unit16) = m"
  by (simp add: unat_of_nat take_bit_nat_eq_self)

lemma unit_by_code:
  "is_upper c \<longleftrightarrow> 65 \<le> unat c \<and> unat c \<le> 90" "is_lower c \<longleftrightarrow> 97 \<le> unat c \<and> unat c \<le> 122"
  "is_digit c \<longleftrightarrow> 48 \<le> unat c \<and> unat c \<le> 57"
  "c = 61 \<longleftrightarrow> unat c = 61" "c = 43 \<longleftrightarrow> unat c = 43" "c = 45 \<longleftrightarrow> unat c = 45" "c = 46 \<longleftrightarrow> unat c = 46"
  "c = 47 \<longleftrightarrow> unat c = 47" "c = 95 \<longleftrightarrow> unat c = 95"
  by (simp_all add: is_upper_def is_lower_def is_digit_def word_le_nat_alt word_unat_eq_iff)

lemma b64_unit_code:
  "n < 64 \<Longrightarrow> unat (b64_unit n) = (if n < 26 then 65 + n else if n < 52 then 71 + n else if n < 62 then n - 4
     else if n = 62 then 43 else 47)"
  by (simp add: b64_unit_def unit_code del: of_nat_add of_nat_diff)

lemma b64_unit_facts:
  assumes "n < 64"
  shows "b64_value (b64_unit n) = Some n" "b64_unit n \<noteq> 61" "b64_unit n \<noteq> 45" "b64_unit n \<noteq> 95" "b64_unit n \<noteq> 46"
  using assms by (auto simp: b64_value_def unit_by_code b64_unit_code)


section \<open>Groups of six bits\<close>

fun to_sextets :: "bytes \<Rightarrow> nat list" where
  "to_sextets [] = []"
| "to_sextets [a] = [unat a div 4, unat a mod 4 * 16]"
| "to_sextets [a, b] = [unat a div 4, unat a mod 4 * 16 + unat b div 16, unat b mod 16 * 4]"
| "to_sextets (a # b # c # rest) =
     [unat a div 4, unat a mod 4 * 16 + unat b div 16, unat b mod 16 * 4 + unat c div 64, unat c mod 64] @ to_sextets rest"

text \<open>Bits left over at the end are dropped; a single group of six at the end is no byte.\<close>

fun of_sextets :: "nat list \<Rightarrow> bytes" where
  "of_sextets (p # q # r # s # rest) =
     of_nat (p * 4 + q div 16) # of_nat (q mod 16 * 16 + r div 4) # of_nat (r mod 4 * 64 + s) # of_sextets rest"
| "of_sextets [p, q, r] = [of_nat (p * 4 + q div 16), of_nat (q mod 16 * 16 + r div 4)]"
| "of_sextets [p, q] = [of_nat (p * 4 + q div 16)]"
| "of_sextets _ = []"

lemma byte_bound: "unat (b :: 8 word) < 256"
  by (rule order_less_le_trans [OF unsigned_less]) simp

lemma digits:
  fixes p q k :: nat
  assumes "q < k"
  shows "(p * k + q) div k = p" "(p * k + q) mod k = q"
  using assms by simp_all

lemma byte_digits:
  fixes a b :: "8 word"
  shows "(p * 16 + unat b div 16) div 16 = p" "(p * 16 + unat b div 16) mod 16 = unat b div 16"
    "(p * 4 + unat b div 64) div 4 = p" "(p * 4 + unat b div 64) mod 4 = unat b div 64"
  by (rule digits, use byte_bound [of b] in simp)+

lemma byte_parts:
  fixes a b c :: "8 word"
  shows "of_nat (unat a div 4 * 4 + (unat a mod 4 * 16 + unat b div 16) div 16) = a"
    "of_nat ((unat a mod 4 * 16 + unat b div 16) mod 16 * 16 + (unat b mod 16 * 4 + unat c div 64) div 4) = b"
    "of_nat ((unat b mod 16 * 4 + unat c div 64) mod 4 * 64 + unat c mod 64) = c"
    "of_nat (unat a div 4 * 4 + unat a mod 4 * 16 div 16) = a"
    "of_nat ((unat a mod 4 * 16 + unat b div 16) mod 16 * 16 + unat b mod 16 * 4 div 4) = b"
proof -
  have whole: "of_nat (unat x div 4 * 4 + unat x mod 4) = x" "of_nat (unat x div 16 * 16 + unat x mod 16) = x"
      "of_nat (unat x div 64 * 64 + unat x mod 64) = x" for x :: "8 word"
    by (simp_all only: div_mult_mod_eq) simp_all
  show "of_nat (unat a div 4 * 4 + (unat a mod 4 * 16 + unat b div 16) div 16) = a"
    "of_nat ((unat a mod 4 * 16 + unat b div 16) mod 16 * 16 + (unat b mod 16 * 4 + unat c div 64) div 4) = b"
    "of_nat ((unat b mod 16 * 4 + unat c div 64) mod 4 * 64 + unat c mod 64) = c"
    by (simp_all only: byte_digits whole)
  have "unat a mod 4 * 16 div 16 = unat a mod 4" "unat b mod 16 * 4 div 4 = unat b mod 16" by simp_all
  then show "of_nat (unat a div 4 * 4 + unat a mod 4 * 16 div 16) = a"
    "of_nat ((unat a mod 4 * 16 + unat b div 16) mod 16 * 16 + unat b mod 16 * 4 div 4) = b"
    by (simp_all only: byte_digits whole)
qed

lemma of_to_sextets: "of_sextets (to_sextets bs) = bs"
  by (induction bs rule: to_sextets.induct) (simp_all only: to_sextets.simps of_sextets.simps byte_parts append.simps)

lemma to_sextets_small: "list_all (\<lambda>n. n < 64) (to_sextets bs)"
proof -
  have first: "unat a div 4 < 64" and last: "unat a mod 64 < 64" "unat a mod 4 * 16 < 64" "unat a mod 16 * 4 < 64"
    for a :: "8 word"
    using byte_bound [of a] mod_less_divisor [of 4 "unat a"] mod_less_divisor [of 16 "unat a"] by simp_all
  have mid: "unat a mod 4 * 16 + unat b div 16 < 64" "unat a mod 16 * 4 + unat b div 64 < 64" for a b :: "8 word"
    using byte_bound [of b] mod_less_divisor [of 4 "unat a"] mod_less_divisor [of 16 "unat a"] by linarith+
  show ?thesis by (induction bs rule: to_sextets.induct) (simp_all add: first last mid)
qed

lemma to_sextets_length: "length (to_sextets bs) mod 4 \<noteq> 1"
proof (induction bs rule: to_sextets.induct)
  case (4 a b c rest)
  have "(n + 4) mod 4 = n mod 4" for n :: nat by simp
  from this [of "length (to_sextets rest)"] 4 show ?case by (simp del: mod_add_self2)
qed simp_all


section \<open>\<open>btoa\<close> and \<open>atob\<close>\<close>

definition b64_padding :: "nat \<Rightarrow> jstr" where
  "b64_padding n = replicate ((4 - n mod 4) mod 4) 61"

definition btoa :: "bytes \<Rightarrow> jstr" where
  "btoa bs = map b64_unit (to_sextets bs) @ b64_padding (length (to_sextets bs))"

definition ascii_space :: "unit16 \<Rightarrow> bool" where
  "ascii_space c \<longleftrightarrow> c = 9 \<or> c = 10 \<or> c = 12 \<or> c = 13 \<or> c = 32"

text \<open>One or two equals signs at the end of a text of full groups are padding.\<close>

definition unpadded :: "jstr \<Rightarrow> jstr" where
  "unpadded cs =
     (if length cs mod 4 \<noteq> 0 then cs
      else if drop (length cs - 2) cs = [61, 61] then take (length cs - 2) cs
      else if drop (length cs - 1) cs = [61] then take (length cs - 1) cs else cs)"

fun all_some :: "'a option list \<Rightarrow> 'a list option" where
  "all_some [] = Some []"
| "all_some (None # xs) = None"
| "all_some (Some x # xs) = map_option (Cons x) (all_some xs)"

text \<open>\<open>None\<close> is the exception.\<close>

definition atob :: "jstr \<Rightarrow> bytes option" where
  "atob text' =
     (let cs = unpadded (filter (\<lambda>c. \<not> ascii_space c) text')
      in if length cs mod 4 = 1 then None else map_option of_sextets (all_some (map b64_value cs)))"

lemma all_some_map: "list_all (\<lambda>x. f x = Some (g x)) xs \<Longrightarrow> all_some (map f xs) = Some (map g xs)"
  by (induction xs) auto

lemma decoded_sextets:
  "list_all (\<lambda>n. n < 64) ns \<Longrightarrow> all_some (map b64_value (map b64_unit ns)) = Some ns"
  by (induction ns) (auto simp: b64_unit_facts)

lemma not_space: "n < 64 \<Longrightarrow> \<not> ascii_space (b64_unit n)"
  by (auto simp: ascii_space_def word_unat_eq_iff b64_unit_code)

lemma filter_units: "list_all (\<lambda>n. n < 64) ns \<Longrightarrow> filter (\<lambda>c. \<not> ascii_space c) (map b64_unit ns) = map b64_unit ns"
  by (induction ns) (auto simp: not_space)

lemma no_padding_inside:
  assumes "list_all (\<lambda>n. n < 64) ns"
  shows "61 \<notin> set (map b64_unit ns)"
  using assms b64_unit_facts(2) by (auto simp: list_all_iff)

lemma unpadded_units:
  assumes "list_all (\<lambda>n. n < 64) ns" "length ns mod 4 \<noteq> 1"
  shows "unpadded (map b64_unit ns @ b64_padding (length ns)) = map b64_unit ns"
proof -
  let ?u = "map b64_unit ns"
  have no: "61 \<notin> set ?u" using no_padding_inside [OF assms(1)] .
  consider "length ns mod 4 = 0" | "length ns mod 4 = 2" | "length ns mod 4 = 3"
    using assms(2) mod_less_divisor [of 4 "length ns"] by linarith
  then show ?thesis
  proof cases
    case 1
    have "drop (length ns - k) ?u \<noteq> e" if "61 \<in> set e" for k e
      using that no by (metis in_set_dropD)
    then show ?thesis using 1 by (simp add: b64_padding_def unpadded_def)
  next
    case 2
    then have "(length ns + 2) mod 4 = 0" by presburger
    then show ?thesis using 2 by (simp add: b64_padding_def unpadded_def numeral_2_eq_2)
  next
    case 3
    then have "ns \<noteq> []" "(length ns + 1) mod 4 = 0" by (auto, presburger)
    moreover have "drop (length ns - 1) ?u \<noteq> [61]" using no by (metis in_set_dropD list.set_intros(1))
    ultimately show ?thesis
      using 3 no by (cases ns rule: rev_cases) (auto simp: b64_padding_def unpadded_def)
  qed
qed

lemma filter_padding: "filter (\<lambda>c. \<not> ascii_space c) (b64_padding n) = b64_padding n"
  by (simp add: b64_padding_def ascii_space_def)

lemma atob_units:
  assumes "list_all (\<lambda>n. n < 64) ns" "length ns mod 4 \<noteq> 1"
  shows "atob (map b64_unit ns @ b64_padding (length ns)) = Some (of_sextets ns)"
  using assms decoded_sextets [OF assms(1)]
  by (simp add: atob_def filter_units filter_padding unpadded_units del: map_map)

lemma atob_btoa: "atob (btoa bs) = Some bs"
  unfolding btoa_def by (subst atob_units) (simp_all add: to_sextets_small to_sextets_length [simplified] of_to_sextets)


section \<open>Base64 in URLs and tokens\<close>

definition url_unit :: "unit16 \<Rightarrow> unit16" where
  "url_unit c = (if c = 43 then 45 else if c = 47 then 95 else c)"

definition plain_unit :: "unit16 \<Rightarrow> unit16" where
  "plain_unit c = (if c = 45 then 43 else if c = 95 then 47 else c)"

definition base64urlEncode :: "bytes \<Rightarrow> jstr" where
  "base64urlEncode bs = rev (dropWhile (\<lambda>c. c = 61) (rev (map url_unit (btoa bs))))"

definition base64urlDecode :: "jstr \<Rightarrow> bytes option" where
  "base64urlDecode value' = atob (map plain_unit value' @ b64_padding (length value'))"

lemma url_units: "list_all (\<lambda>n. n < 64) ns \<Longrightarrow> map plain_unit (map url_unit (map b64_unit ns)) = map b64_unit ns"
  by (induction ns) (auto simp: url_unit_def plain_unit_def b64_unit_facts)

lemma encoded_units:
  "base64urlEncode bs = map url_unit (map b64_unit (to_sextets bs))"
proof -
  let ?u = "map url_unit (map b64_unit (to_sextets bs))"
  have "61 \<notin> set ?u"
    using no_padding_inside [OF to_sextets_small [of bs]] by (auto simp: url_unit_def split: if_splits)
  then have inner: "dropWhile (\<lambda>c. c = 61) (rev ?u) = rev ?u"
    by (metis (mono_tags, lifting) dropWhile_eq_self_iff hd_in_set set_rev)
  have pad: "map url_unit (b64_padding n) = b64_padding n" for n
    by (simp add: b64_padding_def url_unit_def)
  have "dropWhile (\<lambda>c. c = 61) (rev (b64_padding n) @ xs) = dropWhile (\<lambda>c. c = 61) xs" for n and xs :: jstr
    by (rule dropWhile_append2) (auto simp: b64_padding_def)
  then show ?thesis
    using inner by (simp add: base64urlEncode_def btoa_def pad)
qed

lemma base64url_roundtrip: "base64urlDecode (base64urlEncode bs) = Some bs"
proof -
  have "base64urlDecode (base64urlEncode bs) = atob (map b64_unit (to_sextets bs) @ b64_padding (length (to_sextets bs)))"
    unfolding base64urlDecode_def encoded_units url_units [OF to_sextets_small] by simp
  also have "\<dots> = Some bs" by (subst atob_units) (simp_all add: to_sextets_small to_sextets_length [simplified] of_to_sextets)
  finally show ?thesis .
qed

lemma encoded_without_dot: "46 \<notin> set (base64urlEncode bs)"
proof
  assume "46 \<in> set (base64urlEncode bs)"
  then obtain n where "n \<in> set (to_sextets bs)" "url_unit (b64_unit n) = 46" by (auto simp: encoded_units)
  moreover have "n < 64" using calculation(1) to_sextets_small [of bs] by (simp add: list_all_iff)
  ultimately show False by (auto simp: url_unit_def b64_unit_facts split: if_splits)
qed

section \<open>Hexadecimal\<close>

definition hex_unit :: "nat \<Rightarrow> unit16" where
  "hex_unit n = (if n < 10 then of_nat (48 + n) else of_nat (87 + n))"

definition hex_value :: "unit16 \<Rightarrow> nat" where
  "hex_value c = (if is_digit c then unat c - 48 else unat c - 87)"

definition bytesToHex :: "bytes \<Rightarrow> jstr" where
  "bytesToHex bs = concat (map (\<lambda>b. [hex_unit (unat b div 16), hex_unit (unat b mod 16)]) bs)"

text \<open>Of digits in pairs: \<open>hmacVerify\<close> tests its text first.\<close>

fun hexToBytes :: "jstr \<Rightarrow> bytes" where
  "hexToBytes (x # y # rest) = of_nat (hex_value x * 16 + hex_value y) # hexToBytes rest"
| "hexToBytes _ = []"

definition is_hex :: "unit16 \<Rightarrow> bool" where
  "is_hex c \<longleftrightarrow> is_digit c \<or> (97 \<le> c \<and> c \<le> 102)"

lemma hex_unit_facts:
  assumes "n < 16"
  shows "hex_value (hex_unit n) = n" "is_hex (hex_unit n)"
  using assms by (auto simp: hex_value_def hex_unit_def is_hex_def unit_by_code unit_code word_le_nat_alt simp del: of_nat_add)

lemma hex_roundtrip: "hexToBytes (bytesToHex bs) = bs"
proof (induction bs)
  case (Cons b bs)
  have "unat b div 16 < 16" "unat b mod 16 < 16" using byte_bound [of b] by auto
  then show ?case using Cons by (simp add: bytesToHex_def hex_unit_facts)
qed (simp add: bytesToHex_def)

lemma hex_shape: "length (bytesToHex bs) = 2 * length bs" "list_all is_hex (bytesToHex bs)"
proof -
  show "length (bytesToHex bs) = 2 * length bs" by (induction bs) (simp_all add: bytesToHex_def)
  have "unat b div 16 < 16" for b :: "8 word" using byte_bound [of b] by auto
  then show "list_all is_hex (bytesToHex bs)" by (induction bs) (simp_all add: bytesToHex_def hex_unit_facts)
qed

end
