(* ===== verification/Utf8.thy ===== *)
theory Utf8
  imports Encoding
begin

text \<open>
  \<open>TextEncoder\<close> and \<open>TextDecoder\<close>, as the WHATWG standard has them: a lone surrogate is written as U+FFFD,
  a malformed sequence is read as U+FFFD, and a byte order mark in front is dropped. Decoding gives
  well-formed text back.
\<close>

section \<open>Encoding\<close>

definition lone_surrogate :: "unit16 \<Rightarrow> bool" where
  "lone_surrogate c \<longleftrightarrow> is_high_surrogate c \<or> is_low_surrogate c"

fun code_point :: "jstr \<Rightarrow> nat" where
  "code_point [a] = (if lone_surrogate a then 65533 else unat a)"
| "code_point [a, b] = 65536 + (unat a - 55296) * 1024 + (unat b - 56320)"
| "code_point _ = 0"

definition utf8_bytes :: "nat \<Rightarrow> bytes" where
  "utf8_bytes n = map of_nat
     (if n < 128 then [n]
      else if n < 2048 then [192 + n div 64, 128 + n mod 64]
      else if n < 65536 then [224 + n div 4096, 128 + n div 64 mod 64, 128 + n mod 64]
      else [240 + n div 262144, 128 + n div 4096 mod 64, 128 + n div 64 mod 64, 128 + n mod 64])"

definition utf8_encode :: "jstr \<Rightarrow> bytes" where
  "utf8_encode s = concat (map (\<lambda>r. utf8_bytes (code_point r)) (runes s))"


section \<open>Decoding\<close>

text \<open>A sequence that is being read: bytes still needed, the bounds of the next one, the bits so far.\<close>

record pending =
  pe_needed :: nat
  pe_lower :: nat
  pe_upper :: nat
  pe_bits :: nat

definition point_units :: "nat \<Rightarrow> jstr" where
  "point_units n = (if n < 65536 then [of_nat n]
     else [of_nat (55296 + (n - 65536) div 1024), of_nat (56320 + (n - 65536) mod 1024)])"

datatype started = Whole jstr | More pending

definition utf8_start :: "nat \<Rightarrow> started" where
  "utf8_start b =
     (if b < 128 then Whole [of_nat b]
      else if 194 \<le> b \<and> b \<le> 223 then More \<lparr>pe_needed = 1, pe_lower = 128, pe_upper = 191, pe_bits = b - 192\<rparr>
      else if 224 \<le> b \<and> b \<le> 239 then More \<lparr>pe_needed = 2, pe_lower = if b = 224 then 160 else 128,
          pe_upper = if b = 237 then 159 else 191, pe_bits = b - 224\<rparr>
      else if 240 \<le> b \<and> b \<le> 244 then More \<lparr>pe_needed = 3, pe_lower = if b = 240 then 144 else 128,
          pe_upper = if b = 244 then 143 else 191, pe_bits = b - 240\<rparr>
      else Whole [65533])"

text \<open>A byte that does not belong to the sequence ends it and is looked at again.\<close>

fun utf8_run :: "pending option \<Rightarrow> bytes \<Rightarrow> jstr" where
  "utf8_run None [] = []"
| "utf8_run (Some p) [] = [65533]"
| "utf8_run None (b # bs) =
     (case utf8_start (unat b) of Whole u \<Rightarrow> u @ utf8_run None bs | More p \<Rightarrow> utf8_run (Some p) bs)"
| "utf8_run (Some p) (b # bs) =
     (if pe_lower p \<le> unat b \<and> unat b \<le> pe_upper p
      then let bits = pe_bits p * 64 + (unat b - 128) in
        if pe_needed p = 1 then point_units bits @ utf8_run None bs
        else utf8_run (Some \<lparr>pe_needed = pe_needed p - 1, pe_lower = 128, pe_upper = 191, pe_bits = bits\<rparr>) bs
      else 65533 # (case utf8_start (unat b) of Whole u \<Rightarrow> u @ utf8_run None bs | More q \<Rightarrow> utf8_run (Some q) bs))"

definition utf8_decode :: "bytes \<Rightarrow> jstr" where
  "utf8_decode bs = utf8_run None (if take 3 bs = [239, 187, 191] then drop 3 bs else bs)"


section \<open>Well-formed text comes back\<close>

definition scalar :: "nat \<Rightarrow> bool" where
  "scalar n \<longleftrightarrow> n < 1114112 \<and> \<not> (55296 \<le> n \<and> n < 57344)"

lemma unat_byte: "n < 256 \<Longrightarrow> unat (of_nat n :: 8 word) = n"
  by (simp add: unat_of_nat take_bit_nat_eq_self)

lemma continuation: "128 + n mod 64 < 256" "128 + n mod 64 \<le> 191" for n :: nat
  using mod_less_divisor [of 64 n] by simp_all

lemma bits_2: "n div 64 * 64 + n mod 64 = n" for n :: nat
  by simp

lemma bits_3: "(n div 4096 * 64 + n div 64 mod 64) * 64 + n mod 64 = n" for n :: nat
proof -
  have "n div 4096 = n div 64 div 64" by (simp add: div_mult2_eq [symmetric])
  then show ?thesis by simp
qed

lemma bits_4: "((n div 262144 * 64 + n div 4096 mod 64) * 64 + n div 64 mod 64) * 64 + n mod 64 = n" for n :: nat
proof -
  have "n div 4096 = n div 64 div 64" "n div 262144 = n div 64 div 64 div 64" by (simp_all add: div_mult2_eq [symmetric])
  then show ?thesis by simp
qed

lemma second_byte:
  assumes "scalar n"
  shows "2048 \<le> n \<Longrightarrow> n < 65536 \<Longrightarrow> n div 4096 = 0 \<Longrightarrow> 32 \<le> n div 64 mod 64"
    and "n < 65536 \<Longrightarrow> n div 4096 = 13 \<Longrightarrow> n div 64 mod 64 \<le> 31"
    and "65536 \<le> n \<Longrightarrow> n div 262144 = 0 \<Longrightarrow> 16 \<le> n div 4096 mod 64"
    and "n div 262144 = 4 \<Longrightarrow> n div 4096 mod 64 \<le> 15"
proof -
  have parts: "n div 64 = n div 4096 * 64 + n div 64 mod 64" "n div 4096 = n div 262144 * 64 + n div 4096 mod 64"
    using div_mult_mod_eq [of "n div 64" 64] div_mult_mod_eq [of "n div 4096" 64]
    by (simp_all add: div_mult2_eq [symmetric])
  show "2048 \<le> n \<Longrightarrow> n < 65536 \<Longrightarrow> n div 4096 = 0 \<Longrightarrow> 32 \<le> n div 64 mod 64"
    using parts(1) div_le_mono [of 2048 n 64] by simp
  show "n div 4096 = 13 \<Longrightarrow> n div 64 mod 64 \<le> 31" if "n < 65536"
  proof -
    assume n: "n div 4096 = 13"
    have "n < 14 * 4096" using n div_less_iff_less_mult [of 4096 n 14] by simp
    then have "n \<le> 55295" using assms by (simp add: scalar_def)
    then show ?thesis using parts(1) n div_le_mono [of n 55295 64] by simp
  qed
  show "65536 \<le> n \<Longrightarrow> n div 262144 = 0 \<Longrightarrow> 16 \<le> n div 4096 mod 64"
    using parts(2) div_le_mono [of 65536 n 4096] by simp
  show "n div 262144 = 4 \<Longrightarrow> n div 4096 mod 64 \<le> 15"
    using parts(2) assms div_le_mono [of n 1114111 4096] by (simp add: scalar_def)
qed

lemma run_three:
  assumes "scalar n" "2048 \<le> n" "n < 65536"
  shows "utf8_run None (map of_nat [224 + n div 4096, 128 + n div 64 mod 64, 128 + n mod 64] @ bs) = [of_nat n] @ utf8_run None bs"
proof -
  have top: "n div 4096 < 16" using assms(3) by simp
  note second = second_byte(1,2) [OF assms(1)]
  show ?thesis
    using top second assms continuation [of "n div 64"] continuation [of n] bits_3 [of n]
    by (auto simp: utf8_start_def unat_byte Let_def point_units_def simp del: of_nat_add split: if_splits)
qed

lemma run_point:
  assumes "scalar n"
  shows "utf8_run None (utf8_bytes n @ bs) = point_units n @ utf8_run None bs"
proof -
  consider (one) "n < 128" | (two) "128 \<le> n" "n < 2048" | (three) "2048 \<le> n" "n < 65536" | (four) "65536 \<le> n" by linarith
  then show ?thesis
  proof cases
    case one
    then show ?thesis by (simp add: utf8_bytes_def utf8_start_def unat_byte point_units_def)
  next
    case two
    then have "n div 64 < 32" "2 \<le> n div 64" using div_le_mono [of 128 n 64] by simp_all
    then show ?thesis
      using two continuation [of n] bits_2 [of n]
      by (auto simp: utf8_bytes_def utf8_start_def unat_byte Let_def point_units_def simp del: of_nat_add)
  next
    case three
    then show ?thesis using run_three [OF assms, of bs] by (simp add: utf8_bytes_def point_units_def)
  next
    case four
    have top: "n div 262144 \<le> 4" using assms div_le_mono [of n 1114111 262144] by (simp add: scalar_def)
    note second = second_byte(3,4) [OF assms]
    show ?thesis
      using top second four continuation [of "n div 4096"] continuation [of "n div 64"] continuation [of n] bits_4 [of n]
      by (auto simp: utf8_bytes_def utf8_start_def unat_byte Let_def simp del: of_nat_add split: if_splits)
  qed
qed

text \<open>Text without lone surrogates.\<close>

definition well_formed :: "jstr \<Rightarrow> bool" where
  "well_formed s \<longleftrightarrow> list_all (\<lambda>r. \<forall>a. r = [a] \<longrightarrow> \<not> lone_surrogate a) (runes s)"

lemma rune_cases:
  assumes "r \<in> set (runes s)"
  obtains a where "r = [a]" | a b where "r = [a, b]" "is_high_surrogate a" "is_low_surrogate b"
  using assms by (induction s rule: runes.induct) (auto split: if_splits)

lemma unit_bound: "unat (a :: unit16) < 65536"
  by (rule order_less_le_trans [OF unsigned_less]) simp

lemma surrogate_codes:
  "is_high_surrogate a \<longleftrightarrow> 55296 \<le> unat a \<and> unat a \<le> 56319" "is_low_surrogate a \<longleftrightarrow> 56320 \<le> unat a \<and> unat a \<le> 57343"
  by (simp_all add: is_high_surrogate_def is_low_surrogate_def word_le_nat_alt)

lemma rune_point:
  assumes "r \<in> set (runes s)" "\<forall>a. r = [a] \<longrightarrow> \<not> lone_surrogate a"
  shows "scalar (code_point r)" "point_units (code_point r) = r"
proof -
  show "scalar (code_point r)"
    using assms(1)
  proof (rule rune_cases)
    fix a assume "r = [a]"
    then show ?thesis using assms(2) unit_bound [of a] by (auto simp: scalar_def lone_surrogate_def surrogate_codes)
  qed (auto simp: scalar_def surrogate_codes)
  show "point_units (code_point r) = r"
    using assms(1)
  proof (rule rune_cases)
    fix a b assume r: "r = [a, b]" "is_high_surrogate a" "is_low_surrogate b"
    let ?h = "unat a - 55296" and ?l = "unat b - 56320"
    have "?l < 1024" using r(3) unfolding surrogate_codes by linarith
    then have "(?h * 1024 + ?l) div 1024 = ?h" "(?h * 1024 + ?l) mod 1024 = ?l" by simp_all
    moreover have "55296 + ?h = unat a" "56320 + ?l = unat b" using r by (simp_all add: surrogate_codes)
    ultimately show ?thesis using r(1) by (simp add: point_units_def del: of_nat_add) 
  next
    fix a assume r: "r = [a]"
    then show ?thesis using assms(2) unit_bound [of a] by (simp add: point_units_def)
  qed
qed

lemma run_runes:
  "list_all (\<lambda>r. scalar (code_point r) \<and> point_units (code_point r) = r) rs \<Longrightarrow>
   utf8_run None (concat (map (\<lambda>r. utf8_bytes (code_point r)) rs)) = concat rs"
  by (induction rs) (simp_all add: run_point)

lemma bytes_no_mark:
  assumes "scalar n" "n \<noteq> 65279"
  shows "take 3 (utf8_bytes n @ bs) \<noteq> [239, 187, 191]"
proof
  assume mark: "take 3 (utf8_bytes n @ bs) = [239, 187, 191]"
  consider (one) "n < 128" | (two) "128 \<le> n" "n < 2048" | (three) "2048 \<le> n" "n < 65536" | (four) "65536 \<le> n" by linarith
  then show False
  proof cases
    case one
    then show False using mark by (auto simp: utf8_bytes_def word_unat_eq_iff unat_byte simp del: of_nat_add)
  next
    case two
    then have "n div 64 < 32" by simp
    then show False using two mark by (auto simp: utf8_bytes_def word_unat_eq_iff unat_byte simp del: of_nat_add)
  next
    case three
    then have "n div 4096 < 16" by simp
    then have "n div 4096 = 15" "n div 64 mod 64 = 59" "n mod 64 = 63"
      using three mark continuation [of "n div 64"] continuation [of n]
      by (auto simp: utf8_bytes_def word_unat_eq_iff unat_byte simp del: of_nat_add)
    then have "n = 65279" using bits_3 [of n] by simp
    with assms(2) show False by blast
  next
    case four
    have "n div 262144 \<le> 4" using assms(1) div_le_mono [of n 1114111 262144] by (simp add: scalar_def)
    then show False using four mark by (auto simp: utf8_bytes_def word_unat_eq_iff unat_byte simp del: of_nat_add)
  qed
qed

lemma point_of_mark: "r \<in> set (runes s) \<Longrightarrow> code_point r = 65279 \<Longrightarrow> r = [0xFEFF]"
  by (rule rune_cases [of r s]) (auto simp: word_unat_eq_iff split: if_splits)

lemma utf8_roundtrip:
  assumes "well_formed s" "take 1 s \<noteq> [0xFEFF]"
  shows "utf8_decode (utf8_encode s) = s"
proof -
  have runes: "list_all (\<lambda>r. scalar (code_point r) \<and> point_units (code_point r) = r) (runes s)"
    using assms(1) rune_point [of _ s] by (simp add: well_formed_def list_all_iff)
  have "take 3 (utf8_encode s) \<noteq> [239, 187, 191]"
  proof (cases "runes s")
    case Nil
    then show ?thesis by (simp add: utf8_encode_def)
  next
    case (Cons r rs)
    have "code_point r \<noteq> 65279"
    proof
      assume "code_point r = 65279"
      then have "r = [0xFEFF]" using point_of_mark [of r s] Cons by simp
      moreover have "s = r @ concat rs" using concat_runes [of s] Cons by simp
      ultimately show False using assms(2) by simp
    qed
    then show ?thesis using bytes_no_mark [of "code_point r"] runes Cons by (simp add: utf8_encode_def)
  qed
  then show ?thesis using run_runes [OF runes] by (simp add: utf8_decode_def utf8_encode_def)
qed

lemma encoded_length: "length (utf8_encode s) = utf8_length s"
proof -
  have plain: "length (utf8_bytes (code_point [a])) = (if a < 0x80 then 1 else if a < 0x800 then 2 else 3)" for a
    using unit_bound [of a]
    by (auto simp: utf8_bytes_def lone_surrogate_def surrogate_codes word_less_nat_alt)
  have pair: "length (utf8_bytes (code_point [a, b])) = 4" for a b by (simp add: utf8_bytes_def)
  show ?thesis
    unfolding utf8_encode_def
    by (induction s rule: utf8_length.induct) (simp_all add: plain pair del: code_point.simps)
qed

text \<open>The text of ASCII is well formed.\<close>

lemma ascii_runes: "list_all (\<lambda>c. c < 128) s \<Longrightarrow> runes s = map (\<lambda>c. [c]) s"
  by (rule runes_plain) (auto simp: list_all_iff surrogate_codes word_less_nat_alt)

lemma ascii_well_formed: "list_all (\<lambda>c. c < 128) s \<Longrightarrow> well_formed s \<and> take 1 s \<noteq> [0xFEFF]"
  by (cases s) (auto simp: well_formed_def ascii_runes list_all_iff lone_surrogate_def surrogate_codes word_less_nat_alt)

end
