(* ===== verification/Tokens.thy ===== *)
theory Tokens
  imports Utf8 Wire Addr
begin

text \<open>
  \<^verbatim>\<open>src/lib/transit/crypto.ts\<close>, \<^verbatim>\<open>src/lib/transit/jwt.ts\<close> and \<^verbatim>\<open>src/mcp/agent-token.ts\<close>: sealed secrets,
  signatures, and the tokens that agents present. The primitives of WebCrypto (HMAC, SHA-256, AES-GCM) and
  \<open>JSON\<close> are arguments; what is put through them, and everything around them, is the model's.
\<close>

record crypto =
  cy_mac :: "bytes \<Rightarrow> bytes \<Rightarrow> bytes"
  cy_sha :: "bytes \<Rightarrow> bytes"
  cy_encrypt :: "bytes \<Rightarrow> bytes \<Rightarrow> bytes \<Rightarrow> bytes"
  cy_decrypt :: "bytes \<Rightarrow> bytes \<Rightarrow> bytes \<Rightarrow> jstr + bytes"
  cy_stringify :: "json_object \<Rightarrow> jstr"
  cy_parse :: "jstr \<Rightarrow> json option"


section \<open>Secrets\<close>

definition MASTER_KEY_BYTES :: nat where "MASTER_KEY_BYTES = 32"
definition GCM_IV_BYTES :: nat where "GCM_IV_BYTES = 12"

definition base64ToBytes :: "jstr \<Rightarrow> jstr + bytes" where
  "base64ToBytes value' = (case atob value' of
     None \<Rightarrow> Inl (js ''invalid base64 secret material'') | Some bs \<Rightarrow> Inr bs)"

definition importMasterKey :: "jstr \<Rightarrow> jstr + bytes" where
  "importMasterKey masterKey =
     rbind (base64ToBytes masterKey) (\<lambda>raw.
       if length raw \<noteq> MASTER_KEY_BYTES then Inl (js ''TRANSIT_MASTER_KEY must be base64 for exactly 32 bytes'')
       else Inr raw)"

text \<open>\<open>iv\<close> are the random bytes.\<close>

definition sealSecret :: "crypto \<Rightarrow> bytes \<Rightarrow> jstr \<Rightarrow> jstr \<Rightarrow> jstr + jstr" where
  "sealSecret cy iv value' masterKey =
     rbind (importMasterKey masterKey) (\<lambda>key.
       Inr (js ''v1.'' @ btoa iv @ js ''.'' @ btoa (cy_encrypt cy key iv (utf8_encode value'))))"

definition openSecret :: "crypto \<Rightarrow> jstr \<Rightarrow> jstr \<Rightarrow> jstr + jstr" where
  "openSecret cy envelope masterKey =
     (case split_on 46 envelope of
        [version, ivEncoded, ciphertextEncoded] \<Rightarrow>
          if version \<noteq> js ''v1'' \<or> ivEncoded = [] \<or> ciphertextEncoded = []
          then Inl (js ''invalid sealed secret envelope'')
          else rbind (base64ToBytes ivEncoded) (\<lambda>iv.
            if length iv \<noteq> GCM_IV_BYTES then Inl (js ''invalid sealed secret IV'')
            else rbind (importMasterKey masterKey) (\<lambda>key.
              rbind (base64ToBytes ciphertextEncoded) (\<lambda>ciphertext.
              rbind (cy_decrypt cy key iv ciphertext) (\<lambda>plaintext. Inr (utf8_decode plaintext)))))
      | _ \<Rightarrow> Inl (js ''invalid sealed secret envelope''))"

definition hmacSign :: "crypto \<Rightarrow> bytes \<Rightarrow> bytes \<Rightarrow> jstr" where
  "hmacSign cy secret value' = bytesToHex (cy_mac cy secret value')"

definition HEX_64 :: "jstr \<Rightarrow> bool" where
  "HEX_64 s \<longleftrightarrow> length s = 64 \<and> list_all is_hex s"

definition hmacVerify :: "crypto \<Rightarrow> bytes \<Rightarrow> bytes \<Rightarrow> jstr \<Rightarrow> bool" where
  "hmacVerify cy secret value' expectedHex \<longleftrightarrow>
     HEX_64 expectedHex \<and> cy_mac cy secret value' = hexToBytes expectedHex"

definition sha256hex :: "crypto \<Rightarrow> jstr \<Rightarrow> jstr" where
  "sha256hex cy value' = bytesToHex (cy_sha cy (utf8_encode value'))"


section \<open>JSON web tokens\<close>

definition JWT_HEADER :: jstr where
  "JWT_HEADER = js (''{'' @ [CHR 0x22] @ ''alg'' @ [CHR 0x22] @ '':'' @ [CHR 0x22] @ ''HS256'' @ [CHR 0x22] @ '','' @ [CHR 0x22] @
     ''typ'' @ [CHR 0x22] @ '':'' @ [CHR 0x22] @ ''JWT'' @ [CHR 0x22] @ ''}'')"

definition signJwt :: "crypto \<Rightarrow> json_object \<Rightarrow> jstr \<Rightarrow> jstr" where
  "signJwt cy claims secret =
     (let signed = base64urlEncode (utf8_encode JWT_HEADER) @ js ''.'' @
            base64urlEncode (utf8_encode (cy_stringify cy claims))
      in signed @ js ''.'' @ base64urlEncode (cy_mac cy (utf8_encode secret) (utf8_encode signed)))"

definition looksLikeJwt :: "jstr \<Rightarrow> bool" where
  "looksLikeJwt token \<longleftrightarrow> length (split_on 46 token) = 3"

text \<open>\<open>now\<close> and \<open>leeway\<close> in seconds; a number of JSON can be infinite.\<close>

definition not_expired :: "int \<Rightarrow> int \<Rightarrow> json option \<Rightarrow> bool" where
  "not_expired now leeway v =
     (case v of Some (JNum q) \<Rightarrow> of_int now \<le> q + of_int leeway | Some (JInfinite positive) \<Rightarrow> positive | _ \<Rightarrow> False)"

definition not_early :: "int \<Rightarrow> int \<Rightarrow> json option \<Rightarrow> bool" where
  "not_early now leeway v =
     (case v of Some (JNum q) \<Rightarrow> q - of_int leeway \<le> of_int now | Some (JInfinite positive) \<Rightarrow> \<not> positive | _ \<Rightarrow> True)"

definition verifyJwt :: "crypto \<Rightarrow> jstr \<Rightarrow> jstr \<Rightarrow> int \<Rightarrow> int \<Rightarrow> json_object option" where
  "verifyJwt cy token secret now_ms leeway =
     (case split_on 46 token of
        [header, payload, signature] \<Rightarrow>
          (case base64urlDecode signature of None \<Rightarrow> None
           | Some given \<Rightarrow>
               if cy_mac cy (utf8_encode secret) (utf8_encode (header @ js ''.'' @ payload)) \<noteq> given then None
               else (case Option.bind (base64urlDecode payload) (\<lambda>bs. cy_parse cy (utf8_decode bs)) of
                   Some (JObj claims) \<Rightarrow>
                     let now = now_ms div 1000 in
                     if not_expired now leeway (map_of claims (js ''exp'')) \<and> not_early now leeway (map_of claims (js ''iat''))
                     then Some claims else None
                 | _ \<Rightarrow> None))
      | _ \<Rightarrow> None)"


section \<open>Tokens of agents\<close>

definition AGENT_TOKEN_TTL_SECONDS :: int where "AGENT_TOKEN_TTL_SECONDS = 3600"
definition AUDIENCE :: jstr where "AUDIENCE = js ''transit-mcp''"
definition SUBJECT_PREFIX :: jstr where "SUBJECT_PREFIX = js ''agent:''"

text \<open>The secret of the deployment, and its URL.\<close>

record token_env =
  tk_crypto :: crypto
  tk_secret :: jstr
  tk_url :: jstr

definition signingSecret :: "token_env \<Rightarrow> jstr" where
  "signingSecret env = hmacSign (tk_crypto env) (utf8_encode (tk_secret env)) (utf8_encode (js ''transit-agent-token/1''))"

record agent_token_grant =
  ag_clientId :: jstr
  ag_org :: jstr
  ag_host :: jstr
  ag_name :: jstr

definition agent_claims :: "token_env \<Rightarrow> agent_token_grant \<Rightarrow> int \<Rightarrow> json_object" where
  "agent_claims env g issuedAt =
     [(js ''iss'', JStr (tk_url env)), (js ''aud'', JStr AUDIENCE), (js ''sub'', JStr (SUBJECT_PREFIX @ ag_clientId g)),
      (js ''org'', JStr (ag_org g)), (js ''host'', JStr (ag_host g)), (js ''name'', JStr (ag_name g)),
      (js ''iat'', JNum (of_int issuedAt)), (js ''exp'', JNum (of_int (issuedAt + AGENT_TOKEN_TTL_SECONDS)))]"

definition mintAgentToken :: "token_env \<Rightarrow> agent_token_grant \<Rightarrow> int \<Rightarrow> jstr \<times> int" where
  "mintAgentToken env g now =
     (signJwt (tk_crypto env) (agent_claims env g (now div 1000)) (signingSecret env), AGENT_TOKEN_TTL_SECONDS)"

definition agentTokenSubject :: "token_env \<Rightarrow> jstr \<Rightarrow> int \<Rightarrow> jstr option" where
  "agentTokenSubject env token now =
     (case verifyJwt (tk_crypto env) token (signingSecret env) now 60 of
        None \<Rightarrow> None
      | Some claims \<Rightarrow>
          if map_of claims (js ''aud'') \<noteq> Some (JStr AUDIENCE) then None
          else (case map_of claims (js ''sub'') of
              Some (JStr sub) \<Rightarrow>
                if starts_with sub SUBJECT_PREFIX then truthy (Some (drop (length SUBJECT_PREFIX) sub)) else None
            | _ \<Rightarrow> None))"


section \<open>Encodings\<close>

definition decodable :: "jstr \<Rightarrow> bool" where
  "decodable s \<longleftrightarrow> well_formed s \<and> take 1 s \<noteq> [0xFEFF]"

interpretation base64: encoding "\<lambda>_. True" btoa atob
  by unfold_locales (simp add: atob_btoa)

interpretation base64url: encoding "\<lambda>_. True" base64urlEncode base64urlDecode
  by unfold_locales (simp add: base64url_roundtrip)

interpretation utf8: encoding decodable utf8_encode "\<lambda>bs. Some (utf8_decode bs)"
  by unfold_locales (simp add: decodable_def utf8_roundtrip)

interpretation hex: encoding "\<lambda>_. True" bytesToHex "\<lambda>s. Some (hexToBytes s)"
  by unfold_locales (simp add: hex_roundtrip)

lemma dot_texts: "46 \<notin> set (btoa bs)" "46 \<notin> set (js ''v1'')" "js ''.'' = [46]"
proof -
  show "46 \<notin> set (btoa bs)"
  proof
    assume "46 \<in> set (btoa bs)"
    then obtain n where n: "n \<in> set (to_sextets bs)" "b64_unit n = 46"
      by (auto simp: btoa_def b64_padding_def)
    then have "n < 64" using to_sextets_small [of bs] by (simp add: list_all_iff)
    with n(2) show False by (simp add: b64_unit_facts)
  qed
qed (simp_all add: js_def)

lemma split_three:
  "46 \<notin> set a \<Longrightarrow> 46 \<notin> set b \<Longrightarrow> 46 \<notin> set c \<Longrightarrow> split_on 46 (a @ [46] @ b @ [46] @ c) = [a, b, c]"
  by (simp add: split_on_append_sep split_on_no_sep)

lemma btoa_empty: "btoa bs = [] \<longleftrightarrow> bs = []"
  by (cases bs rule: to_sextets.cases) (simp_all add: btoa_def b64_padding_def)


section \<open>Properties\<close>

text \<open>The text that is left of a string by way of UTF-8: a lone surrogate comes back as U+FFFD.\<close>

definition scalar_text :: "jstr \<Rightarrow> jstr" where
  "scalar_text s = concat (map (\<lambda>r. case r of [a] \<Rightarrow> [if lone_surrogate a then 0xFFFD else a] | _ \<Rightarrow> r) (runes s))"

lemma scalar_text_well_formed: "well_formed s \<Longrightarrow> scalar_text s = s"
proof -
  assume "well_formed s"
  then have "map (\<lambda>r. case r of [a] \<Rightarrow> [if lone_surrogate a then 0xFFFD else a] | _ \<Rightarrow> r) (runes s) = runes s"
    by (auto simp: well_formed_def list_all_iff split: list.splits intro!: map_idI)
  then show ?thesis by (simp add: scalar_text_def)
qed

lemma scalar_rune:
  assumes "r \<in> set (runes s)"
  shows "scalar (code_point r)"
    and "point_units (code_point r) = (case r of [a] \<Rightarrow> [if lone_surrogate a then 0xFFFD else a] | _ \<Rightarrow> r)"
proof -
  have "scalar (code_point r) \<and> point_units (code_point r) = (case r of [a] \<Rightarrow> [if lone_surrogate a then 0xFFFD else a] | _ \<Rightarrow> r)"
  proof (cases "\<exists>a. r = [a] \<and> lone_surrogate a")
    case True
    then show ?thesis by (auto simp: scalar_def point_units_def)
  next
    case False
    then show ?thesis
      using rune_point [OF assms] by (auto split: list.splits)
  qed
  then show "scalar (code_point r)"
    and "point_units (code_point r) = (case r of [a] \<Rightarrow> [if lone_surrogate a then 0xFFFD else a] | _ \<Rightarrow> r)" by simp_all
qed

lemma run_scalars:
  "list_all (\<lambda>r. scalar (code_point r)) rs \<Longrightarrow>
   utf8_run None (concat (map (\<lambda>r. utf8_bytes (code_point r)) rs)) = concat (map (\<lambda>r. point_units (code_point r)) rs)"
  by (induction rs) (simp_all add: run_point)

text \<open>And a byte order mark in front is dropped.\<close>

lemma decode_encode:
  "utf8_decode (utf8_encode s) = (if take 1 (scalar_text s) = [0xFEFF] then drop 1 (scalar_text s) else scalar_text s)"
proof -
  have units: "map (\<lambda>r. point_units (code_point r)) (runes s) =
      map (\<lambda>r. case r of [a] \<Rightarrow> [if lone_surrogate a then 0xFFFD else a] | _ \<Rightarrow> r) (runes s)"
    using scalar_rune(2) by (intro map_cong) auto
  have all: "list_all (\<lambda>r. scalar (code_point r)) (runes s)" using scalar_rune(1) by (simp add: list_all_iff)
  have text': "scalar_text s = concat (map (\<lambda>r. point_units (code_point r)) (runes s))" by (simp add: scalar_text_def units)
  show ?thesis
  proof (cases "runes s")
    case Nil
    then show ?thesis by (simp add: utf8_encode_def utf8_decode_def scalar_text_def)
  next
    case (Cons r rs)
    then have r: "r \<in> set (runes s)" by simp
    have rest: "utf8_run None (concat (map (\<lambda>r. utf8_bytes (code_point r)) rs)) = concat (map (\<lambda>r. point_units (code_point r)) rs)"
      using run_scalars all Cons by simp
    show ?thesis
    proof (cases "code_point r = 65279")
      case True
      have "utf8_bytes 65279 = [239, 187, 191]" "point_units 65279 = [0xFEFF]" by (simp_all add: utf8_bytes_def point_units_def)
      then show ?thesis unfolding text' utf8_encode_def Cons by (simp add: True utf8_decode_def rest)
    next
      case False
      have "take 1 (point_units (code_point r) @ u) \<noteq> [0xFEFF]" for u
        using r by (rule rune_cases) (use False scalar_rune(2) [OF r] in \<open>auto simp: word_unat_eq_iff surrogate_codes split: if_splits\<close>)
      moreover have "take 3 (utf8_bytes (code_point r) @ u) \<noteq> [239, 187, 191]" for u
        using bytes_no_mark [OF scalar_rune(1) [OF r] False] .
      ultimately show ?thesis
        using run_scalars [OF all] unfolding text' utf8_encode_def utf8_decode_def Cons by simp
    qed
  qed
qed

text \<open>
  C31: a sealed secret opens, under the same key and whatever the random bytes were, to what was sealed,
  but for what UTF-8 cannot carry: a lone surrogate opens as U+FFFD, and a byte order mark in front
  is lost. A value that has neither opens to itself.
\<close>
theorem sealed_secret_opens:
  assumes "importMasterKey masterKey = Inr key" and "length iv = 12"
    and "cy_decrypt cy key iv (cy_encrypt cy key iv (utf8_encode value')) = Inr (utf8_encode value')"
    and "cy_encrypt cy key iv (utf8_encode value') \<noteq> []"
  shows "\<exists>sealed opened. sealSecret cy iv value' masterKey = Inr sealed \<and> openSecret cy sealed masterKey = Inr opened \<and>
    opened = (let text' = concat (map (\<lambda>r. case r of [a] \<Rightarrow> [if lone_surrogate a then 0xFFFD else a] | _ \<Rightarrow> r) (runes value'))
              in if take 1 text' = [0xFEFF] then drop 1 text' else text') \<and>
    (well_formed value' \<longrightarrow> take 1 value' \<noteq> [0xFEFF] \<longrightarrow> opened = value')"
proof -
  let ?ct = "cy_encrypt cy key iv (utf8_encode value')"
  have "split_on 46 (js ''v1.'' @ btoa iv @ js ''.'' @ btoa ?ct) = [js ''v1'', btoa iv, btoa ?ct]"
    using split_three [OF dot_texts(2) dot_texts(1) dot_texts(1), of iv ?ct] by (simp add: js_def)
  moreover have "iv \<noteq> []" using assms(2) by auto
  ultimately have "\<exists>sealed. sealSecret cy iv value' masterKey = Inr sealed \<and>
      openSecret cy sealed masterKey = Inr (utf8_decode (utf8_encode value'))"
    using assms by (simp add: sealSecret_def openSecret_def base64ToBytes_def btoa_empty base64.dec_enc GCM_IV_BYTES_def)
  moreover have "utf8_decode (utf8_encode value') = value'" if "well_formed value'" "take 1 value' \<noteq> [0xFEFF]"
    using that by (rule utf8_roundtrip)
  ultimately show ?thesis using decode_encode [of value'] by (auto simp: scalar_text_def Let_def)
qed

text \<open>What verification of a token that was signed here finds.\<close>

lemma verify_signed:
  assumes "cy_parse cy (cy_stringify cy claims) = Some (JObj claims)" "decodable (cy_stringify cy claims)"
  shows "verifyJwt cy (signJwt cy claims secret) secret now leeway =
    (if not_expired (now div 1000) leeway (map_of claims (js ''exp'')) \<and> not_early (now div 1000) leeway (map_of claims (js ''iat''))
     then Some claims else None)"
proof -
  let ?h = "base64urlEncode (utf8_encode JWT_HEADER)" and ?p = "base64urlEncode (utf8_encode (cy_stringify cy claims))"
  let ?s = "base64urlEncode (cy_mac cy (utf8_encode secret) (utf8_encode (?h @ [46] @ ?p)))"
  have "split_on 46 (signJwt cy claims secret) = [?h, ?p, ?s]"
    using split_three [OF encoded_without_dot encoded_without_dot encoded_without_dot]
    by (simp add: signJwt_def Let_def dot_texts(3))
  moreover have "Option.bind (base64urlDecode ?p) (\<lambda>bs. cy_parse cy (utf8_decode bs)) = Some (JObj claims)"
    using assms by (simp add: base64url.dec_enc utf8_roundtrip decodable_def)
  ultimately show ?thesis
    by (simp add: verifyJwt_def base64url.dec_enc dot_texts(3) Let_def)
qed

text \<open>The token of an agent names its client for its hour, with a minute's leeway on either side.\<close>

definition json_comes_back :: "crypto \<Rightarrow> json_object \<Rightarrow> bool" where
  "json_comes_back cy claims \<longleftrightarrow>
     cy_parse cy (cy_stringify cy claims) = Some (JObj claims) \<and> decodable (cy_stringify cy claims)"

lemma minted_subject:
  assumes "json_comes_back (tk_crypto env) (agent_claims env g (made div 1000))"
    and "ag_clientId g \<noteq> []"
  shows "agentTokenSubject env (fst (mintAgentToken env g made)) now =
    (if made div 1000 - 60 \<le> now div 1000 \<and> now div 1000 \<le> made div 1000 + 3660 then Some (ag_clientId g) else None)"
proof -
  let ?claims = "agent_claims env g (made div 1000)"
  have keys: "map_of ?claims (js ''exp'') = Some (JNum (of_int (made div 1000 + 3600)))"
      "map_of ?claims (js ''iat'') = Some (JNum (of_int (made div 1000)))"
      "map_of ?claims (js ''aud'') = Some (JStr AUDIENCE)" "map_of ?claims (js ''sub'') = Some (JStr (SUBJECT_PREFIX @ ag_clientId g))"
    by (simp_all add: agent_claims_def AGENT_TOKEN_TTL_SECONDS_def js_inj del: js_simps)
  have bounds: "not_expired n 60 (Some (JNum (of_int (m + 3600)))) \<longleftrightarrow> n \<le> m + 3660"
      "not_early n 60 (Some (JNum (of_int m))) \<longleftrightarrow> m - 60 \<le> n" for n m :: int
  proof -
    have "(of_int n :: rat) \<le> of_int (m + 3600) + of_int 60 \<longleftrightarrow> n \<le> m + 3660"
      unfolding of_int_add [symmetric] of_int_le_iff by (simp add: add.commute)
    moreover have "(of_int m :: rat) - of_int 60 \<le> of_int n \<longleftrightarrow> m - 60 \<le> n"
      unfolding of_int_diff [symmetric] of_int_le_iff by simp
    ultimately show "not_expired n 60 (Some (JNum (of_int (m + 3600)))) \<longleftrightarrow> n \<le> m + 3660"
      "not_early n 60 (Some (JNum (of_int m))) \<longleftrightarrow> m - 60 \<le> n"
      by (simp_all only: not_expired_def not_early_def option.case json.case)
  qed
  have "verifyJwt (tk_crypto env) (fst (mintAgentToken env g made)) (signingSecret env) now 60 =
      (if made div 1000 - 60 \<le> now div 1000 \<and> now div 1000 \<le> made div 1000 + 3660 then Some ?claims else None)"
    using verify_signed [of "tk_crypto env" ?claims "signingSecret env" now 60] assms(1)
    by (simp only: mintAgentToken_def fst_conv keys bounds json_comes_back_def) (simp add: conj_commute)
  then show ?thesis
    using assms(2) by (simp add: agentTokenSubject_def keys truthy_def del: js_simps split: list.splits)
qed

definition demo_crypto :: crypto where
  "demo_crypto = \<lparr>cy_mac = (\<lambda>_ m. [of_nat (length m), 1]), cy_sha = (\<lambda>m. m), cy_encrypt = (\<lambda>_ _ p. 0 # p),
     cy_decrypt = (\<lambda>_ _ c. Inr (tl c)), cy_stringify = (\<lambda>_. js ''c''), cy_parse = (\<lambda>_. None)\<rparr>"

lemma sealed_secret_opens_witness:
  "\<exists>sealed. sealSecret demo_crypto (replicate 12 7) (js ''hi'') (btoa (replicate 32 5)) = Inr sealed \<and>
     openSecret demo_crypto sealed (btoa (replicate 32 5)) = Inr (js ''hi'')"
proof -
  have key: "importMasterKey (btoa (replicate 32 5)) = Inr (replicate 32 5)"
    by (simp add: importMasterKey_def base64ToBytes_def base64.dec_enc MASTER_KEY_BYTES_def)
  have iv: "length (replicate 12 (7 :: 8 word)) = 12" by simp
  have "list_all (\<lambda>c. c < 128) (js ''hi'')" by (simp add: js_def)
  then have plain: "well_formed (js ''hi'')" "take 1 (js ''hi'') \<noteq> [0xFEFF]" using ascii_well_formed by blast+
  have "cy_decrypt demo_crypto (replicate 32 5) (replicate 12 7)
      (cy_encrypt demo_crypto (replicate 32 5) (replicate 12 7) (utf8_encode (js ''hi''))) = Inr (utf8_encode (js ''hi''))"
    and "cy_encrypt demo_crypto (replicate 32 5) (replicate 12 7) (utf8_encode (js ''hi'')) \<noteq> []"
    by (simp_all add: demo_crypto_def)
  from sealed_secret_opens [OF key iv this]
  obtain sealed opened where "sealSecret demo_crypto (replicate 12 7) (js ''hi'') (btoa (replicate 32 5)) = Inr sealed"
      "openSecret demo_crypto sealed (btoa (replicate 32 5)) = Inr opened"
      "well_formed (js ''hi'') \<longrightarrow> take 1 (js ''hi'') \<noteq> [0xFEFF] \<longrightarrow> opened = js ''hi''"
    by (elim exE conjE) (rule that)
  with plain show ?thesis by (simp del: js_simps)
qed

end
