(* ===== verification/Principal.thy ===== *)
theory Principal
  imports Tokens Enrollment
begin

text \<open>
  \<^verbatim>\<open>src/mcp/principal.ts\<close> and \<^verbatim>\<open>src/mcp/oauth.ts\<close>: who is calling the MCP endpoint, and how an agent
  client comes by its token. Headers are a function of their lower-case names; the reader of a person's
  session (Better Auth) is an argument.
\<close>

datatype credential = DeviceToken | AgentClient | UserSession

record mcp_principal =
  pn_org :: jstr
  pn_host :: "jstr option"
  pn_hostId :: "jstr option"
  pn_name :: "jstr option"
  pn_credential :: credential
  pn_clientId :: "jstr option"
  pn_scope :: "jstr option"
  pn_userId :: "jstr option"

datatype principal_failure = Unauthorized | InvalidAgent jstr

type_synonym headers = "jstr \<Rightarrow> jstr option"

text \<open>The user a request's access token belongs to, and the scopes it was granted.\<close>

type_synonym mcp_session = "headers \<Rightarrow> (jstr \<times> jstr option) option"

definition ACTING_AGENT_HEADER :: jstr where "ACTING_AGENT_HEADER = js ''x-transit-agent''"


section \<open>Headers\<close>

definition lower_unit :: "unit16 \<Rightarrow> unit16" where
  "lower_unit c = (if is_upper c then c + 32 else c)"

definition line_end :: "unit16 \<Rightarrow> bool" where
  "line_end c \<longleftrightarrow> c = 10 \<or> c = 13 \<or> c = 0x2028 \<or> c = 0x2029"

text \<open>\<open>/^Scheme[ ]+(.+)$/i\<close> on a trimmed text: the scheme, spaces, and the rest of one line.\<close>

definition scheme_rest :: "jstr \<Rightarrow> jstr \<Rightarrow> jstr option" where
  "scheme_rest scheme text' =
     (let n = length scheme; rest = drop n text' in
      if map lower_unit (take n text') = scheme \<and> take 1 rest = [32] \<and> list_all (\<lambda>c. \<not> line_end c) rest
      then truthy (Some (dropWhile (\<lambda>c. c = 32) rest)) else None)"

definition bearerToken :: "headers \<Rightarrow> jstr option" where
  "bearerToken headers =
     (case truthy (headers (js ''authorization'')) of None \<Rightarrow> None
      | Some a \<Rightarrow> truthy (map_option trim (scheme_rest (js ''bearer'') (trim a))))"


section \<open>Who is calling\<close>

definition resolveUserSession :: "d1 \<Rightarrow> headers \<Rightarrow> mcp_session \<Rightarrow> principal_failure + mcp_principal" where
  "resolveUserSession db headers mcpSession =
     (case mcpSession headers of None \<Rightarrow> Inl Unauthorized
      | Some (userId, scopes) \<Rightarrow>
          (case sort_key (\<lambda>m. if mem_organizationId m = userId then 0 else 1 :: nat)
              (sort_key mem_createdAt (filter (\<lambda>m. mem_userId m = userId) (members db))) of
             [] \<Rightarrow> Inl Unauthorized
           | m # _ \<Rightarrow>
               let person = resolvePersonAddress db (mem_organizationId m) userId in
               Inr \<lparr>pn_org = mem_organizationId m, pn_host = map_option ps_host person,
                 pn_hostId = map_option ps_hostId person, pn_name = map_option ps_name person,
                 pn_credential = UserSession, pn_clientId = None, pn_scope = truthy scopes,
                 pn_userId = Some userId\<rparr>))"

text \<open>The client's row and its host's, both not revoked.\<close>

definition live_client :: "d1 \<Rightarrow> (agent_client_row \<Rightarrow> bool) \<Rightarrow> (agent_client_row \<times> host_row) option" where
  "live_client db matching =
     (case [ (c, h). c \<leftarrow> agent_clients db, matching c \<and> is_null (ac_revokedAt c),
             h \<leftarrow> hosts db, h_orgId h = ac_orgId c \<and> h_slug h = ac_host c \<and> is_null (h_revokedAt h) ] of
        [] \<Rightarrow> None | p # _ \<Rightarrow> Some p)"

definition resolveAgentClient :: "token_env \<Rightarrow> d1 \<Rightarrow> jstr \<Rightarrow> int \<Rightarrow> principal_failure + mcp_principal" where
  "resolveAgentClient env db token now =
     (case agentTokenSubject env token now of None \<Rightarrow> Inl Unauthorized
      | Some clientId \<Rightarrow>
          (case live_client db (\<lambda>c. ac_clientId c = clientId) of None \<Rightarrow> Inl Unauthorized
           | Some (c, h) \<Rightarrow>
               Inr \<lparr>pn_org = ac_orgId c, pn_host = Some (ac_host c), pn_hostId = Some (h_id h), pn_name = Some (ac_name c),
                 pn_credential = AgentClient, pn_clientId = Some clientId, pn_scope = None, pn_userId = None\<rparr>))"

definition resolveDeviceToken :: "token_env \<Rightarrow> d1 \<Rightarrow> jstr \<Rightarrow> headers \<Rightarrow> principal_failure + mcp_principal" where
  "resolveDeviceToken env db token headers =
     (case authenticate_host (sha256hex (tk_crypto env)) token db of None \<Rightarrow> Inl Unauthorized
      | Some h \<Rightarrow>
          let declared = truthy (map_option trim (headers ACTING_AGENT_HEADER));
              principal = \<lparr>pn_org = h_orgId h, pn_host = Some (h_slug h), pn_hostId = Some (h_id h), pn_name = declared,
                 pn_credential = DeviceToken, pn_clientId = None, pn_scope = None, pn_userId = None\<rparr>
          in (case declared of None \<Rightarrow> Inr principal
              | Some name \<Rightarrow>
                  (case validateName name of
                     Inl e \<Rightarrow> Inl (InvalidAgent (ACTING_AGENT_HEADER @ js '': '' @ err_message e))
                   | Inr _ \<Rightarrow> Inr principal)))"

definition resolvePrincipal ::
  "token_env \<Rightarrow> d1 \<Rightarrow> headers \<Rightarrow> mcp_session option \<Rightarrow> int \<Rightarrow> principal_failure + mcp_principal" where
  "resolvePrincipal env db headers mcpSession now =
     (case bearerToken headers of None \<Rightarrow> Inl Unauthorized
      | Some token \<Rightarrow>
          if looksLikeJwt token then resolveAgentClient env db token now
          else (case resolveDeviceToken env db token headers of
              Inl Unauthorized \<Rightarrow>
                (case mcpSession of None \<Rightarrow> Inl Unauthorized | Some session \<Rightarrow> resolveUserSession db headers session)
            | device \<Rightarrow> device))"

text \<open>\<open>name@host\<close>; \<open>formatAgentAddress\<close> throws when a row holds an ill-formed name.\<close>

definition principalAddress :: "mcp_principal \<Rightarrow> address_error + jstr option" where
  "principalAddress p =
     (case (truthy (pn_name p), truthy (pn_host p)) of
        (Some name, Some host) \<Rightarrow> rbind (formatAgentAddress name host None) (\<lambda>a. Inr (Some a))
      | _ \<Rightarrow> Inr None)"


section \<open>The token endpoint\<close>

text \<open>\<open>decodeURIComponent\<close>: escapes are UTF-8, and it throws (\<open>None\<close>) where they are not.\<close>

definition hex_digit :: "unit16 \<Rightarrow> nat option" where
  "hex_digit c = (if is_digit c then Some (unat c - 48)
     else if 65 \<le> c \<and> c \<le> 70 then Some (unat c - 55)
     else if 97 \<le> c \<and> c \<le> 102 then Some (unat c - 87) else None)"

definition escaped_byte :: "unit16 \<Rightarrow> unit16 \<Rightarrow> nat option" where
  "escaped_byte x y = (case (hex_digit x, hex_digit y) of (Some a, Some b) \<Rightarrow> Some (a * 16 + b) | _ \<Rightarrow> None)"

fun uri_run :: "pending option \<Rightarrow> jstr \<Rightarrow> jstr option" where
  "uri_run None [] = Some []"
| "uri_run (Some p) [] = None"
| "uri_run None (c # s) =
     (if c \<noteq> 37 then map_option (Cons c) (uri_run None s)
      else (case s of
          x # y # rest \<Rightarrow>
            (case escaped_byte x y of None \<Rightarrow> None
             | Some b \<Rightarrow>
                 (case utf8_start b of
                    Whole u \<Rightarrow> if b < 128 then map_option ((@) u) (uri_run None rest) else None
                  | More p \<Rightarrow> uri_run (Some p) rest))
        | _ \<Rightarrow> None))"
| "uri_run (Some p) (c # s) =
     (if c \<noteq> 37 then None
      else (case s of
          x # y # rest \<Rightarrow>
            (case escaped_byte x y of None \<Rightarrow> None
             | Some b \<Rightarrow>
                 if pe_lower p \<le> b \<and> b \<le> pe_upper p then
                   let bits = pe_bits p * 64 + (b - 128) in
                   if pe_needed p = 1 then map_option ((@) (point_units bits)) (uri_run None rest)
                   else uri_run (Some \<lparr>pe_needed = pe_needed p - 1, pe_lower = 128, pe_upper = 191, pe_bits = bits\<rparr>) rest
                 else None)
        | _ \<Rightarrow> None))"

definition decodeURIComponent :: "jstr \<Rightarrow> jstr option" where
  "decodeURIComponent s = uri_run None s"

definition basicCredentials :: "headers \<Rightarrow> (jstr \<times> jstr) option" where
  "basicCredentials headers =
     (let authorization = (case headers (js ''authorization'') of None \<Rightarrow> [] | Some a \<Rightarrow> trim a) in
      Option.bind (scheme_rest (js ''basic'') authorization) (\<lambda>encoded.
      Option.bind (atob encoded) (\<lambda>bs.
      let decoded = map (\<lambda>b. of_nat (unat b)) bs in
      Option.bind (index_of 58 decoded) (\<lambda>separator.
      Option.bind (decodeURIComponent (take separator decoded)) (\<lambda>clientId.
      Option.bind (decodeURIComponent (drop (separator + 1) decoded)) (\<lambda>secret. Some (clientId, secret)))))))"

text \<open>A refusal: its code, its status and whether it challenges for Basic credentials.\<close>

datatype token_response = TokenError jstr nat bool | TokenIssued jstr int

definition given_credentials :: "(jstr \<times> jstr) option \<Rightarrow> (jstr \<times> jstr) list \<Rightarrow> jstr \<times> jstr" where
  "given_credentials basic fs =
     (case basic of Some c \<Rightarrow> c
      | None \<Rightarrow> (case map_of fs (js ''client_id'') of None \<Rightarrow> [] | Some s \<Rightarrow> s,
                 case map_of fs (js ''client_secret'') of None \<Rightarrow> [] | Some s \<Rightarrow> s))"

definition grant_of :: "agent_client_row \<Rightarrow> agent_token_grant" where
  "grant_of c = \<lparr>ag_clientId = ac_clientId c, ag_org = ac_orgId c, ag_host = ac_host c, ag_name = ac_name c\<rparr>"

text \<open>\<open>form\<close> are the decoded fields of the body in their order; \<open>None\<close> when it cannot be read.\<close>

definition handleTokenRequest ::
  "token_env \<Rightarrow> jstr \<Rightarrow> headers \<Rightarrow> (jstr \<times> jstr) list option \<Rightarrow> int \<Rightarrow> d1 \<Rightarrow> d1 \<times> token_response" where
  "handleTokenRequest env method headers form now db =
     (if method \<noteq> js ''POST'' then (db, TokenError (js ''invalid_request'') 405 False)
      else (case form of None \<Rightarrow> (db, TokenError (js ''invalid_request'') 400 False)
       | Some fs \<Rightarrow>
          if map_of fs (js ''grant_type'') \<noteq> Some (js ''client_credentials'')
          then (db, TokenError (js ''unsupported_grant_type'') 400 False)
          else
            let basic = basicCredentials headers; (clientId, secret) = given_credentials basic fs
            in if clientId = [] \<or> secret = [] then (db, TokenError (js ''invalid_client'') 401 (basic \<noteq> None))
            else (case live_client db (\<lambda>c. ac_clientId c = clientId \<and>
                      ac_secretHash c = sha256hex (tk_crypto env) secret) of
                None \<Rightarrow> (db, TokenError (js ''invalid_client'') 401 False)
              | Some (c, h) \<Rightarrow>
                  if truthy (map_of fs (js ''scope'')) \<noteq> None then (db, TokenError (js ''invalid_scope'') 400 False)
                  else
                    let (token, expiresIn) = mintAgentToken env (grant_of c) now
                    in (db\<lparr>agent_clients := update_where (\<lambda>r. ac_clientId r = ac_clientId c)
                          (\<lambda>r. r\<lparr>ac_lastUsedAt := Some now\<rparr>) (agent_clients db)\<rparr>,
                        TokenIssued token expiresIn))))"

end
