(* ===== verification/Principal_Properties.thy ===== *)
theory Principal_Properties
  imports Principal Enrollment_Properties Hub_Properties
begin

text \<open>Which credential makes somebody a caller of the MCP endpoint, and when it stops.\<close>

section \<open>The three ways in\<close>

lemma find_live:
  assumes "authenticate_host sha token db = Some h"
  shows "h \<in> set (hosts db)" "h_tokenHash h = sha token" "h_revokedAt h = None"
  using assms by (auto simp: authenticate_host_def is_null_def find_Some_iff)

lemma first_of_list: "(case xs of [] \<Rightarrow> None | a # _ \<Rightarrow> Some a) = Some y \<Longrightarrow> y \<in> set xs"
  by (cases xs) auto

lemma live_client_cases:
  assumes "live_client db matching = Some (c, h)"
  shows "c \<in> set (agent_clients db)" "matching c" "ac_revokedAt c = None"
    "h \<in> set (hosts db)" "h_orgId h = ac_orgId c" "h_slug h = ac_host c" "h_revokedAt h = None"
proof -
  let ?l = "[ (c, h). c \<leftarrow> agent_clients db, matching c \<and> is_null (ac_revokedAt c),
             h \<leftarrow> hosts db, h_orgId h = ac_orgId c \<and> h_slug h = ac_host c \<and> is_null (h_revokedAt h) ]"
  have "(c, h) \<in> set ?l" using assms unfolding live_client_def by (rule first_of_list)
  then show "c \<in> set (agent_clients db)" "matching c" "ac_revokedAt c = None"
    "h \<in> set (hosts db)" "h_orgId h = ac_orgId c" "h_slug h = ac_host c" "h_revokedAt h = None"
    by (auto simp: is_null_def split: if_splits)
qed

lemma person_cases:
  assumes "resolvePersonAddress db org userId = Some a"
  obtains p h where "p \<in> set (person_addresses db)" "pa_orgId p = org" "pa_userId p = userId"
    "h \<in> set (hosts db)" "h_orgId h = org" "h_slug h = pa_host p" "h_revokedAt h = None"
    "a = \<lparr>ps_org = org, ps_userId = userId, ps_host = pa_host p, ps_hostId = h_id h, ps_name = pa_name p\<rparr>"
proof -
  let ?l = "[ \<lparr>ps_org = org, ps_userId = userId, ps_host = pa_host p, ps_hostId = h_id h, ps_name = pa_name p\<rparr>.
             p \<leftarrow> person_addresses db, pa_orgId p = org \<and> pa_userId p = userId,
             h \<leftarrow> hosts db, h_orgId h = pa_orgId p \<and> h_slug h = pa_host p \<and> is_null (h_revokedAt h) ]"
  have "a \<in> set ?l" using assms unfolding resolvePersonAddress_def by (rule first_of_list)
  then show thesis using that by (auto simp: is_null_def split: if_splits)
qed

definition host_of :: "d1 \<Rightarrow> mcp_principal \<Rightarrow> host_row \<Rightarrow> bool" where
  "host_of db p h \<longleftrightarrow> h \<in> set (hosts db) \<and> h_revokedAt h = None \<and> h_orgId h = pn_org p \<and>
     pn_host p = Some (h_slug h) \<and> pn_hostId p = Some (h_id h)"

lemma device_principal:
  assumes "resolveDeviceToken env db token headers = Inr p"
  shows "\<exists>h. host_of db p h \<and> h_tokenHash h = sha256hex (tk_crypto env) token \<and> pn_credential p = DeviceToken \<and>
    (\<forall>name. pn_name p = Some name \<longrightarrow> validateName name = Inr ())"
  using assms find_live [of "sha256hex (tk_crypto env)" token db]
  by (auto simp: resolveDeviceToken_def host_of_def Let_def split: option.splits sum.splits)

lemma client_principal:
  assumes "resolveAgentClient env db token now = Inr p"
  shows "\<exists>c h. agentTokenSubject env token now = Some (ac_clientId c) \<and> c \<in> set (agent_clients db) \<and>
    ac_revokedAt c = None \<and> host_of db p h \<and> ac_orgId c = pn_org p \<and> ac_host c = h_slug h \<and>
    pn_name p = Some (ac_name c) \<and> pn_credential p = AgentClient"
proof -
  obtain clientId where s: "agentTokenSubject env token now = Some clientId"
    using assms by (auto simp: resolveAgentClient_def split: option.splits)
  obtain c h where l: "live_client db (\<lambda>c. ac_clientId c = clientId) = Some (c, h)"
    using assms s by (auto simp: resolveAgentClient_def split: option.splits)
  note live = live_client_cases [OF l]
  have "p = \<lparr>pn_org = ac_orgId c, pn_host = Some (ac_host c), pn_hostId = Some (h_id h), pn_name = Some (ac_name c),
      pn_credential = AgentClient, pn_clientId = Some clientId, pn_scope = None, pn_userId = None\<rparr>"
    using assms by (simp add: resolveAgentClient_def s l)
  with live s show ?thesis by (intro exI [of _ c] exI [of _ h]) (simp add: host_of_def)
qed

lemma session_principal:
  assumes "resolveUserSession db headers session = Inr p"
  shows "\<exists>user scopes m. session headers = Some (user, scopes) \<and> m \<in> set (members db) \<and> mem_userId m = user \<and>
    mem_organizationId m = pn_org p \<and> pn_userId p = Some user \<and> pn_credential p = UserSession \<and>
    (pn_name p = None \<and> pn_host p = None \<or>
     (\<exists>a h. host_of db p h \<and> a \<in> set (person_addresses db) \<and> pa_orgId a = pn_org p \<and> pa_userId a = user \<and>
        pa_host a = h_slug h \<and> pn_name p = Some (pa_name a)))"
proof -
  obtain user scopes where s: "session headers = Some (user, scopes)"
    using assms by (auto simp: resolveUserSession_def split: option.splits)
  let ?ms = "sort_key (\<lambda>m. if mem_organizationId m = user then 0 else 1 :: nat)
              (sort_key mem_createdAt (filter (\<lambda>m. mem_userId m = user) (members db)))"
  obtain m rest where m: "?ms = m # rest"
    using assms s by (auto simp: resolveUserSession_def split: list.splits)
  then have "m \<in> set ?ms" by simp
  then have mem: "m \<in> set (members db)" "mem_userId m = user" by simp_all
  have p: "p = \<lparr>pn_org = mem_organizationId m,
      pn_host = map_option ps_host (resolvePersonAddress db (mem_organizationId m) user),
      pn_hostId = map_option ps_hostId (resolvePersonAddress db (mem_organizationId m) user),
      pn_name = map_option ps_name (resolvePersonAddress db (mem_organizationId m) user),
      pn_credential = UserSession, pn_clientId = None, pn_scope = truthy scopes, pn_userId = Some user\<rparr>"
    using assms by (simp add: resolveUserSession_def s m Let_def)
  show ?thesis
  proof (cases "resolvePersonAddress db (mem_organizationId m) user")
    case None
    then show ?thesis using s mem p by auto
  next
    case (Some a)
    then obtain pa h where a: "pa \<in> set (person_addresses db)" "pa_orgId pa = mem_organizationId m" "pa_userId pa = user"
      "h \<in> set (hosts db)" "h_orgId h = mem_organizationId m" "h_slug h = pa_host pa" "h_revokedAt h = None"
      "a = \<lparr>ps_org = mem_organizationId m, ps_userId = user, ps_host = pa_host pa, ps_hostId = h_id h, ps_name = pa_name pa\<rparr>"
      by (rule person_cases)
    have "host_of db p h" "pn_org p = mem_organizationId m" "pn_name p = Some (pa_name pa)" "pn_userId p = Some user"
        "pn_credential p = UserSession"
      using a Some by (simp_all add: p host_of_def)
    with a s mem show ?thesis by metis
  qed
qed

lemma principal_cases:
  assumes "resolvePrincipal env db headers mcpSession now = Inr p"
  obtains (device) token where "bearerToken headers = Some token" "\<not> looksLikeJwt token" "resolveDeviceToken env db token headers = Inr p"
  | (client) token where "bearerToken headers = Some token" "looksLikeJwt token" "resolveAgentClient env db token now = Inr p"
  | (person) token session where "bearerToken headers = Some token" "\<not> looksLikeJwt token"
      "mcpSession = Some session" "resolveUserSession db headers session = Inr p"
  using assms
  by (auto simp: resolvePrincipal_def split: option.splits if_splits sum.splits principal_failure.splits)


section \<open>What a credential has to be\<close>

text \<open>
  What makes a text the token of a client, without reference to the verifier: three parts; the last the
  HMAC of the first two under the key derived from the deployment's secret; claims meant for this endpoint, about this client,
  not expired and not from the future, with a minute's leeway.
\<close>

definition token_of_client :: "token_env \<Rightarrow> jstr \<Rightarrow> int \<Rightarrow> jstr \<Rightarrow> bool" where
  "token_of_client env token now clientId \<longleftrightarrow>
     (\<exists>header payload signature claims.
        token = header @ js ''.'' @ payload @ js ''.'' @ signature \<and>
        base64urlDecode signature = Some (cy_mac (tk_crypto env)
          (utf8_encode (bytesToHex (cy_mac (tk_crypto env) (utf8_encode (tk_secret env)) (utf8_encode (js ''transit-agent-token/1'')))))
          (utf8_encode (header @ js ''.'' @ payload))) \<and>
        Option.bind (base64urlDecode payload) (\<lambda>bs. cy_parse (tk_crypto env) (utf8_decode bs)) = Some (JObj claims) \<and>
        map_of claims (js ''aud'') = Some (JStr (js ''transit-mcp'')) \<and>
        map_of claims (js ''sub'') = Some (JStr (js ''agent:'' @ clientId)) \<and> clientId \<noteq> [] \<and>
        (map_of claims (js ''exp'') = Some (JInfinite True) \<or>
         (\<exists>q. map_of claims (js ''exp'') = Some (JNum q) \<and> of_int (now div 1000) \<le> q + 60)) \<and>
        map_of claims (js ''iat'') \<noteq> Some (JInfinite True) \<and>
        (\<forall>q. map_of claims (js ''iat'') = Some (JNum q) \<longrightarrow> q - 60 \<le> of_int (now div 1000)))"

lemma split_threeD:
  assumes "split_on 46 s = [a, b, c]"
  shows "s = a @ js ''.'' @ b @ js ''.'' @ c"
  using join_split [of 46 s] by (simp add: assms dot_texts(3) del: js_simps)

lemma subject_token:
  assumes "agentTokenSubject env token now = Some clientId"
  shows "token_of_client env token now clientId"
proof -
  obtain claims where v: "verifyJwt (tk_crypto env) token (signingSecret env) now 60 = Some claims"
      and aud: "map_of claims (js ''aud'') = Some (JStr (js ''transit-mcp''))"
    using assms by (auto simp: agentTokenSubject_def AUDIENCE_def simp del: js_simps split: option.splits if_splits)
  obtain sub where sub: "map_of claims (js ''sub'') = Some (JStr sub)" "starts_with sub SUBJECT_PREFIX"
      "truthy (Some (drop (length SUBJECT_PREFIX) sub)) = Some clientId"
    using assms v aud
    by (auto simp: agentTokenSubject_def AUDIENCE_def simp del: js_simps split: option.splits if_splits json.splits)
  have "sub = js ''agent:'' @ clientId" "clientId \<noteq> []"
    using sub(2,3) append_take_drop_id [of "length SUBJECT_PREFIX" sub]
    by (auto simp: starts_with_def truthy_def SUBJECT_PREFIX_def simp del: js_simps append_take_drop_id split: list.splits if_splits)
  then have claims_sub: "map_of claims (js ''sub'') = Some (JStr (js ''agent:'' @ clientId))" "clientId \<noteq> []"
    using sub(1) by simp_all
  obtain h p g where parts: "split_on 46 token = [h, p, g]"
    using v by (auto simp: verifyJwt_def simp del: js_simps split: list.splits)
  have sig: "base64urlDecode g = Some (cy_mac (tk_crypto env) (utf8_encode (signingSecret env)) (utf8_encode (h @ js ''.'' @ p)))"
    using v by (auto simp: verifyJwt_def parts simp del: js_simps split: option.splits if_splits)
  have body: "Option.bind (base64urlDecode p) (\<lambda>bs. cy_parse (tk_crypto env) (utf8_decode bs)) = Some (JObj claims)"
      and time: "not_expired (now div 1000) 60 (map_of claims (js ''exp''))" "not_early (now div 1000) 60 (map_of claims (js ''iat''))"
    using v by (auto simp: verifyJwt_def parts Let_def simp del: js_simps split: option.splits if_splits json.splits)
  have times: "map_of claims (js ''exp'') = Some (JInfinite True) \<or>
         (\<exists>q. map_of claims (js ''exp'') = Some (JNum q) \<and> of_int (now div 1000) \<le> q + 60)"
      "map_of claims (js ''iat'') \<noteq> Some (JInfinite True)"
      "\<forall>q. map_of claims (js ''iat'') = Some (JNum q) \<longrightarrow> q - 60 \<le> of_int (now div 1000)"
    using time by (auto simp: not_expired_def not_early_def simp del: js_simps split: option.splits json.splits)
  show ?thesis
    unfolding token_of_client_def
    using split_threeD [OF parts] sig [unfolded signingSecret_def hmacSign_def] body aud claims_sub times by blast
qed

text \<open>
  How a request presents a client's id and secret: in a Basic header, each half form-encoded, or, without a usable
  one, as two fields of the form.
\<close>

definition presents :: "headers \<Rightarrow> (jstr \<times> jstr) list \<Rightarrow> jstr \<Rightarrow> jstr \<Rightarrow> bool" where
  "presents headers fs clientId secret \<longleftrightarrow>
     (\<exists>given scheme n encoded bs a b. headers (js ''authorization'') = Some given \<and>
        trim given = scheme @ replicate (Suc n) 32 @ encoded \<and> map lower_unit scheme = js ''basic'' \<and>
        atob encoded = Some bs \<and> map (\<lambda>b. of_nat (unat b)) bs = a @ js '':'' @ b \<and> 58 \<notin> set a \<and>
        decodeURIComponent a = Some clientId \<and> decodeURIComponent b = Some secret) \<or>
     (basicCredentials headers = None \<and> map_of fs (js ''client_id'') = Some clientId \<and>
        map_of fs (js ''client_secret'') = Some secret)"

lemma scheme_restD:
  assumes "scheme_rest scheme s = Some rest"
  shows "\<exists>sch n. s = sch @ replicate (Suc n) 32 @ rest \<and> map lower_unit sch = scheme"
proof -
  let ?r = "drop (length scheme) s"
  have h: "map lower_unit (take (length scheme) s) = scheme" "take 1 ?r = [32]" "truthy (Some (dropWhile (\<lambda>c. c = 32) ?r)) = Some rest"
    using assms by (auto simp: scheme_rest_def Let_def split: if_splits)
  then have rest: "rest = dropWhile (\<lambda>c. c = 32) ?r" by (auto simp: truthy_def split: list.splits if_splits)
  obtain x xs where r: "?r = 32 # xs" using h(2) by (cases ?r) auto
  have "takeWhile (\<lambda>c. c = 32) xs = replicate (length (takeWhile (\<lambda>c. c = 32) xs)) 32"
    by (rule replicate_length_same [symmetric]) (auto dest: set_takeWhileD)
  then have "xs = replicate (length (takeWhile (\<lambda>c. c = 32) xs)) 32 @ rest"
    using takeWhile_dropWhile_id [of "\<lambda>c. c = 32" xs] rest r by simp
  then have "?r = replicate (Suc (length (takeWhile (\<lambda>c. c = 32) xs))) 32 @ rest" using r by simp
  then have "s = take (length scheme) s @ replicate (Suc (length (takeWhile (\<lambda>c. c = 32) xs))) 32 @ rest"
    using append_take_drop_id [of "length scheme" s] by simp
  with h(1) show ?thesis by blast
qed

lemma given_presents:
  assumes "given_credentials (basicCredentials headers) fs = (clientId, secret)" "clientId \<noteq> []" "secret \<noteq> []"
  shows "presents headers fs clientId secret"
proof (cases "basicCredentials headers")
  case None
  then have "map_of fs (js ''client_id'') = Some clientId" "map_of fs (js ''client_secret'') = Some secret"
    using assms by (auto simp: given_credentials_def simp del: js_simps split: option.splits)
  with None show ?thesis unfolding presents_def by blast
next
  case (Some c)
  then have c: "basicCredentials headers = Some (clientId, secret)" using assms(1) by (simp add: given_credentials_def)
  define auth where "auth = (case headers (js ''authorization'') of None \<Rightarrow> [] | Some a \<Rightarrow> trim a)"
  obtain encoded bs sep where b: "scheme_rest (js ''basic'') auth = Some encoded" "atob encoded = Some bs"
      "index_of 58 (map (\<lambda>b. of_nat (unat b)) bs) = Some sep"
      "decodeURIComponent (take sep (map (\<lambda>b. of_nat (unat b)) bs)) = Some clientId"
      "decodeURIComponent (drop (sep + 1) (map (\<lambda>b. of_nat (unat b)) bs)) = Some secret"
    using c by (auto simp: basicCredentials_def auth_def [symmetric] Let_def bind_eq_Some_conv simp del: js_simps)
  obtain sch n where s: "auth = sch @ replicate (Suc n) 32 @ encoded" "map lower_unit sch = js ''basic''"
    using scheme_restD [OF b(1)] by blast
  obtain given where g: "headers (js ''authorization'') = Some given" "trim given = auth"
    using s(1) by (cases "headers (js ''authorization'')") (simp_all add: auth_def del: js_simps)
  let ?d = "map (\<lambda>b. of_nat (unat b)) bs :: jstr"
  have "?d = take sep ?d @ js '':'' @ drop (sep + 1) ?d" "58 \<notin> set (take sep ?d)"
    using index_of_SomeD [OF b(3)] by (simp_all add: js_def)
  with g s b show ?thesis unfolding presents_def by metis
qed


section \<open>Properties\<close>

text \<open>
  C8: everybody who calls is who a credential says. A device token makes the caller an agent of the host whose
  token it is, under a valid name of the caller's choice or none. An agent's token makes the caller the live client it
  names, whatever the headers say, and only when it is signed under the deployment's key, meant for this endpoint and
  within its time; a person's session makes the caller that person: a member of the
  organization, under the address that person claimed in it or none. No revoked host or client is anybody's.
\<close>
theorem caller_is_proved:
  assumes "resolvePrincipal env db headers mcpSession now = Inr p"
  shows "\<exists>token. bearerToken headers = Some token \<and>
    (case pn_credential p of
       DeviceToken \<Rightarrow> (\<exists>h. host_of db p h \<and> h_tokenHash h = sha256hex (tk_crypto env) token \<and>
         (\<forall>name. pn_name p = Some name \<longrightarrow> validateName name = Inr ()))
     | AgentClient \<Rightarrow> (\<exists>c h. token_of_client env token now (ac_clientId c) \<and> c \<in> set (agent_clients db) \<and>
         ac_revokedAt c = None \<and> host_of db p h \<and> ac_orgId c = pn_org p \<and> ac_host c = h_slug h \<and>
         pn_name p = Some (ac_name c))
     | UserSession \<Rightarrow> (\<exists>session user scopes m. mcpSession = Some session \<and> session headers = Some (user, scopes) \<and>
         m \<in> set (members db) \<and> mem_userId m = user \<and> mem_organizationId m = pn_org p \<and> pn_userId p = Some user \<and>
         (pn_name p = None \<and> pn_host p = None \<or>
          (\<exists>a h. host_of db p h \<and> a \<in> set (person_addresses db) \<and> pa_orgId a = pn_org p \<and> pa_userId a = user \<and>
             pa_host a = h_slug h \<and> pn_name p = Some (pa_name a)))))"
  using assms
proof (cases rule: principal_cases)
  case (device token)
  from device_principal [OF device(3)] show ?thesis by (elim exE conjE) (simp add: device(1), blast)
next
  case (client token)
  from client_principal [OF client(3)] show ?thesis
    by (elim exE conjE) (simp add: client(1), blast intro: subject_token)
next
  case (person token session)
  from session_principal [OF person(4)] show ?thesis by (elim exE conjE) (simp add: person(1,3), blast)
qed

lemma principal_host:
  assumes "resolvePrincipal env db headers mcpSession now = Inr p" "pn_host p = Some slug"
  shows "\<exists>h. host_of db p h \<and> h_slug h = slug"
  using assms(1)
proof (cases rule: principal_cases)
  case (device token)
  with device_principal [OF device(3)] assms(2) show ?thesis by (auto simp: host_of_def)
next
  case (client token)
  with client_principal [OF client(3)] assms(2) show ?thesis by (auto simp: host_of_def)
next
  case (person token session)
  from session_principal [OF person(4)] assms(2) show ?thesis by (elim exE conjE disjE) (auto simp: host_of_def)
qed

text \<open>
  C29: revoking a host takes its callers away at once: from then on no credential whatsoever makes anybody an
  agent of it, neither its own token nor a client's nor a person's.
\<close>
theorem revoked_host_has_no_callers:
  assumes "revoke_host env henv (Some org) slug (db, hubs) = ((db', hubs'), effs, Inr ())"
    and "resolvePrincipal tenv db' headers mcpSession now = Inr p"
  shows "\<not> (pn_org p = org \<and> pn_host p = Some slug)"
proof
  assume p: "pn_org p = org \<and> pn_host p = Some slug"
  let ?m = "\<lambda>h. h_orgId h = org \<and> h_slug h = slug \<and> is_null (h_revokedAt h)"
  have db': "hosts db' = update_where ?m (\<lambda>h. h\<lparr>h_revokedAt := Some (ee_now env)\<rparr>) (hosts db)"
    using assms(1) by (auto simp: revoke_host_def Let_def split: sum.splits if_splits prod.splits)
  obtain h where "host_of db' p h" "h_slug h = slug" using principal_host assms(2) p by blast
  then have "h \<in> set (hosts db')" "h_revokedAt h = None" "h_orgId h = org" "h_slug h = slug"
    using p by (auto simp: host_of_def)
  moreover obtain r where "h = (if ?m r then r\<lparr>h_revokedAt := Some (ee_now env)\<rparr> else r)"
    using \<open>h \<in> set (hosts db')\<close> unfolding db' update_where_def set_map by blast
  then have "h_revokedAt h \<noteq> None \<or> h = r \<and> \<not> ?m r" by auto
  ultimately show False by (auto simp: is_null_def)
qed

lemma issued_client:
  assumes "handleTokenRequest env method headers form now db = (db', TokenIssued token ttl)"
  obtains c h where "c \<in> set (agent_clients db)" "ac_revokedAt c = None" "h \<in> set (hosts db)" "h_revokedAt h = None"
    "h_orgId h = ac_orgId c" "h_slug h = ac_host c" "ac_clientId c \<noteq> []"
    "token = fst (mintAgentToken env (grant_of c) now)"
    "\<exists>fs secret. form = Some fs \<and> presents headers fs (ac_clientId c) secret \<and> secret \<noteq> [] \<and>
       ac_secretHash c = sha256hex (tk_crypto env) secret"
proof -
  obtain fs where f: "form = Some fs" using assms by (auto simp: handleTokenRequest_def split: option.splits if_splits)
  define id_secret where "id_secret = given_credentials (basicCredentials headers) fs"
  let ?m = "\<lambda>c. ac_clientId c = fst id_secret \<and> ac_secretHash c = sha256hex (tk_crypto env) (snd id_secret)"
  obtain c h where l: "live_client db ?m = Some (c, h)" "fst id_secret \<noteq> []" "snd id_secret \<noteq> []"
      "token = fst (mintAgentToken env (grant_of c) now)"
    using assms f
    by (auto simp: handleTokenRequest_def Let_def split_def id_secret_def [symmetric] simp del: js_simps split: option.splits if_splits)
  have "presents headers fs (fst id_secret) (snd id_secret)"
    using given_presents [of headers fs "fst id_secret" "snd id_secret"] l(2,3) by (simp add: id_secret_def)
  with f live_client_cases [OF l(1)] l(2-4) that show thesis by metis
qed

lemma minted_shape: "looksLikeJwt (fst (mintAgentToken env g now))"
  using split_three [OF encoded_without_dot encoded_without_dot encoded_without_dot]
  by (simp add: looksLikeJwt_def mintAgentToken_def signJwt_def Let_def dot_texts(3))

text \<open>
  C9: what the token endpoint hands out. A token is issued only to a live client of a live host whose id and secret
  the request presents, in a Basic header or else in the form, the secret being the one whose hash the row holds; and its bearer is then that client, in whatever organization, host and name the client's row holds at the
  time, for an hour and a minute, until the row or its host is revoked.
\<close>
theorem issued_token_is_its_client:
  assumes "\<And>c. c \<in> set (agent_clients db) \<Longrightarrow> json_comes_back (tk_crypto env) (agent_claims env (grant_of c) (made div 1000))"
    and "handleTokenRequest env method headers form made db = (db', TokenIssued token ttl)"
    and "bearerToken headers' = Some token"
  shows "\<exists>c h. c \<in> set (agent_clients db) \<and> ac_revokedAt c = None \<and> 
    (\<exists>fs secret. form = Some fs \<and> presents headers fs (ac_clientId c) secret \<and> secret \<noteq> [] \<and>
       ac_secretHash c = sha256hex (tk_crypto env) secret) \<and>
    h \<in> set (hosts db) \<and> h_revokedAt h = None \<and> h_orgId h = ac_orgId c \<and> h_slug h = ac_host c \<and>
    resolvePrincipal env db2 headers' mcpSession now =
      (if made div 1000 - 60 \<le> now div 1000 \<and> now div 1000 \<le> made div 1000 + 3660
       then (case live_client db2 (\<lambda>r. ac_clientId r = ac_clientId c) of
           None \<Rightarrow> Inl Unauthorized
         | Some (r, h) \<Rightarrow> Inr \<lparr>pn_org = ac_orgId r, pn_host = Some (ac_host r), pn_hostId = Some (h_id h),
             pn_name = Some (ac_name r), pn_credential = AgentClient, pn_clientId = Some (ac_clientId c), pn_scope = None,
             pn_userId = None\<rparr>)
       else Inl Unauthorized)"
proof -
  obtain c h where c: "c \<in> set (agent_clients db)" "ac_revokedAt c = None" "h \<in> set (hosts db)" "h_revokedAt h = None"
    "h_orgId h = ac_orgId c" "h_slug h = ac_host c" "ac_clientId c \<noteq> []"
    "token = fst (mintAgentToken env (grant_of c) made)"
    "\<exists>fs secret. form = Some fs \<and> presents headers fs (ac_clientId c) secret \<and> secret \<noteq> [] \<and>
       ac_secretHash c = sha256hex (tk_crypto env) secret"
    using assms(2) by (rule issued_client)
  have "agentTokenSubject env token now =
      (if made div 1000 - 60 \<le> now div 1000 \<and> now div 1000 \<le> made div 1000 + 3660 then Some (ac_clientId c) else None)"
    using minted_subject [OF assms(1) [OF c(1)], of now] c(7,8) by (simp add: grant_of_def)
  then have "resolvePrincipal env db2 headers' mcpSession now =
      (if made div 1000 - 60 \<le> now div 1000 \<and> now div 1000 \<le> made div 1000 + 3660
       then (case live_client db2 (\<lambda>r. ac_clientId r = ac_clientId c) of
           None \<Rightarrow> Inl Unauthorized
         | Some (r, h) \<Rightarrow> Inr \<lparr>pn_org = ac_orgId r, pn_host = Some (ac_host r), pn_hostId = Some (h_id h),
             pn_name = Some (ac_name r), pn_credential = AgentClient, pn_clientId = Some (ac_clientId c), pn_scope = None,
             pn_userId = None\<rparr>)
       else Inl Unauthorized)"
    using assms(3) minted_shape [of env] by (simp add: resolvePrincipal_def resolveAgentClient_def c(8))
  with c show ?thesis by blast
qed

section \<open>A demonstration\<close>

lemma token_units: "c \<in> set (base64urlEncode bs) \<Longrightarrow> \<not> is_ws c \<and> \<not> line_end c"
proof -
  assume "c \<in> set (base64urlEncode bs)"
  then obtain n where "n \<in> set (to_sextets bs)" "c = url_unit (b64_unit n)" by (auto simp: encoded_units)
  moreover have "n < 64" using calculation(1) to_sextets_small [of bs] by (simp add: list_all_iff)
  ultimately have "unat c < 128 \<and> 33 \<le> unat c"
    by (auto simp: url_unit_def b64_unit_code split: if_splits)
  then show ?thesis by (auto simp: is_ws_def line_end_def word_le_nat_alt word_unat_eq_iff)
qed

lemma bearer_given:
  assumes "headers (js ''authorization'') = Some (js ''Bearer '' @ token)" "token \<noteq> []"
    and "list_all (\<lambda>c. \<not> is_ws c \<and> \<not> line_end c) token"
  shows "bearerToken headers = Some token"
proof -
  have plain: "dropWhile is_ws s = s" if "list_all (\<lambda>c. \<not> is_ws c \<and> \<not> line_end c) s" for s
    using that by (cases s) simp_all
  have "is_ws 66 = False" by (simp add: is_ws_def)
  moreover have "list_all (\<lambda>c. \<not> is_ws c \<and> \<not> line_end c) (rev token)" using assms(3) by simp
  ultimately have t: "trim token = token" "trim (js ''Bearer '' @ token) = js ''Bearer '' @ token"
    using plain [OF assms(3)] plain [of "rev token"] assms(2)
    by (simp_all add: trim_def) (cases "rev token"; simp)
  have "hd token \<noteq> 32" using assms(2,3) by (cases token) (auto simp: is_ws_def)
  then have "scheme_rest (js ''bearer'') (js ''Bearer '' @ token) = Some token"
    using assms(2,3) by (cases token) (simp_all add: scheme_rest_def lower_unit_def is_upper_def line_end_def list_all_iff)
  then show ?thesis using assms(1,2) t by (simp add: bearerToken_def truthy_def split: list.splits)
qed

lemma bearer_minted:
  assumes "headers (js ''authorization'') = Some (js ''Bearer '' @ fst (mintAgentToken env g now))"
  shows "bearerToken headers = Some (fst (mintAgentToken env g now))"
  using assms
  by (rule bearer_given) (auto simp: mintAgentToken_def signJwt_def Let_def dot_texts(3) list_all_iff is_ws_def line_end_def
      dest: token_units)

definition demo_client :: agent_client_row where
  "demo_client = \<lparr>ac_clientId = js ''cli'', ac_orgId = js ''org'', ac_host = js ''titan'', ac_name = js ''bob'',
     ac_secretHash = sha256hex demo_crypto (js ''s''), ac_createdAt = 0, ac_lastUsedAt = None, ac_revokedAt = None\<rparr>"

definition demo_titan :: host_row where
  "demo_titan = \<lparr>h_id = js ''hst_1'', h_orgId = js ''org'', h_slug = js ''titan'', h_tokenHash = [],
     h_tokenIssuedAt = 0, h_daemonVer = [], h_lastSeenAt = None, h_revokedAt = None\<rparr>"

definition demo_member :: member_row where
  "demo_member = \<lparr>mem_organizationId = js ''org'', mem_userId = js ''usr'', mem_role = js ''owner'', mem_createdAt = 0\<rparr>"

definition demo_tenants :: d1 where
  "demo_tenants = empty_d1\<lparr>members := [demo_member], hosts := [demo_titan], agent_clients := [demo_client]\<rparr>"

definition demo_claims :: json_object where
  "demo_claims = agent_claims \<lparr>tk_crypto = demo_crypto, tk_secret = [], tk_url = []\<rparr> (grant_of demo_client) 7"

definition demo_token_env :: token_env where
  "demo_token_env = \<lparr>tk_crypto = demo_crypto\<lparr>cy_parse := (\<lambda>_. Some (JObj demo_claims))\<rparr>, tk_secret = [], tk_url = []\<rparr>"

definition demo_form :: "(jstr \<times> jstr) list" where
  "demo_form = [(js ''grant_type'', js ''client_credentials''), (js ''client_id'', js ''cli''), (js ''client_secret'', js ''s'')]"

definition demo_token :: jstr where
  "demo_token = fst (mintAgentToken demo_token_env (grant_of demo_client) 7000)"

lemma demo_json: "c \<in> set (agent_clients demo_tenants) \<Longrightarrow>
    json_comes_back (tk_crypto demo_token_env) (agent_claims demo_token_env (grant_of c) (7000 div 1000))"
proof -
  assume "c \<in> set (agent_clients demo_tenants)"
  then have c: "c = demo_client" by (simp add: demo_tenants_def)
  have "list_all (\<lambda>c. c < 128) (js ''c'')" by (simp add: js_def)
  then have "decodable (js ''c'')" using ascii_well_formed by (simp add: decodable_def)
  moreover have "agent_claims demo_token_env (grant_of c) 7 = demo_claims"
    by (simp add: c demo_claims_def demo_token_env_def agent_claims_def del: js_simps)
  ultimately show ?thesis by (simp add: json_comes_back_def demo_token_env_def demo_crypto_def del: js_simps)
qed

lemma demo_row: "live_client demo_tenants (\<lambda>c. ac_clientId c = js ''cli'') = Some (demo_client, demo_titan)"
    "live_client demo_tenants (\<lambda>c. ac_clientId c = js ''cli'' \<and> ac_secretHash c = sha256hex (tk_crypto demo_token_env) (js ''s''))
      = Some (demo_client, demo_titan)"
  by (simp_all add: live_client_def demo_tenants_def demo_client_def demo_titan_def is_null_def demo_token_env_def
      sha256hex_def demo_crypto_def del: js_simps)

lemma demo_issued: "\<exists>db'. handleTokenRequest demo_token_env (js ''POST'') (\<lambda>_. None) (Some demo_form) 7000 demo_tenants
    = (db', TokenIssued demo_token 3600)"
proof -
  have basic: "basicCredentials (\<lambda>_. None) = None"
    by (simp add: basicCredentials_def scheme_rest_def)
  have fields: "map_of demo_form (js ''grant_type'') = Some (js ''client_credentials'')"
      "map_of demo_form (js ''scope'') = None" "given_credentials None demo_form = (js ''cli'', js ''s'')"
    by (simp_all add: demo_form_def given_credentials_def js_inj del: js_simps)
  have "js ''cli'' \<noteq> []" "js ''s'' \<noteq> []" by (simp_all add: js_def)
  then show ?thesis
    using demo_row(2)
    by (simp add: handleTokenRequest_def basic fields Let_def demo_token_def split_def mintAgentToken_def AGENT_TOKEN_TTL_SECONDS_def del: js_simps)
qed

definition demo_headers :: headers where
  "demo_headers key = (if key = js ''authorization'' then Some (js ''Bearer '' @ demo_token) else None)"

lemma issued_token_is_its_client_witness:
  "resolvePrincipal demo_token_env demo_tenants demo_headers None 8000 =
     Inr \<lparr>pn_org = js ''org'', pn_host = Some (js ''titan''), pn_hostId = Some (js ''hst_1''), pn_name = Some (js ''bob''),
       pn_credential = AgentClient, pn_clientId = Some (js ''cli''), pn_scope = None, pn_userId = None\<rparr>"
proof -
  obtain db' where issued: "handleTokenRequest demo_token_env (js ''POST'') (\<lambda>_. None) (Some demo_form) 7000 demo_tenants
      = (db', TokenIssued demo_token 3600)" using demo_issued by blast
  have bearer: "bearerToken demo_headers = Some demo_token"
    unfolding demo_token_def by (rule bearer_minted) (simp add: demo_headers_def demo_token_def del: js_simps)
  obtain c where c: "c \<in> set (agent_clients demo_tenants)"
    "resolvePrincipal demo_token_env demo_tenants demo_headers None 8000 =
      (case live_client demo_tenants (\<lambda>r. ac_clientId r = ac_clientId c) of
           None \<Rightarrow> Inl Unauthorized
         | Some (r, h) \<Rightarrow> Inr \<lparr>pn_org = ac_orgId r, pn_host = Some (ac_host r), pn_hostId = Some (h_id h),
             pn_name = Some (ac_name r), pn_credential = AgentClient, pn_clientId = Some (ac_clientId c), pn_scope = None,
             pn_userId = None\<rparr>)"
    using issued_token_is_its_client [OF demo_json issued bearer, of demo_tenants None 8000] by auto
  then have "c = demo_client" by (simp add: demo_tenants_def)
  then show ?thesis unfolding c(2) using demo_row(1) by (simp add: demo_client_def demo_titan_def del: js_simps)
qed

definition demo_person :: mcp_principal where
  "demo_person = \<lparr>pn_org = js ''org'', pn_host = None, pn_hostId = None, pn_name = None, pn_credential = UserSession,
     pn_clientId = None, pn_scope = None, pn_userId = Some (js ''usr'')\<rparr>"

lemma demo_session:
  assumes "members db = [demo_member]" "person_addresses db = []" "hosts db = [] \<or> (\<exists>h. hosts db = [h] \<and> h_revokedAt h \<noteq> None)"
  shows "resolvePrincipal demo_token_env db (\<lambda>key. if key = js ''authorization'' then Some (js ''Bearer '' @ js ''abc'') else None)
    (Some (\<lambda>_. Some (js ''usr'', None))) 9 = Inr demo_person"
proof -
  have "bearerToken (\<lambda>key. if key = js ''authorization'' then Some (js ''Bearer '' @ js ''abc'') else None) = Some (js ''abc'')"
    by (rule bearer_given) (simp_all add: js_def is_ws_def line_end_def)
  moreover have "\<not> looksLikeJwt (js ''abc'')" by (simp add: looksLikeJwt_def js_def)
  moreover have "authenticate_host sha t db = None" for sha t
    using assms(3) by (auto simp: authenticate_host_def is_null_def)
  ultimately show ?thesis
    by (simp add: resolvePrincipal_def resolveDeviceToken_def resolveUserSession_def assms(1,2) demo_member_def
        resolvePersonAddress_def demo_person_def truthy_def Let_def del: js_simps)
qed

lemma caller_is_proved_witness: "\<exists>m. m \<in> set (members (empty_d1\<lparr>members := [demo_member]\<rparr>)) \<and> mem_organizationId m = js ''org''"
proof -
  let ?db = "empty_d1\<lparr>members := [demo_member]\<rparr>"
  have "members ?db = [demo_member]" "person_addresses ?db = []" "hosts ?db = []" by (simp_all add: empty_d1_def)
  from caller_is_proved [OF demo_session [OF this(1,2) disjI1 [OF this(3)]]] show ?thesis
    by (auto simp: demo_person_def simp del: js_simps)
qed

lemma revoked_host_has_no_callers_witness:
  "\<exists>db' hubs' effs. revoke_host (demo_enroll_env 5) (demo_env 5) (Some (js ''org'')) (js ''titan'') (demo_tenants, []) =
       ((db', hubs'), effs, Inr ()) \<and>
     (\<exists>p headers session. resolvePrincipal demo_token_env db' headers (Some session) 9 = Inr p \<and>
        (pn_org p \<noteq> js ''org'' \<or> pn_host p \<noteq> Some (js ''titan'')))"
proof -
  let ?db' = "demo_tenants\<lparr>hosts := [demo_titan\<lparr>h_revokedAt := Some 5\<rparr>]\<rparr>"
  have titan: "validateHost (js ''titan'') = Inr ()" "js ''titan'' \<noteq> PERSON_HOST_SLUG" by code_simp+
  obtain hubs' effs where r: "revoke_host (demo_enroll_env 5) (demo_env 5) (Some (js ''org'')) (js ''titan'') (demo_tenants, []) =
       ((?db', hubs'), effs, Inr ())"
    using titan
    by (simp add: revoke_host_def split_def Let_def demo_tenants_def demo_titan_def is_null_def update_where_def demo_enroll_env_def
        del: js_simps)
  have "members ?db' = [demo_member]" "person_addresses ?db' = []"
      "hosts ?db' = [] \<or> (\<exists>h. hosts ?db' = [h] \<and> h_revokedAt h \<noteq> None)"
    by (simp_all add: demo_tenants_def empty_d1_def)
  note s = demo_session [OF this]
  from r s revoked_host_has_no_callers [OF r s] show ?thesis by blast
qed

end
