(* ===== verification/Mcp.thy ===== *)
theory Mcp
  imports Site_Tools Principal Js_Date
begin

text \<open>
  \<^verbatim>\<open>src/mcp/dispatch.ts\<close> and \<^verbatim>\<open>src/mcp/http.ts\<close>: the tools of the MCP endpoint, run on a site for a
  principal, and the JSON-RPC requests that carry them. A tool that acts does so through the hub of the
  principal's host; the two listings and \<open>claim_name\<close> go to the database.
\<close>

text \<open>Beside what the site uses: the tokens, the ids that are drawn.\<close>

record mcp_env =
  mc_site :: site_env
  mc_tokens :: token_env
  mc_txId :: jstr
  mc_freshId :: jstr

section \<open>Arguments\<close>

definition required :: "json_object \<Rightarrow> string \<Rightarrow> jstr site_op" where
  "required args key =
     (case truthy (text_param args key) of None \<Rightarrow> throw_op (js key @ js '' is required'') | Some v \<Rightarrow> return_op v)"

definition optional :: "json_object \<Rightarrow> string \<Rightarrow> jstr option site_op" where
  "optional args key =
     (case map_of args (js key) of
        None \<Rightarrow> return_op None | Some JNull \<Rightarrow> return_op None
      | Some (JStr v) \<Rightarrow> return_op (truthy (Some v))
      | Some _ \<Rightarrow> throw_op (js key @ js '' must be a string''))"

text \<open>\<open>Number\<close> of a text: white space around a decimal or a prefixed integer; \<open>None\<close> is not a finite number.\<close>

definition digits_value :: "nat \<Rightarrow> jstr \<Rightarrow> nat option" where
  "digits_value radix s =
     (if s = [] then None
      else fold (\<lambda>c acc. case (acc, hex_digit c) of (Some n, Some d) \<Rightarrow> if d < radix then Some (n * radix + d) else None | _ \<Rightarrow> None)
        s (Some 0))"

definition split_first :: "unit16 \<Rightarrow> jstr \<Rightarrow> jstr \<times> jstr option" where
  "split_first c s = (case index_of c s of None \<Rightarrow> (s, None) | Some i \<Rightarrow> (take i s, Some (drop (i + 1) s)))"

definition unsigned_decimal :: "jstr \<Rightarrow> rat option" where
  "unsigned_decimal s =
     (let (mantissa, exponent) = split_first 101 (map lower_unit s); (whole, fraction) = split_first 46 mantissa;
          f = (case fraction of None \<Rightarrow> [] | Some f \<Rightarrow> f)
      in if whole = [] \<and> f = [] then None
      else (case (digits_value 10 (whole @ f),
          case exponent of None \<Rightarrow> Some 0
          | Some (c # e) \<Rightarrow>
              if c = 45 then map_option (\<lambda>n. - int n) (digits_value 10 e)
              else map_option int (digits_value 10 (if c = 43 then e else c # e))
          | Some [] \<Rightarrow> None) of
        (Some m, Some e) \<Rightarrow> Some (of_nat m * (if 0 \<le> e then 10 ^ nat e else 1 / 10 ^ nat (- e)) / 10 ^ length f)
      | _ \<Rightarrow> None))"

definition number_text :: "jstr \<Rightarrow> rat option" where
  "number_text text' =
     (let s = trim text'; p = map lower_unit (take 2 s) in
      if s = [] then Some 0
      else if p = js ''0x'' then map_option of_nat (digits_value 16 (drop 2 s))
      else if p = js ''0o'' then map_option of_nat (digits_value 8 (drop 2 s))
      else if p = js ''0b'' then map_option of_nat (digits_value 2 (drop 2 s))
      else if take 1 s = [45] then map_option uminus (unsigned_decimal (drop 1 s))
      else if take 1 s = [43] then unsigned_decimal (drop 1 s)
      else unsigned_decimal s)"

text \<open>What is too large for a double is infinite.\<close>

definition finite_number :: "rat \<Rightarrow> rat option" where
  "finite_number q = (if \<bar>q\<bar> < 2 ^ 1024 - 2 ^ 970 then Some q else None)"

text \<open>An array is read through its text, so one of a single element is that element.\<close>

fun number_of :: "json \<Rightarrow> rat option" where
  "number_of JNull = Some 0"
| "number_of (JBool b) = Some (if b then 1 else 0)"
| "number_of (JNum q) = Some q"
| "number_of (JInfinite _) = None"
| "number_of (JStr s) = Option.bind (number_text s) finite_number"
| "number_of (JArr []) = Some 0"
| "number_of (JArr [v]) = (case v of JBool _ \<Rightarrow> None | _ \<Rightarrow> number_of v)"
| "number_of (JArr (_ # _ # _)) = None"
| "number_of (JObj _) = None"

definition count_param :: "json_object \<Rightarrow> string \<Rightarrow> rat option" where
  "count_param args key =
     (case map_of args (js key) of
        None \<Rightarrow> None | Some JNull \<Rightarrow> None | Some (JStr []) \<Rightarrow> None | Some v \<Rightarrow> number_of v)"


section \<open>Who acts\<close>

definition unclaimed :: "mcp_principal \<Rightarrow> string \<Rightarrow> jstr" where
  "unclaimed p lead =
     (if pn_credential p = UserSession
      then js lead @ js '', and you have not claimed a Transit address yet; call claim_name with the name you want to be known by, then this tool works''
      else js lead @ js '', and this credential is not bound to a host'')"

definition identityOf :: "mcp_principal \<Rightarrow> host_identity site_op" where
  "identityOf p =
     (case (truthy (pn_host p), truthy (pn_hostId p)) of
        (Some host, Some hid) \<Rightarrow> return_op \<lparr>hi_hostId = hid, hi_org = pn_org p, hi_slug = host\<rparr>
      | _ \<Rightarrow> throw_op (unclaimed p ''this tool acts from a host''))"

definition actor :: "mcp_principal \<Rightarrow> jstr site_op" where
  "actor p =
     (if truthy (pn_host p) = None then throw_op (unclaimed p ''this tool acts as an agent'')
      else bind_op (lift_op (thrown (principalAddress p))) (\<lambda>address.
        case truthy address of Some a \<Rightarrow> return_op a
        | None \<Rightarrow> throw_op (js ''this tool acts as an agent, and this credential does not name one; send an X-Transit-Agent header with your agent name'')))"

definition own_hub :: "host_identity \<Rightarrow> jstr" where
  "own_hub identity = hub_name (hi_org identity) (hi_slug identity)"

definition rpc :: "mcp_env \<Rightarrow> mcp_principal \<Rightarrow> string \<Rightarrow> json_object \<Rightarrow> tool_result site_op" where
  "rpc env p method params =
     bind_op (identityOf p) (\<lambda>identity.
     bind_op (reached (mc_site env) (own_hub identity)
         (callRpc (mc_site env) (own_hub identity) identity (js method) params)) lift_op)"


section \<open>The tools\<close>

text \<open>A tool's text, which for some is the JSON of what the hub answered.\<close>

datatype mcp_text = PlainText jstr | JsonText tool_result

datatype tool_answer = Answered mcp_text | Failed jstr

definition renderInbox :: "inbox_entry list \<Rightarrow> jstr" where
  "renderInbox waiting =
     (if waiting = [] then js ''No messages waiting.'' else join_with [10, 10] (map ib_envelope waiting))"

definition with_some :: "string \<Rightarrow> jstr option \<Rightarrow> json_object" where
  "with_some key v = (case v of None \<Rightarrow> [] | Some s \<Rightarrow> [(js key, JStr s)])"

definition mcp_send_message :: "mcp_env \<Rightarrow> mcp_principal \<Rightarrow> json_object \<Rightarrow> mcp_text site_op" where
  "mcp_send_message env p args =
     bind_op (required args ''to'') (\<lambda>to.
     bind_op (actor p) (\<lambda>from'.
     bind_op (identityOf p) (\<lambda>identity.
     bind_op (required args ''message'') (\<lambda>body.
     bind_op (optional args ''reply_to'') (\<lambda>replyTo.
     bind_op (reached (mc_site env) (own_hub identity) (submitSend (mc_site env) (own_hub identity) identity
         \<lparr>sf_id = mc_txId env, sf_from = from', sf_to = to, sf_body = body, sf_reply_to = replyTo,
          sf_ts = toISOString (sv_now (mc_site env))\<rparr>)) (\<lambda>outcome.
     case outcome of
       Refused code \<Rightarrow> throw_op (js ''send rejected: '' @ nak_code_text code)
     | Admitted \<Rightarrow> return_op (PlainText (js ''Message '' @ mc_txId env @ js '' to '' @ to @ js '': sent''))))))))"

definition mcp_read_message :: "mcp_env \<Rightarrow> mcp_principal \<Rightarrow> json_object \<Rightarrow> mcp_text site_op" where
  "mcp_read_message env p args =
     bind_op (required args ''id'') (\<lambda>ident.
     bind_op (if is_dlv ident then bind_op (actor p) (\<lambda>a. return_op (Some a)) else return_op None) (\<lambda>caller.
     bind_op (rpc env p ''read_message'' ((js ''id'', JStr ident) # with_some ''caller'' caller)) (\<lambda>r.
     case r of TextResult t \<Rightarrow> return_op (PlainText t)
     | _ \<Rightarrow> throw_op (js ''read_message returned an invalid result''))))"

definition mcp_chat_reply :: "mcp_env \<Rightarrow> mcp_principal \<Rightarrow> json_object \<Rightarrow> mcp_text site_op" where
  "mcp_chat_reply env p args =
     bind_op (required args ''delivery_id'') (\<lambda>deliveryId.
     bind_op (required args ''conversation_id'') (\<lambda>conversationId.
     bind_op (required args ''message'') (\<lambda>message.
     bind_op (actor p) (\<lambda>caller.
     bind_op (optional args ''reply_mode'') (\<lambda>mode.
     bind_op (rpc env p ''chat_reply'' ([(js ''delivery_id'', JStr deliveryId), (js ''conversation_id'', JStr conversationId),
         (js ''message'', JStr message), (js ''caller'', JStr caller)] @ with_some ''reply_mode'' mode)) (\<lambda>r.
     return_op (JsonText r)))))))"

definition mcp_mark_handled :: "mcp_env \<Rightarrow> mcp_principal \<Rightarrow> json_object \<Rightarrow> mcp_text site_op" where
  "mcp_mark_handled env p args =
     bind_op (required args ''delivery_id'') (\<lambda>deliveryId.
     bind_op (actor p) (\<lambda>caller.
     bind_op (rpc env p ''mark_handled'' [(js ''delivery_id'', JStr deliveryId), (js ''caller'', JStr caller)]) (\<lambda>r.
     return_op (JsonText r))))"

definition mcp_read_inbox :: "mcp_env \<Rightarrow> mcp_principal \<Rightarrow> mcp_text site_op" where
  "mcp_read_inbox env p =
     bind_op (actor p) (\<lambda>caller.
     bind_op (rpc env p ''read_inbox'' [(js ''caller'', JStr caller)]) (\<lambda>r.
     case r of InboxResult waiting \<Rightarrow> return_op (PlainText (renderInbox waiting)) | _ \<Rightarrow> return_op (JsonText r)))"

definition mcp_read_room :: "mcp_env \<Rightarrow> mcp_principal \<Rightarrow> json_object \<Rightarrow> mcp_text site_op" where
  "mcp_read_room env p args =
     bind_op (required args ''room'') (\<lambda>room.
     bind_op (actor p) (\<lambda>caller.
     bind_op (rpc env p ''read_room'' ([(js ''room'', JStr room), (js ''caller'', JStr caller)] @
         (case count_param args ''limit'' of None \<Rightarrow> [] | Some n \<Rightarrow> [(js ''limit'', JNum n)]))) (\<lambda>r.
     return_op (JsonText r))))"

definition mcp_list_agents :: "mcp_env \<Rightarrow> mcp_principal \<Rightarrow> json_object \<Rightarrow> mcp_text site_op" where
  "mcp_list_agents env p args =
     bind_op (optional args ''host'') (\<lambda>host.
     bind_op (optional args ''organization'') (\<lambda>organization.
     bind_op (bind_op (read_op (\<lambda>s. listAgents (sv_before (mc_site env)) (si_db s) (pn_org p) host organization)) lift_service)
       (\<lambda>l. return_op (JsonText (AgentsResult l)))))"

definition mcp_list_rooms :: "mcp_env \<Rightarrow> mcp_principal \<Rightarrow> json_object \<Rightarrow> mcp_text site_op" where
  "mcp_list_rooms env p args =
     bind_op (optional args ''organization'') (\<lambda>organization.
     bind_op (bind_op (read_op (\<lambda>s. listRooms (si_db s) (pn_org p) organization None (sv_now (mc_site env)))) lift_service)
       (\<lambda>l. return_op (JsonText (RoomsResult l))))"

definition mcp_create_room :: "mcp_env \<Rightarrow> mcp_principal \<Rightarrow> json_object \<Rightarrow> mcp_text site_op" where
  "mcp_create_room env p args =
     bind_op (optional args ''policy'') (\<lambda>policy.
     bind_op (required args ''name'') (\<lambda>room.
     bind_op (actor p) (\<lambda>address.
     bind_op (rpc env p ''create_room'' ([(js ''room'', JStr room), (js ''address'', JStr address)] @ with_some ''policy'' policy))
       (\<lambda>r. return_op (JsonText r)))))"

definition mcp_membership :: "mcp_env \<Rightarrow> mcp_principal \<Rightarrow> string \<Rightarrow> json_object \<Rightarrow> mcp_text site_op" where
  "mcp_membership env p tool args =
     bind_op (required args ''room'') (\<lambda>room.
     bind_op (actor p) (\<lambda>address.
     bind_op (rpc env p tool [(js ''room'', JStr room), (js ''address'', JStr address)]) (\<lambda>_.
     return_op (PlainText (js tool @ js '' '' @ room)))))"

definition mcp_whoami :: "mcp_env \<Rightarrow> mcp_principal \<Rightarrow> mcp_text site_op" where
  "mcp_whoami env p =
     (case truthy (pn_host p) of
        None \<Rightarrow> return_op (PlainText (js ''signed-in person (organization '' @ pn_org p @
          js ''); no Transit address yet '' @ [0x2014] @ js '' call claim_name with the name you want to be known by''))
      | Some host \<Rightarrow>
          bind_op (identityOf p) (\<lambda>identity.
          bind_op (reached (mc_site env) (own_hub identity) (hub_read (own_hub identity) status)) (\<lambda>st.
          bind_op (lift_op (thrown (principalAddress p))) (\<lambda>address.
          return_op (PlainText ((case address of Some a \<Rightarrow> a | None \<Rightarrow> js ''(unnamed)'' @ [AT] @ host) @ js '' (connected: '' @
            js (if hs_connected st then ''true'' else ''false'') @ js '')''))))))"

definition claim_at :: "mcp_env \<Rightarrow> jstr \<Rightarrow> jstr \<Rightarrow> jstr \<Rightarrow> person_address site_op" where
  "claim_at env org user name s =
     (let (db, r) = claimPersonAddress (si_db s) org user name (mc_freshId env) (sv_now (mc_site env))
      in lift_service r (s\<lparr>si_db := db\<rparr>))"

definition mcp_claim_name :: "mcp_env \<Rightarrow> mcp_principal \<Rightarrow> json_object \<Rightarrow> mcp_text site_op" where
  "mcp_claim_name env p args =
     (if pn_credential p = UserSession then
        (case truthy (pn_userId p) of None \<Rightarrow> throw_op (js ''this credential has no signed-in person'')
         | Some user \<Rightarrow>
             bind_op (required args ''name'') (\<lambda>name.
             bind_op (claim_at env (pn_org p) user name) (\<lambda>a.
             return_op (PlainText (ps_name a @ [AT] @ ps_host a)))))
      else throw_op (js ''claim_name is a local-session operation; over MCP an agent's name comes from its credential and is changed by reissuing that credential''))"

definition runTool :: "mcp_env \<Rightarrow> mcp_principal \<Rightarrow> jstr \<Rightarrow> json_object \<Rightarrow> mcp_text site_op" where
  "runTool env p name args =
     (if name = js ''send_message'' then mcp_send_message env p args
      else if name = js ''read_message'' then mcp_read_message env p args
      else if name = js ''chat_reply'' then mcp_chat_reply env p args
      else if name = js ''mark_handled'' then mcp_mark_handled env p args
      else if name = js ''read_inbox'' then mcp_read_inbox env p
      else if name = js ''read_room'' then mcp_read_room env p args
      else if name = js ''list_agents'' then mcp_list_agents env p args
      else if name = js ''list_rooms'' then mcp_list_rooms env p args
      else if name = js ''create_room'' then mcp_create_room env p args
      else if name = js ''join_room'' then mcp_membership env p ''join_room'' args
      else if name = js ''leave_room'' then mcp_membership env p ''leave_room'' args
      else if name = js ''whoami'' then mcp_whoami env p
      else if name = js ''claim_name'' then mcp_claim_name env p args
      else throw_op (js ''unknown tool: '' @ name))"

definition callTool :: "mcp_env \<Rightarrow> mcp_principal \<Rightarrow> jstr \<Rightarrow> json_object \<Rightarrow> tool_answer site_op" where
  "callTool env p name args =
     try_op (bind_op (runTool env p name args) (\<lambda>t. return_op (Answered t)))
       (\<lambda>message. return_op (Failed (js ''Error: '' @ message)))"


section \<open>JSON-RPC\<close>

definition MAX_BATCH_SIZE :: nat where "MAX_BATCH_SIZE = 32"

definition PREFERRED_PROTOCOL_VERSION :: jstr where "PREFERRED_PROTOCOL_VERSION = js ''2025-06-18''"

definition SUPPORTED_PROTOCOL_VERSIONS :: "jstr list" where
  "SUPPORTED_PROTOCOL_VERSIONS = [js ''2024-11-05'', js ''2025-03-26'', js ''2025-06-18'', js ''2026-07-28'']"

datatype rpc_result = Initialized jstr | Pong | ToolList | ToolOutcome tool_answer

datatype rpc_response = RpcResult json rpc_result | RpcError json int jstr

text \<open>A request: its id (\<open>None\<close> for a notification), its method and its parameters.\<close>

record rpc_request =
  rr_id :: "json option"
  rr_method :: jstr
  rr_params :: "json option"

definition isRequest :: "json \<Rightarrow> rpc_request option" where
  "isRequest v =
     (case v of
        JObj obj \<Rightarrow>
          (case map_of obj (js ''method'') of
             Some (JStr m) \<Rightarrow> Some \<lparr>rr_id = map_of obj (js ''id''), rr_method = m, rr_params = map_of obj (js ''params'')\<rparr>
           | _ \<Rightarrow> None)
      | _ \<Rightarrow> None)"

text \<open>A property of a value that may be anything; only objects have any of those asked for.\<close>

definition property_of :: "json option \<Rightarrow> string \<Rightarrow> json option" where
  "property_of v key = (case v of Some (JObj obj) \<Rightarrow> map_of obj (js key) | _ \<Rightarrow> None)"

definition argumentsOf :: "json option \<Rightarrow> json_object" where
  "argumentsOf params = (case property_of params ''arguments'' of Some (JObj obj) \<Rightarrow> obj | _ \<Rightarrow> [])"

definition negotiateVersion :: "json option \<Rightarrow> jstr" where
  "negotiateVersion params =
     (case property_of params ''protocolVersion'' of
        Some (JStr v) \<Rightarrow> if v \<in> set SUPPORTED_PROTOCOL_VERSIONS then v else PREFERRED_PROTOCOL_VERSION
      | _ \<Rightarrow> PREFERRED_PROTOCOL_VERSION)"

definition handleRequest :: "mcp_env \<Rightarrow> mcp_principal \<Rightarrow> rpc_request \<Rightarrow> rpc_response option site_op" where
  "handleRequest env p request =
     (case rr_id request of
        None \<Rightarrow> return_op None
      | Some ident \<Rightarrow>
          if rr_method request = js ''initialize'' then
            return_op (Some (RpcResult ident (Initialized (negotiateVersion (rr_params request)))))
          else if rr_method request = js ''ping'' then return_op (Some (RpcResult ident Pong))
          else if rr_method request = js ''tools/list'' then return_op (Some (RpcResult ident ToolList))
          else if rr_method request = js ''tools/call'' then
            (case property_of (rr_params request) ''name'' of
               Some (JStr name) \<Rightarrow>
                 bind_op (callTool env p name (argumentsOf (rr_params request))) (\<lambda>answer.
                   return_op (Some (RpcResult ident (ToolOutcome answer))))
             | _ \<Rightarrow> return_op (Some (RpcError ident (-32602) (js ''tool name is required''))))
          else return_op (Some (RpcError ident (-32601) (js ''method not found: '' @ rr_method request))))"

definition handle_entry :: "mcp_env \<Rightarrow> mcp_principal \<Rightarrow> json \<Rightarrow> rpc_response option site_op" where
  "handle_entry env p entry =
     (case isRequest entry of
        None \<Rightarrow> return_op (Some (RpcError JNull (-32600) (js ''invalid request'')))
      | Some request \<Rightarrow>
          try_op (handleRequest env p request)
            (\<lambda>message. return_op (map_option (\<lambda>ident. RpcError ident (-32603) message) (rr_id request))))"

text \<open>Every entry of a batch has a clock and fresh ids of its own.\<close>

fun handle_entries :: "(nat \<Rightarrow> mcp_env) \<Rightarrow> nat \<Rightarrow> mcp_principal \<Rightarrow> json list \<Rightarrow> rpc_response list site_op" where
  "handle_entries envs k p [] = return_op []"
| "handle_entries envs k p (entry # rest) =
     bind_op (handle_entry (envs k) p entry) (\<lambda>response.
     bind_op (handle_entries envs (k + 1) p rest) (\<lambda>responses.
     return_op (case response of None \<Rightarrow> responses | Some r \<Rightarrow> r # responses)))"

datatype mcp_response =
  MethodNotAllowed
| NotAuthorized
| BadAgent jstr
| BadRequest rpc_response
| Accepted
| OneResponse rpc_response
| Responses "rpc_response list"

text \<open>\<open>body\<close> is the body as \<open>request.json()\<close> reads it, \<open>None\<close> when that throws.\<close>

definition handleMcp ::
  "(nat \<Rightarrow> mcp_env) \<Rightarrow> mcp_session option \<Rightarrow> jstr \<Rightarrow> headers \<Rightarrow> json option \<Rightarrow> mcp_response site_op" where
  "handleMcp envs mcpSession method headers body =
     (if method \<noteq> js ''POST'' then return_op MethodNotAllowed
      else bind_op (read_op (\<lambda>s. resolvePrincipal (mc_tokens (envs 0)) (si_db s) headers mcpSession (sv_now (mc_site (envs 0))))) (\<lambda>resolution.
      case resolution of
        Inl (InvalidAgent message) \<Rightarrow> return_op (BadAgent message)
      | Inl Unauthorized \<Rightarrow> return_op NotAuthorized
      | Inr p \<Rightarrow>
          (case body of None \<Rightarrow> return_op (BadRequest (RpcError JNull (-32700) (js ''parse error'')))
           | Some payload \<Rightarrow>
               let batch = (case payload of JArr _ \<Rightarrow> True | _ \<Rightarrow> False);
                   entries = (case payload of JArr es \<Rightarrow> es | v \<Rightarrow> [v])
               in if batch \<and> entries = [] then return_op (BadRequest (RpcError JNull (-32600) (js ''empty batch'')))
               else if MAX_BATCH_SIZE < length entries
               then return_op (BadRequest (RpcError JNull (-32600) (js ''batch exceeds 32 requests'')))
               else bind_op (handle_entries envs 0 p entries) (\<lambda>responses. return_op
                 (case responses of [] \<Rightarrow> Accepted | r # rs \<Rightarrow> if batch then Responses responses else OneResponse r)))))"

end
