(* ===== verification/Mcp_Properties.thy ===== *)
theory Mcp_Properties
  imports Mcp Site_Access Principal_Properties
begin

text \<open>
  What a caller of the MCP endpoint can bring about: the step relation \<open>mcp_step\<close> of one tool call, in which
  every request to a hub is made as the caller, and \<open>mcp_trace\<close> of one HTTP request.
\<close>

section \<open>Steps\<close>

definition own_identity :: "mcp_principal \<Rightarrow> host_identity \<Rightarrow> bool" where
  "own_identity p identity \<longleftrightarrow> hi_org identity = pn_org p \<and> pn_host p = Some (hi_slug identity) \<and>
     pn_hostId p = Some (hi_hostId identity)"

definition acts_as :: "mcp_principal \<Rightarrow> json_object \<Rightarrow> bool" where
  "acts_as p params \<longleftrightarrow> (\<forall>key \<in> {''caller'', ''address''}.
     text_param params key = None \<or> (\<exists>a. text_param params key = Some a \<and> principalAddress p = Inr (Some a)))"

inductive mcp_step :: "mcp_env \<Rightarrow> mcp_principal \<Rightarrow> site \<Rightarrow> site \<Rightarrow> bool" for env p where
  idle: "mcp_step env p s s"
| claim: "pn_credential p = UserSession \<Longrightarrow> pn_userId p = Some user \<Longrightarrow>
    mcp_step env p s (s\<lparr>si_db := fst (claimPersonAddress (si_db s) (pn_org p) user name (mc_freshId env) (sv_now (mc_site env)))\<rparr>)"
| send: "own_identity p identity \<Longrightarrow> principalAddress p = Inr (Some (sf_from frame)) \<Longrightarrow> sf_id frame = mc_txId env \<Longrightarrow>
    mcp_step env p s (serve_site (mc_site env) (SubmitSend (own_hub identity) identity frame) s)"
| call: "own_identity p identity \<Longrightarrow> acts_as p params \<Longrightarrow>
    mcp_step env p s (serve_site (mc_site env) (CallTool (own_hub identity) identity method params) s)"

inductive mcp_trace :: "(nat \<Rightarrow> mcp_env) \<Rightarrow> mcp_principal \<Rightarrow> nat \<Rightarrow> site \<Rightarrow> site \<Rightarrow> bool" for envs p where
  start: "mcp_trace envs p 0 s s"
| step: "mcp_trace envs p k s s1 \<Longrightarrow> mcp_step (envs k) p s1 s2 \<Longrightarrow> mcp_trace envs p (Suc k) s s2"

text \<open>One action, after reading and before answering.\<close>

definition pure :: "'a site_op \<Rightarrow> bool" where
  "pure m \<longleftrightarrow> (\<forall>s. fst (m s) = s)"

lemma pure_leaves:
  "pure (return_op a)" "pure (throw_op e)" "pure (lift_op r)" "pure (read_op f)" "pure (hub_read n g)"
  "pure (required args key)" "pure (optional args key)" "pure (lift_service l)" "pure (identityOf p)" "pure (actor p)"
proof -
  show "pure (return_op a)" "pure (throw_op e)" "pure (lift_op r)" "pure (read_op f)" "pure (hub_read n g)"
      "pure (required args key)" "pure (optional args key)" "pure (lift_service l)" "pure (identityOf p)"
    by (simp_all add: pure_def hub_read_def required_def optional_def lift_service_def identityOf_def op_simps
        split: option.splits json.splits)
  show "pure (actor p)" by (simp add: pure_def actor_def bind_op_def op_simps split: sum.splits option.splits)
qed

lemma pure_bind: "pure m \<Longrightarrow> (\<And>a. pure (f a)) \<Longrightarrow> pure (bind_op m f)"
  unfolding pure_def bind_op_def by (auto split: prod.splits sum.splits) (metis fst_conv)+

lemma pure_reached: "pure m \<Longrightarrow> pure (reached env n m)"
  by (simp add: reached_def pure_leaves split: option.splits)

abbreviation does :: "mcp_env \<Rightarrow> mcp_principal \<Rightarrow> 'a site_op \<Rightarrow> bool" where
  "does env p \<equiv> keeps (mcp_step env p)"

lemma does_pure: "pure m \<Longrightarrow> does env p m"
  by (simp add: pure_def keeps_def mcp_step.idle)

lemma does_first: "pure m \<Longrightarrow> (\<And>a. does env p (f a)) \<Longrightarrow> does env p (bind_op m f)"
  unfolding pure_def keeps_def bind_op_def
  by (auto split: prod.splits sum.splits intro: mcp_step.idle) (metis fst_conv mcp_step.idle)+

lemma does_last: "does env p m \<Longrightarrow> (\<And>a. pure (f a)) \<Longrightarrow> does env p (bind_op m f)"
  unfolding pure_def keeps_def bind_op_def by (auto split: prod.splits sum.splits) (metis fst_conv)+

lemma does_reached: "does env p m \<Longrightarrow> does env p (reached senv n m)"
  by (simp add: reached_def does_pure pure_leaves split: option.splits)

lemma does_if: "does env p m \<Longrightarrow> does env p m' \<Longrightarrow> does env p (if b then m else m')"
  by simp

lemma does_actor: "(\<And>a. principalAddress p = Inr (Some a) \<Longrightarrow> does env p (f a)) \<Longrightarrow> does env p (bind_op (actor p) f)"
  unfolding actor_def keeps_def
  by (auto simp: bind_op_def op_simps thrown_def truthy_def intro: mcp_step.idle split: sum.splits option.splits list.splits)

lemma does_identity: "(\<And>i. own_identity p i \<Longrightarrow> does env p (f i)) \<Longrightarrow> does env p (bind_op (identityOf p) f)"
  unfolding identityOf_def keeps_def
  by (auto simp: bind_op_def op_simps own_identity_def truthy_def intro: mcp_step.idle split: option.splits list.splits)

lemma does_send:
  assumes "own_identity p i" "principalAddress p = Inr (Some (sf_from frame))" "sf_id frame = mc_txId env"
  shows "does env p (submitSend (mc_site env) (own_hub i) i frame)"
  using mcp_step.send [OF assms] by (simp add: keeps_def)

lemma does_rpc: "acts_as p params \<Longrightarrow> does env p (rpc env p method params)"
  unfolding rpc_def
  using mcp_step.call by (intro does_identity does_last does_reached) (auto simp: keeps_def pure_leaves)

lemma does_claim: "pn_credential p = UserSession \<Longrightarrow> pn_userId p = Some user \<Longrightarrow> does env p (claim_at env (pn_org p) user name)"
  using mcp_step.claim
  by (auto simp: keeps_def claim_at_def split_def Let_def lift_service_def op_simps)

lemmas does_rules = does_first does_last does_actor does_identity does_rpc does_claim does_pure pure_leaves pure_bind pure_reached

section \<open>The tools\<close>

lemma acts_as_params:
  assumes "principalAddress p = Inr (Some a)"
  shows "acts_as p [(js ''caller'', JStr a)]" "acts_as p [(js ''delivery_id'', JStr v), (js ''caller'', JStr a)]"
    "acts_as p ([(js ''room'', JStr v), (js ''caller'', JStr a)] @ (case n of None \<Rightarrow> [] | Some q \<Rightarrow> [(js ''limit'', JNum q)]))"
    "acts_as p ([(js ''room'', JStr v), (js ''address'', JStr a)] @ with_some ''policy'' mode)"
    "acts_as p [(js ''room'', JStr v), (js ''address'', JStr a)]"
    "acts_as p ([(js ''delivery_id'', JStr v), (js ''conversation_id'', JStr v'), (js ''message'', JStr v''), (js ''caller'', JStr a)]
       @ with_some ''reply_mode'' mode)"
  using assms
  by (auto simp: acts_as_def text_param_def with_some_def js_inj simp del: js_simps split: option.splits)

lemma acts_as_reader:
  "caller = None \<or> (\<exists>a. caller = Some a \<and> principalAddress p = Inr (Some a)) \<Longrightarrow>
   acts_as p ((js ''id'', JStr v) # with_some ''caller'' caller)"
  by (auto simp: acts_as_def text_param_def with_some_def js_inj simp del: js_simps)

lemma tools_act:
  "does env p (mcp_send_message env p args)" "does env p (mcp_read_message env p args)" "does env p (mcp_chat_reply env p args)"
  "does env p (mcp_mark_handled env p args)" "does env p (mcp_read_inbox env p)" "does env p (mcp_read_room env p args)"
  "does env p (mcp_list_agents env p args)" "does env p (mcp_list_rooms env p args)" "does env p (mcp_create_room env p args)"
  "does env p (mcp_membership env p tool args)" "does env p (mcp_whoami env p)" "does env p (mcp_claim_name env p args)"
proof -
  note first = does_first [OF pure_leaves(6)] does_first [OF pure_leaves(7)]
  show "does env p (mcp_send_message env p args)"
    unfolding mcp_send_message_def
    by (intro first does_actor does_identity does_last does_reached does_send) (auto simp: pure_leaves split: send_outcome.splits)
  show "does env p (mcp_chat_reply env p args)" "does env p (mcp_mark_handled env p args)" "does env p (mcp_read_inbox env p)"
      "does env p (mcp_read_room env p args)" "does env p (mcp_create_room env p args)" "does env p (mcp_membership env p tool args)"
    unfolding mcp_chat_reply_def mcp_mark_handled_def mcp_read_inbox_def mcp_read_room_def mcp_create_room_def mcp_membership_def
    by (intro first does_actor does_last does_rpc acts_as_params; auto simp: pure_leaves split: tool_result.splits)+
  have read: "does env p (bind_op (rpc env p ''read_message'' ((js ''id'', JStr ident) # with_some ''caller'' caller)) (\<lambda>r.
      case r of TextResult t \<Rightarrow> return_op (PlainText t) | _ \<Rightarrow> throw_op (js ''read_message returned an invalid result'')))"
    if "caller = None \<or> (\<exists>a. caller = Some a \<and> principalAddress p = Inr (Some a))" for ident caller
    using that by (intro does_last does_rpc acts_as_reader) (auto simp: pure_leaves split: tool_result.splits)
  have given: "bind_op (return_op a) f = f a" for a and f :: "'x \<Rightarrow> 'y site_op" by (simp add: bind_op_def op_simps fun_eq_iff)
  show "does env p (mcp_read_message env p args)"
    unfolding mcp_read_message_def
  proof (rule first(1))
    fix ident
    show "does env p (bind_op (if is_dlv ident then bind_op (actor p) (\<lambda>a. return_op (Some a)) else return_op None) (\<lambda>caller.
        bind_op (rpc env p ''read_message'' ((js ''id'', JStr ident) # with_some ''caller'' caller)) (\<lambda>r.
        case r of TextResult t \<Rightarrow> return_op (PlainText t) | _ \<Rightarrow> throw_op (js ''read_message returned an invalid result''))))"
    proof (cases "is_dlv ident")
      case True
      then show ?thesis by (simp only: if_True bind_op_assoc) (rule does_actor, simp only: given, rule read, blast)
    next
      case False
      then show ?thesis by (simp only: if_False given) (rule read, blast)
    qed
  qed
  show "does env p (mcp_list_agents env p args)" "does env p (mcp_list_rooms env p args)"
    unfolding mcp_list_agents_def mcp_list_rooms_def by (intro does_pure pure_bind pure_leaves)+
  show "does env p (mcp_whoami env p)"
    unfolding mcp_whoami_def
    by (auto split: option.splits intro!: does_pure pure_bind pure_leaves pure_reached)
  show "does env p (mcp_claim_name env p args)"
    unfolding mcp_claim_name_def
    by (auto simp: truthy_def split: option.splits list.splits intro!: does_pure [OF pure_leaves(2)] first does_last does_claim pure_leaves)
qed

lemma caught_state: "fst (try_op m (\<lambda>e. return_op (g e)) s) = fst (m s)"
  by (simp add: try_op_def op_simps split: prod.splits sum.splits)

lemma call_acts: "does env p (callTool env p name args)"
proof -
  have tool: "does env p (runTool env p name args)"
    unfolding runTool_def by (intro does_if tools_act does_pure [OF pure_leaves(2)])
  have "does env p (bind_op (runTool env p name args) (\<lambda>t. return_op (Answered t)))"
    by (rule does_last [OF tool]) (rule pure_leaves)
  then show ?thesis
    by (simp add: callTool_def keeps_def caught_state)
qed


section \<open>Requests\<close>

lemma entry_acts: "does env p (handle_entry env p entry)"
proof -
  have request: "does env p (handleRequest env p r)" for r
    unfolding handleRequest_def
    by (auto intro!: does_pure [OF pure_leaves(1)] does_last call_acts pure_leaves simp del: js_simps split: option.splits json.splits)
  have caught: "does env p (try_op (handleRequest env p r) (\<lambda>e. return_op (g e)))" for r g
    using request [of r] by (simp add: keeps_def caught_state)
  show ?thesis
    by (cases "isRequest entry") (simp_all add: handle_entry_def does_pure [OF pure_leaves(1)] caught del: js_simps)
qed

lemma trace_from:
  "mcp_trace envs p k s s1 \<Longrightarrow> fst (handle_entries envs k p entries s1) = s' \<Longrightarrow>
   \<exists>n. n \<le> k + length entries \<and> mcp_trace envs p n s s'"
proof (induction entries arbitrary: k s1 s')
  case Nil
  then show ?case by (auto simp: op_simps)
next
  case (Cons entry rest)
  obtain s2 r where e: "handle_entry (envs k) p entry s1 = (s2, r)" by fastforce
  then have "mcp_step (envs k) p s1 s2" using entry_acts [of "envs k" p entry] by (metis fst_conv keeps_def)
  then have s2: "mcp_trace envs p (Suc k) s s2" by (rule mcp_trace.step [OF Cons.prems(1)])
  show ?case
  proof (cases r)
    case (Inl err)
    then have "s' = s2" using Cons.prems(2) e by (simp add: bind_op_def)
    then show ?thesis using s2 by (intro exI [of _ "Suc k"]) simp
  next
    case (Inr response)
    have "fst (bind_op (handle_entries envs (k + 1) p rest) (\<lambda>rs. return_op (g rs)) s2) =
        fst (handle_entries envs (k + 1) p rest s2)" for g :: "rpc_response list \<Rightarrow> rpc_response list"
      by (simp add: bind_op_def op_simps split: prod.splits sum.splits)
    then have "fst (handle_entries envs (Suc k) p rest s2) = s'"
      using Cons.prems(2) e Inr by (simp add: bind_op_def [of "handle_entry _ _ _"])
    then show ?thesis using Cons.IH [of "Suc k" s2 s'] s2 by auto
  qed
qed

text \<open>The ids that are answered: a notification has none, and what is no request is answered to nobody.\<close>

definition response_id :: "rpc_response \<Rightarrow> json" where
  "response_id r = (case r of RpcResult i _ \<Rightarrow> i | RpcError i _ _ \<Rightarrow> i)"

definition answered_id :: "json \<Rightarrow> json option" where
  "answered_id entry = (case isRequest entry of None \<Rightarrow> Some JNull | Some r \<Rightarrow> rr_id r)"

lemma handled: "\<exists>s' response. handle_entry env p entry s = (s', Inr response) \<and> map_option response_id response = answered_id entry"
proof (cases "isRequest entry")
  case None
  then show ?thesis by (simp add: handle_entry_def op_simps answered_id_def response_id_def)
next
  case (Some r)
  have call: "\<exists>answer. snd (callTool env p name args s) = Inr answer" for name args
    by (cases "runTool env p name args s" rule: prod.exhaust) (auto simp: callTool_def try_op_def bind_op_def op_simps split: sum.splits)
  have "\<exists>response. snd (handleRequest env p r s) = Inr response \<and> map_option response_id response = rr_id r"
  proof (cases "rr_id r")
    case None
    then show ?thesis by (simp add: handleRequest_def op_simps)
  next
    case (Some i)
    show ?thesis
    proof (cases "\<exists>name. property_of (rr_params r) ''name'' = Some (JStr name)")
      case True
      then obtain name where name: "property_of (rr_params r) ''name'' = Some (JStr name)" by blast
      obtain s1 answer where "callTool env p name (argumentsOf (rr_params r)) s = (s1, Inr answer)"
        using call by (metis prod.collapse)
      then show ?thesis
        using Some name by (simp add: handleRequest_def op_simps bind_op_def response_id_def del: js_simps)
    next
      case False
      then show ?thesis
        using Some by (auto simp: handleRequest_def op_simps response_id_def simp del: js_simps split: option.splits json.splits)
    qed
  qed
  then show ?thesis using Some by (auto simp: handle_entry_def try_op_def answered_id_def split: prod.splits sum.splits)
qed

lemma entries_answered:
  "\<exists>s' responses. handle_entries envs k p entries s = (s', Inr responses) \<and>
     map response_id responses = List.map_filter answered_id entries"
proof (induction entries arbitrary: k s)
  case Nil
  then show ?case by (simp add: op_simps List.map_filter_simps)
next
  case (Cons entry rest)
  obtain s1 response where e: "handle_entry (envs k) p entry s = (s1, Inr response)" "map_option response_id response = answered_id entry"
    using handled by blast
  obtain s2 responses where r: "handle_entries envs (k + 1) p rest s1 = (s2, Inr responses)"
      "map response_id responses = List.map_filter answered_id rest"
    using Cons.IH by blast
  show ?case
    by (cases response) (use e r in \<open>simp_all add: e(2) [symmetric] bind_op_def op_simps List.map_filter_simps\<close>)
qed


lemma acting_request:
  assumes "fst (handleMcp envs mcpSession method headers body s) \<noteq> s"
  shows "\<exists>p n. resolvePrincipal (mc_tokens (envs 0)) (si_db s) headers mcpSession (sv_now (mc_site (envs 0))) = Inr p \<and>
    method = js ''POST'' \<and> n \<le> 32 \<and> mcp_trace envs p n s (fst (handleMcp envs mcpSession method headers body s))"
proof (cases "method = js ''POST''")
  case False
  then show ?thesis using assms by (simp add: handleMcp_def op_simps del: js_simps)
next
  case True
  let ?r = "resolvePrincipal (mc_tokens (envs 0)) (si_db s) headers mcpSession (sv_now (mc_site (envs 0)))"
  obtain p where p: "?r = Inr p"
    using assms True
    by (cases ?r) (auto simp: handleMcp_def op_simps bind_op_def split: principal_failure.splits)
  obtain payload where b: "body = Some payload"
    using assms True p by (cases body) (simp_all add: handleMcp_def op_simps bind_op_def del: js_simps)
  define entries where "entries = (case payload of JArr es \<Rightarrow> es | v \<Rightarrow> [v])"
  have small: "length entries \<le> 32" and run: "fst (handleMcp envs mcpSession method headers body s) = fst (handle_entries envs 0 p entries s)"
    using assms True p b
    by (auto simp: handleMcp_def op_simps bind_op_def entries_def MAX_BATCH_SIZE_def Let_def simp del: js_simps
        split: if_splits prod.splits sum.splits)
  obtain n where n: "n \<le> 0 + length entries" "mcp_trace envs p n s (fst (handle_entries envs 0 p entries s))"
    using trace_from [OF mcp_trace.start HOL.refl] by blast
  then show ?thesis using p True small run by (intro exI [of _ p] exI [of _ n]) simp
qed

section \<open>Properties\<close>

text \<open>
  C7: what a request to the MCP endpoint can bring about. Without a caller that a credential proves nothing happens. With one,
  at most 32 steps, one for each entry of the request at most, are taken in order, and each is the caller's own: a message from the
  caller's address under a fresh id, a tool called through the hub of the caller's host with no other caller named in it, or
  the claim of a name by a signed-in person.
\<close>
theorem mcp_request_acts_as_its_caller:
  assumes "fst (handleMcp envs mcpSession method headers body s) \<noteq> s"
  shows "\<exists>p n. resolvePrincipal (mc_tokens (envs 0)) (si_db s) headers mcpSession (sv_now (mc_site (envs 0))) = Inr p \<and>
    method = js ''POST'' \<and> n \<le> 32 \<and> mcp_trace envs p n s (fst (handleMcp envs mcpSession method headers body s))"
  using assms by (rule acting_request)

text \<open>
  C28: every request of a body that is served is answered once, in order: the responses carry the ids of the requests that have
  one, a notification is answered by nothing, and what is no request by an error to nobody. A body of notifications alone
  is accepted with no responses.
\<close>
theorem mcp_requests_are_answered:
  assumes "resolvePrincipal (mc_tokens (envs 0)) (si_db s) headers mcpSession (sv_now (mc_site (envs 0))) = Inr p"
    and "entries \<noteq> []" "length entries \<le> 32"
  shows "\<exists>responses. map response_id responses = List.map_filter answered_id entries \<and>
    snd (handleMcp envs mcpSession (js ''POST'') headers (Some (JArr entries)) s) =
      Inr (if responses = [] then Accepted else Responses responses)"
proof -
  obtain s' responses where r: "handle_entries envs 0 p entries s = (s', Inr responses)"
      "map response_id responses = List.map_filter answered_id entries"
    using entries_answered by blast
  have "snd (handleMcp envs mcpSession (js ''POST'') headers (Some (JArr entries)) s) =
      Inr (if responses = [] then Accepted else Responses responses)"
    using assms r(1)
    by (cases responses) (simp_all add: handleMcp_def op_simps bind_op_def MAX_BATCH_SIZE_def Let_def del: js_simps)
  with r(2) show ?thesis by blast
qed

lemma step_keeps_books:
  assumes "mcp_step env p s s'" "\<And>n. hub_inv (hub_at (si_hubs s) n)"
  shows "hub_inv (hub_at (si_hubs s') n)"
proof -
  have served: "hub_inv (hub_at (si_hubs (serve_site senv request s)) n)" if "request_ok senv request s" for senv request
    using books.site_serves [OF books_admit, of "[(senv, request)]" s] assms(2) that
    by (simp add: site_step_def hubs_step_def keeps_books_def)
  show ?thesis using assms(1) by cases (use assms(2) served in \<open>auto simp del: serve_site.simps\<close>)
qed

lemma trace_keeps_books:
  "mcp_trace envs p k s s' \<Longrightarrow> (\<And>n. hub_inv (hub_at (si_hubs s) n)) \<Longrightarrow> hub_inv (hub_at (si_hubs s') n)"
proof (induction arbitrary: n rule: mcp_trace.induct)
  case (step k s s1 s2)
  show ?case by (rule step_keeps_books [OF step.hyps(2)]) (rule step.IH, rule step.prems)
qed

text \<open>
  C30: no request to the MCP endpoint, by whomever and whatever it holds, puts the books of any hub out of order.
\<close>
theorem mcp_keeps_books:
  assumes "\<And>n. hub_inv (hub_at (si_hubs s) n)"
  shows "hub_inv (hub_at (si_hubs (fst (handleMcp envs mcpSession method headers body s))) n)"
proof (cases "fst (handleMcp envs mcpSession method headers body s) = s")
  case True
  then show ?thesis by (simp only: assms)
next
  case False
  obtain p k where "mcp_trace envs p k s (fst (handleMcp envs mcpSession method headers body s))"
    using acting_request [OF False] by blast
  then show ?thesis using assms by (rule trace_keeps_books)
qed


section \<open>A demonstration\<close>

definition demo_mcp :: mcp_env where
  "demo_mcp = \<lparr>mc_site = demo_site_env\<lparr>sv_now := 9\<rparr>, mc_tokens = demo_token_env, mc_txId = js ''tx_7'', mc_freshId = js ''hst_7''\<rparr>"

definition demo_mcp_site :: site where
  "demo_mcp_site = demo_site\<lparr>si_db := empty_d1\<lparr>members := [demo_member]\<rparr>\<rparr>"

definition demo_mcp_headers :: headers where
  "demo_mcp_headers = (\<lambda>key. if key = js ''authorization'' then Some (js ''Bearer '' @ js ''abc'') else None)"

definition demo_mcp_session :: mcp_session where "demo_mcp_session = (\<lambda>_. Some (js ''usr'', None))"

definition demo_claim :: json where
  "demo_claim = JObj [(js ''id'', JNum 4), (js ''method'', JStr (js ''tools/call'')),
     (js ''params'', JObj [(js ''name'', JStr (js ''claim_name'')), (js ''arguments'', JObj [(js ''name'', JStr (js ''ann''))])])]"

definition demo_ping :: json where "demo_ping = JObj [(js ''method'', JStr (js ''ping'')), (js ''id'', JNum 3)]"
definition demo_notice :: json where "demo_notice = JObj [(js ''method'', JStr (js ''notifications/initialized''))]"

lemma demo_resolved:
  "resolvePrincipal (mc_tokens demo_mcp) (si_db demo_mcp_site) demo_mcp_headers (Some demo_mcp_session) (sv_now (mc_site demo_mcp))
     = Inr demo_person"
  using demo_session [of "si_db demo_mcp_site"]
  by (simp add: demo_mcp_def demo_mcp_headers_def demo_mcp_session_def demo_mcp_site_def empty_d1_def del: js_simps)

lemma mcp_requests_are_answered_witness:
  "\<exists>responses. map response_id responses = [JNum 3, JNull] \<and>
     snd (handleMcp (\<lambda>_. demo_mcp) (Some demo_mcp_session) (js ''POST'') demo_mcp_headers
       (Some (JArr [demo_notice, demo_ping, JNull])) demo_mcp_site) = Inr (Responses responses)"
proof -
  have "List.map_filter answered_id [demo_notice, demo_ping, JNull] = [JNum 3, JNull]"
    by (simp add: List.map_filter_simps answered_id_def isRequest_def demo_notice_def demo_ping_def js_inj del: js_simps)
  then show ?thesis
    using mcp_requests_are_answered [of "\<lambda>_. demo_mcp", OF demo_resolved, of "[demo_notice, demo_ping, JNull]"]
    by fastforce
qed

lemma demo_claimed:
  "fst (handleMcp (\<lambda>_. demo_mcp) (Some demo_mcp_session) (js ''POST'') demo_mcp_headers (Some demo_claim) demo_mcp_site)
     \<noteq> demo_mcp_site"
proof -
  let ?db = "si_db demo_mcp_site"
  have valid: "validateName (js ''ann'') = Inr ()" by code_simp
  have db: "person_addresses ?db = []" "agent_clients ?db = []" by (simp_all add: demo_mcp_site_def empty_d1_def)
  have "person_addresses (fst (claimPersonAddress ?db (js ''org'') (js ''usr'') (js ''ann'') fresh now)) \<noteq> []" for fresh now
  proof -
    obtain db1 ident where e: "ensurePersonHost ?db (js ''org'') fresh now = (db1, ident)" by fastforce
    then have "person_addresses db1 = [] \<and> agent_clients db1 = []"
      using db by (auto simp: ensurePersonHost_def split: option.splits if_splits)
    then show ?thesis
      using e by (simp add: claimPersonAddress_def valid taken_by_person_def taken_by_agent_def upsert_def del: js_simps)
  qed
  then have changed: "fst (claimPersonAddress ?db (js ''org'') (js ''usr'') (js ''ann'') fresh now) \<noteq> ?db" for fresh now
    using db(1) by metis
  have request: "isRequest demo_claim = Some \<lparr>rr_id = Some (JNum 4), rr_method = js ''tools/call'',
      rr_params = Some (JObj [(js ''name'', JStr (js ''claim_name'')), (js ''arguments'', JObj [(js ''name'', JStr (js ''ann''))])])\<rparr>"
    by (simp add: isRequest_def demo_claim_def js_inj del: js_simps)
  have tool: "fst (callTool demo_mcp demo_person (js ''claim_name'') [(js ''name'', JStr (js ''ann''))] demo_mcp_site) =
      demo_mcp_site\<lparr>si_db := fst (claimPersonAddress ?db (js ''org'') (js ''usr'') (js ''ann'') (js ''hst_7'') 9)\<rparr>"
  proof -
    have "js ''ann'' \<noteq> []" "js ''usr'' \<noteq> []" by (simp_all add: js_def)
    then show ?thesis
      by (simp add: callTool_def caught_state runTool_def mcp_claim_name_def demo_person_def required_def text_param_def
          truthy_def claim_at_def demo_mcp_def bind_op_def op_simps lift_service_def split_def Let_def js_inj del: js_simps
          split: list.splits sum.splits)
  qed
  have entry: "fst (handle_entry demo_mcp demo_person demo_claim demo_mcp_site) =
      fst (callTool demo_mcp demo_person (js ''claim_name'') [(js ''name'', JStr (js ''ann''))] demo_mcp_site)"
    by (simp add: handle_entry_def request caught_state handleRequest_def property_of_def argumentsOf_def js_inj
        bind_op_def op_simps del: js_simps split: prod.splits sum.splits)
  have run: "fst (handleMcp (\<lambda>_. demo_mcp) (Some demo_mcp_session) (js ''POST'') demo_mcp_headers (Some demo_claim) demo_mcp_site) =
      fst (handle_entry demo_mcp demo_person demo_claim demo_mcp_site)"
    using demo_resolved
    by (simp add: handleMcp_def bind_op_def op_simps MAX_BATCH_SIZE_def Let_def demo_claim_def del: js_simps split: prod.splits sum.splits)
  show ?thesis
  proof
    assume "fst (handleMcp (\<lambda>_. demo_mcp) (Some demo_mcp_session) (js ''POST'') demo_mcp_headers (Some demo_claim) demo_mcp_site)
      = demo_mcp_site"
    then have "si_db (demo_mcp_site\<lparr>si_db := fst (claimPersonAddress ?db (js ''org'') (js ''usr'') (js ''ann'') (js ''hst_7'') 9)\<rparr>)
      = ?db" unfolding run entry tool by (rule arg_cong)
    moreover have "si_db (v\<lparr>si_db := x\<rparr>) = x" for v :: site and x by simp
    ultimately show False using changed [of "js ''hst_7''" 9] by metis
  qed
qed

lemma mcp_request_acts_as_its_caller_witness:
  "\<exists>p n. n \<le> 32 \<and> pn_userId p = Some (js ''usr'') \<and> mcp_trace (\<lambda>_. demo_mcp) p n demo_mcp_site
     (fst (handleMcp (\<lambda>_. demo_mcp) (Some demo_mcp_session) (js ''POST'') demo_mcp_headers (Some demo_claim) demo_mcp_site))"
proof -
  have "pn_userId demo_person = Some (js ''usr'')" by (simp add: demo_person_def)
  then show ?thesis
    using mcp_request_acts_as_its_caller [OF demo_claimed] unfolding demo_resolved by blast
qed

lemma mcp_keeps_books_witness:
  "hub_inv (hub_at (si_hubs (fst (handleMcp (\<lambda>_. demo_mcp) (Some demo_mcp_session) (js ''POST'') demo_mcp_headers
     (Some demo_claim) demo_site))) demo_self)"
  by (rule mcp_keeps_books) (rule demo_site_inv)

end
