(* ===== verification/Spec2Isabelle.thy ===== *)
theory Spec2Isabelle
  imports Addr Envelope Wire Rate_Limits Database Tenancy Host_Queue Hub_Invariant Host_Roster
    Hub_Properties Hub_Schedule Hub_Interleaving Js_Date Room_Ledger Room_Properties
    Ids Directory Directory_Properties Enrollment Credentials Enrollment_Properties
    Effects Attachment Channel_State Channel Channel_Alarm Channel_Frame Channel_Ledger Channel_Progress
    Channel_Invariant Channel_Overlap Channel_Schedule Channel_Properties Channel_Quiet Channel_Delivery
    Site Site_Tools Site_Steps Site_Requests Site_Properties Site_Sends Site_Access
    Encoding Utf8 Tokens Principal Principal_Properties Mcp Mcp_Properties
begin

text \<open>
  A verification library for Transit, the server that relays messages between coding agents on
  registered hosts. The server is a Cloudflare worker (\<^verbatim>\<open>src/src/index.ts\<close>) over a D1 database and
  three kinds of Durable Object: one \<^verbatim>\<open>HostHub\<close> per host (\<^verbatim>\<open>do/host-hub.ts\<close>), one \<^verbatim>\<open>Room\<close> per room
  (\<^verbatim>\<open>do/room.ts\<close>) and one \<^verbatim>\<open>Integration\<close> per channel connector (\<^verbatim>\<open>do/integration.ts\<close>). A daemon on
  the host holds a WebSocket to its hub, publishes the roster of its agents, sends messages and
  acknowledges or refuses deliveries. A hub keeps a durable queue of deliveries and redelivers until
  one is settled or dead.

  The theories, in the order of their dependence.
  \<^item> \<open>Prelude\<close>: results that may throw, the ordered store (locale \<open>ordered_store\<close>) that stands for a
    Durable Object's storage, the locale \<open>codec\<close>.
  \<^item> \<open>Js_Text\<close>, \<open>Js_Date\<close>: JavaScript strings as lists of 16-bit units, with the operations of the
    standard library that the source uses, and \<open>toISOString\<close>.
  \<^item> \<open>Addr\<close> (\<^verbatim>\<open>lib/transit/addr.ts\<close>), \<open>Envelope\<close> (\<^verbatim>\<open>lib/transit/envelope.ts\<close>), \<open>Wire\<close>
    (\<^verbatim>\<open>lib/transit/wire.ts\<close>): addresses, the text an agent is shown, the frames of the socket.
  \<^item> \<open>Rate_Limits\<close> (\<^verbatim>\<open>token-bucket.ts\<close>, \<^verbatim>\<open>alarm-budget.ts\<close>): both limiters and their contract, the
    locale \<open>limiter\<close>.
  \<^item> \<open>Database\<close> (\<^verbatim>\<open>db/app-schema.ts\<close>): a record per table, the uniqueness constraints and the ways
    of writing a row. \<open>Tenancy\<close> (\<^verbatim>\<open>organizations.ts\<close> and the connection routes): which tenants may
    reach each other.
  \<^item> \<open>Host_Queue\<close>, \<open>Host_Roster\<close>: the state and the operations of a hub. \<open>Hub_Invariant\<close> has the
    invariant \<open>hub_inv\<close> that ties queue entries to markers, \<open>Hub_Properties\<close> what dispatch,
    acknowledgement and settlement do, \<open>Hub_Schedule\<close> retries, alarms and the contract of queueing
    (locale \<open>delivery_port\<close>), \<open>Hub_Interleaving\<close> dispatches that run at the same time.
  \<^item> \<open>Room_Ledger\<close> (\<^verbatim>\<open>do/room.ts\<close>, \<^verbatim>\<open>lib/transit/rooms.ts\<close>), \<open>Room_Properties\<close>: a room's members and
    ledger, and the fan-out of a post to the hubs of its members.
  \<^item> \<open>Ids\<close> (\<^verbatim>\<open>lib/transit/ids.ts\<close>), \<open>Directory\<close> (\<^verbatim>\<open>services/directory.ts\<close>, \<^verbatim>\<open>services/person.ts\<close>)
    and \<open>Directory_Properties\<close>: identifiers, the addresses people claim, and the listings.
  \<^item> \<open>Enrollment\<close>: the routes of \<^verbatim>\<open>index.ts\<close> that hand out and take back credentials (enrollment
    codes, the device flow, hosts, agent clients). \<open>Credentials\<close> runs them with a log of what they
    granted (\<open>enroll_reach\<close>) and proves the invariant \<open>enroll_inv\<close>; \<open>Enrollment_Properties\<close> has what
    follows for tokens.
  \<^item> \<open>Effects\<close>: operations that read and write a state and may throw (\<open>op\<close>), and the locale
    \<open>step_relation\<close> of relations such operations keep. \<open>Attachment\<close> (\<^verbatim>\<open>lib/transit/attachment.ts\<close>):
    the capabilities by which attachments are fetched.
  \<^item> \<open>Channel_State\<close>, \<open>Channel\<close>, \<open>Channel_Alarm\<close> (\<^verbatim>\<open>do/integration.ts\<close>): the records of a channel, its
    events and deliveries, and its configuration, alarm and polling. Their world (\<open>channel_world\<close>)
    holds the object, the rooms and the hubs it calls. \<open>Channel_Frame\<close>, \<open>Channel_Ledger\<close>,
    \<open>Channel_Progress\<close>, \<open>Channel_Invariant\<close>: what each operation leaves alone (\<open>untouched\<close>), the abstract
    ledger of promises with the invariant \<open>channel_wf\<close>, and that every operation keeps both
    (\<open>advances\<close>), up to the worlds reached by requests (\<open>channel_reach\<close>). \<open>Channel_Properties\<close> has what
    follows, \<open>Channel_Overlap\<close> what calls that overlap break, \<open>Channel_Schedule\<close> alarms, polling and
    ownership, \<open>Channel_Quiet\<close> and \<open>Channel_Delivery\<close> the way from an event to the hub of its agent
    and that a settled delivery is over there.
  \<^item> \<open>Site\<close>, \<open>Site_Tools\<close> (\<^verbatim>\<open>do/host-hub.ts\<close>): all hubs, rooms and channels with the database (record
    \<open>site\<close>), a hub's admission of what agents send (\<open>admitSend\<close>), the tools (\<open>invokeRpc\<close>) and the
    frames of the socket (\<open>webSocketMessage\<close>). \<open>Site_Steps\<close> carries a relation that the operations of
    one hub keep over to everything a site does (locale \<open>hub_relation\<close>), \<open>Site_Requests\<close> to sequences of
    requests (locale \<open>site_hub_relation\<close>); \<open>Site_Properties\<close> uses both for the invariant of the queues
    and the answers to sends. \<open>Site_Sends\<close> has when a send is admitted and where its mail is then,
    \<open>Site_Access\<close> what a daemon may do over its socket.
  \<^item> \<open>Encoding\<close>, \<open>Utf8\<close>: base64, hexadecimal and UTF-8 of the standard library, with their round trips
    (locale \<open>encoding\<close>). \<open>Tokens\<close> (\<^verbatim>\<open>lib/transit/crypto.ts\<close>, \<^verbatim>\<open>lib/transit/jwt.ts\<close>,
    \<^verbatim>\<open>mcp/agent-token.ts\<close>): sealed secrets and agents' tokens. \<open>Principal\<close> (\<^verbatim>\<open>mcp/principal.ts\<close>,
    \<^verbatim>\<open>mcp/oauth.ts\<close>): who calls the MCP endpoint and how a client comes by its token;
    \<open>Principal_Properties\<close> what that takes and when it ends. \<open>Mcp\<close> (\<^verbatim>\<open>mcp/dispatch.ts\<close>,
    \<^verbatim>\<open>mcp/http.ts\<close>): the tools for a principal and the JSON-RPC requests; \<open>Mcp_Properties\<close> relates a
    request to steps a caller may take (\<open>mcp_step\<close>, \<open>mcp_trace\<close>).

  How the model stands to the code. Every operation is a function of the state, the clock and what
  it reads outside (\<open>hub_env\<close>, \<open>room_env\<close>), and returns the new state with the effects it has
  outside (\<open>hub_effect\<close>, \<open>room_effect\<close>: frames, D1 writes made in the background, broadcasts). One
  operation runs to its end on one reading of the clock; the interleavings of dispatches at their
  awaits are the step relation \<open>race\<close>, and the channel's operations are put together from the parts
  before and after a call they wait for. Deleting a channel empties the object; the worlds of
  \<open>channel_reach\<close> are those of one life of it. Sequence numbers, counts and times are unbounded; token
  counts are exact rationals. Recursion is structural or has a termination proof; no fuel is used.
  The order of \<open>localeCompare\<close> and failures of a socket or of a call to another object are
  parameters.

  Not modelled: the dashboard's authentication (better-auth and its tables), e-mail, connector
  packages (what a connector does through its context is a parameter of the channel), the Go daemon and its plugins, migrations, installation scripts and documentation.
\<close>

end
